(* ===== verification/Prelude.thy ===== *)
theory Prelude
  imports Main "HOL-Library.Sublist" "HOL-Library.State_Monad"
begin

text \<open>
  Shared vocabulary of the development: the fact collections the components add to, the
  ``seen map'' loop that several Go functions repeat, tables of rows with a primary key
  (the shape of every query of \<open>internal/store\<close>), keyset pages over an ordered feed, and
  invariants of programs in the state monad.
\<close>

named_theorems go_simps \<open>unfolding rules of the modelled Go code\<close>
named_theorems table_simps \<open>equations for row updates of a table\<close>
named_theorems keeps_rules \<open>introduction rules for invariants of state-monad programs\<close>

section \<open>Deduplication with a seen map\<close>

text \<open>
  The loop \<open>for x in xs: if seen[key(x)] continue; seen[key(x)] = true; append x\<close>.
  The list \<open>seen\<close> holds the keys already in the map.
\<close>

fun dedup_by :: "('a \<Rightarrow> 'k) \<Rightarrow> 'k list \<Rightarrow> 'a list \<Rightarrow> 'a list" where
  "dedup_by key seen [] = []"
| "dedup_by key seen (x # xs) =
     (if key x \<in> set seen then dedup_by key seen xs
      else x # dedup_by key (key x # seen) xs)"

lemma dedup_by_subseq: "subseq (dedup_by key seen xs) xs"
  by (induction xs arbitrary: seen) auto

lemma dedup_by_set: "set (dedup_by key seen xs) \<subseteq> set xs"
  by (induction xs arbitrary: seen) auto

lemma dedup_by_keys: "set (map key (dedup_by key seen xs)) = key ` set xs - set seen"
  by (induction xs arbitrary: seen) auto

lemma dedup_by_distinct: "distinct (map key (dedup_by key seen xs))"
proof (induction xs arbitrary: seen)
  case (Cons x xs)
  then show ?case
    using dedup_by_keys [of key "key x # seen" xs] by auto
qed simp

lemma dedup_by_id:
  "distinct (map key xs) \<Longrightarrow> key ` set xs \<inter> set seen = {} \<Longrightarrow> dedup_by key seen xs = xs"
  by (induction xs arbitrary: seen) auto

lemma dedup_by_idem: "dedup_by key [] (dedup_by key [] xs) = dedup_by key [] xs"
  by (rule dedup_by_id) (auto simp: dedup_by_distinct)

lemma dedup_by_seen_cong: "set s = set s' \<Longrightarrow> dedup_by key s xs = dedup_by key s' xs"
proof (induction xs arbitrary: s s')
  case (Cons x xs)
  have "set (key x # s) = set (key x # s')" using Cons.prems by simp
  from Cons.IH [OF this] Cons.IH [OF Cons.prems] Cons.prems show ?case by simp
qed simp

lemma dedup_by_append:
  "dedup_by key seen (xs @ ys) =
     dedup_by key seen xs @ dedup_by key (map key (dedup_by key seen xs) @ seen) ys"
proof (induction xs arbitrary: seen)
  case (Cons x xs)
  have "dedup_by key (map key (dedup_by key (key x # seen) xs) @ key x # seen) ys
      = dedup_by key (key x # map key (dedup_by key (key x # seen) xs) @ seen) ys"
    by (rule dedup_by_seen_cong) auto
  with Cons.IH show ?case by simp
qed simp

text \<open>The first row with a given key is the one that survives.\<close>

lemma dedup_by_first:
  "k \<notin> set seen \<Longrightarrow>
     find (\<lambda>x. key x = k) (dedup_by key seen xs) = find (\<lambda>x. key x = k) xs"
  by (induction xs arbitrary: seen) auto

section \<open>Tables of rows\<close>

text \<open>
  A table is the list of its rows. An \<open>UPDATE ... WHERE\<close> maps the matching rows, a
  \<open>DELETE ... WHERE\<close> filters them out, and \<open>INSERT ... ON CONFLICT (key) DO UPDATE\<close>
  merges into the row that has the key or appends a new one.
\<close>

definition update_rows :: "('r \<Rightarrow> bool) \<Rightarrow> ('r \<Rightarrow> 'r) \<Rightarrow> 'r list \<Rightarrow> 'r list" where
  "update_rows P f t = map (\<lambda>r. if P r then f r else r) t"

definition delete_rows :: "('r \<Rightarrow> bool) \<Rightarrow> 'r list \<Rightarrow> 'r list" where
  "delete_rows P t = filter (\<lambda>r. \<not> P r) t"

definition has_row :: "('r \<Rightarrow> bool) \<Rightarrow> 'r list \<Rightarrow> bool" where
  "has_row P t = list_ex P t"

definition upsert_row :: "('r \<Rightarrow> 'k) \<Rightarrow> 'r \<Rightarrow> ('r \<Rightarrow> 'r) \<Rightarrow> 'r list \<Rightarrow> 'r list" where
  "upsert_row key new merge t =
     (if has_row (\<lambda>r. key r = key new) t
      then update_rows (\<lambda>r. key r = key new) merge t else t @ [new])"

definition keyed :: "('r \<Rightarrow> 'k) \<Rightarrow> 'r list \<Rightarrow> bool" where
  "keyed key t = distinct (map key t)"

lemma update_rows_Nil [simp]: "update_rows P f [] = []"
  by (simp add: update_rows_def)

lemma update_rows_Cons [simp]:
  "update_rows P f (r # t) = (if P r then f r else r) # update_rows P f t"
  by (simp add: update_rows_def)

lemma delete_rows_Nil [simp]: "delete_rows P [] = []"
  by (simp add: delete_rows_def)

lemma delete_rows_Cons [simp]:
  "delete_rows P (r # t) = (if P r then delete_rows P t else r # delete_rows P t)"
  by (simp add: delete_rows_def)

lemma has_row_iff: "has_row P t \<longleftrightarrow> (\<exists>r \<in> set t. P r)"
  by (simp add: has_row_def list_ex_iff)

lemma has_row_Nil [simp]: "\<not> has_row P []"
  by (simp add: has_row_def)

lemma has_row_Cons [simp]: "has_row P (r # t) \<longleftrightarrow> P r \<or> has_row P t"
  by (simp add: has_row_def)

lemma set_update_rows [table_simps]:
  "set (update_rows P f t) = (\<lambda>r. if P r then f r else r) ` set t"
  by (simp add: update_rows_def)

lemma set_delete_rows [table_simps]: "set (delete_rows P t) = {r \<in> set t. \<not> P r}"
  by (auto simp: delete_rows_def)

lemma ball_update_rows:
  "(\<forall>r \<in> set (update_rows P f t). Q r) \<longleftrightarrow> (\<forall>r \<in> set t. if P r then Q (f r) else Q r)"
  by (auto simp: update_rows_def)

lemma bex_update_rows:
  "(\<exists>r \<in> set (update_rows P f t). Q r) \<longleftrightarrow> (\<exists>r \<in> set t. if P r then Q (f r) else Q r)"
  by (auto simp: update_rows_def split: if_splits)

lemma keyed_update_rows:
  assumes "\<And>r. P r \<Longrightarrow> key (f r) = key r"
  shows "keyed key (update_rows P f t) = keyed key t"
proof -
  have "map key (update_rows P f t) = map key t"
    using assms by (simp add: update_rows_def)
  then show ?thesis by (simp only: keyed_def)
qed

lemma keyed_delete_rows: "keyed key t \<Longrightarrow> keyed key (delete_rows P t)"
  unfolding keyed_def delete_rows_def by (rule distinct_map_filter)

lemma keyed_upsert_row:
  assumes "keyed key t" and "\<And>r. key r = key new \<Longrightarrow> key (merge r) = key r"
  shows "keyed key (upsert_row key new merge t)"
proof (cases "has_row (\<lambda>r. key r = key new) t")
  case True
  with assms(1) show ?thesis
    using keyed_update_rows [of "\<lambda>r. key r = key new" key merge t] assms(2)
    by (simp add: upsert_row_def)
next
  case False
  with assms show ?thesis by (auto simp: upsert_row_def has_row_iff keyed_def)
qed

lemma set_upsert_row:
  "r \<in> set (upsert_row key new merge t) \<Longrightarrow>
     r = new \<or> (\<exists>r0 \<in> set t. r = (if key r0 = key new then merge r0 else r0))"
  by (auto simp: upsert_row_def table_simps has_row_iff split: if_splits)

lemma keyed_unique:
  "keyed key t \<Longrightarrow> r \<in> set t \<Longrightarrow> r' \<in> set t \<Longrightarrow> key r = key r' \<Longrightarrow> r = r'"
  by (auto simp: keyed_def distinct_map dest: inj_onD)

lemma find_in_set: "find P t = Some r \<Longrightarrow> r \<in> set t \<and> P r"
  by (auto simp: find_Some_iff)

lemma find_keyed:
  assumes "keyed key t" and "r \<in> set t"
  shows "find (\<lambda>x. key x = key r) t = Some r"
proof -
  obtain r' where r': "find (\<lambda>x. key x = key r) t = Some r'"
    using assms(2) by (cases "find (\<lambda>x. key x = key r) t") (auto simp: find_None_iff)
  then have "r' \<in> set t" "key r' = key r" by (auto dest: find_in_set)
  with assms have "r' = r" by (auto intro: keyed_unique)
  with r' show ?thesis by simp
qed

lemma find_update_rows_frame:
  assumes "\<And>r. P r \<Longrightarrow> \<not> Q r" and "\<And>r. P r \<Longrightarrow> \<not> Q (f r)"
  shows "find Q (update_rows P f t) = find Q t"
  using assms by (induction t) auto

text \<open>Looking a key up after the rows of one key were updated.\<close>

lemma find_update_key:
  assumes "\<And>r. key (f r) = key r"
  shows "find (\<lambda>r. key r = k) (update_rows (\<lambda>r. key r = k') f t) =
    (if k = k' then map_option f (find (\<lambda>r. key r = k) t) else find (\<lambda>r. key r = k) t)"
  using assms by (induction t) auto

lemma find_delete_rows:
  "keyed key t \<Longrightarrow> find (\<lambda>r. key r = k) (delete_rows P t) =
     (case find (\<lambda>r. key r = k) t of None \<Rightarrow> None | Some r \<Rightarrow> if P r then None else Some r)"
proof (induction t)
  case (Cons x t)
  then have IH: "find (\<lambda>r. key r = k) (delete_rows P t) =
      (case find (\<lambda>r. key r = k) t of None \<Rightarrow> None | Some r \<Rightarrow> if P r then None else Some r)"
    and x: "key x \<notin> key ` set t" by (auto simp: keyed_def)
  show ?case
  proof (cases "key x = k")
    case True
    with x have "find (\<lambda>r. key r = k) t = None" unfolding find_None_iff by (metis imageI)
    with True IH show ?thesis by simp
  qed (simp add: IH)
qed simp

lemma find_snoc: "find P (xs @ [x]) = (case find P xs of Some y \<Rightarrow> Some y | None \<Rightarrow> if P x then Some x else None)"
  by (induction xs) auto

lemma filter_update_rows_frame:
  assumes "\<And>r. P r \<Longrightarrow> \<not> Q r" and "\<And>r. P r \<Longrightarrow> \<not> Q (f r)"
  shows "filter Q (update_rows P f t) = filter Q t"
  using assms by (induction t) auto

section \<open>Invariants of state-monad programs\<close>

text \<open>
  Handlers are programs of the library's state monad over the world they act on. An
  invariant \<open>keeps I m\<close> is proved compositionally, one rule per construct.
\<close>

definition keeps :: "('s \<Rightarrow> bool) \<Rightarrow> ('s, 'a) state \<Rightarrow> bool" where
  "keeps I m = (\<forall>s. I s \<longrightarrow> I (snd (run_state m s)))"

lemma keepsI: "(\<And>s. I s \<Longrightarrow> I (snd (run_state m s))) \<Longrightarrow> keeps I m"
  by (simp add: keeps_def)

lemma keepsD: "keeps I m \<Longrightarrow> I s \<Longrightarrow> I (snd (run_state m s))"
  by (simp add: keeps_def)

lemma keeps_return [keeps_rules]: "keeps I (State_Monad.return x)"
  by (simp add: keeps_def)

lemma keeps_bind [keeps_rules]:
  "keeps I m \<Longrightarrow> (\<And>x. keeps I (f x)) \<Longrightarrow> keeps I (State_Monad.bind m f)"
  by (simp add: keeps_def split: prod.split) (metis snd_conv)

lemma keeps_if [keeps_rules]:
  "(b \<Longrightarrow> keeps I m) \<Longrightarrow> (\<not> b \<Longrightarrow> keeps I n) \<Longrightarrow> keeps I (if b then m else n)"
  by simp

lemma keeps_case_sum [keeps_rules]:
  "(\<And>e. x = Inl e \<Longrightarrow> keeps I (f e)) \<Longrightarrow> (\<And>a. x = Inr a \<Longrightarrow> keeps I (g a)) \<Longrightarrow>
     keeps I (case x of Inl e \<Rightarrow> f e | Inr a \<Rightarrow> g a)"
  by (cases x) auto

lemma keeps_case_option [keeps_rules]:
  "(x = None \<Longrightarrow> keeps I m) \<Longrightarrow> (\<And>a. x = Some a \<Longrightarrow> keeps I (f a)) \<Longrightarrow>
     keeps I (case x of None \<Rightarrow> m | Some a \<Rightarrow> f a)"
  by (cases x) auto

lemma keeps_case_prod [keeps_rules]:
  "(\<And>a b. x = (a, b) \<Longrightarrow> keeps I (f a b)) \<Longrightarrow> keeps I (case x of (a, b) \<Rightarrow> f a b)"
  by (cases x) auto

lemma keeps_let [keeps_rules]: "(\<And>y. keeps I (f y)) \<Longrightarrow> keeps I (let y = x in f y)"
  by simp

lemma keeps_get [keeps_rules]: "keeps I State_Monad.get"
  by (simp add: keeps_def)

text \<open>The general form, with a precondition and a postcondition on the answer.\<close>

definition triple :: "('s \<Rightarrow> bool) \<Rightarrow> ('s, 'a) state \<Rightarrow> ('a \<Rightarrow> 's \<Rightarrow> bool) \<Rightarrow> bool" where
  "triple P m Q = (\<forall>s. P s \<longrightarrow> Q (fst (run_state m s)) (snd (run_state m s)))"

lemma tripleI: "(\<And>s a s'. P s \<Longrightarrow> run_state m s = (a, s') \<Longrightarrow> Q a s') \<Longrightarrow> triple P m Q"
  by (simp add: triple_def)

lemma tripleD: "triple P m Q \<Longrightarrow> P s \<Longrightarrow> run_state m s = (a, s') \<Longrightarrow> Q a s'"
  by (auto simp: triple_def dest: spec [of _ s])

lemma keeps_triple: "keeps I m \<longleftrightarrow> triple I m (\<lambda>_. I)"
  by (simp add: keeps_def triple_def)

lemma triple_bind:
  assumes "triple P m Q" and "\<And>x. triple (Q x) (f x) R"
  shows "triple P (State_Monad.bind m f) R"
proof (rule tripleI)
  fix s b s'' assume "P s" "run_state (State_Monad.bind m f) s = (b, s'')"
  then obtain a s' where "run_state m s = (a, s')" "run_state (f a) s' = (b, s'')"
    by (auto split: prod.splits)
  with \<open>P s\<close> show "R b s''" using assms(1) assms(2) [of a] by (auto dest: tripleD)
qed

lemma triple_weaken:
  "triple P' m Q' \<Longrightarrow> (\<And>s. P s \<Longrightarrow> P' s) \<Longrightarrow> (\<And>a s. Q' a s \<Longrightarrow> Q a s) \<Longrightarrow> triple P m Q"
  by (auto simp: triple_def)

text \<open>Running a list of operations one after the other keeps what each of them keeps.\<close>

fun run_ops :: "('s, 'a) state list \<Rightarrow> 's \<Rightarrow> 's" where
  "run_ops [] s = s"
| "run_ops (m # ms) s = run_ops ms (snd (run_state m s))"

lemma keeps_run_ops:
  "(\<And>m. m \<in> set ms \<Longrightarrow> keeps I m) \<Longrightarrow> I s \<Longrightarrow> I (run_ops ms s)"
  by (induction ms arbitrary: s) (auto dest: keepsD)

end
