(* ===== verification/Float64.thy ===== *)
theory Float64
  imports Complex_Main Prelude
begin

text \<open>
  Go's \<open>float64\<close>: the finite values as exact reals (rounding and overflow are not
  modelled), and the three special values with IEEE 754 arithmetic and comparisons, which
  is what decides a division by a tunable weight of zero. Every comparison with NaN is
  false.
\<close>

datatype f64 = Fin real | PInf | NInf | NaN

definition f64_inf :: "real \<Rightarrow> f64" where
  "f64_inf s = (if 0 < s then PInf else if s < 0 then NInf else NaN)"

instantiation f64 :: "{plus, times, inverse, ord}"
begin

fun plus_f64 :: "f64 \<Rightarrow> f64 \<Rightarrow> f64" where
  "Fin a + Fin b = Fin (a + b)"
| "NaN + _ = NaN"
| "_ + NaN = NaN"
| "PInf + NInf = NaN"
| "NInf + PInf = NaN"
| "PInf + _ = PInf"
| "_ + PInf = PInf"
| "NInf + _ = NInf"
| "_ + NInf = NInf"

fun times_f64 :: "f64 \<Rightarrow> f64 \<Rightarrow> f64" where
  "Fin a * Fin b = Fin (a * b)"
| "NaN * _ = NaN"
| "_ * NaN = NaN"
| "PInf * Fin b = f64_inf b"
| "NInf * Fin b = f64_inf (- b)"
| "Fin a * PInf = f64_inf a"
| "Fin a * NInf = f64_inf (- a)"
| "PInf * PInf = PInf"
| "PInf * NInf = NInf"
| "NInf * PInf = NInf"
| "NInf * NInf = PInf"

text \<open>Division by zero: the sign of a zero divisor is taken as positive (zeros are not signed).\<close>

fun divide_f64 :: "f64 \<Rightarrow> f64 \<Rightarrow> f64" where
  "divide_f64 (Fin a) (Fin b) = (if b = 0 then f64_inf a else Fin (a / b))"
| "divide_f64 NaN _ = NaN"
| "divide_f64 _ NaN = NaN"
| "divide_f64 (Fin a) _ = Fin 0"
| "divide_f64 PInf (Fin b) = (if b < 0 then NInf else PInf)"
| "divide_f64 NInf (Fin b) = (if b < 0 then PInf else NInf)"
| "divide_f64 _ _ = NaN"

definition inverse_f64 :: "f64 \<Rightarrow> f64" where
  "inverse_f64 x = divide (Fin 1) x"

fun less_f64 :: "f64 \<Rightarrow> f64 \<Rightarrow> bool" where
  "Fin a < Fin b \<longleftrightarrow> a < b"
| "NaN < _ \<longleftrightarrow> False"
| "_ < NaN \<longleftrightarrow> False"
| "NInf < NInf \<longleftrightarrow> False"
| "NInf < _ \<longleftrightarrow> True"
| "_ < NInf \<longleftrightarrow> False"
| "PInf < _ \<longleftrightarrow> False"
| "_ < PInf \<longleftrightarrow> True"

definition less_eq_f64 :: "f64 \<Rightarrow> f64 \<Rightarrow> bool" where
  "less_eq_f64 a b = (a < b \<or> (a = b \<and> a \<noteq> NaN))"

instance ..

end

fun is_finite :: "f64 \<Rightarrow> bool" where
  "is_finite (Fin _) = True"
| "is_finite _ = False"

text \<open>The value of a finite float; 0 for the special values, where nothing relies on it.\<close>

fun f64_val :: "f64 \<Rightarrow> real" where
  "f64_val (Fin a) = a"
| "f64_val _ = 0"

lemma f64_le_Fin [simp]: "Fin a \<le> Fin b \<longleftrightarrow> a \<le> b"
  by (auto simp: less_eq_f64_def)

lemma f64_NaN_incomparable [simp]:
  fixes x :: f64
  shows "\<not> NaN < x" "\<not> x < NaN" "\<not> NaN \<le> x" "\<not> x \<le> NaN"
  by (cases x; simp add: less_eq_f64_def)+

lemma f64_NaN_absorbs [simp]:
  "NaN + x = NaN" "x + NaN = NaN" "NaN * x = NaN" "x * NaN = NaN" "NaN / x = NaN" "x / NaN = NaN"
  by (cases x; simp)+

lemma is_finite_cases: "is_finite x \<Longrightarrow> x = Fin (f64_val x)"
  by (cases x) auto

lemma is_finite_arith [simp]:
  "is_finite a \<Longrightarrow> is_finite b \<Longrightarrow> is_finite (a + b)"
  "is_finite a \<Longrightarrow> is_finite b \<Longrightarrow> is_finite (a * b)"
  by (cases a; cases b; simp)+

lemma f64_val_arith [simp]:
  "is_finite a \<Longrightarrow> is_finite b \<Longrightarrow> f64_val (a + b) = f64_val a + f64_val b"
  "is_finite a \<Longrightarrow> is_finite b \<Longrightarrow> f64_val (a * b) = f64_val a * f64_val b"
  by (cases a; cases b; simp)+

section \<open>JSON values\<close>

text \<open>What the handlers write and what the JSONB columns hold.\<close>

datatype json =
    JNull
  | JBool bool
  | JNum f64
  | JStr string
  | JArr "json list"
  | JObj "(string \<times> json) list"

text \<open>\<open>encoding/json\<close> refuses a value that holds a NaN or an infinity.\<close>

fun encodable :: "json \<Rightarrow> bool" where
  "encodable (JNum x) = is_finite x"
| "encodable (JArr js) = list_all encodable js"
| "encodable (JObj fs) = list_all (\<lambda>f. encodable (snd f)) fs"
| "encodable JNull = True"
| "encodable (JBool b) = True"
| "encodable (JStr s) = True"

text \<open>The value of a field of an object, \<open>null\<close> where there is none.\<close>

fun json_get :: "string \<Rightarrow> json \<Rightarrow> json" where
  "json_get k (JObj fs) = (case map_of fs k of None \<Rightarrow> JNull | Some v \<Rightarrow> v)"
| "json_get k _ = JNull"

text \<open>A field with \<open>omitempty\<close> is left out when its value is empty.\<close>

definition omit_str :: "string \<Rightarrow> string \<Rightarrow> (string \<times> json) list" where
  "omit_str k v = (if v = [] then [] else [(k, JStr v)])"

definition opt_str :: "string option \<Rightarrow> string" where
  "opt_str p = (case p of None \<Rightarrow> [] | Some s \<Rightarrow> s)"

definition str_opt :: "string \<Rightarrow> string option" where
  "str_opt s = (if s = [] then None else Some s)"

lemma opt_str_str_opt [simp]: "opt_str (str_opt s) = s"
  by (simp add: opt_str_def str_opt_def)

end
