(* ===== verification/GoStrings.thy ===== *)
theory GoStrings
  imports Prelude
begin

text \<open>
  Go strings and the operations of the packages \<open>strings\<close>, \<open>unicode/utf8\<close> and
  \<open>net/url\<close> that the code calls. A Go string is its byte sequence, a \<open>string\<close> of HOL:
  \<open>length\<close> is Go's \<open>len\<close> and counts bytes. What depends on Unicode data that is not in
  the repository (case mapping outside ASCII, the mark-stripping transform of
  \<open>golang.org/x/text\<close>) is a parameter, the record \<open>text_env\<close>.
\<close>

section \<open>Bytes\<close>

abbreviation byte_of :: "char \<Rightarrow> nat" where "byte_of c \<equiv> of_char c"

abbreviation byte :: "nat \<Rightarrow> char" where "byte n \<equiv> char_of n"

lemma byte_of_less [simp]: "byte_of c < 256"
  using of_char_mod_256 [of c] by (metis mod_less_divisor zero_less_numeral)

lemma byte_of_byte [simp]: "n < 256 \<Longrightarrow> byte_of (byte n) = n"
  by simp

definition is_ascii :: "string \<Rightarrow> bool" where
  "is_ascii s = list_all (\<lambda>c. byte_of c < 128) s"

lemma is_ascii_simps [simp]:
  "is_ascii []"
  "is_ascii (c # s) \<longleftrightarrow> byte_of c < 128 \<and> is_ascii s"
  "is_ascii (s @ t) \<longleftrightarrow> is_ascii s \<and> is_ascii t"
  by (simp_all add: is_ascii_def)

section \<open>Package strings\<close>

definition has_prefix :: "string \<Rightarrow> string \<Rightarrow> bool" where
  "has_prefix s p = (take (length p) s = p)"

definition has_suffix :: "string \<Rightarrow> string \<Rightarrow> bool" where
  "has_suffix s p = (length p \<le> length s \<and> drop (length s - length p) s = p)"

definition trim_prefix :: "string \<Rightarrow> string \<Rightarrow> string" where
  "trim_prefix s p = (if has_prefix s p then drop (length p) s else s)"

definition trim_suffix :: "string \<Rightarrow> string \<Rightarrow> string" where
  "trim_suffix s p = (if has_suffix s p then take (length s - length p) s else s)"

fun str_contains :: "string \<Rightarrow> string \<Rightarrow> bool" where
  "str_contains [] sub = (sub = [])"
| "str_contains (c # s) sub = (has_prefix (c # s) sub \<or> str_contains s sub)"

text \<open>\<open>strings.Index(s, c)\<close> for a one-byte separator; \<open>None\<close> is Go's -1.\<close>

fun index_byte :: "string \<Rightarrow> char \<Rightarrow> nat option" where
  "index_byte [] c = None"
| "index_byte (x # s) c = (if x = c then Some 0 else map_option Suc (index_byte s c))"

text \<open>\<open>strings.Cut\<close>, \<open>strings.Split\<close> and \<open>strings.ReplaceAll\<close> with a one-byte separator.\<close>

fun cut_byte :: "string \<Rightarrow> char \<Rightarrow> (string \<times> string) option" where
  "cut_byte [] c = None"
| "cut_byte (x # s) c =
     (if x = c then Some ([], s) else map_option (\<lambda>(a, b). (x # a, b)) (cut_byte s c))"

fun split_byte :: "string \<Rightarrow> char \<Rightarrow> string list" where
  "split_byte [] c = [[]]"
| "split_byte (x # s) c =
     (if x = c then [] # split_byte s c
      else (case split_byte s c of [] \<Rightarrow> [[x]] | w # ws \<Rightarrow> (x # w) # ws))"

definition replace_byte :: "string \<Rightarrow> char \<Rightarrow> string \<Rightarrow> string" where
  "replace_byte s c new = concat (map (\<lambda>x. if x = c then new else [x]) s)"

fun join_with :: "string list \<Rightarrow> string \<Rightarrow> string" where
  "join_with [] sep = []"
| "join_with [x] sep = x"
| "join_with (x # y # zs) sep = x @ sep @ join_with (y # zs) sep"

lemma has_prefix_append [simp]: "has_prefix (p @ s) p"
  by (simp add: has_prefix_def)

lemma has_prefix_iff: "has_prefix s p \<longleftrightarrow> (\<exists>t. s = p @ t)"
  unfolding has_prefix_def by (metis append_eq_conv_conj append_take_drop_id)

lemma has_suffix_iff: "has_suffix s p \<longleftrightarrow> (\<exists>t. s = t @ p)"
proof
  assume "has_suffix s p"
  then have "s = take (length s - length p) s @ p"
    unfolding has_suffix_def by (metis append_take_drop_id)
  then show "\<exists>t. s = t @ p" by blast
qed (auto simp: has_suffix_def)

lemma has_suffix_append [simp]: "has_suffix (s @ p) p"
  by (auto simp: has_suffix_iff)

lemma trim_prefix_append [simp]: "trim_prefix (p @ s) p = s"
  by (simp add: trim_prefix_def)

lemma trim_suffix_append [simp]: "trim_suffix (s @ p) p = s"
  by (simp add: trim_suffix_def)

lemma split_byte_not_Nil [simp]: "split_byte s c \<noteq> []"
  by (induction s) (auto split: list.splits)

lemma split_byte_single: "c \<notin> set s \<Longrightarrow> split_byte s c = [s]"
  by (induction s) auto

lemma split_byte_append_sep:
  "split_byte (s @ c # t) c = split_byte s c @ split_byte t c"
  by (induction s) (auto split: list.splits)

lemma last_split_byte:
  "c \<notin> set t \<Longrightarrow> last (split_byte (s @ c # t) c) = t"
  by (simp add: split_byte_append_sep split_byte_single)

lemma cut_byte_append: "c \<notin> set a \<Longrightarrow> cut_byte (a @ c # b) c = Some (a, b)"
  by (induction a) auto

lemma cut_byte_Some: "cut_byte s c = Some (a, b) \<Longrightarrow> s = a @ c # b \<and> c \<notin> set a"
  by (induction s arbitrary: a) (auto split: if_splits)

lemma replace_byte_simps [simp]:
  "replace_byte [] c new = []"
  "replace_byte (x # s) c new = (if x = c then new else [x]) @ replace_byte s c new"
  by (simp_all add: replace_byte_def)

section \<open>TrimSpace\<close>

text \<open>
  \<open>strings.TrimSpace\<close> drops leading and trailing runes for which \<open>unicode.IsSpace\<close>
  holds. Those are the 25 runes below, listed by their UTF-8 encodings; a string starts
  (ends) with such a rune exactly when it starts (ends) with one of these byte strings.
\<close>

definition space_runes :: "string list" where
  "space_runes =
     [[CHR 0x09], [CHR 0x0A], [CHR 0x0B], [CHR 0x0C], [CHR 0x0D], [CHR 0x20],
      [CHR 0xC2, CHR 0x85], [CHR 0xC2, CHR 0xA0], [CHR 0xE1, CHR 0x9A, CHR 0x80],
      [CHR 0xE2, CHR 0x80, CHR 0x80], [CHR 0xE2, CHR 0x80, CHR 0x81],
      [CHR 0xE2, CHR 0x80, CHR 0x82], [CHR 0xE2, CHR 0x80, CHR 0x83],
      [CHR 0xE2, CHR 0x80, CHR 0x84], [CHR 0xE2, CHR 0x80, CHR 0x85],
      [CHR 0xE2, CHR 0x80, CHR 0x86], [CHR 0xE2, CHR 0x80, CHR 0x87],
      [CHR 0xE2, CHR 0x80, CHR 0x88], [CHR 0xE2, CHR 0x80, CHR 0x89],
      [CHR 0xE2, CHR 0x80, CHR 0x8A], [CHR 0xE2, CHR 0x80, CHR 0xA8],
      [CHR 0xE2, CHR 0x80, CHR 0xA9], [CHR 0xE2, CHR 0x80, CHR 0xAF],
      [CHR 0xE2, CHR 0x81, CHR 0x9F], [CHR 0xE3, CHR 0x80, CHR 0x80]]"

text \<open>Only nonempty words are stripped, so the loop ends.\<close>

function strip_all :: "string list \<Rightarrow> string \<Rightarrow> string" where
  "strip_all ws s =
     (case find (\<lambda>w. w \<noteq> [] \<and> has_prefix s w) ws of
        None \<Rightarrow> s | Some w \<Rightarrow> strip_all ws (drop (length w) s))"
  by pat_completeness auto
termination
proof (relation "measure (\<lambda>(ws, s). length s)", simp)
  fix ws s w
  assume "find (\<lambda>w. w \<noteq> [] \<and> has_prefix s w) ws = Some w"
  then have "w \<noteq> []" "has_prefix s w" by (auto dest: find_in_set)
  then have "length s > 0" "length w > 0" by (auto simp: has_prefix_def)
  then show "((ws, drop (length w) s), ws, s) \<in> measure (\<lambda>(ws, s). length s)" by simp
qed

declare strip_all.simps [simp del]

definition trim_left :: "string \<Rightarrow> string" where
  "trim_left s = strip_all space_runes s"

definition trim_right :: "string \<Rightarrow> string" where
  "trim_right s = rev (strip_all (map rev space_runes) (rev s))"

definition trim_space :: "string \<Rightarrow> string" where
  "trim_space s = trim_right (trim_left s)"

lemma strip_all_stop: "find (\<lambda>w. w \<noteq> [] \<and> has_prefix s w) ws = None \<Longrightarrow> strip_all ws s = s"
  by (subst strip_all.simps) simp

lemma strip_all_fix: "find (\<lambda>w. w \<noteq> [] \<and> has_prefix (strip_all ws s) w) ws = None"
proof (induction ws s rule: strip_all.induct)
  case (1 ws s)
  show ?case
  proof (cases "find (\<lambda>w. w \<noteq> [] \<and> has_prefix s w) ws")
    case None
    then show ?thesis by (simp add: strip_all_stop)
  next
    case (Some w)
    with 1 show ?thesis by (subst strip_all.simps) simp
  qed
qed

lemma strip_all_idem [simp]: "strip_all ws (strip_all ws s) = strip_all ws s"
  by (rule strip_all_stop) (rule strip_all_fix)

lemma strip_all_suffix: "suffix (strip_all ws s) s"
proof (induction ws s rule: strip_all.induct)
  case (1 ws s)
  show ?case
  proof (cases "find (\<lambda>w. w \<noteq> [] \<and> has_prefix s w) ws")
    case None
    then show ?thesis by (simp add: strip_all_stop)
  next
    case (Some w)
    have "suffix (strip_all ws (drop (length w) s)) (drop (length w) s)"
      using 1 Some by blast
    then have "suffix (strip_all ws (drop (length w) s)) s"
      using suffix_drop suffix_order.trans by blast
    with Some show ?thesis by (subst strip_all.simps) simp
  qed
qed

lemma trim_left_set: "set (trim_left s) \<subseteq> set s"
  unfolding trim_left_def by (rule set_mono_suffix [OF strip_all_suffix])

lemma trim_right_set: "set (trim_right s) \<subseteq> set s"
  unfolding trim_right_def
  using set_mono_suffix [OF strip_all_suffix [of "map rev space_runes" "rev s"]] by simp

lemma trim_space_set: "set (trim_space s) \<subseteq> set s"
  unfolding trim_space_def using trim_left_set trim_right_set by blast

lemma trim_right_prefix: "prefix (trim_right s) s"
proof -
  have "suffix (strip_all (map rev space_runes) (rev s)) (rev s)"
    by (rule strip_all_suffix)
  then show ?thesis by (simp add: trim_right_def suffix_to_prefix)
qed

lemma has_prefix_mono: "prefix t u \<Longrightarrow> has_prefix t w \<Longrightarrow> has_prefix u w"
  by (auto simp: has_prefix_iff prefix_def)

lemma trim_left_fix: "prefix t (trim_left s) \<Longrightarrow> trim_left t = t"
proof -
  assume "prefix t (trim_left s)"
  moreover have "find (\<lambda>w. w \<noteq> [] \<and> has_prefix (trim_left s) w) space_runes = None"
    unfolding trim_left_def by (rule strip_all_fix)
  ultimately have "find (\<lambda>w. w \<noteq> [] \<and> has_prefix t w) space_runes = None"
    by (auto simp: find_None_iff dest: has_prefix_mono)
  then show "trim_left t = t" unfolding trim_left_def by (rule strip_all_stop)
qed

lemma trim_right_idem [simp]: "trim_right (trim_right s) = trim_right s"
  by (simp add: trim_right_def)

lemma trim_space_idem [simp]: "trim_space (trim_space s) = trim_space s"
  unfolding trim_space_def using trim_left_fix [OF trim_right_prefix] by simp

lemma trim_space_ascii: "is_ascii s \<Longrightarrow> is_ascii (trim_space s)"
  using trim_space_set [of s] by (auto simp: is_ascii_def list_all_iff)

text \<open>
  A nonempty trimmed string neither starts nor ends with an ASCII space character.
\<close>

lemma trim_space_hd:
  assumes "trim_space s = c # t"
  shows "byte_of c \<notin> {9, 10, 11, 12, 13, 32}"
proof
  assume c: "byte_of c \<in> {9, 10, 11, 12, 13, 32}"
  then have "byte_of c \<in> byte_of ` {CHR 0x09, CHR 0x0A, CHR 0x0B, CHR 0x0C, CHR 0x0D, CHR 0x20}"
    by simp
  then have "c \<in> {CHR 0x09, CHR 0x0A, CHR 0x0B, CHR 0x0C, CHR 0x0D, CHR 0x20}"
    unfolding image_iff of_char_eq_iff by blast
  then have "[c] \<in> set space_runes" by (auto simp: space_runes_def)
  moreover have "has_prefix (trim_space s) [c]" using assms by (simp add: has_prefix_def)
  ultimately have "find (\<lambda>w. w \<noteq> [] \<and> has_prefix (trim_space s) w) space_runes \<noteq> None"
    by (auto simp: find_None_iff)
  moreover have "trim_left (trim_space s) = trim_space s"
    unfolding trim_space_def using trim_left_fix [OF trim_right_prefix] by simp
  ultimately show False
    using strip_all_fix [of space_runes "trim_space s"] by (simp add: trim_left_def)
qed

lemma find_ascii_space:
  assumes "byte_of c < 128" "byte_of c \<notin> {9, 10, 11, 12, 13, 32}"
    and "w \<in> set space_runes \<union> rev ` set space_runes"
  shows "\<not> has_prefix (c # s) w"
proof
  assume "has_prefix (c # s) w"
  then have "w = [] \<or> hd w = c" by (cases w) (auto simp: has_prefix_def)
  with assms show False by (auto simp: space_runes_def)
qed

text \<open>Text whose every byte is printable ASCII other than a space is already trimmed.\<close>

lemma trim_space_plain:
  assumes "\<forall>c \<in> set s. byte_of c < 128 \<and> byte_of c \<notin> {9, 10, 11, 12, 13, 32}"
  shows "trim_space s = s"
proof -
  have *: "strip_all ws t = t"
    if "set t = set s" "set ws \<subseteq> set space_runes \<union> rev ` set space_runes" for ws t
  proof (rule strip_all_stop)
    show "find (\<lambda>w. w \<noteq> [] \<and> has_prefix t w) ws = None"
    proof (cases t)
      case Nil
      then show ?thesis by (auto simp: find_None_iff has_prefix_def)
    next
      case (Cons c r)
      with that(1) have "c \<in> set s" by auto
      with assms have "byte_of c < 128" "byte_of c \<notin> {9, 10, 11, 12, 13, 32}" by auto
      with that(2) Cons show ?thesis
        by (auto simp: find_None_iff dest: find_ascii_space [where s = r])
    qed
  qed
  show ?thesis unfolding trim_space_def trim_left_def trim_right_def by (simp add: *)
qed

section \<open>Case mapping and the text environment\<close>

text \<open>
  \<open>strings.ToLower\<close> maps an all-ASCII string byte by byte; on any other string it applies
  the Unicode case table, which is the parameter \<open>lower_wide\<close>. \<open>strip_marks\<close> is the
  chain NFD, remove category Mn, NFC of \<open>golang.org/x/text\<close>.
\<close>

record text_env =
  lower_wide :: "string \<Rightarrow> string"
  strip_marks :: "string \<Rightarrow> string"

definition ascii_lower :: "char \<Rightarrow> char" where
  "ascii_lower c = (if 65 \<le> byte_of c \<and> byte_of c \<le> 90 then byte (byte_of c + 32) else c)"

definition to_lower :: "text_env \<Rightarrow> string \<Rightarrow> string" where
  "to_lower E s = (if is_ascii s then map ascii_lower s else lower_wide E s)"

text \<open>
  Documented behaviour of the text transform: it only touches combining marks and
  (de)compositions, so ASCII text passes through unchanged.
\<close>

definition marks_keep_ascii :: "text_env \<Rightarrow> bool" where
  "marks_keep_ascii E = (\<forall>s. is_ascii s \<longrightarrow> strip_marks E s = s)"

lemma ascii_lower_ascii [simp]: "byte_of c < 128 \<Longrightarrow> byte_of (ascii_lower c) < 128"
  by (auto simp: ascii_lower_def)

lemma ascii_lower_idem [simp]: "ascii_lower (ascii_lower c) = ascii_lower c"
  by (auto simp: ascii_lower_def)

lemma is_ascii_lower [simp]: "is_ascii s \<Longrightarrow> is_ascii (map ascii_lower s)"
  by (induction s) auto

lemma to_lower_idem_ascii: "is_ascii s \<Longrightarrow> to_lower E (to_lower E s) = to_lower E s"
  by (simp add: to_lower_def)

section \<open>Runes\<close>

text \<open>
  The width of the first rune of a string as \<open>utf8.DecodeRuneInString\<close> reports it: the
  length of a well-formed encoding, or 1 for a byte that starts none.
\<close>

definition cont :: "char \<Rightarrow> bool" where
  "cont c = (128 \<le> byte_of c \<and> byte_of c < 192)"

definition in_range :: "nat \<Rightarrow> nat \<Rightarrow> char \<Rightarrow> bool" where
  "in_range lo hi c = (lo \<le> byte_of c \<and> byte_of c \<le> hi)"

fun second_ok :: "nat \<Rightarrow> char \<Rightarrow> bool" where
  "second_ok b0 c =
     (if b0 = 224 then in_range 160 191 c
      else if b0 = 237 then in_range 128 159 c
      else if b0 = 240 then in_range 144 191 c
      else if b0 = 244 then in_range 128 143 c
      else cont c)"

fun rune_ok :: "string \<Rightarrow> nat \<times> bool" where
  "rune_ok [] = (0, True)"
| "rune_ok (c # s) =
     (let b0 = byte_of c in
      if b0 < 128 then (1, True)
      else if 194 \<le> b0 \<and> b0 \<le> 223 then
        (case s of c1 # _ \<Rightarrow> if cont c1 then (2, True) else (1, False) | _ \<Rightarrow> (1, False))
      else if 224 \<le> b0 \<and> b0 \<le> 239 then
        (case s of c1 # c2 # _ \<Rightarrow>
           if second_ok b0 c1 \<and> cont c2 then (3, True) else (1, False) | _ \<Rightarrow> (1, False))
      else if 240 \<le> b0 \<and> b0 \<le> 244 then
        (case s of c1 # c2 # c3 # _ \<Rightarrow>
           if second_ok b0 c1 \<and> cont c2 \<and> cont c3 then (4, True) else (1, False)
         | _ \<Rightarrow> (1, False))
      else (1, False))"

text \<open>
  \<open>[]rune(s)\<close>: each rune as the bytes \<open>string(r)\<close> writes for it. An invalid byte becomes
  U+FFFD, whose encoding is EF BF BD.
\<close>

definition rune_error :: string where
  "rune_error = [byte 239, byte 191, byte 189]"

function runes :: "string \<Rightarrow> string list" where
  "runes [] = []"
| "runes (c # s) =
     (case rune_ok (c # s) of (n, ok) \<Rightarrow>
        (if ok then take n (c # s) else rune_error) # runes (drop (max 1 n) (c # s)))"
  by pat_completeness auto
termination by (relation "measure length") auto

definition rune_count :: "string \<Rightarrow> nat" where
  "rune_count s = length (runes s)"

lemma runes_ascii: "is_ascii s \<Longrightarrow> runes s = map (\<lambda>c. [c]) s"
  by (induction s) (auto simp: Let_def)

lemma rune_count_ascii: "is_ascii s \<Longrightarrow> rune_count s = length s"
  by (simp add: rune_count_def runes_ascii)

lemma rune_count_le: "rune_count s \<le> length s"
proof (induction s rule: runes.induct)
  case (2 c s)
  obtain n ok where n: "rune_ok (c # s) = (n, ok)" by fastforce
  with 2 have "rune_count (drop (max 1 n) (c # s)) \<le> length (drop (max 1 n) (c # s))"
    by auto
  with n show ?case by (auto simp: rune_count_def max_def split: if_splits)
qed (simp add: rune_count_def)

section \<open>Numbers in decimal and hexadecimal\<close>

definition digit_char :: "nat \<Rightarrow> char" where
  "digit_char d = (if d < 10 then byte (48 + d) else byte (87 + d))"

definition digit_val :: "char \<Rightarrow> nat option" where
  "digit_val c =
     (let n = byte_of c in
      if 48 \<le> n \<and> n \<le> 57 then Some (n - 48)
      else if 97 \<le> n \<and> n \<le> 102 then Some (n - 87)
      else if 65 \<le> n \<and> n \<le> 70 then Some (n - 55) else None)"

lemma digit_val_char [simp]: "d < 16 \<Longrightarrow> digit_val (digit_char d) = Some d"
  by (auto simp: digit_val_def digit_char_def Let_def)

text \<open>
  \<open>fixed_digits b w n\<close>: the last \<open>w\<close> digits of \<open>n\<close> in base \<open>b\<close>, most significant
  first (\<open>%0wd\<close> and \<open>%0wx\<close>); \<open>from_digits\<close> reads digits back.
\<close>

fun fixed_digits :: "nat \<Rightarrow> nat \<Rightarrow> nat \<Rightarrow> nat list" where
  "fixed_digits b 0 n = []"
| "fixed_digits b (Suc w) n = fixed_digits b w (n div b) @ [n mod b]"

definition from_digits :: "nat \<Rightarrow> nat list \<Rightarrow> nat" where
  "from_digits b ds = foldl (\<lambda>a d. a * b + d) 0 ds"

lemma length_fixed_digits [simp]: "length (fixed_digits b w n) = w"
  by (induction w arbitrary: n) auto

lemma fixed_digits_less: "0 < b \<Longrightarrow> d \<in> set (fixed_digits b w n) \<Longrightarrow> d < b"
  by (induction w arbitrary: n) auto

lemma from_fixed_digits:
  "0 < b \<Longrightarrow> from_digits b (fixed_digits b w n) = n mod b ^ w"
proof (induction w arbitrary: n)
  case (Suc w)
  then have "from_digits b (fixed_digits b (Suc w) n) = (n div b) mod b ^ w * b + n mod b"
    by (simp add: from_digits_def)
  also have "\<dots> = n mod b ^ Suc w"
    using mod_mult2_eq [of n b "b ^ w"] by (simp add: mult.commute)
  finally show ?case .
qed (simp add: from_digits_def)

lemma from_fixed_digits_id: "n < b ^ w \<Longrightarrow> 0 < b \<Longrightarrow> from_digits b (fixed_digits b w n) = n"
  by (simp add: from_fixed_digits)

definition pad_dec :: "nat \<Rightarrow> nat \<Rightarrow> string" where
  "pad_dec w n = map digit_char (fixed_digits 10 w n)"

fun itoa :: "nat \<Rightarrow> string" where
  "itoa n = (if n < 10 then [digit_char n] else itoa (n div 10) @ [digit_char (n mod 10)])"

declare itoa.simps [simp del]

text \<open>Reading a run of decimal digits: the value, or \<open>None\<close> on any other character.\<close>

definition dec_val :: "char \<Rightarrow> nat option" where
  "dec_val c = (if 48 \<le> byte_of c \<and> byte_of c \<le> 57 then Some (byte_of c - 48) else None)"

definition read_dec :: "string \<Rightarrow> nat option" where
  "read_dec s =
     (if s \<noteq> [] \<and> list_all (\<lambda>c. dec_val c \<noteq> None) s
      then Some (from_digits 10 (map (\<lambda>c. the (dec_val c)) s)) else None)"

lemma dec_val_digit [simp]: "d < 10 \<Longrightarrow> dec_val (digit_char d) = Some d"
  by (auto simp: dec_val_def digit_char_def)

lemma read_pad_dec:
  assumes "n < 10 ^ w" and "0 < w"
  shows "read_dec (pad_dec w n) = Some n"
proof -
  have d: "\<forall>d \<in> set (fixed_digits 10 w n). d < 10" using fixed_digits_less by auto
  then have "map (\<lambda>c. the (dec_val c)) (pad_dec w n) = fixed_digits 10 w n"
    by (auto simp: pad_dec_def intro!: map_idI)
  moreover have "list_all (\<lambda>c. dec_val c \<noteq> None) (pad_dec w n)"
    using d by (auto simp: pad_dec_def list_all_iff)
  moreover have "pad_dec w n \<noteq> []"
    using assms(2) by (metis length_fixed_digits length_map list.size(3) not_less_zero pad_dec_def)
  ultimately show ?thesis
    using from_fixed_digits_id [OF assms(1)] by (simp add: read_dec_def)
qed

lemma length_pad_dec [simp]: "length (pad_dec w n) = w"
  by (simp add: pad_dec_def)

lemma pad_dec_digits: "c \<in> set (pad_dec w n) \<Longrightarrow> 48 \<le> byte_of c \<and> byte_of c \<le> 57"
proof -
  assume "c \<in> set (pad_dec w n)"
  then obtain d where "d \<in> set (fixed_digits 10 w n)" "c = digit_char d"
    by (auto simp: pad_dec_def)
  moreover from this(1) have "d < 10" using fixed_digits_less by simp
  ultimately show ?thesis by (simp add: digit_char_def)
qed

section \<open>url.QueryEscape\<close>

definition unreserved :: "char \<Rightarrow> bool" where
  "unreserved c =
     (let n = byte_of c in
      48 \<le> n \<and> n \<le> 57 \<or> 65 \<le> n \<and> n \<le> 90 \<or> 97 \<le> n \<and> n \<le> 122 \<or> n \<in> {45, 95, 46, 126})"

definition hex_upper :: "nat \<Rightarrow> char" where
  "hex_upper d = (if d < 10 then byte (48 + d) else byte (55 + d))"

definition query_escape :: "string \<Rightarrow> string" where
  "query_escape s =
     concat (map (\<lambda>c. if unreserved c then [c]
                      else if c = CHR '' '' then ''+''
                      else [CHR ''%'', hex_upper (byte_of c div 16), hex_upper (byte_of c mod 16)]) s)"

lemma query_escape_unreserved: "list_all unreserved s \<Longrightarrow> query_escape s = s"
  by (induction s) (auto simp: query_escape_def)

end
