(* ===== verification/Codec.thy ===== *)
theory Codec
  imports GoStrings "HOL-Library.Word"
begin

text \<open>
  The two textual encodings the code hands to clients: unpadded base64
  (\<open>base64.RawURLEncoding\<close>, and \<open>RawStdEncoding\<close> in password hashes) and the
  canonical form of a uuid, with the round trips their users rely on.
\<close>

section \<open>Unpadded base64\<close>

text \<open>The six-bit groups of a byte sequence, most significant first.\<close>

fun sextets :: "nat list \<Rightarrow> nat list" where
  "sextets [] = []"
| "sextets [a] = [a div 4, (a mod 4) * 16]"
| "sextets [a, b] = [a div 4, (a mod 4) * 16 + b div 16, (b mod 16) * 4]"
| "sextets (a # b # c # r) =
     [a div 4, (a mod 4) * 16 + b div 16, (b mod 16) * 4 + c div 64, c mod 64] @ sextets r"

text \<open>A single left-over sextet is a corrupt input; spare low bits are ignored.\<close>

fun unsextets :: "nat list \<Rightarrow> nat list option" where
  "unsextets [] = Some []"
| "unsextets [x] = None"
| "unsextets [x, y] = Some [x * 4 + y div 16]"
| "unsextets [x, y, z] = Some [x * 4 + y div 16, (y mod 16) * 16 + z div 4]"
| "unsextets (x # y # z # w # r) =
     map_option (\<lambda>t. [x * 4 + y div 16, (y mod 16) * 16 + z div 4, (z mod 4) * 64 + w] @ t)
       (unsextets r)"

datatype b64_alphabet = URLAlphabet | StdAlphabet

definition b64_char :: "b64_alphabet \<Rightarrow> nat \<Rightarrow> char" where
  "b64_char al d =
     (if d < 26 then byte (65 + d) else if d < 52 then byte (71 + d)
      else if d < 62 then byte (d - 4)
      else if d = 62 then (case al of URLAlphabet \<Rightarrow> CHR ''-'' | StdAlphabet \<Rightarrow> CHR ''+'')
      else (case al of URLAlphabet \<Rightarrow> CHR ''_'' | StdAlphabet \<Rightarrow> CHR ''/''))"

definition b64_val :: "b64_alphabet \<Rightarrow> char \<Rightarrow> nat option" where
  "b64_val al c =
     (let n = byte_of c in
      if 65 \<le> n \<and> n \<le> 90 then Some (n - 65)
      else if 97 \<le> n \<and> n \<le> 122 then Some (n - 71)
      else if 48 \<le> n \<and> n \<le> 57 then Some (n + 4)
      else if c = (case al of URLAlphabet \<Rightarrow> CHR ''-'' | StdAlphabet \<Rightarrow> CHR ''+'') then Some 62
      else if c = (case al of URLAlphabet \<Rightarrow> CHR ''_'' | StdAlphabet \<Rightarrow> CHR ''/'') then Some 63
      else None)"

definition b64_encode :: "b64_alphabet \<Rightarrow> string \<Rightarrow> string" where
  "b64_encode al s = map (b64_char al) (sextets (map byte_of s))"

text \<open>Go's decoder skips carriage returns and newlines before it reads the groups.\<close>

definition b64_decode :: "b64_alphabet \<Rightarrow> string \<Rightarrow> string option" where
  "b64_decode al s =
     (let cs = filter (\<lambda>c. byte_of c \<noteq> 10 \<and> byte_of c \<noteq> 13) s in
      if list_all (\<lambda>c. b64_val al c \<noteq> None) cs
      then map_option (map byte) (unsextets (map (\<lambda>c. the (b64_val al c)) cs))
      else None)"

lemma sextets_less: "list_all (\<lambda>n. n < 256) bs \<Longrightarrow> list_all (\<lambda>d. d < 64) (sextets bs)"
  by (induction bs rule: sextets.induct) (auto simp: less_mult_imp_div_less)

lemma unsextets_sextets:
  "list_all (\<lambda>n. n < 256) bs \<Longrightarrow> unsextets (sextets bs) = Some bs"
  by (induction bs rule: sextets.induct) (auto simp: div_mult2_eq)

lemma b64_char_range:
  "d < 64 \<Longrightarrow> b64_val al (b64_char al d) = Some d \<and>
     byte_of (b64_char al d) \<noteq> 10 \<and> byte_of (b64_char al d) \<noteq> 13"
  by (cases al) (auto simp: b64_char_def b64_val_def Let_def)

lemma b64_decode_encode [simp]: "b64_decode al (b64_encode al s) = Some s"
proof -
  let ?ds = "sextets (map byte_of s)"
  have bytes: "list_all (\<lambda>n. n < 256) (map byte_of s)" by (simp add: list_all_iff)
  have ds: "\<forall>d \<in> set ?ds. d < 64" using sextets_less [OF bytes] by (simp add: list_all_iff)
  have f: "filter (\<lambda>c. byte_of c \<noteq> 10 \<and> byte_of c \<noteq> 13) (map (b64_char al) ?ds) = map (b64_char al) ?ds"
    using ds by (auto simp: filter_id_conv b64_char_range)
  have v: "list_all (\<lambda>c. b64_val al c \<noteq> None) (map (b64_char al) ?ds)"
    using ds by (auto simp: list_all_iff b64_char_range)
  have m: "map (\<lambda>c. the (b64_val al c)) (map (b64_char al) ?ds) = ?ds"
    using ds by (auto simp: b64_char_range intro!: map_idI)
  have u: "unsextets ?ds = Some (map byte_of s)" by (rule unsextets_sextets [OF bytes])
  show ?thesis
    unfolding b64_decode_def b64_encode_def Let_def f m u using v by (simp add: comp_def)
qed

lemma length_sextets: "length (sextets bs) = (4 * length bs + 2) div 3"
  by (induction bs rule: sextets.induct) auto

lemma length_b64_encode: "length (b64_encode al s) = (4 * length s + 2) div 3"
  by (simp add: b64_encode_def length_sextets)

lemma b64_url_unreserved: "list_all unreserved (b64_encode URLAlphabet s)"
proof -
  have "d < 64 \<Longrightarrow> unreserved (b64_char URLAlphabet d)" for d
    by (auto simp: unreserved_def b64_char_def Let_def)
  moreover have "list_all (\<lambda>d. d < 64) (sextets (map byte_of s))"
    by (rule sextets_less) (simp add: list_all_iff)
  ultimately show ?thesis by (auto simp: b64_encode_def list_all_iff)
qed

section \<open>Uuids\<close>

text \<open>
  A uuid is sixteen bytes; as a 128-bit word it has the order Postgres gives the type
  (bytewise from the left).
\<close>

type_synonym uuid = "128 word"

definition uuid_bytes :: "uuid \<Rightarrow> nat list" where
  "uuid_bytes u = fixed_digits 256 16 (unat u)"

text \<open>
  \<open>uuidString\<close>: two hexadecimal digits per byte, and a dash after the bytes with index
  3, 5, 7 and 9.
\<close>

definition uuid_string :: "uuid \<Rightarrow> string" where
  "uuid_string u =
     concat (map (\<lambda>i. let b = uuid_bytes u ! i in
                      [digit_char (b div 16), digit_char (b mod 16)]
                      @ (if i \<in> {3, 5, 7, 9} then ''-'' else []))
                 [0..<16])"

text \<open>
  A reader of the canonical form, one function that \<open>uuid.Parse\<close> (a package outside the
  repository) may be. It instantiates that parameter in the witnesses.
\<close>

definition parse_uuid36 :: "string \<Rightarrow> uuid option" where
  "parse_uuid36 s =
     (let cs = filter (\<lambda>c. c \<noteq> CHR ''-'') s in
      if length s = 36 \<and> length cs = 32 \<and> list_all (\<lambda>c. digit_val c \<noteq> None) cs
      then Some (of_nat (from_digits 16 (map (\<lambda>c. the (digit_val c)) cs))) else None)"

text \<open>What the code relies on of \<open>uuid.Parse\<close>: it reads the canonical form back.\<close>

definition uuid_parse_ok :: "(string \<Rightarrow> uuid option) \<Rightarrow> bool" where
  "uuid_parse_ok P = (\<forall>u. P (uuid_string u) = Some u)"

lemma digit_char_not_dash: "d < 16 \<Longrightarrow> digit_char d \<noteq> CHR ''-''"
  by (auto simp: digit_char_def dest!: arg_cong [where f = byte_of])

lemma digit_char_high_not_dash: "b < 256 \<Longrightarrow> digit_char (b div 16) \<noteq> CHR ''-''"
  by (rule digit_char_not_dash) simp

lemma from_digits_snoc: "from_digits b (ds @ [d]) = from_digits b ds * b + d"
  by (simp add: from_digits_def)

lemma from_digits_append2:
  "from_digits 16 (ds @ [x, y]) = from_digits 16 ds * 256 + x * 16 + y"
  by (simp add: from_digits_def)

lemma from_digits_nibbles:
  "from_digits 16 (concat (map (\<lambda>b. [b div 16, b mod 16]) bs)) = from_digits 256 bs"
proof (induction bs rule: rev_induct)
  case (snoc b bs)
  have "from_digits 16 (concat (map (\<lambda>b. [b div 16, b mod 16]) (bs @ [b])))
      = from_digits 16 (concat (map (\<lambda>b. [b div 16, b mod 16]) bs)) * 256 + b div 16 * 16 + b mod 16"
    by (simp add: from_digits_append2)
  also have "\<dots> = from_digits 256 bs * 256 + b" using snoc by (simp add: add.assoc)
  finally show ?case by (simp add: from_digits_snoc)
qed (simp add: from_digits_def)

lemma uuid_bytes_less: "b \<in> set (uuid_bytes u) \<Longrightarrow> b < 256"
  unfolding uuid_bytes_def using fixed_digits_less [of 256] by simp

lemma length_uuid_bytes [simp]: "length (uuid_bytes u) = 16"
  by (simp add: uuid_bytes_def)

lemma length_16_explicit:
  "length xs = 16 \<Longrightarrow>
     \<exists>a b c d e f g h i j k l m n p q. xs = [a, b, c, d, e, f, g, h, i, j, k, l, m, n, p, q]"
  by (simp add: length_Suc_conv numeral_eq_Suc) blast

lemma uuid_string_shape:
  "length (uuid_string u) = 36 \<and>
   filter (\<lambda>c. c \<noteq> CHR ''-'') (uuid_string u) =
     concat (map (\<lambda>b. [digit_char (b div 16), digit_char (b mod 16)]) (uuid_bytes u))"
proof -
  have small: "\<forall>b \<in> set (uuid_bytes u). b < 256" using uuid_bytes_less by blast
  obtain a b c d e f g h i j k l m n p q
    where bs: "uuid_bytes u = [a, b, c, d, e, f, g, h, i, j, k, l, m, n, p, q]"
    using length_16_explicit [OF length_uuid_bytes [of u]] by (elim exE) (rule that)
  have up: "[0..<16] = [0, 1, 2, 3, 4, 5, 6, 7, 8, 9, 10, 11, 12, 13, 14, 15 :: nat]"
    by (simp add: upt_rec)
  show ?thesis
    using small unfolding uuid_string_def bs up
    by (simp add: Let_def digit_char_not_dash digit_char_high_not_dash)
qed

lemma parse_uuid36_string [simp]: "parse_uuid36 (uuid_string u) = Some u"
proof -
  let ?bs = "uuid_bytes u"
  let ?cs = "concat (map (\<lambda>b. [digit_char (b div 16), digit_char (b mod 16)]) ?bs)"
  have len: "length (uuid_string u) = 36"
    and cs: "filter (\<lambda>c. c \<noteq> CHR ''-'') (uuid_string u) = ?cs"
    using uuid_string_shape by auto
  have small: "\<forall>b \<in> set ?bs. b < 256" using uuid_bytes_less by blast
  have l32: "length ?cs = 32" by (simp add: length_concat comp_def sum_list_triv)
  have all: "list_all (\<lambda>c. digit_val c \<noteq> None) ?cs"
    using small by (auto simp: list_all_iff)
  have vals: "map (\<lambda>c. the (digit_val c)) ?cs = concat (map (\<lambda>b. [b div 16, b mod 16]) ?bs)"
    using small by (induction ?bs) (auto simp: map_concat comp_def intro!: arg_cong [where f = concat] map_cong)
  have "from_digits 256 ?bs = unat u"
    unfolding uuid_bytes_def
    by (rule from_fixed_digits_id) (use unsigned_less [of u] in simp_all)
  then show ?thesis
    unfolding parse_uuid36_def Let_def cs using len l32 all vals
    by (simp add: from_digits_nibbles)
qed

lemma parse_uuid36_ok: "uuid_parse_ok parse_uuid36"
  by (simp add: uuid_parse_ok_def)

lemma uuid_string_inj: "uuid_string u = uuid_string v \<Longrightarrow> u = v"
  by (metis option.inject parse_uuid36_string)

text \<open>No uuid string contains the cursor's separator.\<close>

lemma uuid_string_chars: "c \<in> set (uuid_string u) \<Longrightarrow> c = CHR ''-'' \<or> (\<exists>d<16. c = digit_char d)"
proof -
  assume c: "c \<in> set (uuid_string u)"
  show ?thesis
  proof (cases "c = CHR ''-''")
    case False
    with c have "c \<in> set (filter (\<lambda>c. c \<noteq> CHR ''-'') (uuid_string u))" by simp
    then obtain b where b: "b \<in> set (uuid_bytes u)" "c \<in> {digit_char (b div 16), digit_char (b mod 16)}"
      by (auto simp: uuid_string_shape)
    from b(1) have "b div 16 < 16" "b mod 16 < 16" using uuid_bytes_less [of b u] by auto
    with b(2) show ?thesis by blast
  qed simp
qed

lemma uuid_string_no_bar: "CHR ''|'' \<notin> set (uuid_string u)"
proof -
  have "digit_char d \<noteq> CHR ''|''" if "d < 16" for d
    using that by (auto simp: digit_char_def dest!: arg_cong [where f = byte_of] split: if_splits)
  then show ?thesis using uuid_string_chars by force
qed

end
