(* ===== verification/GoTime.thy ===== *)
theory GoTime
  imports GoStrings
begin

text \<open>
  Instants and their textual forms. An instant (Go's \<open>time.Time\<close>, a \<open>timestamptz\<close> of the
  database) is its distance from the Unix epoch in nanoseconds. Formatting and parsing go
  through the proleptic Gregorian calendar, as package \<open>time\<close> does; time zones other
  than UTC and fixed offsets are not modelled.
\<close>

type_synonym instant = int

abbreviation nanosecond :: int where "nanosecond \<equiv> 1"
abbreviation second :: int where "second \<equiv> 1000000000"
abbreviation minute :: int where "minute \<equiv> 60 * second"
abbreviation hour :: int where "hour \<equiv> 60 * minute"
abbreviation day :: int where "day \<equiv> 24 * hour"

text \<open>The zero of \<open>time.Time\<close>: the start of year 1.\<close>

definition zero_time :: instant where "zero_time = - 62135596800 * second"

section \<open>Calendar dates\<close>

definition leap_year :: "int \<Rightarrow> bool" where
  "leap_year y = (y mod 4 = 0 \<and> (y mod 100 \<noteq> 0 \<or> y mod 400 = 0))"

definition year_len :: "int \<Rightarrow> nat" where
  "year_len y = (if leap_year y then 366 else 365)"

definition month_lens :: "int \<Rightarrow> nat list" where
  "month_lens y = [31, if leap_year y then 29 else 28, 31, 30, 31, 30, 31, 31, 30, 31, 30, 31]"

text \<open>The lengths of the 400 years of one Gregorian cycle, 146097 days together.\<close>

definition cycle_lens :: "nat list" where
  "cycle_lens = map (\<lambda>y. year_len (int y)) [0..<400]"

text \<open>The segment of a list of lengths a position falls into, and the offset inside it.\<close>

fun locate :: "nat list \<Rightarrow> nat \<Rightarrow> nat \<times> nat" where
  "locate [] d = (0, d)"
| "locate (l # ls) d = (if d < l then (0, d) else apfst Suc (locate ls (d - l)))"

type_synonym date = "int \<times> nat \<times> nat"

text \<open>Day 0 is 1970-01-01, which is day 719528 of the proleptic calendar from 0000-01-01.\<close>

definition civil_of_days :: "int \<Rightarrow> date" where
  "civil_of_days n =
     (let z = n + 719528; cycle = z div 146097;
          (yoc, doy) = locate cycle_lens (nat (z mod 146097));
          y = cycle * 400 + int yoc;
          (m, d) = locate (month_lens y) doy
      in (y, Suc m, Suc d))"

definition days_of_civil :: "date \<Rightarrow> int" where
  "days_of_civil dt =
     (case dt of (y, m, d) \<Rightarrow>
        (y div 400) * 146097 + int (sum_list (take (nat (y mod 400)) cycle_lens))
        + int (sum_list (take (m - 1) (month_lens y))) + (int d - 1) - 719528)"

definition valid_date :: "date \<Rightarrow> bool" where
  "valid_date dt =
     (case dt of (y, m, d) \<Rightarrow> 1 \<le> m \<and> m \<le> 12 \<and> 1 \<le> d \<and> d \<le> month_lens y ! (m - 1))"

lemma locate_sound:
  "d < sum_list ls \<Longrightarrow> locate ls d = (k, r) \<Longrightarrow>
     k < length ls \<and> r < ls ! k \<and> d = sum_list (take k ls) + r"
proof (induction ls arbitrary: d k)
  case (Cons l ls)
  show ?case
  proof (cases "d < l")
    case False
    obtain k' where k': "locate ls (d - l) = (k', r)" "k = Suc k'"
      using Cons.prems False by (cases "locate ls (d - l)") auto
    moreover from Cons.prems(1) False have "d - l < sum_list ls" by simp
    ultimately have "k' < length ls \<and> r < ls ! k' \<and> d - l = sum_list (take k' ls) + r"
      using Cons.IH by blast
    with k' False show ?thesis by auto
  qed (use Cons.prems in auto)
qed simp

lemma locate_complete:
  "k < length ls \<Longrightarrow> r < ls ! k \<Longrightarrow> locate ls (sum_list (take k ls) + r) = (k, r)"
proof (induction ls arbitrary: k)
  case (Cons l ls)
  then show ?case by (cases k) auto
qed simp

lemma length_cycle_lens [simp]: "length cycle_lens = 400"
  by (simp add: cycle_lens_def)

lemma sum_year_lens:
  "sum_list (map (\<lambda>y. year_len (int y)) [0..<n]) + (n + 99) div 100
     = 365 * n + (n + 3) div 4 + (n + 399) div 400"
proof (induction n)
  case (Suc n)
  have s: "(Suc n + a) div b = (n + a) div b + (if n mod b = 0 then 1 else 0)"
    if "b = Suc a" for a b :: nat
  proof -
    have "Suc (n + a) = n + b" using that by simp
    then have "Suc (n + a) mod b = n mod b" by (metis mod_add_self2)
    then show ?thesis using div_Suc [of "n + a" b] by simp
  qed
  have m: "n mod 400 = 0 \<Longrightarrow> n mod 100 = 0" "n mod 100 = 0 \<Longrightarrow> n mod 4 = 0"
    using mod_mod_cancel [of 100 400 n] mod_mod_cancel [of 4 100 n] by simp_all
  have l: "leap_year (int n) \<longleftrightarrow> n mod 4 = 0 \<and> (n mod 100 \<noteq> 0 \<or> n mod 400 = 0)"
  proof -
    have z: "int n mod 4 = int (n mod 4)" "int n mod 100 = int (n mod 100)"
      "int n mod 400 = int (n mod 400)"
      by (simp_all add: zmod_int)
    show ?thesis unfolding leap_year_def z by simp
  qed
  let ?i = "\<lambda>b. if n mod b = 0 then 1 else 0 :: nat"
  have len: "year_len (int n) + ?i 100 = 365 + ?i 4 + ?i 400"
    using m by (simp add: year_len_def l)
  have sum: "sum_list (map (\<lambda>y. year_len (int y)) [0..<Suc n])
      = sum_list (map (\<lambda>y. year_len (int y)) [0..<n]) + year_len (int n)" by simp
  have arith: "S + x = 365 * n + y + z \<Longrightarrow> l + p = 365 + q + r \<Longrightarrow>
      S + l + (x + p) = 365 * Suc n + (y + q) + (z + r)" for S l p q r x y z :: nat
    by simp
  have s4: "(Suc n + 3) div 4 = (n + 3) div 4 + ?i 4" by (rule s) simp
  have s100: "(Suc n + 99) div 100 = (n + 99) div 100 + ?i 100" by (rule s) simp
  have s400: "(Suc n + 399) div 400 = (n + 399) div 400 + ?i 400" by (rule s) simp
  show ?case unfolding sum s4 s100 s400 by (rule arith [OF Suc.IH len])
qed simp

lemma sum_cycle_lens: "sum_list cycle_lens = 146097"
  using sum_year_lens [of 400] by (simp add: cycle_lens_def)

lemma cycle_lens_nth: "k < 400 \<Longrightarrow> cycle_lens ! k = year_len (int k)"
  by (simp add: cycle_lens_def)

lemma leap_year_cycle: "leap_year (c * 400 + y) = leap_year y"
proof -
  have e: "c * 400 = c * 100 * 4" "c * 400 = c * 4 * 100" by simp_all
  have "(c * 400 + y) mod 4 = y mod 4" by (simp only: e(1) mod_mult_self3)
  moreover have "(c * 400 + y) mod 100 = y mod 100" by (simp only: e(2) mod_mult_self3)
  ultimately show ?thesis by (simp add: leap_year_def)
qed

lemma year_len_cycle: "year_len (c * 400 + y) = year_len y"
  by (simp add: year_len_def leap_year_cycle)

lemma sum_month_lens: "sum_list (month_lens y) = year_len y"
  by (cases "leap_year y") (simp_all add: month_lens_def year_len_def)

lemma length_month_lens [simp]: "length (month_lens y) = 12"
  by (simp add: month_lens_def)

lemma civil_of_days_inverse: "days_of_civil (civil_of_days n) = n \<and> valid_date (civil_of_days n)"
proof -
  define z c where "z = n + 719528" and "c = z div 146097"
  obtain k doy where k: "locate cycle_lens (nat (z mod 146097)) = (k, doy)" by fastforce
  define y where "y = c * 400 + int k"
  obtain m d where m: "locate (month_lens y) doy = (m, d)" by fastforce
  have civ: "civil_of_days n = (y, Suc m, Suc d)"
    using k m by (simp add: civil_of_days_def Let_def z_def c_def y_def)
  have k': "k < 400" "doy < cycle_lens ! k" "nat (z mod 146097) = sum_list (take k cycle_lens) + doy"
    using locate_sound [OF _ k] by (auto simp: sum_cycle_lens nat_less_iff)
  have "doy < sum_list (month_lens y)"
    using k'(1,2) by (simp add: sum_month_lens cycle_lens_nth y_def year_len_cycle)
  then have m': "m < 12" "d < month_lens y ! m" "doy = sum_list (take m (month_lens y)) + d"
    using locate_sound [OF _ m] by auto
  have "y div 400 = c" "nat (y mod 400) = k" using k'(1) by (auto simp: y_def)
  moreover have "z = c * 146097 + int (sum_list (take k cycle_lens) + doy)"
    using k'(3) unfolding c_def by (metis div_mult_mod_eq int_nat_eq pos_mod_sign zero_less_numeral)
  ultimately show ?thesis
    using m' unfolding civ by (auto simp: days_of_civil_def valid_date_def z_def)
qed

lemma days_of_civil_inverse:
  assumes "valid_date dt"
  shows "civil_of_days (days_of_civil dt) = dt"
proof -
  obtain y m d where dt: "dt = (y, m, d)" by (cases dt)
  define k where "k = nat (y mod 400)"
  have m: "1 \<le> m" "m \<le> 12" "1 \<le> d" "d \<le> month_lens y ! (m - 1)"
    using assms by (auto simp: dt valid_date_def)
  have k: "k < 400" by (simp add: k_def nat_less_iff)
  have y: "y = y div 400 * 400 + int k" by (simp add: k_def)
  define doy where "doy = sum_list (take (m - 1) (month_lens y)) + (d - 1)"
  have loc: "locate (month_lens y) doy = (m - 1, d - 1)"
    unfolding doy_def by (rule locate_complete) (use m in auto)
  have "doy < sum_list (month_lens y)"
  proof -
    have "sum_list (take (Suc (m - 1)) (month_lens y)) \<le> sum_list (month_lens y)"
      by (metis append_take_drop_id le_add1 sum_list_append)
    moreover have "doy < sum_list (take (Suc (m - 1)) (month_lens y))"
    proof -
      have "m - 1 < length (month_lens y)" using m by simp
      then have "sum_list (take (Suc (m - 1)) (month_lens y))
          = sum_list (take (m - 1) (month_lens y)) + month_lens y ! (m - 1)"
        by (simp add: take_Suc_conv_app_nth)
      with m show ?thesis by (simp add: doy_def)
    qed
    ultimately show ?thesis by simp
  qed
  then have doy: "doy < cycle_lens ! k"
    using k y by (metis cycle_lens_nth sum_month_lens year_len_cycle)
  have loc2: "locate cycle_lens (sum_list (take k cycle_lens) + doy) = (k, doy)"
    by (rule locate_complete) (use k doy in auto)
  have "sum_list (take k cycle_lens) + doy < sum_list cycle_lens"
  proof -
    have "sum_list (take (Suc k) cycle_lens) \<le> sum_list cycle_lens"
      by (metis append_take_drop_id le_add1 sum_list_append)
    then show ?thesis using k doy by (simp add: take_Suc_conv_app_nth)
  qed
  then have lt: "sum_list (take k cycle_lens) + doy < 146097" by (simp add: sum_cycle_lens)
  define z where "z = days_of_civil dt + 719528"
  have z: "z = y div 400 * 146097 + int (sum_list (take k cycle_lens) + doy)"
    using m by (simp add: z_def days_of_civil_def dt k_def doy_def)
  have "z div 146097 = y div 400" "nat (z mod 146097) = sum_list (take k cycle_lens) + doy"
    using lt unfolding z by auto
  then show ?thesis
    using loc loc2 y m unfolding civil_of_days_def z_def [symmetric]
    by (simp add: Let_def dt)
qed

section \<open>Formatting\<close>

definition date_of :: "instant \<Rightarrow> date" where
  "date_of t = civil_of_days (t div day)"

text \<open>\<open>%04d\<close> with Go's sign rule for years outside 0..9999.\<close>

definition fmt_year :: "int \<Rightarrow> string" where
  "fmt_year y =
     (if y < 0 then ''-'' @ (if - y < 10000 then pad_dec 4 (nat (- y)) else itoa (nat (- y)))
      else if y < 10000 then pad_dec 4 (nat y) else itoa (nat y))"

definition fmt_date :: "date \<Rightarrow> string" where
  "fmt_date dt = (case dt of (y, m, d) \<Rightarrow> fmt_year y @ ''-'' @ pad_dec 2 m @ ''-'' @ pad_dec 2 d)"

definition clock_of :: "instant \<Rightarrow> nat \<times> nat \<times> nat" where
  "clock_of t =
     (let s = nat (t mod day div second) in (s div 3600, s mod 3600 div 60, s mod 60))"

definition fmt_clock :: "nat \<times> nat \<times> nat \<Rightarrow> string" where
  "fmt_clock c = (case c of (h, mi, s) \<Rightarrow> pad_dec 2 h @ '':'' @ pad_dec 2 mi @ '':'' @ pad_dec 2 s)"

text \<open>The layout element \<open>.999999999\<close>: nine digits less trailing zeros, nothing for 0.\<close>

definition drop_zeros :: "string \<Rightarrow> string" where
  "drop_zeros s = rev (dropWhile (\<lambda>c. c = CHR ''0'') (rev s))"

definition fmt_frac :: "nat \<Rightarrow> string" where
  "fmt_frac ns = (if ns = 0 then [] else ''.'' @ drop_zeros (pad_dec 9 ns))"

text \<open>\<open>t.UTC().Format(time.RFC3339)\<close>, \<open>(time.RFC3339Nano)\<close> and the two other layouts in use.\<close>

definition format_rfc3339 :: "instant \<Rightarrow> string" where
  "format_rfc3339 t = fmt_date (date_of t) @ ''T'' @ fmt_clock (clock_of t) @ ''Z''"

definition format_rfc3339_nano :: "instant \<Rightarrow> string" where
  "format_rfc3339_nano t =
     fmt_date (date_of t) @ ''T'' @ fmt_clock (clock_of t) @ fmt_frac (nat (t mod second)) @ ''Z''"

definition format_date_only :: "instant \<Rightarrow> string" where
  "format_date_only t = fmt_date (date_of t)"

definition format_ical :: "instant \<Rightarrow> string" where
  "format_ical t =
     (case date_of t of (y, m, d) \<Rightarrow> case clock_of t of (h, mi, s) \<Rightarrow>
        fmt_year y @ pad_dec 2 m @ pad_dec 2 d @ ''T'' @ pad_dec 2 h @ pad_dec 2 mi @ pad_dec 2 s @ ''Z'')"

section \<open>Parsing\<close>

text \<open>A parser consumes a prefix of the string and returns the rest.\<close>

definition take_dec :: "nat \<Rightarrow> string \<Rightarrow> (nat \<times> string) option" where
  "take_dec w s =
     (if length s < w then None
      else map_option (\<lambda>n. (n, drop w s)) (read_dec (take w s)))"

definition expect :: "char \<Rightarrow> string \<Rightarrow> string option" where
  "expect c s = (case s of x # r \<Rightarrow> if x = c then Some r else None | [] \<Rightarrow> None)"

text \<open>
  \<open>getnum(value, false)\<close>, which the layout element for hours uses: one or two digits.
\<close>

definition take_hour :: "string \<Rightarrow> (nat \<times> string) option" where
  "take_hour s =
     (case take_dec 2 s of Some r \<Rightarrow> Some r | None \<Rightarrow> take_dec 1 s)"

text \<open>
  Fractional seconds are read whether or not the layout asks for them: a point or comma
  and at least one digit; digits past the ninth are dropped.
\<close>

definition is_dec :: "char \<Rightarrow> bool" where
  "is_dec c = (dec_val c \<noteq> None)"

definition take_frac :: "string \<Rightarrow> nat \<times> string" where
  "take_frac s =
     (case s of
        p # r \<Rightarrow>
          if (p = CHR ''.'' \<or> p = CHR '','') \<and> takeWhile is_dec r \<noteq> []
          then (let ds = take 9 (takeWhile is_dec r) in
                (the (read_dec (ds @ replicate (9 - length ds) (CHR ''0''))), dropWhile is_dec r))
          else (0, s)
      | [] \<Rightarrow> (0, s))"

text \<open>The zone \<open>Z07:00\<close>: \<open>Z\<close>, or a sign, hours up to 24 and minutes up to 60 (as Go accepts).\<close>

definition take_zone :: "string \<Rightarrow> (int \<times> string) option" where
  "take_zone s =
     (case s of
        [] \<Rightarrow> None
      | c # r \<Rightarrow>
          if c = CHR ''Z'' then Some (0, r)
          else if c = CHR ''+'' \<or> c = CHR ''-'' then
            do { (h, r1) \<leftarrow> take_dec 2 r; r2 \<leftarrow> expect (CHR '':'') r1; (mi, r3) \<leftarrow> take_dec 2 r2;
                 if h \<le> 24 \<and> mi \<le> 60
                 then Some ((if c = CHR ''+'' then 1 else -1) * (int h * hour + int mi * minute), r3)
                 else None }
          else None)"

definition instant_of :: "date \<Rightarrow> nat \<Rightarrow> nat \<Rightarrow> nat \<Rightarrow> nat \<Rightarrow> instant" where
  "instant_of dt h mi s ns =
     days_of_civil dt * day + int h * hour + int mi * minute + int s * second + int ns"

definition take_date :: "string \<Rightarrow> (date \<times> string) option" where
  "take_date s0 =
     do { (y, s1) \<leftarrow> take_dec 4 s0; s2 \<leftarrow> expect (CHR ''-'') s1;
          (m, s3) \<leftarrow> take_dec 2 s2; s4 \<leftarrow> expect (CHR ''-'') s3; (d, s5) \<leftarrow> take_dec 2 s4;
          Some ((int y, m, d), s5) }"

definition parse_rfc3339 :: "string \<Rightarrow> instant option" where
  "parse_rfc3339 s0 =
     do { (dt, s1) \<leftarrow> take_date s0; s2 \<leftarrow> expect (CHR ''T'') s1;
          (h, s3) \<leftarrow> take_hour s2; s4 \<leftarrow> expect (CHR '':'') s3;
          (mi, s5) \<leftarrow> take_dec 2 s4; s6 \<leftarrow> expect (CHR '':'') s5;
          (sc, s7) \<leftarrow> take_dec 2 s6;
          let (ns, s8) = take_frac s7;
          (off, s9) \<leftarrow> take_zone s8;
          if s9 = [] \<and> valid_date dt \<and> h < 24 \<and> mi < 60 \<and> sc < 60
          then Some (instant_of dt h mi sc ns - off) else None }"

definition parse_date_only :: "string \<Rightarrow> instant option" where
  "parse_date_only s0 =
     do { (dt, s1) \<leftarrow> take_date s0;
          if s1 = [] \<and> valid_date dt then Some (instant_of dt 0 0 0 0) else None }"

section \<open>Formatting and parsing are inverse\<close>

lemma take_dec_pad: "n < 10 ^ w \<Longrightarrow> 0 < w \<Longrightarrow> take_dec w (pad_dec w n @ r) = Some (n, r)"
  by (simp add: take_dec_def read_pad_dec)

lemma expect_Cons [simp]: "expect c (c # r) = Some r"
  by (simp add: expect_def)

lemma month_len_le: "k < 12 \<Longrightarrow> month_lens y ! k \<le> 31"
proof -
  assume "k < 12"
  then have "month_lens y ! k \<in> set (month_lens y)" by (simp add: nth_mem)
  then show ?thesis by (auto simp: month_lens_def split: if_splits)
qed

lemma valid_date_bounds:
  assumes "valid_date (y, m, d)"
  shows "1 \<le> m" "m \<le> 12" "1 \<le> d" "d \<le> 31"
  using assms month_len_le [of "m - 1" y] by (auto simp: valid_date_def intro: le_trans)

lemma take_date_fmt:
  assumes "valid_date (y, m, d)" and "0 \<le> y" and "y < 10000"
  shows "take_date (fmt_date (y, m, d) @ r) = Some ((y, m, d), r)"
  using assms valid_date_bounds [OF assms(1)]
  by (simp add: take_date_def fmt_date_def fmt_year_def take_dec_pad nat_less_iff)

lemma take_hour_pad: "h < 100 \<Longrightarrow> take_hour (pad_dec 2 h @ r) = Some (h, r)"
  by (simp add: take_hour_def take_dec_pad)

lemma drop_zeros_pad:
  assumes "0 < ns" and "ns < 10 ^ 9"
  defines "ds \<equiv> drop_zeros (pad_dec 9 ns)"
  shows "ds \<noteq> []" and "list_all is_dec ds" and "length ds \<le> 9"
    and "ds @ replicate (9 - length ds) (CHR ''0'') = pad_dec 9 ns"
proof -
  let ?p = "pad_dec 9 ns" and ?z = "\<lambda>c. c = CHR ''0''"
  have split: "?p = ds @ rev (takeWhile ?z (rev ?p))"
    unfolding ds_def drop_zeros_def
    by (metis rev_append rev_rev_ident takeWhile_dropWhile_id)
  moreover have "takeWhile ?z (rev ?p) = replicate (length (takeWhile ?z (rev ?p))) (CHR ''0'')"
    by (rule replicate_length_same [symmetric]) (auto dest: set_takeWhileD)
  ultimately have p: "?p = ds @ replicate (length (takeWhile ?z (rev ?p))) (CHR ''0'')"
    by (metis rev_replicate)
  then have len: "9 = length ds + length (takeWhile ?z (rev ?p))"
    by (metis length_append length_pad_dec length_replicate)
  then show "length ds \<le> 9" by simp
  from len have "9 - length ds = length (takeWhile ?z (rev ?p))" by simp
  with p show "ds @ replicate (9 - length ds) (CHR ''0'') = pad_dec 9 ns" by simp
  have "\<forall>c \<in> set ?p. is_dec c"
    using pad_dec_digits by (auto simp: is_dec_def dec_val_def)
  then show "list_all is_dec ds"
    using split by (metis list_all_iff Un_iff set_append)
  show "ds \<noteq> []"
  proof
    assume "ds = []"
    with p len have "?p = replicate 9 (CHR ''0'')" by simp
    moreover have "?p = pad_dec 9 0 \<Longrightarrow> ns = 0"
      using read_pad_dec [of ns 9] read_pad_dec [of 0 9] assms(2) by simp
    moreover have "pad_dec 9 0 = replicate 9 (CHR ''0'')" by code_simp
    ultimately show False using assms(1) by simp
  qed
qed

lemma take_frac_fmt: "ns < 10 ^ 9 \<Longrightarrow> take_frac (fmt_frac ns @ ''Z'') = (ns, ''Z'')"
proof (cases "ns = 0")
  case True
  then show ?thesis by (simp add: take_frac_def fmt_frac_def)
next
  case False
  assume lt: "ns < 10 ^ 9"
  define ds where "ds = drop_zeros (pad_dec 9 ns)"
  note facts = drop_zeros_pad [OF _ lt, folded ds_def]
  have "\<not> is_dec (CHR ''Z'')" by (simp add: is_dec_def dec_val_def)
  moreover have "\<forall>c \<in> set ds. is_dec c" using facts(2) False by (simp add: list_all_iff)
  ultimately have "takeWhile is_dec (ds @ ''Z'') = ds" "dropWhile is_dec (ds @ ''Z'') = ''Z''"
    by (simp_all add: takeWhile_append2 dropWhile_append2)
  moreover have "fmt_frac ns @ ''Z'' = CHR ''.'' # (ds @ ''Z'')"
    using False by (simp add: fmt_frac_def ds_def)
  ultimately show ?thesis
    using facts False read_pad_dec [of ns 9] lt by (simp add: take_frac_def Let_def)
qed

definition year_of :: "instant \<Rightarrow> int" where
  "year_of t = fst (date_of t)"

lemma clock_bounds:
  assumes "clock_of t = (h, mi, s)"
  shows "h < 24" "mi < 60" "s < 60"
    "int h * 3600 + int mi * 60 + int s = t mod day div second"
proof -
  define n where "n = nat (t mod day div second)"
  have "t mod day < day" "0 \<le> t mod day" by simp_all
  then have "t mod day div second < 86400" "0 \<le> t mod day div second"
    by (simp_all add: div_int_pos_iff zdiv_mono1 int_div_less_self)
  then have n: "n < 86400" "int n = t mod day div second" by (simp_all add: n_def nat_less_iff)
  have c: "h = n div 3600" "mi = n mod 3600 div 60" "s = n mod 60"
    using assms by (auto simp: clock_of_def Let_def n_def)
  show "h < 24" "mi < 60" "s < 60"
    using n(1) unfolding c by (simp_all add: less_mult_imp_div_less)
  have "n mod 60 = n mod 3600 mod 60" by (simp add: mod_mod_cancel)
  then have low: "mi * 60 + s = n mod 3600"
    unfolding c by (simp only: div_mult_mod_eq)
  have sum: "h * 3600 + (mi * 60 + s) = n" unfolding low unfolding c by (rule div_mult_mod_eq)
  have "int h * 3600 + int mi * 60 + int s = int (h * 3600 + (mi * 60 + s))"
    by (simp only: of_nat_add of_nat_mult of_nat_numeral add.assoc)
  also have "\<dots> = t mod day div second" unfolding sum by (rule n(2))
  finally show "int h * 3600 + int mi * 60 + int s = t mod day div second" .
qed

lemma instant_of_parts:
  assumes "clock_of t = (h, mi, s)"
  shows "instant_of (date_of t) h mi s (nat (t mod second)) = t"
proof -
  have days: "days_of_civil (date_of t) = t div day"
    by (simp add: date_of_def civil_of_days_inverse)
  have ns: "int (nat (t mod second)) = t mod second" by (rule nat_0_le) simp
  have "second dvd day" by simp
  then have sub: "t mod day mod second = t mod second" by (rule mod_mod_cancel)
  define q where "q = t mod day"
  have q: "q div second * second + q mod second = q" by (rule div_mult_mod_eq)
  have hms: "int h * hour + int mi * minute + int s * second = (q div second) * second"
    using clock_bounds(4) [OF assms] unfolding q_def [symmetric] by (simp add: algebra_simps)
  have "instant_of (date_of t) h mi s (nat (t mod second))
      = t div day * day + (int h * hour + int mi * minute + int s * second) + t mod second"
    unfolding instant_of_def days ns by (simp only: add.assoc)
  also have "\<dots> = t div day * day + (q div second * second + q mod second)"
    unfolding hms sub [symmetric] q_def by (simp only: add.assoc)
  also have "\<dots> = t" unfolding q unfolding q_def by (rule div_mult_mod_eq)
  finally show ?thesis .
qed

lemma parse_format_rfc3339_nano:
  assumes "0 \<le> year_of t" and "year_of t < 10000"
  shows "parse_rfc3339 (format_rfc3339_nano t) = Some t"
proof -
  obtain y m d where dt: "date_of t = (y, m, d)" by (cases "date_of t")
  obtain h mi s where c: "clock_of t = (h, mi, s)" by (cases "clock_of t")
  have v: "valid_date (y, m, d)"
    using civil_of_days_inverse [of "t div day"] unfolding dt [symmetric] date_of_def by blast
  have y: "0 \<le> y" "y < 10000" using assms by (simp_all add: year_of_def dt)
  have ns: "nat (t mod second) < 10 ^ 9" by (simp add: nat_less_iff)
  note b = clock_bounds [OF c]
  have inst: "instant_of (y, m, d) h mi s (nat (t mod second)) = t"
    using instant_of_parts [OF c] by (simp add: dt)
  show ?thesis
    unfolding parse_rfc3339_def format_rfc3339_nano_def dt c fmt_clock_def
    using b(1-3) v inst
    by (simp add: take_date_fmt [OF v y] take_hour_pad take_dec_pad take_frac_fmt [OF ns]
        take_zone_def)
qed

text \<open>The separator of the cursor does not occur in a formatted instant.\<close>

lemma pad_dec_no_bar [simp]: "CHR ''|'' \<notin> set (pad_dec w n)"
  using pad_dec_digits [of "CHR ''|''" w n] by auto

lemma itoa_no_bar [simp]: "CHR ''|'' \<notin> set (itoa n)"
proof (induction n rule: itoa.induct)
  case (1 n)
  have d: "digit_char d \<noteq> CHR ''|''" if "d < 10" for d
    using that by (auto simp: digit_char_def dest!: arg_cong [where f = byte_of])
  show ?case
  proof (cases "n < 10")
    case True
    with d [of n] show ?thesis by (subst itoa.simps) auto
  next
    case False
    with 1 d [of "n mod 10"] show ?thesis by (subst itoa.simps) auto
  qed
qed

lemma format_rfc3339_nano_no_bar: "CHR ''|'' \<notin> set (format_rfc3339_nano t)"
proof -
  have "set (drop_zeros (pad_dec 9 n)) \<subseteq> set (pad_dec 9 n)" for n
    unfolding drop_zeros_def using set_dropWhileD by fastforce
  then have "CHR ''|'' \<notin> set (drop_zeros (pad_dec 9 n))" for n
    using pad_dec_no_bar by blast
  then show ?thesis
    by (auto simp: format_rfc3339_nano_def fmt_date_def fmt_year_def fmt_clock_def fmt_frac_def
        split: prod.splits)
qed

end
