(* ===== verification/Schema.thy ===== *)
theory Schema
  imports Float64 Codec GoTime
begin

text \<open>
  The database the service keeps (\<open>internal/store/models.go\<close> and \<open>sql/migrations\<close>):
  one record per table row, one list of rows per table, and the constraints the migrations
  declare. A nullable column is an option. A JSONB column is a \<open>json\<close> value. An
  embedding is its list of components.
\<close>

section \<open>Accounts\<close>

record city_row =
  c_id :: uuid
  c_slug :: string
  c_name :: string
  c_timezone :: string

record user_row =
  u_id :: uuid
  u_email :: string
  u_password_hash :: string
  u_city_id :: uuid
  u_embedding :: "real list option"
  u_embedding_at :: "instant option"
  u_created_at :: instant
  u_deleted_at :: "instant option"
  u_score_threshold :: "f64 option"
  u_confirmed :: bool
  u_show_setlists :: bool

record refresh_row =
  rt_id :: uuid
  rt_user_id :: uuid
  rt_token_hash :: string
  rt_expires_at :: instant
  rt_revoked_at :: "instant option"
  rt_created_at :: instant

text \<open>\<open>email_confirmations\<close> and \<open>password_resets\<close> have the same columns.\<close>

record link_row =
  lk_user_id :: uuid
  lk_token_hash :: string
  lk_expires_at :: instant
  lk_consumed_at :: "instant option"
  lk_created_at :: instant

record ical_row =
  ic_user_id :: uuid
  ic_token_hash :: string
  ic_created_at :: instant
  ic_last_accessed_at :: "instant option"

record spotify_row =
  sp_user_id :: uuid
  sp_access_enc :: string
  sp_refresh_enc :: string
  sp_expires_at :: instant
  sp_scope :: string
  sp_last_synced_at :: "instant option"

record interest_row =
  ui_id :: uuid
  ui_user_id :: uuid
  ui_kind :: string
  ui_value :: string
  ui_normalized :: string
  ui_weight :: real
  ui_created_at :: instant
  ui_updated_at :: instant

section \<open>The catalogue\<close>

record venue_row =
  v_id :: uuid
  v_city_id :: uuid
  v_name :: string
  v_normalized :: string
  v_address :: "string option"
  v_lat :: "real option"
  v_lng :: "real option"
  v_website :: "string option"

record source_row =
  es_id :: uuid
  es_name :: string
  es_exempt :: bool

record event_row =
  e_id :: uuid
  e_source_id :: uuid
  e_source_event_id :: string
  e_title :: string
  e_description :: string
  e_starts_at :: instant
  e_ends_at :: "instant option"
  e_venue_id :: uuid
  e_image_url :: "string option"
  e_url :: "string option"
  e_embedding :: "real list option"
  e_last_seen_at :: instant
  e_archived_at :: "instant option"
  e_updated_at :: instant
  e_time_tbd :: bool
  e_headline_artist_id :: "uuid option"
  e_segment :: "string option"

record performer_row =
  ep_event_id :: uuid
  ep_name :: string
  ep_normalized :: string

record artist_row =
  a_id :: uuid
  a_name_key :: string
  a_display_name :: string
  a_mbid :: "string option"
  a_disambiguation :: "string option"
  a_type :: "string option"
  a_country :: "string option"
  a_begin_year :: "string option"
  a_status :: string
  a_resolved_at :: instant

record image_row =
  ai_artist_id :: uuid
  ai_status :: string
  ai_url :: "string option"
  ai_width :: "int option"
  ai_height :: "int option"
  ai_file :: "string option"
  ai_source :: "string option"
  ai_credit :: "json option"
  ai_reason :: "string option"
  ai_checked_at :: instant

record bio_row =
  ab_artist_id :: uuid
  ab_status :: string
  ab_bio_md :: "string option"
  ab_sources :: json
  ab_model :: "string option"
  ab_reason :: "string option"
  ab_generated_at :: instant

record tour_row =
  at_artist_id :: uuid
  at_status :: string
  at_tour_name :: "string option"
  at_songs :: json
  at_observed_date :: "instant option"
  at_observed_venue :: "string option"
  at_observed_city :: "string option"
  at_setlist_url :: "string option"
  at_blurb :: "string option"
  at_blurb_model :: "string option"
  at_reason :: "string option"
  at_fetched_at :: instant

section \<open>What links users to events\<close>

record match_row =
  m_user_id :: uuid
  m_event_id :: uuid
  m_score :: f64
  m_breakdown :: json
  m_computed_at :: instant

record manual_row =
  mg_id :: uuid
  mg_user_id :: uuid
  mg_show_date :: instant
  mg_event_name :: string
  mg_venue_name :: string
  mg_created_at :: instant
  mg_updated_at :: instant

record poster_row =
  pj_id :: string
  pj_user_id :: uuid
  pj_performer :: string
  pj_venue :: string
  pj_date :: string
  pj_status :: string
  pj_png_key :: "string option"
  pj_artist :: "json option"
  pj_credit :: "json option"
  pj_failure_stage :: "string option"
  pj_failure_reason :: "string option"
  pj_created_at :: instant
  pj_updated_at :: instant

record genre_cache_row =
  gc_name_key :: string
  gc_mbid :: "string option"
  gc_genres :: json
  gc_status :: string
  gc_resolved_at :: instant

section \<open>The database\<close>

record db =
  cities :: "city_row list"
  users :: "user_row list"
  refresh_tokens :: "refresh_row list"
  confirmations :: "link_row list"
  resets :: "link_row list"
  ical_tokens :: "ical_row list"
  spotify_tokens :: "spotify_row list"
  interests :: "interest_row list"
  venues :: "venue_row list"
  sources :: "source_row list"
  events :: "event_row list"
  performers :: "performer_row list"
  event_genres :: "(uuid \<times> string) list"
  genres :: "string list"
  artists :: "artist_row list"
  images :: "image_row list"
  bios :: "bio_row list"
  tours :: "tour_row list"
  matches :: "match_row list"
  going :: "(uuid \<times> uuid) list"
  not_interested :: "(uuid \<times> uuid) list"
  manual_events :: "manual_row list"
  poster_jobs :: "poster_row list"
  match_config :: "(string \<times> json) list"
  genre_cache :: "genre_cache_row list"

definition empty_db :: db where
  "empty_db =
     \<lparr>cities = [], users = [], refresh_tokens = [], confirmations = [], resets = [], ical_tokens = [],
      spotify_tokens = [], interests = [], venues = [], sources = [], events = [],
      performers = [], event_genres = [], genres = [], artists = [], images = [], bios = [],
      tours = [], matches = [], going = [], not_interested = [], manual_events = [],
      poster_jobs = [], match_config = [], genre_cache = []\<rparr>"

definition user_exists :: "db \<Rightarrow> uuid \<Rightarrow> bool" where
  "user_exists d u = has_row (\<lambda>r. u_id r = u) (users d)"

definition event_exists :: "db \<Rightarrow> uuid \<Rightarrow> bool" where
  "event_exists d e = has_row (\<lambda>r. e_id r = e) (events d)"

definition artist_exists :: "db \<Rightarrow> uuid \<Rightarrow> bool" where
  "artist_exists d a = has_row (\<lambda>r. a_id r = a) (artists d)"

text \<open>\<open>event_over_at\<close>: the instant after which an event is over (migration 0024).\<close>

definition event_over_at :: "event_row \<Rightarrow> instant" where
  "event_over_at e =
     (if e_time_tbd e then e_starts_at e + day
      else case e_ends_at e of Some t \<Rightarrow> t | None \<Rightarrow> e_starts_at e + 4 * hour)"

definition showable :: "instant \<Rightarrow> event_row \<Rightarrow> bool" where
  "showable now e = (e_archived_at e = None \<and> now < event_over_at e)"

section \<open>Queries\<close>

text \<open>
  A query runs at the database's clock on the database and either fails, leaving the
  database as it was (each is one statement), or returns rows and the new database.
  \<open>NoRows\<close> is \<open>pgx.ErrNoRows\<close>; \<open>Unique\<close> and \<open>ForeignKey\<close> are the Postgres errors
  23505 and 23503; \<open>CheckFailed\<close> is 23514; \<open>Unavailable\<close> stands for every failure
  of the connection.
\<close>

datatype db_error = NoRows | Unique | ForeignKey | CheckFailed | Unavailable

type_synonym 'a query = "instant \<Rightarrow> db \<Rightarrow> db_error + ('a \<times> db)"

end
