(* ===== verification/World.thy ===== *)
theory World
  imports Schema GoStrings
begin

text \<open>
  The world the request handlers act on: the database, the clock, the random source, the
  mail that went out, the queue messages that were published and the access tokens that
  were signed. Every call out of the process (a query, a read of random bytes, a mail, a
  publish) is one step; the outside says what the clock reads at each step, which bytes and
  ids come back, and whether the call fails, before or after it took effect. Handlers are
  programs of the library's state monad over the world, so every theorem about them
  covers every schedule of failures.
\<close>

section \<open>The outside and the world\<close>

datatype fault =
    NoFault       \<comment> \<open>the call takes effect and answers\<close>
  | FaultBefore   \<comment> \<open>the call fails and nothing happened\<close>
  | FaultAfter    \<comment> \<open>the call took effect and its answer was lost\<close>

record outside =
  clock :: "nat \<Rightarrow> instant"
  fault_at :: "nat \<Rightarrow> fault"
  rand_bytes :: "nat \<Rightarrow> nat \<Rightarrow> string option"
  fresh_uuid :: "nat \<Rightarrow> uuid"

text \<open>\<open>email.Message\<close>; the kinds of mail are the three constructors of \<open>email.go\<close>.\<close>

record mail =
  mail_to :: string
  mail_subject :: string
  mail_html :: string
  mail_text :: string

record 'l world =
  w_env :: outside
  w_step :: nat
  w_db :: db
  w_sent :: "mail list"
  w_published :: "(string \<times> json) list"
  w_minted :: "(uuid \<times> bool) list"
  w_limits :: 'l

type_synonym ('l, 'a) act = "('l world, 'a) state"

text \<open>The world at the start of a process: the outside, a database and a limiter state.\<close>

definition init_world :: "outside \<Rightarrow> db \<Rightarrow> 'l \<Rightarrow> 'l world" where
  "init_world E d l =
     \<lparr>w_env = E, w_step = 0, w_db = d, w_sent = [], w_published = [], w_minted = [], w_limits = l\<rparr>"

definition tick :: "'l world \<Rightarrow> 'l world" where
  "tick w = w\<lparr>w_step := Suc (w_step w)\<rparr>"

definition now_of :: "'l world \<Rightarrow> instant" where
  "now_of w = clock (w_env w) (w_step w)"

definition fault_of :: "'l world \<Rightarrow> fault" where
  "fault_of w = fault_at (w_env w) (w_step w)"

definition fresh_of :: "'l world \<Rightarrow> uuid" where
  "fresh_of w = fresh_uuid (w_env w) (w_step w)"

abbreviation ret :: "'a \<Rightarrow> ('l, 'a) act" where "ret x \<equiv> State_Monad.return x"

section \<open>Calls out of the process\<close>

definition run_query :: "'a query \<Rightarrow> 'l world \<Rightarrow> (db_error + 'a) \<times> 'l world" where
  "run_query q w =
     (case fault_of w of
        FaultBefore \<Rightarrow> (Inl Unavailable, tick w)
      | NoFault \<Rightarrow>
          (case q (now_of w) (w_db w) of
             Inl e \<Rightarrow> (Inl e, tick w)
           | Inr (a, d) \<Rightarrow> (Inr a, tick (w\<lparr>w_db := d\<rparr>)))
      | FaultAfter \<Rightarrow>
          (case q (now_of w) (w_db w) of
             Inl e \<Rightarrow> (Inl Unavailable, tick w)
           | Inr (a, d) \<Rightarrow> (Inl Unavailable, tick (w\<lparr>w_db := d\<rparr>))))"

definition db_call :: "'a query \<Rightarrow> ('l, db_error + 'a) act" where
  "db_call q = State (run_query q)"

text \<open>A query whose row gets an id from \<open>gen_random_uuid()\<close>.\<close>

definition db_insert :: "(uuid \<Rightarrow> 'a query) \<Rightarrow> ('l, db_error + 'a) act" where
  "db_insert f = State (\<lambda>w. run_query (f (fresh_of w)) w)"

text \<open>\<open>rand.Read\<close> of \<open>n\<close> bytes; None is its error.\<close>

definition read_random :: "nat \<Rightarrow> ('l, string option) act" where
  "read_random n =
     State (\<lambda>w. (map_option (\<lambda>s. take n (s @ replicate n (CHR 0x00))) (rand_bytes (w_env w) (w_step w) n),
                 tick w))"

definition time_now :: "('l, instant) act" where
  "time_now = State (\<lambda>w. (now_of w, w))"

text \<open>\<open>Sender.Send\<close>: true when it returns a nil error.\<close>

definition send_mail :: "mail \<Rightarrow> ('l, bool) act" where
  "send_mail m =
     State (\<lambda>w. case fault_of w of
        FaultBefore \<Rightarrow> (False, tick w)
      | NoFault \<Rightarrow> (True, tick (w\<lparr>w_sent := w_sent w @ [m]\<rparr>))
      | FaultAfter \<Rightarrow> (False, tick (w\<lparr>w_sent := w_sent w @ [m]\<rparr>)))"

text \<open>\<open>queue.Client.Publish\<close> of a JSON message to a queue.\<close>

definition publish :: "string \<Rightarrow> json \<Rightarrow> ('l, bool) act" where
  "publish url m =
     State (\<lambda>w. case fault_of w of
        FaultBefore \<Rightarrow> (False, tick w)
      | NoFault \<Rightarrow> (True, tick (w\<lparr>w_published := w_published w @ [(url, m)]\<rparr>))
      | FaultAfter \<Rightarrow> (False, tick (w\<lparr>w_published := w_published w @ [(url, m)]\<rparr>)))"

definition log_minted :: "uuid \<times> bool \<Rightarrow> ('l, unit) act" where
  "log_minted c = State (\<lambda>w. ((), w\<lparr>w_minted := w_minted w @ [c]\<rparr>))"

lemma run_state_calls [simp]:
  "run_state (db_call q) w = run_query q w"
  "run_state (db_insert f) w = run_query (f (fresh_of w)) w"
  "run_state time_now w = (now_of w, w)"
  "run_state (log_minted c) w = ((), w\<lparr>w_minted := w_minted w @ [c]\<rparr>)"
  by (simp_all add: db_call_def db_insert_def time_now_def log_minted_def)

lemma tick_fields [simp]:
  "w_env (tick w) = w_env w" "w_step (tick w) = Suc (w_step w)" "w_db (tick w) = w_db w"
  "w_sent (tick w) = w_sent w" "w_published (tick w) = w_published w"
  "w_minted (tick w) = w_minted w" "w_limits (tick w) = w_limits w"
  by (simp_all add: tick_def)

section \<open>Requests and responses\<close>

datatype cookie_op = KeepCookie | SetRefresh string instant | ClearRefresh

datatype body =
    NoBody
  | ErrBody string string      \<comment> \<open>the envelope of \<open>httperr\<close>: code and message\<close>
  | JsonBody json
  | TextBody string

record response =
  r_status :: nat
  r_location :: "string option"
  r_retry_after :: "int option"
  r_cookie :: cookie_op
  r_body :: body

type_synonym 'l handler = "('l, response) act"

definition respond :: "nat \<Rightarrow> body \<Rightarrow> response" where
  "respond s b =
     \<lparr>r_status = s, r_location = None, r_retry_after = None, r_cookie = KeepCookie, r_body = b\<rparr>"

text \<open>
  \<open>writeJSON\<close>: the status is written first, and a value that cannot be encoded leaves the
  body empty.
\<close>

definition write_json :: "nat \<Rightarrow> json \<Rightarrow> response" where
  "write_json s j = respond s (if encodable j then JsonBody j else NoBody)"

text \<open>\<open>httperr.Write\<close> (and \<open>WriteErr\<close>, which logs besides).\<close>

definition http_err :: "nat \<Rightarrow> string \<Rightarrow> string \<Rightarrow> response" where
  "http_err s c m = respond s (ErrBody c m)"

definition no_content :: response where
  "no_content = respond 204 NoBody"

text \<open>\<open>http.Redirect\<close> with \<open>StatusFound\<close>.\<close>

definition redirect :: "string \<Rightarrow> response" where
  "redirect url = (respond 302 NoBody)\<lparr>r_location := Some url\<rparr>"

text \<open>The user id a handler takes is that of the request context, None outside \<open>RequireAuth\<close>.\<close>

definition no_user :: response where
  "no_user = http_err 401 ''no_user'' ''user not in context''"

lemma response_fields [simp]:
  "r_status (respond s b) = s" "r_body (respond s b) = b" "r_cookie (respond s b) = KeepCookie"
  "r_location (respond s b) = None"
  "r_status (http_err s c m) = s" "r_body (http_err s c m) = ErrBody c m"
  "r_cookie (http_err s c m) = KeepCookie" "r_location (http_err s c m) = None"
  "r_status no_content = 204" "r_body no_content = NoBody" "r_cookie no_content = KeepCookie"
  "r_status (redirect u) = 302" "r_location (redirect u) = Some u" "r_cookie (redirect u) = KeepCookie"
  "r_status no_user = 401"
  by (simp_all add: respond_def http_err_def no_content_def redirect_def no_user_def)

section \<open>The rate-limiter interface\<close>

text \<open>
  \<open>ratelimit.Limiter\<close>: \<open>Allow\<close> answers a decision, \<open>Record\<close> spends. The clock of the
  limiter is an argument. The errors of the interface are only logged by every caller
  (the contract makes them fail open), so the operations return the decision alone.
\<close>

record decision =
  d_allowed :: bool
  d_retry_after :: int

record 'l limiter =
  l_allow :: "instant \<Rightarrow> string \<Rightarrow> 'l \<Rightarrow> decision \<times> 'l"
  l_record :: "instant \<Rightarrow> string \<Rightarrow> 'l \<Rightarrow> 'l"

definition limit_allow :: "'l limiter \<Rightarrow> string \<Rightarrow> ('l, decision) act" where
  "limit_allow L k =
     State (\<lambda>w. let (d, l) = l_allow L (now_of w) k (w_limits w) in (d, w\<lparr>w_limits := l\<rparr>))"

definition limit_record :: "'l limiter \<Rightarrow> string \<Rightarrow> ('l, unit) act" where
  "limit_record L k = State (\<lambda>w. ((), w\<lparr>w_limits := l_record L (now_of w) k (w_limits w)\<rparr>))"

section \<open>Invariants of the world\<close>

text \<open>
  A world invariant about the database is kept by a call when the query keeps it, and by
  every call that is not a query.
\<close>

definition query_keeps :: "(db \<Rightarrow> bool) \<Rightarrow> 'a query \<Rightarrow> bool" where
  "query_keeps J q = (\<forall>t d a d'. J d \<longrightarrow> q t d = Inr (a, d') \<longrightarrow> J d')"

named_theorems query_rules \<open>database invariants kept by queries\<close>

lemma query_keepsI:
  "(\<And>t d a d'. J d \<Longrightarrow> q t d = Inr (a, d') \<Longrightarrow> J d') \<Longrightarrow> query_keeps J q"
  by (auto simp: query_keeps_def)

lemma query_keepsD: "query_keeps J q \<Longrightarrow> J d \<Longrightarrow> q t d = Inr (a, d') \<Longrightarrow> J d'"
  by (auto simp: query_keeps_def)

lemma run_query_db:
  "w_db (snd (run_query q w)) = w_db w \<or>
     (\<exists>a. q (now_of w) (w_db w) = Inr (a, w_db (snd (run_query q w))))"
  by (auto simp: run_query_def split: fault.splits sum.splits)

lemma run_query_frame [simp]:
  "w_env (snd (run_query q w)) = w_env w" "w_step (snd (run_query q w)) = Suc (w_step w)"
  "w_sent (snd (run_query q w)) = w_sent w" "w_published (snd (run_query q w)) = w_published w"
  "w_minted (snd (run_query q w)) = w_minted w" "w_limits (snd (run_query q w)) = w_limits w"
  by (simp_all add: run_query_def split: fault.splits sum.splits prod.splits)

text \<open>An answer that is not an error is the query's own, and its effect is on the database.\<close>

lemma run_query_Inr:
  "run_query q w = (Inr a, w') \<Longrightarrow>
     q (now_of w) (w_db w) = Inr (a, w_db w') \<and> w' = tick (w\<lparr>w_db := w_db w'\<rparr>)"
  by (auto simp: run_query_def split: fault.splits sum.splits prod.splits)

lemma run_query_NoFault:
  "fault_of w = NoFault \<Longrightarrow>
     run_query q w = (case q (now_of w) (w_db w) of
                        Inl e \<Rightarrow> (Inl e, tick w)
                      | Inr (a, d) \<Rightarrow> (Inr a, tick (w\<lparr>w_db := d\<rparr>)))"
  by (simp add: run_query_def)

lemma run_query_read:
  "fault_of w = NoFault \<Longrightarrow> q (now_of w) (w_db w) = Inr (a, w_db w) \<Longrightarrow> run_query q w = (Inr a, tick w)"
  by (simp add: run_query_def)

lemma run_query_fails:
  "fault_of w = NoFault \<Longrightarrow> q (now_of w) (w_db w) = Inl e \<Longrightarrow> run_query q w = (Inl e, tick w)"
  by (simp add: run_query_def)

lemma now_of_tick [simp]: "now_of (tick w) = clock (w_env w) (Suc (w_step w))"
  by (simp add: now_of_def)

lemma fault_of_tick [simp]: "fault_of (tick w) = fault_at (w_env w) (Suc (w_step w))"
  by (simp add: fault_of_def)

lemma keeps_db_call:
  assumes "query_keeps J q"
  shows "keeps (\<lambda>w. J (w_db w)) (db_call q)"
proof (rule keepsI)
  fix w :: "'b world" assume "J (w_db w)"
  then show "J (w_db (snd (run_state (db_call q) w)))"
    using run_query_db [of q w] query_keepsD [OF assms] by auto
qed

lemma keeps_db_insert:
  assumes "\<And>u. query_keeps J (f u)"
  shows "keeps (\<lambda>w. J (w_db w)) (db_insert f)"
proof (rule keepsI)
  fix w :: "'b world" assume "J (w_db w)"
  then show "J (w_db (snd (run_state (db_insert f) w)))"
    using run_query_db [of "f (fresh_of w)" w] query_keepsD [OF assms] by auto
qed

lemma keeps_other_calls [keeps_rules]:
  "keeps (\<lambda>w. J (w_db w)) (read_random n)" "keeps (\<lambda>w. J (w_db w)) time_now"
  "keeps (\<lambda>w. J (w_db w)) (send_mail m)" "keeps (\<lambda>w. J (w_db w)) (publish url j)"
  "keeps (\<lambda>w. J (w_db w)) (log_minted c)" "keeps (\<lambda>w. J (w_db w)) (limit_allow L k)"
  "keeps (\<lambda>w. J (w_db w)) (limit_record L k)"
  by (simp_all add: keeps_def read_random_def time_now_def send_mail_def publish_def log_minted_def
      limit_allow_def limit_record_def split: fault.splits prod.splits)

lemmas keeps_calls = keeps_db_call keeps_db_insert keeps_other_calls

end
