(* ===== verification/Credentials.thy ===== *)
theory Credentials
  imports World
begin

text \<open>
  Secrets and their encodings: random tokens and their stored hashes (\<open>auth/refresh.go\<close>),
  the argon2id password hash in PHC form (\<open>pwhash/pwhash.go\<close>) and the access token
  (\<open>auth/jwt.go\<close>). SHA-256, argon2, the JWT library and \<open>uuid.Parse\<close> are parameters: the
  fields of \<open>crypto_env\<close>.
\<close>

record claims =
  cl_confirmed :: bool
  cl_subject :: string
  cl_issued :: int
  cl_expires :: int

text \<open>
  \<open>argon2\<close> takes the password, the salt, the passes, the memory, the threads and the key
  length, and is None where the package panics. \<open>jwt_sign\<close> is HS256 under the server's
  key and None on an error; \<open>jwt_parse\<close> answers the claims of a token that \<open>ParseWithClaims\<close>
  accepts at the given instant under that key and method.
\<close>

record crypto_env =
  sha256 :: "string \<Rightarrow> string"
  argon2 :: "string \<Rightarrow> string \<Rightarrow> nat \<Rightarrow> nat \<Rightarrow> nat \<Rightarrow> nat \<Rightarrow> string option"
  argon2_version :: nat
  jwt_sign :: "claims \<Rightarrow> string option"
  jwt_parse :: "instant \<Rightarrow> string \<Rightarrow> claims option"
  parse_uuid :: "string \<Rightarrow> uuid option"
  cr_text :: text_env

section \<open>Random tokens\<close>

definition refresh_bytes :: nat where "refresh_bytes = 32"

definition generate_refresh :: "('l, string option) act" where
  "generate_refresh =
     State_Monad.bind (read_random refresh_bytes)
       (\<lambda>b. State_Monad.return (map_option (b64_encode URLAlphabet) b))"

definition hash_refresh :: "crypto_env \<Rightarrow> string \<Rightarrow> string" where
  "hash_refresh C token = sha256 C token"

lemma run_read_random:
  "run_state (read_random n) w =
     (map_option (\<lambda>s. take n (s @ replicate n (CHR 0x00))) (rand_bytes (w_env w) (w_step w) n), tick w)"
  by (simp add: read_random_def)

lemma read_random_length:
  "run_state (read_random n) w = (Some b, w') \<Longrightarrow> length b = n"
  by (auto simp: run_read_random)

text \<open>A minted token is 43 unreserved characters, so it goes into a URL unescaped.\<close>

lemma generate_refresh_shape:
  "run_state generate_refresh w = (Some t, w') \<Longrightarrow> length t = 43 \<and> query_escape t = t"
  by (auto simp: generate_refresh_def refresh_bytes_def length_b64_encode query_escape_unreserved
      b64_url_unreserved dest: read_random_length split: prod.splits)

section \<open>Password hashes\<close>

definition time_cost :: nat where "time_cost = 2"
definition memory_kib :: nat where "memory_kib = 64 * 1024"
definition parallelism :: nat where "parallelism = 1"
definition key_len :: nat where "key_len = 32"
definition salt_len :: nat where "salt_len = 16"

definition phc_string :: "nat \<Rightarrow> string \<Rightarrow> string \<Rightarrow> string" where
  "phc_string ver salt key =
     ''$argon2id$v='' @ itoa ver @ ''$m='' @ itoa memory_kib @ '',t='' @ itoa time_cost
       @ '',p='' @ itoa parallelism
       @ ''$'' @ b64_encode StdAlphabet salt @ ''$'' @ b64_encode StdAlphabet key"

text \<open>The inner None is a failed read of the salt; the outer one is a panic of argon2.\<close>

definition pw_hash :: "crypto_env \<Rightarrow> string \<Rightarrow> ('l, string option) act" where
  "pw_hash C password =
     State_Monad.bind (read_random salt_len) (\<lambda>s. State_Monad.return
       (case s of None \<Rightarrow> None
        | Some salt \<Rightarrow>
            map_option (phc_string (argon2_version C) salt)
              (argon2 C password salt time_cost memory_kib parallelism key_len)))"

text \<open>
  \<open>fmt.Sscanf\<close> with \<open>%d\<close>: spaces (not newlines) are skipped, then a sign where the
  target is signed, then at least one digit; the value must fit the target.
\<close>

definition scan_number :: "bool \<Rightarrow> nat \<Rightarrow> string \<Rightarrow> (nat \<times> string) option" where
  "scan_number sgn_ok bound s =
     (let s1 = strip_all (filter (\<lambda>w. w \<noteq> [CHR 0x0A]) space_runes) s;
          s2 = (if sgn_ok \<and> (has_prefix s1 ''+'' \<or> has_prefix s1 ''-'') then drop 1 s1 else s1);
          ds = takeWhile is_dec s2
      in case read_dec ds of
           None \<Rightarrow> None
         | Some n \<Rightarrow> if n < bound then Some (n, drop (length ds) s2) else None)"

fun expect_all :: "string \<Rightarrow> string \<Rightarrow> string option" where
  "expect_all [] s = Some s"
| "expect_all (c # cs) s = Option.bind (expect c s) (expect_all cs)"

definition scan_version :: "string \<Rightarrow> bool" where
  "scan_version s =
     (case Option.bind (expect_all ''v='' s) (scan_number True (2 ^ 63)) of None \<Rightarrow> False | Some _ \<Rightarrow> True)"

definition scan_params :: "string \<Rightarrow> (nat \<times> nat \<times> nat) option" where
  "scan_params s =
     do { r0 \<leftarrow> expect_all ''m='' s; (m, r1) \<leftarrow> scan_number False (2 ^ 32) r0;
          r2 \<leftarrow> expect_all '',t='' r1; (t, r3) \<leftarrow> scan_number False (2 ^ 32) r2;
          r4 \<leftarrow> expect_all '',p='' r3; (p, r5) \<leftarrow> scan_number False (2 ^ 8) r4;
          Some (m, t, p) }"

datatype verify_result = Verified bool | VerifyError | VerifyPanic

definition pw_verify :: "crypto_env \<Rightarrow> string \<Rightarrow> string \<Rightarrow> verify_result" where
  "pw_verify C password encoded =
     (let parts = split_byte encoded (CHR ''$'') in
      if length parts \<noteq> 6 \<or> parts ! 1 \<noteq> ''argon2id'' then VerifyError
      else if \<not> scan_version (parts ! 2) then VerifyError
      else case scan_params (parts ! 3) of
             None \<Rightarrow> VerifyError
           | Some (m, t, p) \<Rightarrow>
               (case b64_decode StdAlphabet (parts ! 4) of
                  None \<Rightarrow> VerifyError
                | Some salt \<Rightarrow>
                    (case b64_decode StdAlphabet (parts ! 5) of
                       None \<Rightarrow> VerifyError
                     | Some want \<Rightarrow>
                         (case argon2 C password salt t m p (length want) of
                            None \<Rightarrow> VerifyPanic
                          | Some got \<Rightarrow> Verified (got = want)))))"

text \<open>What the code relies on of argon2: with these costs it answers a key of the asked length.\<close>

definition argon2_ok :: "crypto_env \<Rightarrow> bool" where
  "argon2_ok C =
     (argon2_version C < 2 ^ 63 \<and>
      (\<forall>pw salt n. \<exists>k. argon2 C pw salt time_cost memory_kib parallelism n = Some k \<and> length k = n))"

lemma digit_char_is_dec [simp]: "d < 10 \<Longrightarrow> is_dec (digit_char d)"
  by (simp add: is_dec_def)

lemma itoa_digits: "list_all is_dec (itoa n) \<and> itoa n \<noteq> []"
proof (induction n rule: itoa.induct)
  case (1 n)
  then show ?case by (subst (1 2) itoa.simps) simp
qed

lemma read_itoa [simp]: "read_dec (itoa n) = Some n"
proof (induction n rule: itoa.induct)
  case (1 n)
  show ?case
  proof (cases "n < 10")
    case True
    then show ?thesis by (subst itoa.simps) (simp add: read_dec_def from_digits_def)
  next
    case False
    with 1 have "read_dec (itoa (n div 10)) = Some (n div 10)" by simp
    moreover have "itoa n = itoa (n div 10) @ [digit_char (n mod 10)]"
      using False by (subst itoa.simps) simp
    ultimately show ?thesis
      by (auto simp: read_dec_def from_digits_def split: if_splits)
  qed
qed

text \<open>A byte that is not a digit ends the number.\<close>

definition ends_number :: "string \<Rightarrow> bool" where
  "ends_number r = (case r of [] \<Rightarrow> True | c # _ \<Rightarrow> \<not> is_dec c)"

lemma take_number: "ends_number r \<Longrightarrow> takeWhile is_dec (itoa n @ r) = itoa n"
  using itoa_digits [of n] by (auto simp: ends_number_def list_all_iff takeWhile_append split: list.splits)

lemma space_runes_heads: "w \<in> set space_runes \<Longrightarrow> w \<noteq> [] \<and> \<not> is_dec (hd w)"
  by (auto simp: space_runes_def is_dec_def dec_val_def)

lemma strip_number:
  assumes "set ws \<subseteq> set space_runes"
  shows "strip_all ws (itoa n @ r) = itoa n @ r"
proof (rule strip_all_stop)
  have "\<not> has_prefix (itoa n @ r) w" if "w \<in> set ws" for w
  proof
    assume "has_prefix (itoa n @ r) w"
    then obtain t where t: "itoa n @ r = w @ t" by (auto simp: has_prefix_iff)
    have w: "w \<noteq> []" "\<not> is_dec (hd w)" using space_runes_heads that assms by blast+
    from t w(1) itoa_digits [of n] have "hd w = hd (itoa n)" by (metis hd_append2)
    with w(2) itoa_digits [of n] show False by (cases "itoa n") auto
  qed
  then show "find (\<lambda>w. w \<noteq> [] \<and> has_prefix (itoa n @ r) w) ws = None"
    by (auto simp: find_None_iff)
qed

lemma no_sign: "\<not> has_prefix (itoa n @ r) [c]" if "\<not> is_dec c"
proof
  assume "has_prefix (itoa n @ r) [c]"
  then obtain t where "itoa n @ r = c # t" by (auto simp: has_prefix_iff)
  with itoa_digits [of n] that show False by (cases "itoa n") auto
qed

lemma scan_itoa:
  "n < bound \<Longrightarrow> ends_number r \<Longrightarrow> scan_number sgn_ok bound (itoa n @ r) = Some (n, r)"
proof -
  assume "n < bound" "ends_number r"
  have "strip_all (filter (\<lambda>w. w \<noteq> [CHR 0x0A]) space_runes) (itoa n @ r) = itoa n @ r"
    by (rule strip_number) auto
  moreover have "\<not> has_prefix (itoa n @ r) ''+''" "\<not> has_prefix (itoa n @ r) ''-''"
    by (rule no_sign; simp add: is_dec_def dec_val_def)+
  ultimately show ?thesis
    using \<open>n < bound\<close> take_number [OF \<open>ends_number r\<close>] by (simp add: scan_number_def Let_def)
qed

lemma expect_all_append [simp]: "expect_all p (p @ s) = Some s"
  by (induction p) auto

lemma b64_no_dollar: "CHR ''$'' \<notin> set (b64_encode al s)"
proof
  assume "CHR ''$'' \<in> set (b64_encode al s)"
  then have "CHR ''$'' \<in> b64_char al ` set (sextets (map byte_of s))"
    by (simp only: b64_encode_def set_map)
  then obtain d where d: "d \<in> set (sextets (map byte_of s))" "b64_char al d = CHR ''$''"
    by (elim imageE) (rule that, assumption, rule sym)
  have "list_all (\<lambda>d. d < 64) (sextets (map byte_of s))"
    by (rule sextets_less) (simp add: list_all_iff)
  with d(1) have "d < 64" by (simp add: list_all_iff)
  then have "b64_val al (CHR ''$'') = Some d" using b64_char_range [of d al] d(2) by metis
  moreover have "b64_val al (CHR ''$'') = None" by (cases al) (simp_all add: b64_val_def Let_def)
  ultimately show False by simp
qed

lemma itoa_no_dollar: "CHR ''$'' \<notin> set (itoa n)"
proof -
  have "\<not> is_dec (CHR ''$'')" by (simp add: is_dec_def dec_val_def)
  with itoa_digits [of n] show ?thesis unfolding list_all_iff by blast
qed

lemma split_phc:
  "split_byte (phc_string v salt key) (CHR ''$'') =
     [[], ''argon2id'', ''v='' @ itoa v,
      ''m='' @ itoa memory_kib @ '',t='' @ itoa time_cost @ '',p='' @ itoa parallelism,
      b64_encode StdAlphabet salt, b64_encode StdAlphabet key]"
proof -
  let ?d = "CHR ''$''"
  have s: "phc_string v salt key =
      [] @ ?d # ''argon2id'' @ ?d # (''v='' @ itoa v) @ ?d #
      (''m='' @ itoa memory_kib @ '',t='' @ itoa time_cost @ '',p='' @ itoa parallelism) @ ?d #
      b64_encode StdAlphabet salt @ ?d # b64_encode StdAlphabet key"
    by (simp add: phc_string_def)
  show ?thesis unfolding s
    by (simp only: split_byte_append_sep) (simp add: split_byte_single itoa_no_dollar b64_no_dollar)
qed

lemma scan_params_phc:
  "scan_params (''m='' @ itoa memory_kib @ '',t='' @ itoa time_cost @ '',p='' @ itoa parallelism) =
     Some (memory_kib, time_cost, parallelism)"
proof -
  have "expect_all '',t='' (CHR '','' # CHR ''t'' # CHR ''='' # s) = Some s"
    "expect_all '',p='' (CHR '','' # CHR ''p'' # CHR ''='' # s) = Some s"
    "expect_all ''m='' (CHR ''m'' # CHR ''='' # s) = Some s" for s
    by simp_all
  moreover have "ends_number (CHR '','' # s)" "ends_number []" for s
    by (simp_all add: ends_number_def is_dec_def dec_val_def)
  ultimately show ?thesis
    using scan_itoa [of parallelism "2 ^ 8" "[]" False]
    by (simp add: scan_params_def scan_itoa memory_kib_def time_cost_def parallelism_def)
qed

text \<open>Verifying against a hash the service produced compares argon2's answers.\<close>

lemma pw_verify_phc:
  assumes "v < 2 ^ 63"
  shows "pw_verify C pw (phc_string v salt key) =
    (case argon2 C pw salt time_cost memory_kib parallelism (length key) of
       None \<Rightarrow> VerifyPanic | Some got \<Rightarrow> Verified (got = key))"
proof -
  have "scan_version (''v='' @ itoa v)"
    using scan_itoa [OF assms, of "[]" True] by (simp add: scan_version_def ends_number_def)
  then show ?thesis
    unfolding pw_verify_def Let_def split_phc by (simp add: scan_params_phc [simplified])
qed

lemma pw_hash_Some:
  assumes "run_state (pw_hash C pw) w = (Some h, w')"
  obtains salt key where "h = phc_string (argon2_version C) salt key"
    and "argon2 C pw salt time_cost memory_kib parallelism key_len = Some key"
  using assms by (auto simp: pw_hash_def split: prod.splits option.splits)

end
