(* ===== verification/Posters.thy ===== *)
theory Posters
  imports World Credentials
begin

text \<open>
  Poster generation: the job key and the artifact key (\<open>internal/poster\<close>), the job table
  (\<open>poster_jobs.sql.go\<close>), the handlers \<open>CreatePoster\<close> and \<open>GetPoster\<close> and the background
  generation they start (\<open>handlers/posters.go\<close>). A started generation outlives its request,
  so the system around the handlers is a step relation: claims, generations that finish or
  are lost, and accounts that are deleted, in any order.
\<close>

section \<open>Keys\<close>

definition max_performer :: nat where "max_performer = 200"
definition max_venue :: nat where "max_venue = 200"
definition max_date :: nat where "max_date = 100"

definition poster_normalize :: "text_env \<Rightarrow> string \<Rightarrow> string" where
  "poster_normalize E s = to_lower E (trim_space s)"

definition hex_encode :: "string \<Rightarrow> string" where
  "hex_encode s = concat (map (\<lambda>c. [digit_char (byte_of c div 16), digit_char (byte_of c mod 16)]) s)"

definition job_key_parts :: "crypto_env \<Rightarrow> string \<Rightarrow> string \<Rightarrow> string \<Rightarrow> string \<Rightarrow> string" where
  "job_key_parts C user performer venue date =
     sha256 C (poster_normalize (cr_text C) user) @ sha256 C (poster_normalize (cr_text C) performer)
     @ sha256 C (poster_normalize (cr_text C) venue) @ sha256 C (poster_normalize (cr_text C) date)"

definition job_id :: "crypto_env \<Rightarrow> string \<Rightarrow> string \<Rightarrow> string \<Rightarrow> string \<Rightarrow> string" where
  "job_id C user performer venue date = hex_encode (sha256 C (job_key_parts C user performer venue date))"

definition validate_key :: "string \<Rightarrow> string option" where
  "validate_key key =
     (if \<not> has_prefix key ''posters/v'' \<or> str_contains key ''..'' then None
      else if \<not> has_suffix key ''.png'' then None else Some key)"

section \<open>The job table\<close>

definition claimable :: "uuid \<Rightarrow> instant \<Rightarrow> bool \<Rightarrow> poster_row \<Rightarrow> bool" where
  "claimable u stale_before force r =
     (pj_user_id r = u \<and>
      (pj_status r = ''failed'' \<or> (pj_status r = ''pending'' \<and> pj_updated_at r < stale_before) \<or>
       (pj_status r = ''ready'' \<and> force)))"

definition reclaimed :: "instant \<Rightarrow> poster_row \<Rightarrow> poster_row" where
  "reclaimed now r =
     r\<lparr>pj_status := ''pending'', pj_png_key := None, pj_artist := None, pj_credit := None,
       pj_failure_stage := None, pj_failure_reason := None, pj_updated_at := now\<rparr>"

definition claim_poster_job ::
    "string \<Rightarrow> uuid \<Rightarrow> string \<Rightarrow> string \<Rightarrow> string \<Rightarrow> instant \<Rightarrow> bool \<Rightarrow> poster_row query" where
  "claim_poster_job i u performer venue date stale_before force now d =
     (if max_performer < rune_count performer \<or> max_venue < rune_count venue \<or> max_date < rune_count date
      then Inl CheckFailed
      else case find (\<lambda>r. pj_id r = i) (poster_jobs d) of
        None \<Rightarrow>
          if \<not> user_exists d u then Inl ForeignKey
          else let r = \<lparr>pj_id = i, pj_user_id = u, pj_performer = performer, pj_venue = venue,
                        pj_date = date, pj_status = ''pending'', pj_png_key = None, pj_artist = None,
                        pj_credit = None, pj_failure_stage = None, pj_failure_reason = None,
                        pj_created_at = now, pj_updated_at = now\<rparr>
               in Inr (r, d\<lparr>poster_jobs := poster_jobs d @ [r]\<rparr>)
      | Some r \<Rightarrow>
          if claimable u stale_before force r
          then Inr (reclaimed now r,
                    d\<lparr>poster_jobs := update_rows (\<lambda>r. pj_id r = i) (reclaimed now) (poster_jobs d)\<rparr>)
          else Inl NoRows)"

definition get_poster_job :: "string \<Rightarrow> uuid \<Rightarrow> poster_row query" where
  "get_poster_job i u now d =
     (case find (\<lambda>r. pj_id r = i \<and> pj_user_id r = u) (poster_jobs d) of
        None \<Rightarrow> Inl NoRows | Some r \<Rightarrow> Inr (r, d))"

definition mark_poster_job_failed :: "string \<Rightarrow> string \<Rightarrow> string \<Rightarrow> unit query" where
  "mark_poster_job_failed i stage reason now d =
     Inr ((), d\<lparr>poster_jobs := update_rows (\<lambda>r. pj_id r = i)
                  (\<lambda>r. r\<lparr>pj_status := ''failed'', pj_failure_stage := Some stage,
                         pj_failure_reason := Some reason, pj_updated_at := now\<rparr>) (poster_jobs d)\<rparr>)"

definition mark_poster_job_ready ::
    "string \<Rightarrow> string \<Rightarrow> json option \<Rightarrow> json option \<Rightarrow> unit query" where
  "mark_poster_job_ready i key artist credit now d =
     Inr ((), d\<lparr>poster_jobs := update_rows (\<lambda>r. pj_id r = i)
                  (\<lambda>r. r\<lparr>pj_status := ''ready'', pj_png_key := Some key, pj_artist := artist,
                         pj_credit := credit, pj_failure_stage := None, pj_failure_reason := None,
                         pj_updated_at := now\<rparr>) (poster_jobs d)\<rparr>)"

section \<open>The Lambda client\<close>

record poster_result =
  pr_png_key :: string
  pr_artist :: "json option"
  pr_credit :: "json option"
  pr_failure_stage :: string
  pr_failure_reason :: string

text \<open>
  What comes back from the Function URL: a transport failure (which includes the client's
  timeout, a missing credential or an unreadable body), or a status with the body decoded
  as the success and as the failure envelope (None where it does not decode).
\<close>

datatype lambda_reply =
    TransportError
  | Reply nat "(string \<times> json option \<times> json option) option" "(string \<times> string) option"

definition poster_generate :: "lambda_reply \<Rightarrow> poster_result option" where
  "poster_generate reply =
     (case reply of
        TransportError \<Rightarrow> None
      | Reply st ok bad \<Rightarrow>
          if st = 200 then
            map_option (\<lambda>(key, artist, credit).
              \<lparr>pr_png_key = key, pr_artist = artist, pr_credit = credit, pr_failure_stage = [],
               pr_failure_reason = []\<rparr>) ok
          else if st = 422 then
            map_option (\<lambda>(err, stage).
              \<lparr>pr_png_key = [], pr_artist = None, pr_credit = None, pr_failure_stage = stage,
               pr_failure_reason = err\<rparr>) bad
          else None)"

definition max_upstream_error :: nat where "max_upstream_error = 200"

definition truncate :: "string \<Rightarrow> string" where
  "truncate s =
     (if length s \<le> max_upstream_error then s
      else take max_upstream_error s @ [CHR 0xE2, CHR 0x80, CHR 0xA6])"

section \<open>Handlers\<close>

definition stale_pending_after :: instant where "stale_pending_after = 6 * minute"

record poster_request =
  pq_performer :: string
  pq_venue :: string
  pq_date :: string
  pq_force :: bool

definition too_long :: "string \<Rightarrow> nat \<Rightarrow> string" where
  "too_long field n = field @ '' must be at most '' @ itoa n @ '' characters''"

definition validate_fields :: "string \<Rightarrow> string \<Rightarrow> string \<Rightarrow> string + (string \<times> string \<times> string)" where
  "validate_fields performer0 venue0 date0 =
     (let performer = trim_space performer0; venue = trim_space venue0; date = trim_space date0 in
      if performer = [] \<or> venue = [] \<or> date = [] then Inl ''performer, venue and date are required''
      else if max_performer < rune_count performer then Inl (too_long ''performer'' max_performer)
      else if max_venue < rune_count venue then Inl (too_long ''venue'' max_venue)
      else if max_date < rune_count date then Inl (too_long ''date'' max_date)
      else Inr (performer, venue, date))"

definition json_status :: "nat \<Rightarrow> string \<Rightarrow> (string \<times> json) list \<Rightarrow> response" where
  "json_status code s rest = respond code (JsonBody (JObj ((''status'', JStr s) # rest)))"

text \<open>
  A started generation: the job id, its user and the time the claim wrote, which is the
  \<open>updated_at\<close> of the claimed row.
\<close>

type_synonym generation = "string \<times> uuid \<times> instant"

definition create_poster ::
    "crypto_env \<Rightarrow> uuid option \<Rightarrow> poster_request option \<Rightarrow> ('l, response \<times> generation option) act" where
  "create_poster C uid req =
     (case uid of
        None \<Rightarrow> ret (no_user, None)
      | Some u \<Rightarrow>
          (case req of
             None \<Rightarrow> ret (http_err 400 ''invalid_body'' ''request body is not valid JSON or is too large'', None)
           | Some p \<Rightarrow>
               (case validate_fields (pq_performer p) (pq_venue p) (pq_date p) of
                  Inl msg \<Rightarrow> ret (http_err 400 ''invalid_body'' msg, None)
                | Inr (performer, venue, date) \<Rightarrow> do {
                    let i = job_id C (uuid_string u) performer venue date;
                    now \<leftarrow> time_now;
                    row \<leftarrow> db_call (claim_poster_job i u performer venue date
                                    (now - stale_pending_after) (pq_force p));
                    case row of
                      Inr r \<Rightarrow> ret (json_status 202 ''pending'' [], Some (i, u, pj_updated_at r))
                    | Inl NoRows \<Rightarrow> ret (json_status 202 ''pending'' [], None)
                    | Inl e \<Rightarrow> ret (http_err 500 ''poster_claim_failed'' ''could not queue poster generation'', None) })))"

text \<open>The body of the goroutine once the generator has answered.\<close>

definition finish_generation :: "string \<Rightarrow> lambda_reply \<Rightarrow> ('l, unit) act" where
  "finish_generation i reply =
     (case poster_generate reply of
        None \<Rightarrow> do {
          _ \<leftarrow> db_call (mark_poster_job_failed i ''svg'' ''poster service unavailable''); ret () }
      | Some res \<Rightarrow>
          if pr_failure_stage res \<noteq> [] then do {
            _ \<leftarrow> db_call (mark_poster_job_failed i (pr_failure_stage res) (pr_failure_reason res)); ret () }
          else (case validate_key (pr_png_key res) of
            None \<Rightarrow> do {
              _ \<leftarrow> db_call (mark_poster_job_failed i ''svg'' ''poster service returned an unexpected artifact'');
              ret () }
          | Some _ \<Rightarrow> do {
              _ \<leftarrow> db_call (mark_poster_job_ready i (pr_png_key res) (pr_artist res) (pr_credit res));
              ret () }))"

text \<open>\<open>S3Presigner.PresignGet\<close> over the SDK's presigner, None where it fails.\<close>

definition presign_get :: "(string \<Rightarrow> string option) \<Rightarrow> string \<Rightarrow> string option" where
  "presign_get sdk key = (case validate_key key of None \<Rightarrow> None | Some safe \<Rightarrow> sdk safe)"

definition raw_json :: "json option \<Rightarrow> json" where
  "raw_json j = (case j of None \<Rightarrow> JNull | Some x \<Rightarrow> x)"

definition opt_json :: "string option \<Rightarrow> json" where
  "opt_json s = (case s of None \<Rightarrow> JNull | Some x \<Rightarrow> JStr x)"

definition get_poster ::
    "crypto_env \<Rightarrow> (string \<Rightarrow> string option) \<Rightarrow> uuid option \<Rightarrow> string \<Rightarrow> string \<Rightarrow> string \<Rightarrow> 'l handler" where
  "get_poster C sdk uid performer0 venue0 date0 =
     (case uid of
        None \<Rightarrow> ret no_user
      | Some u \<Rightarrow>
          (case validate_fields performer0 venue0 date0 of
             Inl msg \<Rightarrow> ret (http_err 400 ''invalid_body'' msg)
           | Inr (performer, venue, date) \<Rightarrow> do {
               job \<leftarrow> db_call (get_poster_job (job_id C (uuid_string u) performer venue date) u);
               case job of
                 Inl NoRows \<Rightarrow> ret (json_status 404 ''unknown'' [])
               | Inl e \<Rightarrow> ret (http_err 500 ''poster_lookup_failed'' ''could not look up poster job'')
               | Inr j \<Rightarrow>
                   if pj_status j = ''pending'' then ret (json_status 202 ''pending'' [])
                   else if pj_status j = ''failed'' then
                     ret (json_status 200 ''failed''
                       [(''failure_stage'', opt_json (pj_failure_stage j)),
                        (''failure_reason'', opt_json (pj_failure_reason j))])
                   else if pj_status j = ''ready'' then
                     (case presign_get sdk (opt_str (pj_png_key j)) of
                        None \<Rightarrow> ret (http_err 500 ''poster_presign_failed'' ''could not presign poster artifact'')
                      | Some url \<Rightarrow>
                          ret (json_status 200 ''ready''
                            [(''pngUrl'', JStr url), (''artist'', raw_json (pj_artist j)),
                             (''credit'', raw_json (pj_credit j))]))
                   else ret (http_err 500 ''poster_bad_status'' ''poster job has an unrecognized status'') }))"

end
