(* ===== verification/StoreAuth.thy ===== *)
theory StoreAuth
  imports World
begin

text \<open>
  The account queries of \<open>internal/store\<close> (\<open>users.sql.go\<close>, \<open>refresh_tokens.sql.go\<close>,
  \<open>email_confirmations.sql.go\<close>, \<open>password_resets.sql.go\<close>, \<open>ical_tokens.sql.go\<close>), each as
  one atomic statement on the tables, with the constraints of the migrations it can
  violate. A \<open>:one\<close> query answers the row it selects (the whole row where the SQL names
  columns) or \<open>NoRows\<close>. Three of the tables hold at most one live link per user; what they
  promise is stated once, in the locale \<open>token_table\<close>, and interpreted on each of them.
\<close>

section \<open>Users\<close>

definition create_user :: "string \<Rightarrow> string \<Rightarrow> uuid \<Rightarrow> bool \<Rightarrow> uuid \<Rightarrow> user_row query" where
  "create_user email pw city conf fresh now d =
     (if has_row (\<lambda>r. u_id r = fresh \<or> (u_email r = email \<and> u_deleted_at r = None)) (users d)
      then Inl Unique
      else if \<not> has_row (\<lambda>c. c_id c = city) (cities d) then Inl ForeignKey
      else let r = \<lparr>u_id = fresh, u_email = email, u_password_hash = pw, u_city_id = city,
                    u_embedding = None, u_embedding_at = None, u_created_at = now,
                    u_deleted_at = None, u_score_threshold = None, u_confirmed = conf,
                    u_show_setlists = False\<rparr>
           in Inr (r, d\<lparr>users := users d @ [r]\<rparr>))"

text \<open>Every table that references \<open>users\<close> does so with \<open>ON DELETE CASCADE\<close>.\<close>

definition delete_user :: "uuid \<Rightarrow> unit query" where
  "delete_user u now d =
     Inr ((), d\<lparr>users := delete_rows (\<lambda>r. u_id r = u) (users d),
                refresh_tokens := delete_rows (\<lambda>r. rt_user_id r = u) (refresh_tokens d),
                confirmations := delete_rows (\<lambda>r. lk_user_id r = u) (confirmations d),
                resets := delete_rows (\<lambda>r. lk_user_id r = u) (resets d),
                ical_tokens := delete_rows (\<lambda>r. ic_user_id r = u) (ical_tokens d),
                spotify_tokens := delete_rows (\<lambda>r. sp_user_id r = u) (spotify_tokens d),
                interests := delete_rows (\<lambda>r. ui_user_id r = u) (interests d),
                matches := delete_rows (\<lambda>r. m_user_id r = u) (matches d),
                going := delete_rows (\<lambda>r. fst r = u) (going d),
                not_interested := delete_rows (\<lambda>r. fst r = u) (not_interested d),
                manual_events := delete_rows (\<lambda>r. mg_user_id r = u) (manual_events d),
                poster_jobs := delete_rows (\<lambda>r. pj_user_id r = u) (poster_jobs d)\<rparr>)"

definition one_row :: "('r \<Rightarrow> bool) \<Rightarrow> 'r list \<Rightarrow> db \<Rightarrow> db_error + ('r \<times> db)" where
  "one_row P t d = (case find P t of None \<Rightarrow> Inl NoRows | Some r \<Rightarrow> Inr (r, d))"

definition get_default_city :: "city_row query" where
  "get_default_city now d = one_row (\<lambda>c. c_slug c = ''v1-city'') (cities d) d"

definition get_user_by_email :: "string \<Rightarrow> user_row query" where
  "get_user_by_email email now d =
     one_row (\<lambda>r. u_email r = email \<and> u_deleted_at r = None) (users d) d"

definition get_user_by_id :: "uuid \<Rightarrow> user_row query" where
  "get_user_by_id u now d = one_row (\<lambda>r. u_id r = u \<and> u_deleted_at r = None) (users d) d"

definition mark_user_confirmed :: "uuid \<Rightarrow> unit query" where
  "mark_user_confirmed u now d =
     Inr ((), d\<lparr>users := update_rows (\<lambda>r. u_id r = u) (\<lambda>r. r\<lparr>u_confirmed := True\<rparr>) (users d)\<rparr>)"

definition update_user_score_threshold :: "uuid \<Rightarrow> f64 option \<Rightarrow> unit query" where
  "update_user_score_threshold u th now d =
     Inr ((), d\<lparr>users := update_rows (\<lambda>r. u_id r = u \<and> u_deleted_at r = None)
                          (\<lambda>r. r\<lparr>u_score_threshold := th\<rparr>) (users d)\<rparr>)"

definition update_user_show_setlists :: "uuid \<Rightarrow> bool \<Rightarrow> unit query" where
  "update_user_show_setlists u b now d =
     Inr ((), d\<lparr>users := update_rows (\<lambda>r. u_id r = u \<and> u_deleted_at r = None)
                          (\<lambda>r. r\<lparr>u_show_setlists := b\<rparr>) (users d)\<rparr>)"

section \<open>Refresh tokens\<close>

definition create_refresh_token :: "uuid \<Rightarrow> string \<Rightarrow> instant \<Rightarrow> uuid \<Rightarrow> refresh_row query" where
  "create_refresh_token u h ex fresh now d =
     (if has_row (\<lambda>r. rt_id r = fresh \<or> rt_token_hash r = h) (refresh_tokens d) then Inl Unique
      else if \<not> user_exists d u then Inl ForeignKey
      else let r = \<lparr>rt_id = fresh, rt_user_id = u, rt_token_hash = h, rt_expires_at = ex,
                    rt_revoked_at = None, rt_created_at = now\<rparr>
           in Inr (r, d\<lparr>refresh_tokens := refresh_tokens d @ [r]\<rparr>))"

text \<open>The query joins \<open>users\<close> for the confirmed column and does not look at \<open>deleted_at\<close>.\<close>

definition live_refresh :: "instant \<Rightarrow> string \<Rightarrow> refresh_row \<Rightarrow> bool" where
  "live_refresh now h r = (rt_token_hash r = h \<and> rt_revoked_at r = None \<and> now < rt_expires_at r)"

definition get_active_refresh_token :: "string \<Rightarrow> (uuid \<times> bool) query" where
  "get_active_refresh_token h now d =
     (case find (live_refresh now h) (refresh_tokens d) of
        None \<Rightarrow> Inl NoRows
      | Some r \<Rightarrow>
          (case find (\<lambda>u. u_id u = rt_user_id r) (users d) of
             None \<Rightarrow> Inl NoRows
           | Some u \<Rightarrow> Inr ((rt_user_id r, u_confirmed u), d)))"

definition revoke_refresh_token :: "string \<Rightarrow> unit query" where
  "revoke_refresh_token h now d =
     Inr ((), d\<lparr>refresh_tokens := update_rows (\<lambda>r. rt_token_hash r = h \<and> rt_revoked_at r = None)
                                   (\<lambda>r. r\<lparr>rt_revoked_at := Some now\<rparr>) (refresh_tokens d)\<rparr>)"

section \<open>Confirmation and reset links\<close>

text \<open>
  \<open>INSERT ... ON CONFLICT (user_id) DO UPDATE\<close> on a table with a unique \<open>token_hash\<close>: the
  user's row is replaced, a hash of another user's row is a violation, and a user the
  \<open>users\<close> table does not have is one when the row is new.
\<close>

definition rotate_link ::
    "bool \<Rightarrow> uuid \<Rightarrow> string \<Rightarrow> instant \<Rightarrow> instant \<Rightarrow> link_row list \<Rightarrow> db_error + link_row list" where
  "rotate_link known u h ex now t =
     (if has_row (\<lambda>r. lk_token_hash r = h \<and> lk_user_id r \<noteq> u) t then Inl Unique
      else if \<not> has_row (\<lambda>r. lk_user_id r = u) t \<and> \<not> known then Inl ForeignKey
      else Inr (upsert_row lk_user_id
                  \<lparr>lk_user_id = u, lk_token_hash = h, lk_expires_at = ex, lk_consumed_at = None,
                   lk_created_at = now\<rparr>
                  (\<lambda>r. r\<lparr>lk_token_hash := h, lk_expires_at := ex, lk_consumed_at := None,
                         lk_created_at := now\<rparr>) t))"

definition upsert_email_confirmation :: "uuid \<Rightarrow> string \<Rightarrow> instant \<Rightarrow> unit query" where
  "upsert_email_confirmation u h ex now d =
     (case rotate_link (user_exists d u) u h ex now (confirmations d) of
        Inl e \<Rightarrow> Inl e | Inr t \<Rightarrow> Inr ((), d\<lparr>confirmations := t\<rparr>))"

definition get_email_confirmation :: "string \<Rightarrow> link_row query" where
  "get_email_confirmation h now d = one_row (\<lambda>r. lk_token_hash r = h) (confirmations d) d"

definition consume_email_confirmation :: "uuid \<Rightarrow> unit query" where
  "consume_email_confirmation u now d =
     Inr ((), d\<lparr>confirmations := update_rows (\<lambda>r. lk_user_id r = u)
                                  (\<lambda>r. r\<lparr>lk_consumed_at := Some now\<rparr>) (confirmations d)\<rparr>)"

definition upsert_password_reset :: "uuid \<Rightarrow> string \<Rightarrow> instant \<Rightarrow> unit query" where
  "upsert_password_reset u h ex now d =
     (case rotate_link (user_exists d u) u h ex now (resets d) of
        Inl e \<Rightarrow> Inl e | Inr t \<Rightarrow> Inr ((), d\<lparr>resets := t\<rparr>))"

text \<open>
  \<open>ResetPasswordWithToken\<close>: one statement with two data-modifying CTEs, which run to
  completion whether or not the final \<open>UPDATE\<close> finds the user. The claimed link is the one
  with the hash (the column is unique), unconsumed and unexpired.
\<close>

definition live_link :: "instant \<Rightarrow> string \<Rightarrow> link_row \<Rightarrow> bool" where
  "live_link now h r = (lk_token_hash r = h \<and> lk_consumed_at r = None \<and> now < lk_expires_at r)"

definition reset_password_with_token :: "string \<Rightarrow> string \<Rightarrow> (user_row option) query" where
  "reset_password_with_token h pw now d =
     (case find (live_link now h) (resets d) of
        None \<Rightarrow> Inr (None, d)
      | Some l \<Rightarrow>
          let u = lk_user_id l;
              P = (\<lambda>r. u_id r = u \<and> u_deleted_at r = None);
              f = (\<lambda>r. r\<lparr>u_password_hash := pw, u_confirmed := True\<rparr>)
          in Inr (map_option f (find P (users d)),
                  d\<lparr>resets := update_rows (live_link now h) (\<lambda>r. r\<lparr>lk_consumed_at := Some now\<rparr>) (resets d),
                    refresh_tokens := update_rows (\<lambda>r. rt_user_id r = u \<and> rt_revoked_at r = None)
                                       (\<lambda>r. r\<lparr>rt_revoked_at := Some now\<rparr>) (refresh_tokens d),
                    users := update_rows P f (users d)\<rparr>))"

section \<open>Calendar feed tokens\<close>

definition upsert_ical_token :: "uuid \<Rightarrow> string \<Rightarrow> unit query" where
  "upsert_ical_token u h now d =
     (if has_row (\<lambda>r. ic_token_hash r = h \<and> ic_user_id r \<noteq> u) (ical_tokens d) then Inl Unique
      else if \<not> has_row (\<lambda>r. ic_user_id r = u) (ical_tokens d) \<and> \<not> user_exists d u then Inl ForeignKey
      else Inr ((), d\<lparr>ical_tokens := upsert_row ic_user_id
                        \<lparr>ic_user_id = u, ic_token_hash = h, ic_created_at = now,
                         ic_last_accessed_at = None\<rparr>
                        (\<lambda>r. r\<lparr>ic_token_hash := h, ic_created_at := now,
                               ic_last_accessed_at := None\<rparr>) (ical_tokens d)\<rparr>))"

definition get_ical_token :: "string \<Rightarrow> ical_row query" where
  "get_ical_token h now d = one_row (\<lambda>r. ic_token_hash r = h) (ical_tokens d) d"

definition touch_ical_token :: "uuid \<Rightarrow> unit query" where
  "touch_ical_token u now d =
     Inr ((), d\<lparr>ical_tokens := update_rows (\<lambda>r. ic_user_id r = u)
                                (\<lambda>r. r\<lparr>ic_last_accessed_at := Some now\<rparr>) (ical_tokens d)\<rparr>)"

definition delete_ical_token :: "uuid \<Rightarrow> unit query" where
  "delete_ical_token u now d =
     Inr ((), d\<lparr>ical_tokens := delete_rows (\<lambda>r. ic_user_id r = u) (ical_tokens d)\<rparr>)"

lemmas auth_query_defs =
  create_user_def delete_user_def get_default_city_def get_user_by_email_def get_user_by_id_def
  mark_user_confirmed_def update_user_score_threshold_def update_user_show_setlists_def
  create_refresh_token_def get_active_refresh_token_def revoke_refresh_token_def
  upsert_email_confirmation_def get_email_confirmation_def consume_email_confirmation_def
  upsert_password_reset_def reset_password_with_token_def upsert_ical_token_def
  get_ical_token_def touch_ical_token_def delete_ical_token_def one_row_def Let_def

section \<open>One live token per user\<close>

text \<open>
  The interface of a table of rotating tokens: \<open>put\<close> stores a token for a user (None when
  the database refuses it) and \<open>get\<close> says whose token a hash is. Storing a token makes it
  the user's only one and leaves the other users' tokens alone, and a hash that belongs to
  another user is refused.
\<close>

locale token_table =
  fixes put :: "'p \<Rightarrow> uuid \<Rightarrow> string \<Rightarrow> 't \<Rightarrow> 't option"
    and get :: "string \<Rightarrow> 't \<Rightarrow> uuid option"
    and ok :: "'t \<Rightarrow> bool"
  assumes ok_put: "ok t \<Longrightarrow> put p u h t = Some t' \<Longrightarrow> ok t'"
    and put_free: "ok t \<Longrightarrow> put p u h t = Some t' \<Longrightarrow> get h t = None \<or> get h t = Some u"
    and get_put: "ok t \<Longrightarrow> put p u h t = Some t' \<Longrightarrow>
      get k t' = (if k = h then Some u else if get k t = Some u then None else get k t)"

text \<open>A sequence of stores, and the last token stored for a user in it.\<close>

fun rotate_all :: "('p \<Rightarrow> uuid \<Rightarrow> string \<Rightarrow> 't \<Rightarrow> 't option) \<Rightarrow> ('p \<times> uuid \<times> string) list \<Rightarrow> 't \<Rightarrow> 't option" where
  "rotate_all put [] t = Some t"
| "rotate_all put ((p, u, h) # xs) t =
     (case put p u h t of None \<Rightarrow> None | Some t' \<Rightarrow> rotate_all put xs t')"

fun latest_token :: "uuid \<Rightarrow> ('p \<times> uuid \<times> string) list \<Rightarrow> string option" where
  "latest_token u [] = None"
| "latest_token u ((p, v, h) # xs) =
     (case latest_token u xs of Some k \<Rightarrow> Some k | None \<Rightarrow> if v = u then Some h else None)"

context token_table begin

lemma ok_rotate_all: "ok t \<Longrightarrow> rotate_all put xs t = Some t' \<Longrightarrow> ok t'"
proof (induction xs arbitrary: t)
  case (Cons x xs)
  obtain p v h where x: "x = (p, v, h)" by (cases x)
  with Cons.prems obtain t1 where "put p v h t = Some t1" "rotate_all put xs t1 = Some t'"
    by (auto split: option.splits)
  with Cons.IH ok_put [OF Cons.prems(1)] show ?case by blast
qed simp

lemma superseded: "ok t \<Longrightarrow> put p u h t = Some t' \<Longrightarrow> get k t = Some u \<Longrightarrow> k \<noteq> h \<Longrightarrow> get k t' = None"
  by (simp add: get_put)

lemma live_iff_latest:
  "ok t \<Longrightarrow> rotate_all put xs t = Some t' \<Longrightarrow>
     get k t' = Some u \<longleftrightarrow> (case latest_token u xs of Some h \<Rightarrow> k = h | None \<Rightarrow> get k t = Some u)"
proof (induction xs arbitrary: t)
  case (Cons x xs)
  obtain p v h where x: "x = (p, v, h)" by (cases x)
  with Cons.prems obtain t1 where t1: "put p v h t = Some t1" "rotate_all put xs t1 = Some t'"
    by (auto split: option.splits)
  have ok1: "ok t1" using Cons.prems(1) t1(1) by (rule ok_put)
  have "get k t1 = Some u \<longleftrightarrow> (if v = u then k = h else get k t = Some u)"
    using get_put [OF Cons.prems(1) t1(1), of k] put_free [OF Cons.prems(1) t1(1)] by auto
  with Cons.IH [OF ok1 t1(2)] show ?case by (auto simp: x split: option.splits)
qed simp

end

text \<open>A row list with two unique columns, the owner and the token, has the interface's laws.\<close>

definition owner_of :: "('r \<Rightarrow> uuid) \<Rightarrow> ('r \<Rightarrow> string) \<Rightarrow> string \<Rightarrow> 'r list \<Rightarrow> uuid option" where
  "owner_of own tok h t = map_option own (find (\<lambda>r. tok r = h) t)"

lemma owner_of_iff:
  assumes "keyed tok t"
  shows "owner_of own tok h t = Some u \<longleftrightarrow> (\<exists>r \<in> set t. tok r = h \<and> own r = u)"
proof
  assume "owner_of own tok h t = Some u"
  then show "\<exists>r \<in> set t. tok r = h \<and> own r = u" by (auto simp: owner_of_def dest: find_in_set)
next
  assume "\<exists>r \<in> set t. tok r = h \<and> own r = u"
  then obtain r where "r \<in> set t" "tok r = h" "own r = u" by blast
  with find_keyed [OF assms, of r] show "owner_of own tok h t = Some u" by (auto simp: owner_of_def)
qed

lemma keyed_rotate:
  assumes "keyed own t" "keyed tok t" "\<forall>r \<in> set t. tok r = h \<longrightarrow> own r = u"
    and "\<And>r. own r = u \<Longrightarrow> tok (merge r) = h"
  shows "keyed tok (update_rows (\<lambda>r. own r = u) merge t)"
  using assms(1-3)
proof (induction t)
  case (Cons x t)
  then have IH: "keyed tok (update_rows (\<lambda>r. own r = u) merge t)" by (simp add: keyed_def)
  show ?case
  proof (cases "own x = u")
    case True
    with Cons.prems(1) have "u \<notin> own ` set t" by (simp add: keyed_def)
    then have "\<forall>r \<in> set t. own r \<noteq> u" by blast
    then have "update_rows (\<lambda>r. own r = u) merge t = t"
      by (auto simp: update_rows_def intro: map_idI)
    with Cons.prems True \<open>\<forall>r \<in> set t. own r \<noteq> u\<close> assms(4) [of x] show ?thesis
      by (auto simp: keyed_def)
  next
    case False
    with Cons.prems assms(4) IH show ?thesis by (auto simp: keyed_def table_simps)
  qed
qed (simp add: keyed_def)

definition two_keyed :: "('r \<Rightarrow> uuid) \<Rightarrow> ('r \<Rightarrow> string) \<Rightarrow> 'r list \<Rightarrow> bool" where
  "two_keyed own tok t = (keyed own t \<and> keyed tok t)"

text \<open>What an accepted rotation does to such a row list.\<close>

lemma rotation:
  assumes "two_keyed own tok t" and free: "\<not> has_row (\<lambda>r. tok r = h \<and> own r \<noteq> u) t"
    and new: "own new = u" "tok new = h"
    and merge: "\<And>r. own (merge r) = own r" "\<And>r. own r = u \<Longrightarrow> tok (merge r) = h"
  shows "two_keyed own tok (upsert_row own new merge t)"
    and "owner_of own tok h t = None \<or> owner_of own tok h t = Some u"
    and "owner_of own tok k (upsert_row own new merge t) =
           (if k = h then Some u else if owner_of own tok k t = Some u then None else owner_of own tok k t)"
proof -
  let ?t' = "upsert_row own new merge t"
  have t: "keyed own t" "keyed tok t" using assms(1) by (auto simp: two_keyed_def)
  have free': "\<forall>r \<in> set t. tok r = h \<longrightarrow> own r = u" using free by (auto simp: has_row_iff)
  have "keyed own ?t'" using t(1) merge(1) by (rule keyed_upsert_row)
  moreover have tok': "keyed tok ?t'"
  proof (cases "has_row (\<lambda>r. own r = own new) t")
    case True
    then show ?thesis
      using keyed_rotate [where h = h, OF t free' merge(2)] by (simp add: upsert_row_def new(1))
  next
    case False
    with t(2) free' new show ?thesis by (auto simp: upsert_row_def keyed_def has_row_iff)
  qed
  ultimately show "two_keyed own tok ?t'" by (simp add: two_keyed_def)
  show "owner_of own tok h t = None \<or> owner_of own tok h t = Some u"
    using free' by (cases "find (\<lambda>r. tok r = h) t") (auto simp: owner_of_def dest: find_in_set)
  have rows: "(\<exists>r \<in> set ?t'. tok r = k \<and> own r = v) \<longleftrightarrow>
      (if v = u then k = h else \<exists>r \<in> set t. tok r = k \<and> own r = v)" for v
  proof (cases "has_row (\<lambda>r. own r = u) t")
    case True
    then obtain r0 where r0: "r0 \<in> set t" "own r0 = u" by (auto simp: has_row_iff)
    have t': "?t' = update_rows (\<lambda>r. own r = u) merge t"
      using True by (simp add: upsert_row_def new(1))
    show ?thesis
    proof
      assume "\<exists>r \<in> set ?t'. tok r = k \<and> own r = v"
      then show "if v = u then k = h else \<exists>r \<in> set t. tok r = k \<and> own r = v"
        using merge by (auto simp: t' table_simps split: if_splits)
    next
      assume "if v = u then k = h else \<exists>r \<in> set t. tok r = k \<and> own r = v"
      moreover have "merge r0 \<in> set ?t'" using r0 by (force simp: t' table_simps)
      moreover have "r \<in> set ?t'" if "r \<in> set t" "own r \<noteq> u" for r
        using that by (force simp: t' table_simps)
      ultimately show "\<exists>r \<in> set ?t'. tok r = k \<and> own r = v"
        using merge r0 by (metis (full_types))
    qed
  next
    case False
    then show ?thesis using new by (auto simp: upsert_row_def has_row_iff)
  qed
  have "owner_of own tok k ?t' = Some v \<longleftrightarrow>
      (if k = h then Some u else if owner_of own tok k t = Some u then None else owner_of own tok k t) = Some v" for v
    using rows [of v] owner_of_iff [OF tok', of own k v] owner_of_iff [OF t(2), of own k v]
      owner_of_iff [OF t(2), of own k u] free' by auto
  then show "owner_of own tok k ?t' = (if k = h then Some u else
      if owner_of own tok k t = Some u then None else owner_of own tok k t)"
    by (metis option.exhaust)
qed

section \<open>The three token tables have one live token per user\<close>

definition links_ok :: "link_row list \<Rightarrow> bool" where
  "links_ok t = two_keyed lk_user_id lk_token_hash t"

definition query_put :: "unit query \<Rightarrow> instant \<Rightarrow> db \<Rightarrow> db option" where
  "query_put q now d = (case q now d of Inl e \<Rightarrow> None | Inr (x, d') \<Rightarrow> Some d')"

definition put_confirmation :: "instant \<times> instant \<Rightarrow> uuid \<Rightarrow> string \<Rightarrow> db \<Rightarrow> db option" where
  "put_confirmation p u h d = query_put (upsert_email_confirmation u h (fst p)) (snd p) d"

definition put_reset :: "instant \<times> instant \<Rightarrow> uuid \<Rightarrow> string \<Rightarrow> db \<Rightarrow> db option" where
  "put_reset p u h d = query_put (upsert_password_reset u h (fst p)) (snd p) d"

definition put_ical :: "instant \<Rightarrow> uuid \<Rightarrow> string \<Rightarrow> db \<Rightarrow> db option" where
  "put_ical now u h d = query_put (upsert_ical_token u h) now d"

definition confirmation_owner :: "string \<Rightarrow> db \<Rightarrow> uuid option" where
  "confirmation_owner h d = owner_of lk_user_id lk_token_hash h (confirmations d)"

definition reset_owner :: "string \<Rightarrow> db \<Rightarrow> uuid option" where
  "reset_owner h d = owner_of lk_user_id lk_token_hash h (resets d)"

definition ical_owner :: "string \<Rightarrow> db \<Rightarrow> uuid option" where
  "ical_owner h d = owner_of ic_user_id ic_token_hash h (ical_tokens d)"

lemma rotate_link_laws:
  assumes "links_ok t" "rotate_link known u h ex now t = Inr t'"
  shows "links_ok t'"
    and "owner_of lk_user_id lk_token_hash h t = None \<or> owner_of lk_user_id lk_token_hash h t = Some u"
    and "owner_of lk_user_id lk_token_hash k t' =
           (if k = h then Some u else if owner_of lk_user_id lk_token_hash k t = Some u then None
            else owner_of lk_user_id lk_token_hash k t)"
proof -
  let ?new = "\<lparr>lk_user_id = u, lk_token_hash = h, lk_expires_at = ex, lk_consumed_at = None,
                lk_created_at = now\<rparr>"
  let ?merge = "\<lambda>r :: link_row. r\<lparr>lk_token_hash := h, lk_expires_at := ex, lk_consumed_at := None,
                lk_created_at := now\<rparr>"
  have t': "t' = upsert_row lk_user_id ?new ?merge t"
    and free: "\<not> has_row (\<lambda>r. lk_token_hash r = h \<and> lk_user_id r \<noteq> u) t"
    using assms(2) by (auto simp: rotate_link_def split: if_splits)
  have ok: "two_keyed lk_user_id lk_token_hash t" using assms(1) by (simp add: links_ok_def)
  note rot = rotation [of lk_user_id lk_token_hash t h u ?new ?merge, OF ok free]
  show "links_ok t'" unfolding t' links_ok_def by (rule rot(1)) simp_all
  show "owner_of lk_user_id lk_token_hash h t = None \<or> owner_of lk_user_id lk_token_hash h t = Some u"
    by (rule rot(2)) simp_all
  show "owner_of lk_user_id lk_token_hash k t' =
           (if k = h then Some u else if owner_of lk_user_id lk_token_hash k t = Some u then None
            else owner_of lk_user_id lk_token_hash k t)"
    unfolding t' by (rule rot(3)) simp_all
qed

text \<open>The row a rotation stores under its hash is the user's, unconsumed, with the new expiry.\<close>

lemma rotated_link_fresh:
  assumes "rotate_link known u h ex now t = Inr t'" and "find (\<lambda>r. lk_token_hash r = h) t' = Some l"
  shows "lk_user_id l = u \<and> lk_consumed_at l = None \<and> lk_expires_at l = ex"
proof -
  let ?new = "\<lparr>lk_user_id = u, lk_token_hash = h, lk_expires_at = ex, lk_consumed_at = None,
                lk_created_at = now\<rparr>"
  let ?merge = "\<lambda>r :: link_row. r\<lparr>lk_token_hash := h, lk_expires_at := ex, lk_consumed_at := None,
                lk_created_at := now\<rparr>"
  have l: "l \<in> set t'" "lk_token_hash l = h" using find_in_set [OF assms(2)] by auto
  have t': "t' = upsert_row lk_user_id ?new ?merge t"
    and free: "\<forall>r \<in> set t. lk_token_hash r = h \<longrightarrow> lk_user_id r = u"
    using assms(1) by (auto simp: rotate_link_def has_row_iff split: if_splits)
  consider (new) "l = ?new" | (old) r0 where "r0 \<in> set t" "l = (if lk_user_id r0 = u then ?merge r0 else r0)"
    using set_upsert_row [OF l(1) [unfolded t']] by auto
  then show ?thesis
  proof cases
    case new
    then show ?thesis by simp
  next
    case old
    then show ?thesis using free l(2) by (cases "lk_user_id r0 = u") simp_all
  qed
qed

lemma put_confirmation_Some:
  "put_confirmation p u h d = Some d' \<Longrightarrow>
     \<exists>t. rotate_link (user_exists d u) u h (fst p) (snd p) (confirmations d) = Inr t \<and>
         d' = d\<lparr>confirmations := t\<rparr>"
  by (auto simp: put_confirmation_def query_put_def upsert_email_confirmation_def split: sum.splits)

lemma put_reset_Some:
  "put_reset p u h d = Some d' \<Longrightarrow>
     \<exists>t. rotate_link (user_exists d u) u h (fst p) (snd p) (resets d) = Inr t \<and>
         d' = d\<lparr>resets := t\<rparr>"
  by (auto simp: put_reset_def query_put_def upsert_password_reset_def split: sum.splits)

interpretation confirmation_tokens:
  token_table put_confirmation confirmation_owner "\<lambda>d. links_ok (confirmations d)"
  by unfold_locales
    (auto simp: confirmation_owner_def rotate_link_laws(1,3) dest: rotate_link_laws(2) dest!: put_confirmation_Some)

interpretation reset_tokens:
  token_table put_reset reset_owner "\<lambda>d. links_ok (resets d)"
  by unfold_locales
    (auto simp: reset_owner_def rotate_link_laws(1,3) dest: rotate_link_laws(2) dest!: put_reset_Some)

lemma put_ical_Some:
  assumes "put_ical now u h d = Some d'"
  defines "new \<equiv> \<lparr>ic_user_id = u, ic_token_hash = h, ic_created_at = now, ic_last_accessed_at = None\<rparr>"
    and "merge \<equiv> \<lambda>r :: ical_row. r\<lparr>ic_token_hash := h, ic_created_at := now, ic_last_accessed_at := None\<rparr>"
  shows "\<not> has_row (\<lambda>r. ic_token_hash r = h \<and> ic_user_id r \<noteq> u) (ical_tokens d)"
    and "ical_tokens d' = upsert_row ic_user_id new merge (ical_tokens d)"
  using assms(1)
  by (auto simp: put_ical_def query_put_def upsert_ical_token_def new_def merge_def
      split: sum.splits if_splits)

interpretation ical_token_table:
  token_table put_ical ical_owner "\<lambda>d. two_keyed ic_user_id ic_token_hash (ical_tokens d)"
proof unfold_locales
  fix d d' and now :: instant and u :: uuid and h k
  let ?new = "\<lparr>ic_user_id = u, ic_token_hash = h, ic_created_at = now, ic_last_accessed_at = None\<rparr>"
  let ?merge = "\<lambda>r :: ical_row. r\<lparr>ic_token_hash := h, ic_created_at := now, ic_last_accessed_at := None\<rparr>"
  assume ok: "two_keyed ic_user_id ic_token_hash (ical_tokens d)" and put: "put_ical now u h d = Some d'"
  note rot = rotation [of ic_user_id ic_token_hash "ical_tokens d" h u ?new ?merge,
      OF ok put_ical_Some(1) [OF put]]
  show "two_keyed ic_user_id ic_token_hash (ical_tokens d')"
    unfolding put_ical_Some(2) [OF put] by (rule rot(1)) simp_all
  show "ical_owner h d = None \<or> ical_owner h d = Some u"
    unfolding ical_owner_def by (rule rot(2)) simp_all
  show "ical_owner k d' = (if k = h then Some u else if ical_owner k d = Some u then None else ical_owner k d)"
    unfolding ical_owner_def put_ical_Some(2) [OF put] by (rule rot(3)) simp_all
qed

end
