(* ===== verification/Email.thy ===== *)
theory Email
  imports World
begin

text \<open>
  The three mails of \<open>internal/email/email.go\<close>. A link is placed in the plain text as it is
  and in the HTML after \<open>html.EscapeString\<close>.
\<close>

text \<open>\<open>html.EscapeString\<close> of the standard library: five characters have a replacement.\<close>

definition html_escape_char :: "char \<Rightarrow> string" where
  "html_escape_char c =
     (if c = CHR 0x26 then ''&amp;'' else if c = CHR 0x27 then ''&#39;''
      else if c = CHR 0x3C then ''&lt;'' else if c = CHR 0x3E then ''&gt;''
      else if c = CHR 0x22 then ''&#34;'' else [c])"

definition html_escape :: "string \<Rightarrow> string" where
  "html_escape s = concat (map html_escape_char s)"

text \<open>A raw string literal of the source: its lines, each ended by a newline.\<close>

definition text_lines :: "string list \<Rightarrow> string" where
  "text_lines ls = concat (map (\<lambda>l. l @ [CHR 0x0A]) ls)"

definition confirmation_message :: "string \<Rightarrow> string \<Rightarrow> mail" where
  \<open>confirmation_message to link =
     (let safe_link = html_escape link in
      \<lparr>mail_to = to, mail_subject = ''Confirm your email address'',
       mail_html = text_lines
       [''<!doctype html>'',
        ''<html>'',
        ''  <body style="font-family: system-ui, -apple-system, sans-serif; line-height: 1.5;">'',
        ''    <img src="https://hereswhatshappening.app/titleGraphic1.png" style="width: 280px;" alt="Here's What's Happening"/>'',
        ''    <div>Confirm your email address to get started!</div>'',
        ''    <p>'',
        ''      <a href="'' @ safe_link @ ''">'',
        ''        '' @ safe_link,
        ''      </a>'',
        ''    </p>'',
        ''    <div>'',
        ''      This link expires in 24 hours. If you didn't create an account, you can'',
        ''      ignore this message.'',
        ''    </div>'',
        ''  </body>'',
        ''</html>''],
       mail_text = text_lines
       [''Welcome to Here's What's Happening.'',
        [],
        ''Confirm your email address by opening this link:'',
        [],
        link,
        [],
        ''This link expires in 24 hours. If you didn't create an account, you can ignore'',
        ''this message.'']\<rparr>)\<close>

definition password_reset_message :: "string \<Rightarrow> string \<Rightarrow> mail" where
  \<open>password_reset_message to link =
     (let safe_link = html_escape link in
      \<lparr>mail_to = to, mail_subject = ''Reset your password'',
       mail_html = text_lines
       [''<!doctype html>'',
        ''<html>'',
        ''  <body style="font-family: system-ui, -apple-system, sans-serif; line-height: 1.5;">'',
        ''    <img src="https://hereswhatshappening.app/titleGraphic1.png" style="width: 280px;" alt="Here's What's Happening"/>'',
        ''    <div>Someone asked to reset the password for your account. Choose a new one here:</div>'',
        ''    <p>'',
        ''      <a href="'' @ safe_link @ ''">'',
        ''        '' @ safe_link,
        ''      </a>'',
        ''    </p>'',
        ''    <div>'',
        ''      This link expires in 10 minutes and works once. If you didn't ask for'',
        ''      this, you can ignore this message and your password will stay the same.'',
        ''    </div>'',
        ''  </body>'',
        ''</html>''],
       mail_text = text_lines
       [''Someone asked to reset the password for your Here's What's Happening account.'',
        [],
        ''Choose a new password by opening this link:'',
        [],
        link,
        [],
        ''This link expires in 10 minutes and works once. If you didn't ask for this, you'',
        ''can ignore this message and your password will stay the same.'']\<rparr>)\<close>

definition password_changed_message :: "string \<Rightarrow> mail" where
  \<open>password_changed_message to =
     \<lparr>mail_to = to, mail_subject = ''Your password was changed'',
      mail_html = text_lines
       [''<!doctype html>'',
        ''<html>'',
        ''  <body style="font-family: system-ui, -apple-system, sans-serif; line-height: 1.5;">'',
        ''    <img src="https://hereswhatshappening.app/titleGraphic1.png" style="width: 280px;" alt="Here's What's Happening"/>'',
        ''    <div>'',
        ''      The password for your account was just changed, and every device that'',
        ''      was signed in has been signed out.'',
        ''    </div>'',
        ''    <p>'',
        ''      If this was you, there's nothing else to do. If it wasn't, reset your'',
        ''      password right away from the sign-in page.'',
        ''    </p>'',
        ''  </body>'',
        ''</html>''],
      mail_text = text_lines
       [''The password for your Here's What's Happening account was just changed, and'',
        ''every device that was signed in has been signed out.'',
        [],
        ''If this was you, there's nothing else to do. If it wasn't, reset your password'',
        ''right away from the sign-in page.'']\<rparr>\<close>

text \<open>
  An escaped link holds no angle bracket and no quote, so it cannot leave the attribute it
  is placed in; a link without those characters and without an ampersand is kept as it is.
\<close>

definition html_inert :: "string \<Rightarrow> bool" where
  "html_inert s = (set s \<inter> {CHR 0x22, CHR 0x27, CHR 0x3C, CHR 0x3E} = {})"

lemma html_escape_inert: "html_inert (html_escape s)"
  by (induction s) (auto simp: html_inert_def html_escape_def html_escape_char_def)

lemma html_escape_id: "html_inert s \<Longrightarrow> CHR 0x26 \<notin> set s \<Longrightarrow> html_escape s = s"
  by (induction s) (auto simp: html_inert_def html_escape_def html_escape_char_def)

lemma mail_to_simps [simp]:
  "mail_to (confirmation_message to link) = to"
  "mail_to (password_reset_message to link) = to"
  "mail_to (password_changed_message to) = to"
  by (simp_all add: confirmation_message_def password_reset_message_def password_changed_message_def Let_def)

end
