(* ===== verification/AuthHandlers.thy ===== *)
theory AuthHandlers
  imports StoreAuth Credentials Email
begin

text \<open>
  The account handlers of \<open>internal/http/handlers\<close>: \<open>auth.go\<close>, \<open>confirm.go\<close>,
  \<open>password_reset.go\<close> and \<open>DeleteMe\<close> of \<open>user.go\<close>. A handler takes the decoded request
  body (None when it does not decode), the refresh cookie, the query parameter or the user
  id of the request context it reads, and is a program over the world.
\<close>

section \<open>Access tokens\<close>

definition seconds_of :: "instant \<Rightarrow> int" where
  "seconds_of t = t div second"

definition sign_access :: "crypto_env \<Rightarrow> instant \<Rightarrow> uuid \<Rightarrow> bool \<Rightarrow> ('l, string option) act" where
  "sign_access C ttl u conf =
     do { now \<leftarrow> time_now;
          case jwt_sign C \<lparr>cl_confirmed = conf, cl_subject = uuid_string u,
                           cl_issued = seconds_of now, cl_expires = seconds_of (now + ttl)\<rparr> of
            None \<Rightarrow> ret None
          | Some tok \<Rightarrow> do { log_minted (u, conf); ret (Some tok) } }"

definition verify_access :: "crypto_env \<Rightarrow> instant \<Rightarrow> string \<Rightarrow> (uuid \<times> bool) option" where
  "verify_access C now tok =
     (case jwt_parse C now tok of
        None \<Rightarrow> None
      | Some c \<Rightarrow>
          (case parse_uuid C (cl_subject c) of None \<Rightarrow> None | Some u \<Rightarrow> Some (u, cl_confirmed c)))"

section \<open>Confirmation mail\<close>

definition confirmation_ttl :: instant where "confirmation_ttl = 24 * hour"

record conf_deps =
  cf_sender :: bool     \<comment> \<open>a Sender is configured\<close>
  cf_api_base :: string
  cf_app_base :: string

text \<open>True when the Go function returns a nil error.\<close>

definition send_confirmation :: "crypto_env \<Rightarrow> conf_deps \<Rightarrow> string \<Rightarrow> uuid \<Rightarrow> ('l, bool) act" where
  "send_confirmation C D to_email u =
     (if \<not> cf_sender D then ret False
      else do {
        raw \<leftarrow> generate_refresh;
        case raw of
          None \<Rightarrow> ret False
        | Some raw \<Rightarrow> do {
            now \<leftarrow> time_now;
            r \<leftarrow> db_call (upsert_email_confirmation u (hash_refresh C raw) (now + confirmation_ttl));
            case r of
              Inl e \<Rightarrow> ret False
            | Inr _ \<Rightarrow>
                send_mail (confirmation_message to_email
                  (cf_api_base D @ ''/auth/confirm?token='' @ query_escape raw)) } })"

section \<open>Signup, login, refresh, logout\<close>

definition min_password_len :: nat where "min_password_len = 8"

definition looks_like_email :: "string \<Rightarrow> bool" where
  "looks_like_email s =
     (case index_byte s (CHR ''@'') of
        None \<Rightarrow> False
      | Some i \<Rightarrow> 0 < i \<and> i < length s - 1 \<and> str_contains (drop (i + 1) s) ''.'')"

record auth_deps =
  ad_access_ttl :: instant
  ad_refresh_ttl :: instant
  ad_city_id :: string
  ad_conf :: conf_deps

definition user_out :: "uuid \<Rightarrow> user_row \<Rightarrow> f64 option \<Rightarrow> bool \<Rightarrow> json" where
  "user_out u r th setlists =
     JObj ([(''id'', JStr (uuid_string u)), (''email'', JStr (u_email r)),
            (''city_id'', JStr (uuid_string (u_city_id r))), (''confirmed'', JBool (u_confirmed r))]
           @ (case th of None \<Rightarrow> [] | Some x \<Rightarrow> [(''score_threshold'', JNum x)])
           @ [(''show_setlists'', JBool setlists)])"

text \<open>The steps Signup and Login share: an access token, a refresh token and its row.\<close>

definition open_session ::
    "crypto_env \<Rightarrow> auth_deps \<Rightarrow> user_row \<Rightarrow> ('l, response + (string \<times> string)) act" where
  "open_session C D r =
     do { access \<leftarrow> sign_access C (ad_access_ttl D) (u_id r) (u_confirmed r);
          case access of
            None \<Rightarrow> ret (Inl (http_err 500 ''sign_failed'' ''could not sign access token''))
          | Some access \<Rightarrow> do {
              tok \<leftarrow> generate_refresh;
              case tok of
                None \<Rightarrow> ret (Inl (http_err 500 ''refresh_failed'' ''could not mint refresh token''))
              | Some tok \<Rightarrow> do {
                  now \<leftarrow> time_now;
                  row \<leftarrow> db_insert (create_refresh_token (u_id r) (hash_refresh C tok)
                                    (now + ad_refresh_ttl D));
                  case row of
                    Inl e \<Rightarrow> ret (Inl (http_err 500 ''db_error'' ''could not persist refresh token''))
                  | Inr _ \<Rightarrow> ret (Inr (access, tok)) } } }"

definition set_refresh_cookie :: "string \<Rightarrow> instant \<Rightarrow> instant \<Rightarrow> response \<Rightarrow> response" where
  "set_refresh_cookie tok ttl now r = r\<lparr>r_cookie := SetRefresh tok (now + ttl)\<rparr>"

definition signup :: "crypto_env \<Rightarrow> auth_deps \<Rightarrow> (string \<times> string) option \<Rightarrow> 'l handler" where
  "signup C D req =
     (case req of
        None \<Rightarrow> ret (http_err 400 ''bad_json'' ''request body is not valid JSON'')
      | Some (raw_email, password) \<Rightarrow>
          let email = to_lower (cr_text C) (trim_space raw_email) in
          if \<not> looks_like_email email
          then ret (http_err 400 ''invalid_email'' ''email is not valid'')
          else if length password < min_password_len
          then ret (http_err 400 ''weak_password'' ''password must be at least 8 characters'')
          else do {
            hash \<leftarrow> pw_hash C password;
            case hash of
              None \<Rightarrow> ret (http_err 500 ''hash_failed'' ''could not hash password'')
            | Some hash \<Rightarrow>
                (case parse_uuid C (ad_city_id D) of
                   None \<Rightarrow> ret (http_err 500 ''bad_city_id'' ''city id is invalid'')
                 | Some city \<Rightarrow> do {
                     row \<leftarrow> db_insert (create_user email hash city False);
                     case row of
                       Inl Unique \<Rightarrow>
                         ret (http_err 409 ''email_taken'' ''an account with that email already exists'')
                     | Inl e \<Rightarrow> ret (http_err 500 ''db_error'' ''could not create user'')
                     | Inr r \<Rightarrow> do {
                         session \<leftarrow> open_session C D r;
                         case session of
                           Inl resp \<Rightarrow> ret resp
                         | Inr (access, tok) \<Rightarrow> do {
                             now \<leftarrow> time_now;
                             _ \<leftarrow> send_confirmation C (ad_conf D) (u_email r) (u_id r);
                             ret (set_refresh_cookie tok (ad_refresh_ttl D) now
                               (respond 201 (JsonBody (JObj
                                 [(''access_token'', JStr access),
                                  (''user'', user_out (u_id r) r None False)])))) } } }) })"

definition login :: "crypto_env \<Rightarrow> auth_deps \<Rightarrow> (string \<times> string) option \<Rightarrow> 'l handler" where
  "login C D req =
     (case req of
        None \<Rightarrow> ret (http_err 400 ''bad_json'' ''request body is not valid JSON'')
      | Some (raw_email, password) \<Rightarrow> do {
          row \<leftarrow> db_call (get_user_by_email (to_lower (cr_text C) (trim_space raw_email)));
          case row of
            Inl e \<Rightarrow> ret (http_err 401 ''invalid_credentials'' ''email or password is wrong'')
          | Inr r \<Rightarrow>
              (case pw_verify C password (u_password_hash r) of
                 VerifyPanic \<Rightarrow> ret (respond 500 NoBody)
               | VerifyError \<Rightarrow> ret (http_err 401 ''invalid_credentials'' ''email or password is wrong'')
               | Verified False \<Rightarrow> ret (http_err 401 ''invalid_credentials'' ''email or password is wrong'')
               | Verified True \<Rightarrow> do {
                   session \<leftarrow> open_session C D r;
                   case session of
                     Inl resp \<Rightarrow> ret resp
                   | Inr (access, tok) \<Rightarrow> do {
                       now \<leftarrow> time_now;
                       ret (set_refresh_cookie tok (ad_refresh_ttl D) now
                         (respond 200 (JsonBody (JObj [(''access_token'', JStr access)])))) } }) })"

text \<open>\<open>cookie\<close> is the value of the \<open>refresh_token\<close> cookie; None and the empty string are no cookie.\<close>

definition refresh :: "crypto_env \<Rightarrow> auth_deps \<Rightarrow> string option \<Rightarrow> 'l handler" where
  "refresh C D cookie =
     (case cookie of
        None \<Rightarrow> ret (http_err 401 ''no_refresh'' ''refresh token cookie is missing'')
      | Some [] \<Rightarrow> ret (http_err 401 ''no_refresh'' ''refresh token cookie is missing'')
      | Some (c # cs) \<Rightarrow> do {
          row \<leftarrow> db_call (get_active_refresh_token (hash_refresh C (c # cs)));
          case row of
            Inl e \<Rightarrow> ret (http_err 401 ''invalid_refresh'' ''refresh token is not valid'')
          | Inr (u, conf) \<Rightarrow> do {
              access \<leftarrow> sign_access C (ad_access_ttl D) u conf;
              case access of
                None \<Rightarrow> ret (http_err 500 ''sign_failed'' ''could not sign access token'')
              | Some access \<Rightarrow> ret (respond 200 (JsonBody (JObj [(''access_token'', JStr access)]))) } })"

definition clear_refresh_cookie :: "response \<Rightarrow> response" where
  "clear_refresh_cookie r = r\<lparr>r_cookie := ClearRefresh\<rparr>"

definition logout :: "crypto_env \<Rightarrow> string option \<Rightarrow> 'l handler" where
  "logout C cookie =
     (case cookie of
        Some (c # cs) \<Rightarrow> do {
          _ \<leftarrow> db_call (revoke_refresh_token (hash_refresh C (c # cs)));
          ret (clear_refresh_cookie no_content) }
      | _ \<Rightarrow> ret (clear_refresh_cookie no_content))"

section \<open>Confirming an address\<close>

text \<open>\<open>token\<close> is the query parameter, empty when it is absent.\<close>

definition confirm_email :: "crypto_env \<Rightarrow> conf_deps \<Rightarrow> string \<Rightarrow> 'l handler" where
  "confirm_email C D token =
     (let confirm_error = cf_app_base D @ ''/?confirmerror=true'' in
      if token = [] then ret (redirect confirm_error)
      else do {
        row \<leftarrow> db_call (get_email_confirmation (hash_refresh C token));
        case row of
          Inl e \<Rightarrow> ret (redirect confirm_error)
        | Inr row \<Rightarrow> do {
            user \<leftarrow> db_call (get_user_by_id (lk_user_id row));
            let welcome = cf_app_base D @ ''/?welcome=true''
                  @ (case user of Inl e \<Rightarrow> [] | Inr r \<Rightarrow> ''&email='' @ query_escape (u_email r));
            if lk_consumed_at row \<noteq> None then ret (redirect welcome)
            else do {
              now \<leftarrow> time_now;
              if lk_expires_at row < now then ret (redirect confirm_error)
              else do {
                marked \<leftarrow> db_call (mark_user_confirmed (lk_user_id row));
                case marked of
                  Inl e \<Rightarrow> ret (redirect confirm_error)
                | Inr _ \<Rightarrow> do {
                    _ \<leftarrow> db_call (consume_email_confirmation (lk_user_id row));
                    ret (redirect welcome) } } } } })"

definition resend_confirmation :: "crypto_env \<Rightarrow> conf_deps \<Rightarrow> uuid option \<Rightarrow> 'l handler" where
  "resend_confirmation C D uid =
     (case uid of
        None \<Rightarrow> ret no_user
      | Some u \<Rightarrow> do {
          row \<leftarrow> db_call (get_user_by_id u);
          case row of
            Inl e \<Rightarrow> ret (http_err 404 ''no_user'' ''user not found'')
          | Inr r \<Rightarrow>
              if u_confirmed r then ret no_content
              else do {
                sent \<leftarrow> send_confirmation C D (u_email r) u;
                if sent then ret no_content
                else ret (http_err 500 ''send_failed'' ''could not send the confirmation email'') } })"

section \<open>Password reset\<close>

definition password_reset_ttl :: instant where "password_reset_ttl = 10 * minute"

record 'l reset_deps =
  rd_sender :: bool
  rd_app_base :: string
  rd_limiter :: "'l limiter option"

definition mail_reset_link :: "crypto_env \<Rightarrow> 'l reset_deps \<Rightarrow> user_row \<Rightarrow> ('l, bool) act" where
  "mail_reset_link C D user =
     do { raw \<leftarrow> generate_refresh;
          case raw of
            None \<Rightarrow> ret False
          | Some raw \<Rightarrow> do {
              now \<leftarrow> time_now;
              r \<leftarrow> db_call (upsert_password_reset (u_id user) (hash_refresh C raw)
                             (now + password_reset_ttl));
              case r of
                Inl e \<Rightarrow> ret False
              | Inr _ \<Rightarrow>
                  send_mail (password_reset_message (u_email user)
                    (rd_app_base D @ ''/reset-password?token='' @ query_escape raw)) } }"

text \<open>True for a nil error, which covers every outcome the caller should not hear about.\<close>

definition send_password_reset :: "crypto_env \<Rightarrow> 'l reset_deps \<Rightarrow> string \<Rightarrow> ('l, bool) act" where
  "send_password_reset C D address =
     (if \<not> looks_like_email address then ret True
      else if \<not> rd_sender D then ret False
      else do {
        allowed \<leftarrow>
          (case rd_limiter D of
             None \<Rightarrow> ret True
           | Some L \<Rightarrow> do {
               d \<leftarrow> limit_allow L (''email:'' @ address);
               if d_allowed d then do { limit_record L (''email:'' @ address); ret True }
               else ret False });
        if \<not> allowed then ret True
        else do {
          row \<leftarrow> db_call (get_user_by_email address);
          case row of
            Inl NoRows \<Rightarrow> ret True
          | Inl e \<Rightarrow> ret False
          | Inr user \<Rightarrow> mail_reset_link C D user } })"

text \<open>
  The mail work runs on a goroutine after the answer; its outcome is logged only. The
  answer does not depend on it, so the model runs it before returning.
\<close>

definition request_password_reset :: "crypto_env \<Rightarrow> 'l reset_deps \<Rightarrow> string option \<Rightarrow> 'l handler" where
  "request_password_reset C D req =
     (case req of
        None \<Rightarrow> ret (http_err 400 ''bad_json'' ''request body is not valid JSON'')
      | Some email \<Rightarrow> do {
          _ \<leftarrow> send_password_reset C D (to_lower (cr_text C) (trim_space email));
          ret no_content })"

definition reset_password :: "crypto_env \<Rightarrow> 'l reset_deps \<Rightarrow> (string \<times> string) option \<Rightarrow> 'l handler" where
  "reset_password C D req =
     (case req of
        None \<Rightarrow> ret (http_err 400 ''bad_json'' ''request body is not valid JSON'')
      | Some (token, password) \<Rightarrow>
          if token = []
          then ret (http_err 400 ''invalid_token'' ''this reset link is invalid or has expired'')
          else if length password < min_password_len
          then ret (http_err 400 ''weak_password'' ''password must be at least 8 characters'')
          else do {
            hash \<leftarrow> pw_hash C password;
            case hash of
              None \<Rightarrow> ret (http_err 500 ''hash_failed'' ''could not hash password'')
            | Some hash \<Rightarrow> do {
                row \<leftarrow> db_call (reset_password_with_token (hash_refresh C token) hash);
                case row of
                  Inl e \<Rightarrow> ret (http_err 500 ''db_error'' ''could not reset password'')
                | Inr None \<Rightarrow>
                    ret (http_err 400 ''invalid_token'' ''this reset link is invalid or has expired'')
                | Inr (Some r) \<Rightarrow> do {
                    _ \<leftarrow> (if rd_sender D then send_mail (password_changed_message (u_email r)) else ret False);
                    ret (respond 200 (JsonBody (JObj [(''email'', JStr (u_email r))]))) } } })"

definition delete_me :: "uuid option \<Rightarrow> 'l handler" where
  "delete_me uid =
     (case uid of
        None \<Rightarrow> ret no_user
      | Some u \<Rightarrow> do {
          r \<leftarrow> db_call (delete_user u);
          case r of
            Inl e \<Rightarrow> ret (http_err 500 ''db_error'' ''could not delete user'')
          | Inr _ \<Rightarrow> ret (clear_refresh_cookie no_content) })"

end
