(* ===== verification/AuthInv.thy ===== *)
theory AuthInv
  imports AuthHandlers
begin

text \<open>
  The account invariants: which statements keep the tables consistent, which worlds the
  account handlers can reach, and what holds in all of them, whatever calls fail on the way.
\<close>

section \<open>Consistent account tables\<close>

text \<open>No row of the user is unconfirmed.\<close>

definition settled_in :: "db \<Rightarrow> uuid \<Rightarrow> bool" where
  "settled_in d u = (\<forall>r \<in> set (users d). u_id r = u \<longrightarrow> u_confirmed r)"

definition links_backed :: "db \<Rightarrow> bool" where
  "links_backed d =
     ((\<forall>l \<in> set (confirmations d). user_exists d (lk_user_id l)) \<and>
      (\<forall>l \<in> set (resets d). user_exists d (lk_user_id l)))"

text \<open>A consumed confirmation link never belongs to an unconfirmed user.\<close>

definition consumed_ok :: "db \<Rightarrow> bool" where
  "consumed_ok d =
     (\<forall>l \<in> set (confirmations d). lk_consumed_at l \<noteq> None \<longrightarrow> settled_in d (lk_user_id l))"

definition account_ok :: "db \<Rightarrow> bool" where
  "account_ok d =
     (keyed u_id (users d) \<and> links_ok (confirmations d) \<and> links_ok (resets d) \<and>
      links_backed d \<and> consumed_ok d)"

text \<open>What a statement may do to the users: add the row of a fresh id, never unconfirm.\<close>

definition advances :: "uuid \<Rightarrow> db \<Rightarrow> db \<Rightarrow> bool" where
  "advances fresh d d' =
     ((\<forall>r \<in> set (users d'). u_id r = fresh \<or> user_exists d (u_id r)) \<and>
      (\<forall>u. u \<noteq> fresh \<longrightarrow> settled_in d u \<longrightarrow> settled_in d' u))"

definition sound_query :: "uuid \<Rightarrow> 'a query \<Rightarrow> bool" where
  "sound_query fresh q =
     (\<forall>t d a d'. account_ok d \<longrightarrow> q t d = Inr (a, d') \<longrightarrow> account_ok d' \<and> advances fresh d d')"

lemma sound_queryI:
  "(\<And>t d a d'. account_ok d \<Longrightarrow> q t d = Inr (a, d') \<Longrightarrow> account_ok d' \<and> advances fresh d d') \<Longrightarrow>
     sound_query fresh q"
  by (auto simp: sound_query_def)

lemma sound_queryD:
  "sound_query fresh q \<Longrightarrow> account_ok d \<Longrightarrow> q t d = Inr (a, d') \<Longrightarrow> account_ok d' \<and> advances fresh d d'"
  by (auto simp: sound_query_def)

lemma user_exists_iff: "user_exists d u \<longleftrightarrow> (\<exists>r \<in> set (users d). u_id r = u)"
  by (simp add: user_exists_def has_row_iff)

lemma user_exists_image: "user_exists d u \<longleftrightarrow> u \<in> u_id ` set (users d)"
  by (auto simp: user_exists_iff)

lemmas account_defs = account_ok_def links_backed_def consumed_ok_def advances_def
  settled_in_def user_exists_iff

text \<open>A statement that leaves the three tables alone is sound.\<close>

definition leaves_accounts :: "'a query \<Rightarrow> bool" where
  "leaves_accounts q =
     (\<forall>t d a d'. q t d = Inr (a, d') \<longrightarrow>
        users d' = users d \<and> confirmations d' = confirmations d \<and> resets d' = resets d)"

lemma leaves_accountsI:
  "(\<And>t d a d'. q t d = Inr (a, d') \<Longrightarrow>
      users d' = users d \<and> confirmations d' = confirmations d \<and> resets d' = resets d) \<Longrightarrow>
     leaves_accounts q"
  by (auto simp: leaves_accounts_def)

lemma sound_leaves: "leaves_accounts q \<Longrightarrow> sound_query fresh q"
  by (rule sound_queryI) (auto simp: leaves_accounts_def account_defs)

named_theorems sound_rules \<open>statements that keep the account tables consistent\<close>

lemma sound_reads [sound_rules]:
  "sound_query fresh (get_user_by_email e)" "sound_query fresh (get_user_by_id u)"
  "sound_query fresh (get_active_refresh_token h)" "sound_query fresh (get_email_confirmation h)"
  "sound_query fresh (create_refresh_token u h ex fr)" "sound_query fresh (revoke_refresh_token h)"
  by (auto intro!: sound_leaves leaves_accountsI simp: auth_query_defs
      split: option.splits if_splits)

lemma links_ok_update_rows:
  "(\<And>r. lk_user_id (f r) = lk_user_id r \<and> lk_token_hash (f r) = lk_token_hash r) \<Longrightarrow>
     links_ok (update_rows P f t) = links_ok t"
  by (simp add: links_ok_def two_keyed_def keyed_update_rows)

lemma links_ok_delete_rows: "links_ok t \<Longrightarrow> links_ok (delete_rows P t)"
  by (simp add: links_ok_def two_keyed_def keyed_delete_rows)

lemma sound_create_user [sound_rules]: "sound_query fresh (create_user email pw city conf fresh)"
proof (rule sound_queryI)
  fix t d a d'
  assume ok: "account_ok d" and q: "create_user email pw city conf fresh t d = Inr (a, d')"
  from q obtain r where d': "d' = d\<lparr>users := users d @ [r]\<rparr>" and r: "u_id r = fresh"
    and new: "\<not> user_exists d fresh"
    by (auto simp: create_user_def Let_def user_exists_iff has_row_iff split: if_splits)
  from ok new show "account_ok d' \<and> advances fresh d d'"
    unfolding d' by (auto simp: account_defs r keyed_def)
qed

lemma sound_delete_user [sound_rules]: "sound_query fresh (delete_user u)"
proof (rule sound_queryI)
  fix t d a d'
  assume ok: "account_ok d" and q: "delete_user u t d = Inr (a, d')"
  have us: "users d' = delete_rows (\<lambda>r. u_id r = u) (users d)"
    and cs: "confirmations d' = delete_rows (\<lambda>l. lk_user_id l = u) (confirmations d)"
    and rs: "resets d' = delete_rows (\<lambda>l. lk_user_id l = u) (resets d)"
    using q by (auto simp: delete_user_def)
  have ex: "user_exists d' v \<longleftrightarrow> user_exists d v \<and> v \<noteq> u" for v
    by (auto simp: user_exists_iff us table_simps)
  have st: "settled_in d v \<Longrightarrow> settled_in d' v" for v by (auto simp: settled_in_def us table_simps)
  show "account_ok d' \<and> advances fresh d d'"
    using ok unfolding account_ok_def links_backed_def consumed_ok_def advances_def ex
    by (auto simp: us cs rs table_simps keyed_delete_rows links_ok_delete_rows user_exists_iff st)
qed

text \<open>Updating users, ids kept and nobody unconfirmed.\<close>

lemma update_users:
  assumes us: "users d' = update_rows P f (users d)"
    and f: "\<And>r. u_id (f r) = u_id r" "\<And>r. u_confirmed r \<Longrightarrow> u_confirmed (f r)"
  shows "user_exists d' v = user_exists d v" and "settled_in d v \<Longrightarrow> settled_in d' v"
    and "keyed u_id (users d') = keyed u_id (users d)"
proof -
  have "map u_id (users d') = map u_id (users d)" using f(1) by (simp add: us update_rows_def)
  then have "u_id ` set (users d') = u_id ` set (users d)" by (metis set_map)
  then show "user_exists d' v = user_exists d v" by (simp add: user_exists_image)
  show "settled_in d v \<Longrightarrow> settled_in d' v"
    using f by (auto simp: settled_in_def us table_simps split: if_splits)
  show "keyed u_id (users d') = keyed u_id (users d)" unfolding us by (rule keyed_update_rows) (rule f(1))
qed

lemma sound_update_users:
  assumes ok: "account_ok d" and us: "users d' = update_rows P f (users d)"
    and f: "\<And>r. u_id (f r) = u_id r" "\<And>r. u_confirmed r \<Longrightarrow> u_confirmed (f r)"
    and c: "confirmations d' = confirmations d"
    and r: "resets d' = resets d \<or>
      resets d' = update_rows Q (\<lambda>r. r\<lparr>lk_consumed_at := Some t\<rparr>) (resets d)"
  shows "account_ok d' \<and> advances fresh d d'"
proof -
  note upd = update_users [OF us f]
  have "links_ok (resets d')"
    using r ok by (auto simp: account_ok_def links_ok_update_rows)
  moreover have "\<forall>l \<in> set (resets d'). user_exists d (lk_user_id l)"
    using r ok by (auto simp: account_ok_def links_backed_def table_simps)
  moreover have "\<forall>r \<in> set (users d'). user_exists d (u_id r)"
    using upd(1) by (auto simp: user_exists_iff)
  ultimately show ?thesis
    using ok c upd by (auto simp: account_ok_def links_backed_def consumed_ok_def advances_def)
qed

lemma sound_mark_user_confirmed [sound_rules]: "sound_query fresh (mark_user_confirmed u)"
proof (rule sound_queryI)
  fix t d a d'
  assume ok: "account_ok d" and q: "mark_user_confirmed u t d = Inr (a, d')"
  from q show "account_ok d' \<and> advances fresh d d'"
    by (intro sound_update_users [OF ok, where P = "\<lambda>r. u_id r = u" and f = "u_confirmed_update (\<lambda>_. True)"
        and Q = "\<lambda>_. False" and t = t])
      (auto simp: mark_user_confirmed_def)
qed

lemma rotate_link_rows:
  "rotate_link known u h ex now t = Inr t' \<Longrightarrow> r \<in> set t' \<Longrightarrow>
     (lk_user_id r = u \<and> lk_consumed_at r = None \<and> (known \<or> (\<exists>r0 \<in> set t. lk_user_id r0 = u))) \<or> r \<in> set t"
  by (auto simp: rotate_link_def upsert_row_def table_simps has_row_iff split: if_splits)

lemma rotated_links_backed:
  assumes "rotate_link (user_exists d u) u h ex now t = Inr t'" "l \<in> set t'"
    and "\<forall>l \<in> set t. user_exists d (lk_user_id l)"
  shows "user_exists d (lk_user_id l)"
  using rotate_link_rows [OF assms(1,2)] assms(3) by auto

lemma sound_upsert_email_confirmation [sound_rules]:
  "sound_query fresh (upsert_email_confirmation u h ex)"
proof (rule sound_queryI)
  fix t d a d'
  assume ok: "account_ok d" and q: "upsert_email_confirmation u h ex t d = Inr (a, d')"
  from q obtain c where c: "rotate_link (user_exists d u) u h ex t (confirmations d) = Inr c"
    and d': "d' = d\<lparr>confirmations := c\<rparr>"
    by (auto simp: upsert_email_confirmation_def split: sum.splits)
  have "links_ok c" using ok c by (auto simp: account_ok_def intro: rotate_link_laws)
  moreover have "\<forall>l \<in> set c. user_exists d (lk_user_id l)"
    using rotated_links_backed [OF c] ok by (simp add: account_ok_def links_backed_def)
  moreover have "lk_consumed_at l = None \<or> settled_in d (lk_user_id l)" if "l \<in> set c" for l
    using rotate_link_rows [OF c that] ok by (auto simp: account_ok_def consumed_ok_def)
  ultimately show "account_ok d' \<and> advances fresh d d'"
    using ok unfolding d' account_defs by fastforce
qed

lemma sound_upsert_password_reset [sound_rules]:
  "sound_query fresh (upsert_password_reset u h ex)"
proof (rule sound_queryI)
  fix t d a d'
  assume ok: "account_ok d" and q: "upsert_password_reset u h ex t d = Inr (a, d')"
  from q obtain c where c: "rotate_link (user_exists d u) u h ex t (resets d) = Inr c"
    and d': "d' = d\<lparr>resets := c\<rparr>"
    by (auto simp: upsert_password_reset_def split: sum.splits)
  have "links_ok c" using ok c by (auto simp: account_ok_def intro: rotate_link_laws)
  moreover have "\<forall>l \<in> set c. user_exists d (lk_user_id l)"
    using rotated_links_backed [OF c] ok by (simp add: account_ok_def links_backed_def)
  ultimately show "account_ok d' \<and> advances fresh d d'"
    using ok unfolding d' account_defs by fastforce
qed

lemma sound_reset_password_with_token [sound_rules]:
  "sound_query fresh (reset_password_with_token h pw)"
proof (rule sound_queryI)
  fix t d a d'
  assume ok: "account_ok d" and q: "reset_password_with_token h pw t d = Inr (a, d')"
  show "account_ok d' \<and> advances fresh d d'"
  proof (cases "find (live_link t h) (resets d)")
    case None
    with q ok show ?thesis by (auto simp: reset_password_with_token_def account_defs)
  next
    case (Some l)
    let ?P = "\<lambda>r. u_id r = lk_user_id l \<and> u_deleted_at r = None"
    let ?f = "\<lambda>r. r\<lparr>u_password_hash := pw, u_confirmed := True\<rparr>"
    have "users d' = update_rows ?P ?f (users d)" "confirmations d' = confirmations d"
      "resets d' = update_rows (live_link t h) (\<lambda>r. r\<lparr>lk_consumed_at := Some t\<rparr>) (resets d)"
      using q Some by (auto simp: reset_password_with_token_def Let_def)
    then show ?thesis
      by (intro sound_update_users [OF ok, where P = ?P and f = ?f and Q = "live_link t h" and t = t]) auto
  qed
qed

text \<open>
  \<open>ConsumeEmailConfirmation\<close> is sound only for a user who is already confirmed: this is why
  the order of the two statements of \<open>ConfirmEmail\<close> matters.
\<close>

lemma sound_consume:
  assumes ok: "account_ok d" and settled: "settled_in d u"
    and q: "consume_email_confirmation u t d = Inr (a, d')"
  shows "account_ok d' \<and> advances fresh d d'"
proof -
  have "links_ok (confirmations d')" using ok q
    by (auto simp: consume_email_confirmation_def account_ok_def links_ok_update_rows)
  with ok settled q show ?thesis
    by (auto simp: account_defs consume_email_confirmation_def table_simps)
qed

section \<open>The invariant of the world\<close>

text \<open>
  Ids are drawn without repetition up to a horizon \<open>H\<close> of steps (a 128-bit id cannot be
  fresh for ever); the claims about issued tokens are made up to the horizon.
\<close>

definition distinct_ids :: "nat \<Rightarrow> outside \<Rightarrow> bool" where
  "distinct_ids H E = inj_on (fresh_uuid E) {..<H}"

text \<open>The user is confirmed, or gone: no account opened before the horizon gets the id.\<close>

definition settled :: "nat \<Rightarrow> uuid \<Rightarrow> 'l world \<Rightarrow> bool" where
  "settled H u w =
     (settled_in (w_db w) u \<and> (\<forall>n. w_step w \<le> n \<longrightarrow> n < H \<longrightarrow> fresh_uuid (w_env w) n \<noteq> u))"

definition fresh_inv :: "nat \<Rightarrow> 'l world \<Rightarrow> bool" where
  "fresh_inv H w =
     (distinct_ids H (w_env w) \<and>
      (\<forall>n. w_step w \<le> n \<longrightarrow> n < H \<longrightarrow> \<not> user_exists (w_db w) (fresh_uuid (w_env w) n)) \<and>
      (\<forall>u. (u, True) \<in> set (w_minted w) \<longrightarrow> settled H u w))"

definition auth_inv_at :: "nat \<Rightarrow> uuid set \<Rightarrow> 'l world \<Rightarrow> bool" where
  "auth_inv_at H U w =
     (account_ok (w_db w) \<and> (w_step w \<le> H \<longrightarrow> fresh_inv H w \<and> (\<forall>u \<in> U. settled H u w)))"

abbreviation auth_inv :: "nat \<Rightarrow> 'l world \<Rightarrow> bool" where
  "auth_inv H \<equiv> auth_inv_at H {}"

text \<open>One step of the world that a sound statement, or no statement, makes.\<close>

lemma settled_step:
  assumes "settled H u w" "w_env w' = w_env w" "w_step w' = Suc (w_step w)" "w_step w' \<le> H"
    and "advances (fresh_of w) (w_db w) (w_db w')"
  shows "settled H u w'"
proof -
  have "fresh_of w \<noteq> u" using assms(1,3,4) by (auto simp: settled_def fresh_of_def)
  then have "settled_in (w_db w') u" using assms(1,5) by (auto simp: settled_def advances_def)
  with assms show ?thesis by (auto simp: settled_def)
qed

lemma auth_inv_step:
  assumes inv: "auth_inv_at H U w"
    and f: "w_env w' = w_env w" "w_step w' = Suc (w_step w)" "w_minted w' = w_minted w"
    and ok: "account_ok (w_db w')" and adv: "advances (fresh_of w) (w_db w) (w_db w')"
  shows "auth_inv_at H U w'"
proof (cases "w_step w' \<le> H")
  case True
  have inv': "fresh_inv H w" "\<forall>u \<in> U. settled H u w"
    using inv True f(2) by (auto simp: auth_inv_at_def)
  have "\<not> user_exists (w_db w') (fresh_uuid (w_env w) n)" if n: "Suc (w_step w) \<le> n" "n < H" for n
  proof
    assume "user_exists (w_db w') (fresh_uuid (w_env w) n)"
    then have "fresh_uuid (w_env w) n = fresh_uuid (w_env w) (w_step w) \<or>
        user_exists (w_db w) (fresh_uuid (w_env w) n)"
      using adv by (auto simp: advances_def user_exists_iff fresh_of_def)
    with inv' n show False
      by (auto simp: fresh_inv_def distinct_ids_def dest!: inj_onD)
  qed
  moreover have "settled H u w'" if "settled H u w" for u
    using settled_step [OF that f(1,2) True adv] .
  ultimately show ?thesis
    using inv' ok f unfolding auth_inv_at_def fresh_inv_def by simp
qed (simp add: auth_inv_at_def ok)

lemma advances_refl: "advances fresh d d"
  by (auto simp: advances_def user_exists_iff)

lemma auth_inv_run_query:
  assumes "auth_inv_at H U w" and "sound_query (fresh_of w) q"
  shows "auth_inv_at H U (snd (run_query q w))"
proof (rule auth_inv_step [OF assms(1)])
  have ok: "account_ok (w_db w)" using assms(1) by (simp add: auth_inv_at_def)
  show "account_ok (w_db (snd (run_query q w)))"
    "advances (fresh_of w) (w_db w) (w_db (snd (run_query q w)))"
    using run_query_db [of q w] sound_queryD [OF assms(2) ok] ok advances_refl by auto
qed simp_all

lemma keeps_sound_call [keeps_rules]:
  "(\<And>f. sound_query f q) \<Longrightarrow> keeps (auth_inv_at H U) (db_call q)"
  by (auto intro!: keepsI auth_inv_run_query)

lemma keeps_sound_insert [keeps_rules]:
  "(\<And>f. sound_query f (g f)) \<Longrightarrow> keeps (auth_inv_at H U) (db_insert g)"
  by (auto intro!: keepsI auth_inv_run_query)

lemma auth_inv_frame:
  "auth_inv_at H U w \<Longrightarrow> w_env w' = w_env w \<Longrightarrow> w_step w' = Suc (w_step w) \<Longrightarrow>
     w_minted w' = w_minted w \<Longrightarrow> w_db w' = w_db w \<Longrightarrow> auth_inv_at H U w'"
  by (rule auth_inv_step) (auto simp: advances_refl auth_inv_at_def)

lemma auth_inv_same:
  "auth_inv_at H U w \<Longrightarrow> w_env w' = w_env w \<Longrightarrow> w_step w' = w_step w \<Longrightarrow>
     w_minted w' = w_minted w \<Longrightarrow> w_db w' = w_db w \<Longrightarrow> auth_inv_at H U w'"
  by (simp add: auth_inv_at_def fresh_inv_def settled_def)

lemma keeps_auth_calls [keeps_rules]:
  "keeps (auth_inv_at H U) (read_random n)" "keeps (auth_inv_at H U) time_now"
  "keeps (auth_inv_at H U) (send_mail m)" "keeps (auth_inv_at H U) (publish url j)"
  "keeps (auth_inv_at H U) (limit_allow L k)" "keeps (auth_inv_at H U) (limit_record L k)"
  by (auto intro!: keepsI elim: auth_inv_frame auth_inv_same
      simp: read_random_def time_now_def send_mail_def publish_def limit_allow_def limit_record_def
      split: fault.splits prod.splits)

text \<open>
  The claim a row supports: a confirmed flag implies a settled user. A claim of a confirmed
  user may be signed only for a user who is settled.
\<close>

definition backs :: "nat \<Rightarrow> uuid \<Rightarrow> bool \<Rightarrow> 'l world \<Rightarrow> bool" where
  "backs H u conf w = (w_step w \<le> H \<longrightarrow> conf \<longrightarrow> settled H u w)"

lemma triple_sign_access:
  "triple (\<lambda>w. auth_inv_at H U w \<and> backs H u conf w) (sign_access C ttl u conf) (\<lambda>_. auth_inv_at H U)"
  by (rule tripleI)
    (auto simp: sign_access_def auth_inv_at_def fresh_inv_def settled_def backs_def split: option.splits)

lemma backs_of_row:
  assumes "auth_inv_at H U w" "r \<in> set (users (w_db w))"
  shows "backs H (u_id r) (u_confirmed r) w"
proof -
  have "settled_in (w_db w) (u_id r)" if "u_confirmed r"
    using assms that unfolding settled_in_def auth_inv_at_def account_ok_def by (metis keyed_unique)
  moreover have "user_exists (w_db w) (u_id r)" using assms(2) by (auto simp: user_exists_iff)
  ultimately show ?thesis
    using assms(1) unfolding backs_def settled_def auth_inv_at_def fresh_inv_def by metis
qed

end
