(* ===== verification/AuthSystem.thy ===== *)
theory AuthSystem
  imports AuthInv
begin

text \<open>
  The account handlers as one service: every handler keeps the account invariant, so it
  holds in every world the service can reach.
\<close>

section \<open>Answers a later step relies on\<close>

lemma triple_call:
  assumes "\<And>f. sound_query f q" and "\<And>t d a d'. account_ok d \<Longrightarrow> q t d = Inr (a, d') \<Longrightarrow> R a d'"
  shows "triple (auth_inv_at H U) (db_call q)
           (\<lambda>x w. auth_inv_at H U w \<and> (\<forall>a. x = Inr a \<longrightarrow> R a (w_db w)))"
proof (rule tripleI)
  fix w x w' assume w: "auth_inv_at H U w" and run: "run_state (db_call q) w = (x, w')"
  have "account_ok (w_db w)" using w by (simp add: auth_inv_at_def)
  then have "x = Inr a \<longrightarrow> R a (w_db w')" for a
    using assms(2) run_query_Inr [of q w a w'] run by auto
  with auth_inv_run_query [OF w assms(1)] run
  show "auth_inv_at H U w' \<and> (\<forall>a. x = Inr a \<longrightarrow> R a (w_db w'))" by auto
qed

lemma triple_insert:
  assumes "\<And>f. sound_query f (g f)" and "\<And>f t d a d'. account_ok d \<Longrightarrow> g f t d = Inr (a, d') \<Longrightarrow> R a d'"
  shows "triple (auth_inv_at H U) (db_insert g)
           (\<lambda>x w. auth_inv_at H U w \<and> (\<forall>a. x = Inr a \<longrightarrow> R a (w_db w)))"
proof (rule tripleI)
  fix w x w' assume w: "auth_inv_at H U w" and run: "run_state (db_insert g) w = (x, w')"
  have "account_ok (w_db w)" using w by (simp add: auth_inv_at_def)
  then have "x = Inr a \<longrightarrow> R a (w_db w')" for a
    using assms(2) run_query_Inr [of "g (fresh_of w)" w a w'] run by auto
  with auth_inv_run_query [OF w assms(1)] run
  show "auth_inv_at H U w' \<and> (\<forall>a. x = Inr a \<longrightarrow> R a (w_db w'))" by auto
qed

lemma triple_user_row:
  assumes "\<And>f. sound_query f q" and "\<And>t d r d'. q t d = Inr (r, d') \<Longrightarrow> r \<in> set (users d')"
  shows "triple (auth_inv H) (db_call q)
           (\<lambda>x w. auth_inv H w \<and> (\<forall>r. x = Inr r \<longrightarrow> backs H (u_id r) (u_confirmed r) w))"
  using triple_call [where U = "{}" and R = "\<lambda>r d. r \<in> set (users d)", OF assms]
  by (rule triple_weaken) (auto intro!: backs_of_row)

lemma triple_active_refresh_token:
  "triple (auth_inv H) (db_call (get_active_refresh_token h))
     (\<lambda>x w. auth_inv H w \<and> (\<forall>u c. x = Inr (u, c) \<longrightarrow> backs H u c w))"
proof -
  have "triple (auth_inv H) (db_call (get_active_refresh_token h))
     (\<lambda>x w. auth_inv H w \<and> (\<forall>a. x = Inr a \<longrightarrow>
        (\<exists>r \<in> set (users (w_db w)). u_id r = fst a \<and> u_confirmed r = snd a)))"
    by (rule triple_call [OF sound_reads(3)])
      (auto simp: get_active_refresh_token_def split: option.splits dest!: find_in_set)
  then show ?thesis
    by (rule triple_weaken) (auto intro!: backs_of_row)
qed

section \<open>Every handler keeps the invariant\<close>

lemma keeps_case_list [keeps_rules]:
  "(xs = [] \<Longrightarrow> keeps I m) \<Longrightarrow> (\<And>y ys. xs = y # ys \<Longrightarrow> keeps I (f y ys)) \<Longrightarrow>
     keeps I (case xs of [] \<Rightarrow> m | y # ys \<Rightarrow> f y ys)"
  by (cases xs) auto

lemma keeps_generate_refresh [keeps_rules]: "keeps (auth_inv H) generate_refresh"
  by (auto simp: generate_refresh_def intro!: keeps_rules)

lemma keeps_pw_hash [keeps_rules]: "keeps (auth_inv H) (pw_hash C pw)"
  by (auto simp: pw_hash_def intro!: keeps_rules)

lemma keeps_send_confirmation [keeps_rules]: "keeps (auth_inv H) (send_confirmation C D e u)"
  by (auto simp: send_confirmation_def intro!: keeps_rules sound_rules split: option.splits sum.splits)

lemma triple_mint:
  "triple (\<lambda>w. auth_inv H w \<and> backs H u c w) (sign_access C ttl u c) (\<lambda>_. auth_inv H)"
  by (rule triple_sign_access)

lemma triple_open_session:
  "triple (\<lambda>w. auth_inv H w \<and> backs H (u_id r) (u_confirmed r) w) (open_session C D r) (\<lambda>_. auth_inv H)"
  unfolding open_session_def
  by (rule triple_bind [OF triple_mint])
    (auto simp: keeps_triple [symmetric] intro!: keeps_rules sound_rules split: option.splits sum.splits)

lemma keeps_logout: "keeps (auth_inv H) (logout C c)"
  by (auto simp: logout_def intro!: keeps_rules sound_rules split: option.splits list.splits)

lemma keeps_resend_confirmation: "keeps (auth_inv H) (resend_confirmation C D u)"
  by (auto simp: resend_confirmation_def intro!: keeps_rules sound_rules split: option.splits sum.splits)

lemma keeps_delete_me: "keeps (auth_inv H) (delete_me u)"
  by (auto simp: delete_me_def intro!: keeps_rules sound_rules split: option.splits sum.splits)

lemma keeps_send_password_reset [keeps_rules]: "keeps (auth_inv H) (send_password_reset C D a)"
  by (auto simp: send_password_reset_def mail_reset_link_def intro!: keeps_rules sound_rules
      split: option.splits sum.splits db_error.splits)

lemma keeps_request_password_reset: "keeps (auth_inv H) (request_password_reset C D r)"
  by (auto simp: request_password_reset_def intro!: keeps_rules split: option.splits)

lemma keeps_reset_password: "keeps (auth_inv H) (reset_password C D r)"
  by (auto simp: reset_password_def intro!: keeps_rules sound_rules split: option.splits sum.splits)

lemma triple_keepsI:
  "(\<And>w. P w \<Longrightarrow> auth_inv H w) \<Longrightarrow> keeps (auth_inv H) m \<Longrightarrow> triple P m (\<lambda>_. auth_inv H)"
  unfolding keeps_triple by (rule triple_weaken)

text \<open>A session opened for the row, whatever is done with it afterwards.\<close>

lemma triple_session_bind:
  "(\<And>w. P w \<Longrightarrow> auth_inv H w \<and> backs H (u_id r) (u_confirmed r) w) \<Longrightarrow> (\<And>x. keeps (auth_inv H) (f x)) \<Longrightarrow>
     triple P (State_Monad.bind (open_session C D r) f) (\<lambda>_. auth_inv H)"
  by (rule triple_weaken [OF triple_bind [OF triple_open_session]]) (auto simp: keeps_triple)

lemma keeps_login: "keeps (auth_inv H) (login C D req)"
proof (cases req)
  case (Some p)
  obtain e pw where p: "p = (e, pw)" by (cases p)
  have row: "triple (auth_inv H) (db_call (get_user_by_email (to_lower (cr_text C) (trim_space e))))
      (\<lambda>x w. auth_inv H w \<and> (\<forall>r. x = Inr r \<longrightarrow> backs H (u_id r) (u_confirmed r) w))"
    by (rule triple_user_row [OF sound_reads(1)])
      (auto simp: auth_query_defs split: option.splits dest: find_in_set)
  show ?thesis
    unfolding keeps_triple login_def Some p option.case prod.case
  proof (rule triple_bind [OF row], goal_cases)
    case (1 x)
    show ?case
    proof (cases "\<exists>r. x = Inr r \<and> pw_verify C pw (u_password_hash r) = Verified True")
      case True
      then obtain r where r: "x = Inr r" "pw_verify C pw (u_password_hash r) = Verified True" by blast
      show ?thesis unfolding r sum.case verify_result.case bool.case
        by (rule triple_session_bind) (auto intro!: keeps_rules split: sum.splits prod.splits)
    next
      case False
      then show ?thesis
        by (cases x) (auto intro!: triple_keepsI keeps_rules split: verify_result.splits bool.splits)
    qed
  qed
qed (simp add: login_def keeps_rules)

lemma keeps_refresh: "keeps (auth_inv H) (refresh C D cookie)"
proof (cases "cookie = None \<or> cookie = Some []")
  case False
  then obtain c cs where c: "cookie = Some (c # cs)" by (metis list.exhaust option.exhaust)
  show ?thesis
    unfolding keeps_triple refresh_def c option.case list.case
  proof (rule triple_bind [OF triple_active_refresh_token], goal_cases)
    case (1 x)
    show ?case
    proof (cases x)
      case (Inr p)
      obtain u conf where p: "p = (u, conf)" by (cases p)
      show ?thesis unfolding Inr p sum.case prod.case
        by (rule triple_weaken [OF triple_bind [OF triple_mint]])
          (auto simp: keeps_triple [symmetric] intro!: keeps_rules split: option.splits)
    qed (auto intro!: triple_keepsI keeps_rules)
  qed
qed (auto simp: refresh_def intro!: keeps_rules)

lemma keeps_signup: "keeps (auth_inv H) (signup C D req)"
proof (cases req)
  case (Some p)
  obtain e pw where p: "p = (e, pw)" by (cases p)
  let ?email = "to_lower (cr_text C) (trim_space e)"
  have row: "triple (auth_inv H) (db_insert (create_user ?email h city False))
      (\<lambda>x w. auth_inv H w \<and> (\<forall>r. x = Inr r \<longrightarrow> \<not> u_confirmed r))" for h city
  proof -
    have "triple (auth_inv H) (db_insert (create_user ?email h city False))
        (\<lambda>x w. auth_inv H w \<and> (\<forall>r. x = Inr r \<longrightarrow> \<not> u_confirmed r))"
      by (rule triple_insert [OF sound_create_user])
        (auto simp: create_user_def Let_def split: if_splits)
    then show ?thesis by simp
  qed
  have create: "keeps (auth_inv H) (State_Monad.bind (db_insert (create_user ?email h city False)) (\<lambda>row.
      case row of
        Inl Unique \<Rightarrow> ret (http_err 409 ''email_taken'' ''an account with that email already exists'')
      | Inl e \<Rightarrow> ret (http_err 500 ''db_error'' ''could not create user'')
      | Inr r \<Rightarrow> State_Monad.bind (open_session C D r) (k r)))"
    if "\<And>r s. keeps (auth_inv H) (k r s)" for h city k
    unfolding keeps_triple
  proof (rule triple_bind [OF row], goal_cases)
    case (1 x)
    show ?case
    proof (cases x)
      case (Inr r)
      show ?thesis unfolding Inr sum.case
        by (rule triple_session_bind) (auto simp: backs_def intro: that)
    qed (auto intro!: triple_keepsI keeps_rules split: db_error.splits)
  qed
  show ?thesis
    unfolding signup_def Some p option.case prod.case Let_def
    by (intro keeps_if keeps_return keeps_bind [OF keeps_pw_hash] keeps_case_option create)
      (auto intro!: keeps_rules split: sum.splits prod.splits)
qed (simp add: signup_def keeps_rules)

text \<open>
  Confirming: the user is marked first, and only then is the link consumed, which is sound
  because the user is settled by then.
\<close>

lemma triple_mark:
  "triple (auth_inv H) (db_call (mark_user_confirmed u))
     (\<lambda>x w. auth_inv H w \<and> (\<forall>y. x = Inr y \<longrightarrow> settled_in (w_db w) u))"
proof (rule triple_call [OF sound_mark_user_confirmed])
  fix t d y d'
  assume "mark_user_confirmed u t d = Inr (y, d')"
  then have us: "users d' = update_rows (\<lambda>r. u_id r = u) (u_confirmed_update (\<lambda>_. True)) (users d)"
    by (auto simp: mark_user_confirmed_def)
  show "settled_in d' u" by (simp add: settled_in_def us ball_update_rows)
qed

lemma triple_consume:
  "triple (\<lambda>w. auth_inv H w \<and> settled_in (w_db w) u) (db_call (consume_email_confirmation u)) (\<lambda>_. auth_inv H)"
proof (rule tripleI)
  fix w x w'
  assume w: "auth_inv H w \<and> settled_in (w_db w) u"
    and run: "run_state (db_call (consume_email_confirmation u)) w = (x, w')"
  have w': "w' = snd (run_query (consume_email_confirmation u) w)" using run by simp
  have ok: "account_ok (w_db w)" using w by (simp add: auth_inv_at_def)
  have "account_ok (w_db w') \<and> advances (fresh_of w) (w_db w) (w_db w')"
    using run_query_db [of "consume_email_confirmation u" w] sound_consume [OF ok] w ok
      advances_refl by (auto simp: w')
  with w show "auth_inv H w'" by (auto intro: auth_inv_step simp: w')
qed

lemma keeps_confirm_email: "keeps (auth_inv H) (confirm_email C D token)"
proof -
  have mark: "keeps (auth_inv H) (State_Monad.bind (db_call (mark_user_confirmed u)) (\<lambda>marked.
      case marked of
        Inl e \<Rightarrow> ret err
      | Inr _ \<Rightarrow> State_Monad.bind (db_call (consume_email_confirmation u)) (\<lambda>_. ret ok)))"
    for u and err ok :: response
    unfolding keeps_triple
  proof (rule triple_bind [OF triple_mark], goal_cases)
    case (1 x)
    show ?case
    proof (cases x)
      case (Inr y)
      show ?thesis unfolding Inr sum.case
        by (rule triple_weaken [OF triple_bind [OF triple_consume]])
          (auto simp: keeps_triple [symmetric] intro!: keeps_rules)
    qed (auto intro!: triple_keepsI keeps_rules)
  qed
  show ?thesis
    unfolding confirm_email_def Let_def
    by (auto intro!: keeps_if keeps_return keeps_bind keeps_sound_call keeps_auth_calls sound_rules mark
        split: sum.splits)
qed

section \<open>The account service\<close>

datatype auth_request =
    Signup "(string \<times> string) option"
  | Login "(string \<times> string) option"
  | Refresh "string option"
  | Logout "string option"
  | ConfirmEmail string
  | ResendConfirmation "uuid option"
  | RequestPasswordReset "string option"
  | ResetPassword "(string \<times> string) option"
  | DeleteMe "uuid option"

fun serve_auth :: "crypto_env \<Rightarrow> auth_deps \<Rightarrow> 'l reset_deps \<Rightarrow> auth_request \<Rightarrow> 'l handler" where
  "serve_auth C D R (Signup b) = signup C D b"
| "serve_auth C D R (Login b) = login C D b"
| "serve_auth C D R (Refresh c) = refresh C D c"
| "serve_auth C D R (Logout c) = logout C c"
| "serve_auth C D R (ConfirmEmail t) = confirm_email C (ad_conf D) t"
| "serve_auth C D R (ResendConfirmation u) = resend_confirmation C (ad_conf D) u"
| "serve_auth C D R (RequestPasswordReset e) = request_password_reset C R e"
| "serve_auth C D R (ResetPassword b) = reset_password C R b"
| "serve_auth C D R (DeleteMe u) = delete_me u"

lemma keeps_serve_auth: "keeps (auth_inv H) (serve_auth C D R req)"
  by (cases req) (simp_all add: keeps_signup keeps_login keeps_refresh keeps_logout
      keeps_confirm_email keeps_resend_confirmation keeps_request_password_reset
      keeps_reset_password keeps_delete_me)

text \<open>
  The worlds the service can reach: from a consistent database on which no token was signed
  yet, by serving account requests and by steps of the other components, which may change
  every table but the users, the confirmations and the resets.
\<close>

definition start_ok :: "nat \<Rightarrow> outside \<Rightarrow> db \<Rightarrow> bool" where
  "start_ok H E d =
     (account_ok d \<and> distinct_ids H E \<and> (\<forall>n < H. \<not> user_exists d (fresh_uuid E n)))"

inductive auth_reach :: "nat \<Rightarrow> crypto_env \<Rightarrow> auth_deps \<Rightarrow> 'l reset_deps \<Rightarrow> 'l world \<Rightarrow> bool"
  for H C D R where
  start: "start_ok H E d \<Longrightarrow> auth_reach H C D R (init_world E d l)"
| serve: "auth_reach H C D R w \<Longrightarrow> auth_reach H C D R (snd (run_state (serve_auth C D R req) w))"
| other: "auth_reach H C D R w \<Longrightarrow> users d = users (w_db w) \<Longrightarrow>
    confirmations d = confirmations (w_db w) \<Longrightarrow> resets d = resets (w_db w) \<Longrightarrow>
    auth_reach H C D R (tick (w\<lparr>w_db := d\<rparr>))"

lemma account_ok_cong:
  "users d = users d' \<Longrightarrow> confirmations d = confirmations d' \<Longrightarrow> resets d = resets d' \<Longrightarrow>
     account_ok d = account_ok d'"
  by (simp add: account_defs)

lemma auth_reach_inv: "auth_reach H C D R w \<Longrightarrow> auth_inv H w"
proof (induction rule: auth_reach.induct)
  case (start E d l)
  then show ?case
    by (auto simp: start_ok_def auth_inv_at_def fresh_inv_def init_world_def)
next
  case (serve w req)
  then show ?case using keeps_serve_auth by (blast dest: keepsD)
next
  case (other w d)
  have ok: "account_ok d"
    using other account_ok_cong [of d "w_db w"] by (auto simp: auth_inv_at_def)
  moreover have "advances (fresh_of w) (w_db w) d"
    using other(2) by (auto simp: advances_def user_exists_iff settled_in_def)
  ultimately show ?case by (intro auth_inv_step [OF other.IH]) auto
qed

end
