(* ===== verification/EventVocab.thy ===== *)
theory EventVocab
  imports GoStrings Complex_Main
begin

text \<open>
  Package \<open>internal/events\<close>, the value helpers: \<open>NormalizeGenre\<close> and \<open>NormalizeString\<close>
  (genres.go), \<open>NormalizeSegment\<close> and \<open>ValidSegment\<close> (segments.go), \<open>RankWeight\<close>
  (interest.go), and \<open>rankGenreWeight\<close> of the interest consumer. Weights are reals: the
  rounding of float64 is not modelled.
\<close>

section \<open>Genres\<close>

definition genre_aliases :: "(string \<times> string) list" where
  "genre_aliases =
     [(''rock'', ''rock''), (''pop'', ''pop''), (''hip-hop'', ''hip-hop''),
      (''hip hop'', ''hip-hop''), (''hip-hop/rap'', ''hip-hop''), (''rap'', ''hip-hop''),
      (''electronic'', ''electronic''), (''edm'', ''electronic''),
      (''dance/electronic'', ''electronic''), (''jazz'', ''jazz''),
      (''classical'', ''classical''), (''folk'', ''folk''), (''country'', ''country''),
      (''metal'', ''metal''), (''hard rock'', ''metal''), (''indie'', ''indie''),
      (''alternative'', ''indie''), (''r&b'', ''rnb''), (''rnb'', ''rnb''),
      (''latin'', ''latin''), (''world'', ''world''), (''blues'', ''blues''),
      (''reggae'', ''reggae''),
      (''theater'', ''theater''), (''theatre'', ''theater''), (''musical'', ''musical''),
      (''comedy'', ''comedy''), (''dance'', ''dance''), (''opera'', ''opera''),
      (''film'', ''film''), (''sports'', ''sports''), (''food'', ''food''),
      (''art'', ''art''), (''family'', ''family''), (''other'', ''other''),
      (''miscellaneous'', ''other'')]"

text \<open>Reading a missing key of a Go map yields the zero value, the empty string.\<close>

definition normalize_genre :: "text_env \<Rightarrow> string \<Rightarrow> string" where
  "normalize_genre E s =
     (let key = to_lower E (trim_space s) in
      case map_of genre_aliases key of Some slug \<Rightarrow> slug | None \<Rightarrow> [])"

definition genre_slugs :: "string list" where
  "genre_slugs = remdups (map snd genre_aliases)"

section \<open>NormalizeString\<close>

definition normalize_string :: "text_env \<Rightarrow> string \<Rightarrow> string" where
  "normalize_string E s = to_lower E (trim_space (strip_marks E s))"

section \<open>Segments\<close>

definition filterable_segments :: "string list" where
  "filterable_segments =
     [''music'', ''sports'', ''arts-theatre'', ''miscellaneous'', ''undefined'', ''film'']"

definition is_slug_char :: "char \<Rightarrow> bool" where
  "is_slug_char c =
     (let n = byte_of c in 97 \<le> n \<and> n \<le> 122 \<or> 48 \<le> n \<and> n \<le> 57)"

text \<open>
  The loop of \<open>NormalizeSegment\<close>: \<open>dash\<close> is the pending separator, \<open>nonempty\<close> says
  whether the builder holds anything. The loop runs over runes; every byte of a rune
  outside ASCII is at least 128 and takes the same default branch.
\<close>

fun segment_loop :: "bool \<Rightarrow> bool \<Rightarrow> string \<Rightarrow> string" where
  "segment_loop dash nonempty [] = []"
| "segment_loop dash nonempty (r # rs) =
     (if is_slug_char r
      then (if dash \<and> nonempty then ''-'' else []) @ r # segment_loop False True rs
      else segment_loop True nonempty rs)"

definition normalize_segment :: "text_env \<Rightarrow> string \<Rightarrow> string" where
  "normalize_segment E s = segment_loop False False (normalize_string E s)"

definition valid_segment :: "string \<Rightarrow> bool" where
  "valid_segment s = (s \<in> set filterable_segments)"

section \<open>Rank weights\<close>

definition rank_weight :: "int \<Rightarrow> real" where
  "rank_weight rank =
     (if rank \<le> 1 then 1
      else (let w = 1 - real_of_int (rank - 1) * (1 - 0.6) / (50 - 1)
            in if w < 0.6 then 0.6 else w))"

definition rank_genre_weight :: "int \<Rightarrow> real" where
  "rank_genre_weight rank =
     (let w = 1 - real_of_int (rank - 1) * 0.02 in if w < 0.1 then 0.1 else w)"

section \<open>Lemmas: genres\<close>

lemma map_of_aliases_in: "map_of genre_aliases k = Some v \<Longrightarrow> v \<in> set genre_slugs"
  by (auto simp: genre_slugs_def dest!: map_of_SomeD intro: rev_image_eqI)

text \<open>Every canonical slug is printable lower-case ASCII and is its own alias.\<close>

definition plain_lower :: "char \<Rightarrow> bool" where
  "plain_lower c =
     (byte_of c < 128 \<and> byte_of c \<notin> {9, 10, 11, 12, 13, 32} \<and> ascii_lower c = c)"

lemma genre_slug_plain: "list_all (list_all plain_lower) (map snd genre_aliases)"
  by (simp add: genre_aliases_def plain_lower_def ascii_lower_def)

lemma genre_slug_alias:
  "list_all (\<lambda>g. map_of genre_aliases g = Some g) (map snd genre_aliases)"
  by code_simp

lemma plain_lower_fixed:
  assumes "list_all plain_lower s"
  shows "is_ascii s" "map ascii_lower s = s" "trim_space s = s"
  using assms
  by (auto simp: is_ascii_def list_all_iff plain_lower_def intro: map_idI trim_space_plain)

lemma normalize_genre_slug:
  assumes "g \<in> set genre_slugs"
  shows "normalize_genre E g = g"
proof -
  have "g \<in> set (map snd genre_aliases)" using assms by (simp add: genre_slugs_def)
  then have "list_all plain_lower g" "map_of genre_aliases g = Some g"
    using genre_slug_plain genre_slug_alias unfolding list_all_iff by blast+
  then show ?thesis by (simp add: normalize_genre_def to_lower_def plain_lower_fixed)
qed

lemma normalize_genre_range: "normalize_genre E s \<in> insert [] (set genre_slugs)"
  unfolding normalize_genre_def Let_def
  by (auto dest: map_of_aliases_in split: option.split)

lemma normalize_genre_empty [simp]: "normalize_genre E [] = []"
proof -
  have "map_of genre_aliases [] = None" by (simp add: genre_aliases_def)
  then show ?thesis by (simp add: normalize_genre_def to_lower_def plain_lower_fixed)
qed

section \<open>Lemmas: segments\<close>

fun slug_ok :: "bool \<Rightarrow> string \<Rightarrow> bool" where
  "slug_ok need [] = (\<not> need)"
| "slug_ok need (c # s) =
     (if is_slug_char c then slug_ok False s
      else c = CHR ''-'' \<and> \<not> need \<and> slug_ok True s)"

text \<open>
  A slug: letters and digits, with single dashes strictly inside (\<open>need\<close> asks for a
  letter or digit next).
\<close>

definition is_slug :: "string \<Rightarrow> bool" where
  "is_slug s = (s = [] \<or> slug_ok True s)"

lemma dash_not_slug_char [simp]: "\<not> is_slug_char (CHR ''-'')"
  by (simp add: is_slug_char_def)

lemma segment_loop_slug:
  "(nonempty \<longrightarrow> slug_ok False (segment_loop dash nonempty s))
   \<and> (\<not> nonempty \<longrightarrow> is_slug (segment_loop dash nonempty s))"
  by (induction s arbitrary: dash nonempty) (auto simp: is_slug_def)

text \<open>A slug passes through the loop unchanged.\<close>

lemma segment_loop_fixed:
  "slug_ok need s \<Longrightarrow> segment_loop False True s = s"
  "slug_ok True s \<Longrightarrow> segment_loop True True s = CHR ''-'' # s"
proof (induction s arbitrary: need)
  case (Cons c s)
  {
    case 1
    then show ?case using Cons.IH by (auto split: if_splits)
  next
    case 2
    then show ?case using Cons.IH by (auto split: if_splits)
  }
qed auto

lemma segment_loop_id: "is_slug s \<Longrightarrow> segment_loop False False s = s"
  by (cases s) (auto simp: is_slug_def segment_loop_fixed split: if_splits)

lemma slug_ok_chars: "slug_ok need s \<Longrightarrow> c \<in> set s \<Longrightarrow> is_slug_char c \<or> c = CHR ''-''"
  by (induction s arbitrary: need) (auto split: if_splits)

lemma slug_char_facts:
  "is_slug_char c \<or> c = CHR ''-'' \<Longrightarrow> byte_of c < 128 \<and> ascii_lower c = c
     \<and> byte_of c \<notin> {9, 10, 11, 12, 13, 32}"
  by (auto simp: is_slug_char_def ascii_lower_def Let_def)

lemma slug_normalize_string:
  assumes "marks_keep_ascii E" and "is_slug s"
  shows "normalize_string E s = s"
proof -
  have c: "\<forall>c \<in> set s. byte_of c < 128 \<and> ascii_lower c = c \<and> byte_of c \<notin> {9, 10, 11, 12, 13, 32}"
    using assms(2) slug_ok_chars slug_char_facts by (metis is_slug_def list.set(1) empty_iff)
  then have "is_ascii s" by (auto simp: is_ascii_def list_all_iff)
  moreover have "trim_space s = s" using c by (intro trim_space_plain) blast
  moreover have "map ascii_lower s = s" using c by (simp add: map_idI)
  ultimately show ?thesis
    using assms(1) by (simp add: normalize_string_def to_lower_def marks_keep_ascii_def)
qed

section \<open>Canonical forms and bounds\<close>

text \<open>
  \<open>NormalizeGenre\<close> maps every tag into the controlled vocabulary or drops it, and it
  is idempotent: a stored slug normalizes to itself, whatever spelling it came from.
\<close>

lemma normalize_genre_idempotent:
  "normalize_genre E s \<in> insert [] (set genre_slugs) \<and>
   normalize_genre E (normalize_genre E s) = normalize_genre E s"
  using normalize_genre_range [of E s] normalize_genre_slug by auto

text \<open>
  \<open>NormalizeSegment\<close> yields a slug (letters and digits with single internal dashes,
  never a leading, trailing or doubled dash) for every input, and normalizing a slug again
  changes nothing, so the stored segment and the API's filter value are compared in one
  canonical form.
\<close>

lemma normalize_segment_canonical:
  assumes "marks_keep_ascii E"
  shows "is_slug (normalize_segment E s) \<and>
    normalize_segment E (normalize_segment E s) = normalize_segment E s"
proof -
  have slug: "is_slug (normalize_segment E s)"
    unfolding normalize_segment_def using segment_loop_slug by blast
  then show ?thesis
    using slug_normalize_string [OF assms slug] segment_loop_id [OF slug]
    by (simp add: normalize_segment_def)
qed

definition plain_env :: text_env where
  "plain_env = \<lparr>lower_wide = (\<lambda>s. s), strip_marks = (\<lambda>s. s)\<rparr>"

lemma plain_env_keeps_ascii: "marks_keep_ascii plain_env"
  by (simp add: marks_keep_ascii_def plain_env_def)

text \<open>
  \<open>RankWeight\<close> stays in [0.6, 1], is antitone in the rank, and reaches its floor exactly
  from rank 50 on; \<open>rankGenreWeight\<close> is antitone with floor 0.1 and is at most 1 on the
  1-based ranks the scraper publishes.
\<close>

lemma rank_weight_shape:
  "0.6 \<le> rank_weight r \<and> rank_weight r \<le> 1 \<and> (rank_weight r = 0.6 \<longleftrightarrow> 50 \<le> r) \<and>
   (r \<le> r' \<longrightarrow> rank_weight r' \<le> rank_weight r \<and> rank_genre_weight r' \<le> rank_genre_weight r) \<and>
   0.1 \<le> rank_genre_weight r \<and> (1 \<le> r \<longrightarrow> rank_genre_weight r \<le> 1)"
proof -
  have "real_of_int (r - 1) * (1 - 0.6) / (50 - 1) = (real_of_int r - 1) * (0.4 / 49)" for r
    by (simp add: field_simps)
  then show ?thesis
    by (auto simp: rank_weight_def rank_genre_weight_def Let_def field_simps)
qed

end
