(* ===== verification/AuthProps.thy ===== *)
theory AuthProps
  imports AuthSystem EventVocab
begin

text \<open>
  What the account service guarantees: the order of confirming and consuming a link, the
  soundness of the confirmed claim in access tokens, single-use reset links that end every
  session, sessions that end at logout, links that work as mailed, and accounts one can
  sign in to. The concrete world at the start is what the witnesses run in.
\<close>

section \<open>A concrete outside\<close>

definition demo_crypto :: crypto_env where
  "demo_crypto =
     \<lparr>sha256 = (\<lambda>s. s),
      argon2 = (\<lambda>pw salt t m p n. Some (take n (pw @ replicate n (CHR 0x00)))),
      argon2_version = 19,
      jwt_sign = (\<lambda>c. Some (cl_subject c @ (if cl_confirmed c then ''+'' else ''-''))),
      jwt_parse = (\<lambda>t s. None),
      parse_uuid = parse_uuid36,
      cr_text = plain_env\<rparr>"

text \<open>The clock ticks once a second, nothing fails, and ids and bytes are drawn from the step.\<close>

definition demo_outside :: outside where
  "demo_outside =
     \<lparr>clock = (\<lambda>n. int n * second), fault_at = (\<lambda>n. NoFault),
      rand_bytes = (\<lambda>s n. Some (replicate n (byte (s mod 256)))),
      fresh_uuid = (\<lambda>n. of_nat (n + 100))\<rparr>"

definition demo_user :: user_row where
  "demo_user =
     \<lparr>u_id = 7, u_email = ''a@b.c'', u_password_hash = [], u_city_id = 1, u_embedding = None,
      u_embedding_at = None, u_created_at = 0, u_deleted_at = None, u_score_threshold = None,
      u_confirmed = False, u_show_setlists = False\<rparr>"

definition demo_db :: db where
  "demo_db =
     empty_db\<lparr>cities := [\<lparr>c_id = 1, c_slug = ''v1-city'', c_name = ''C'', c_timezone = ''UTC''\<rparr>],
              users := [demo_user],
              confirmations := [\<lparr>lk_user_id = 7, lk_token_hash = ''t'', lk_expires_at = day,
                                 lk_consumed_at = None, lk_created_at = 0\<rparr>],
              resets := [\<lparr>lk_user_id = 7, lk_token_hash = ''r'', lk_expires_at = day,
                          lk_consumed_at = None, lk_created_at = 0\<rparr>],
              refresh_tokens := [\<lparr>rt_id = 9, rt_user_id = 7, rt_token_hash = ''c'', rt_expires_at = day,
                                  rt_revoked_at = None, rt_created_at = 0\<rparr>]\<rparr>"

definition demo_conf :: conf_deps where
  "demo_conf = \<lparr>cf_sender = True, cf_api_base = ''https://api'', cf_app_base = ''https://app''\<rparr>"

definition demo_auth :: auth_deps where
  "demo_auth =
     \<lparr>ad_access_ttl = 15 * minute, ad_refresh_ttl = 30 * day, ad_city_id = uuid_string 1,
      ad_conf = demo_conf\<rparr>"

definition demo_reset :: "unit reset_deps" where
  "demo_reset = \<lparr>rd_sender = True, rd_app_base = ''https://app'', rd_limiter = None\<rparr>"

definition demo_world :: "unit world" where
  "demo_world = init_world demo_outside demo_db ()"

lemmas demo_defs = demo_crypto_def demo_outside_def demo_db_def demo_user_def demo_conf_def
  demo_auth_def demo_reset_def demo_world_def init_world_def empty_db_def

lemma unat_demo_id: "n < 1000 \<Longrightarrow> unat (of_nat (n + 100) :: uuid) = n + 100"
  by (subst unat_of_nat) simp

lemma demo_ids: "distinct_ids 1000 demo_outside"
proof -
  have "m = n" if "m < 1000" "n < 1000" "(of_nat (m + 100) :: uuid) = of_nat (n + 100)" for m n
    using that unat_demo_id [of m] unat_demo_id [of n] by simp
  then show ?thesis
    unfolding distinct_ids_def demo_outside_def inj_on_def outside.select_convs lessThan_iff by blast
qed

lemma demo_start: "start_ok 1000 demo_outside demo_db"
proof -
  have "(of_nat (n + 100) :: uuid) \<noteq> 7" if "n < 1000" for n
  proof
    assume "(of_nat (n + 100) :: uuid) = 7"
    then have "unat (of_nat (n + 100) :: uuid) = unat (7 :: uuid)" by (rule arg_cong)
    then show False unfolding unat_demo_id [OF that] by simp
  qed
  then have "\<forall>n < 1000. \<not> user_exists demo_db (fresh_uuid demo_outside n)"
    unfolding demo_outside_def outside.select_convs
    by (auto simp: user_exists_def demo_db_def demo_user_def empty_db_def)
  moreover have "account_ok demo_db"
    by (simp add: account_defs keyed_def links_ok_def two_keyed_def demo_db_def
        empty_db_def demo_user_def)
  ultimately show ?thesis using demo_ids by (simp add: start_ok_def)
qed

section \<open>Confirmation\<close>

text \<open>
  C1. In every world the account service reaches, whatever calls fail on the way, a
  confirmation link that is marked consumed belongs to a confirmed user: nobody is stranded
  with a link that says welcome while the gate keeps rejecting them.
\<close>

theorem consumed_link_confirmed:
  assumes "auth_reach H C D R w"
    and "l \<in> set (confirmations (w_db w))" and "lk_consumed_at l \<noteq> None"
    and "r \<in> set (users (w_db w))" and "u_id r = lk_user_id l"
  shows "u_confirmed r"
proof -
  have "account_ok (w_db w)" using auth_reach_inv [OF assms(1)] by (simp add: auth_inv_at_def)
  with assms(2-5) show ?thesis by (auto simp: account_ok_def consumed_ok_def settled_in_def)
qed

text \<open>The world after the link of the demo database was followed.\<close>

definition demo_confirmed :: "unit world" where
  "demo_confirmed = snd (run_state (confirm_email demo_crypto demo_conf ''t'') demo_world)"

lemma demo_confirmed_eval:
  "users (w_db demo_confirmed) = [demo_user\<lparr>u_confirmed := True\<rparr>]"
  "confirmations (w_db demo_confirmed) =
     [\<lparr>lk_user_id = 7, lk_token_hash = ''t'', lk_expires_at = day, lk_consumed_at = Some (3 * second),
       lk_created_at = 0\<rparr>]"
  by (simp_all add: demo_confirmed_def confirm_email_def demo_defs hash_refresh_def run_query_def
      fault_of_def now_of_def tick_def auth_query_defs)

lemma demo_reach: "auth_reach 1000 demo_crypto demo_auth demo_reset demo_world"
  unfolding demo_world_def by (rule auth_reach.start) (rule demo_start)

lemma demo_reach_confirmed: "auth_reach 1000 demo_crypto demo_auth demo_reset demo_confirmed"
  using auth_reach.serve [OF demo_reach, of "ConfirmEmail ''t''"]
  by (simp add: demo_confirmed_def demo_auth_def)

theorem consumed_link_confirmed_witness:
  "u_confirmed (demo_user\<lparr>u_confirmed := True\<rparr>) \<and>
   confirmations (w_db demo_confirmed) \<noteq> []"
  using consumed_link_confirmed [OF demo_reach_confirmed,
      of "hd (confirmations (w_db demo_confirmed))" "demo_user\<lparr>u_confirmed := True\<rparr>"]
  by (simp add: demo_confirmed_eval demo_user_def)

text \<open>
  C2. The confirmed claim of an access token is never too permissive: a user for whom a
  token with \<open>confirmed: true\<close> was ever signed has, in every world reached since, no
  unconfirmed row.
\<close>

theorem confirmed_claim_sound:
  assumes "auth_reach H C D R w" and "w_step w \<le> H"
    and "(u, True) \<in> set (w_minted w)"
    and "r \<in> set (users (w_db w))" and "u_id r = u"
  shows "u_confirmed r"
  using auth_reach_inv [OF assms(1)] assms(2-5)
  by (auto simp: auth_inv_at_def fresh_inv_def settled_def settled_in_def)

definition demo_refreshed :: "unit world" where
  "demo_refreshed = snd (run_state (refresh demo_crypto demo_auth (Some ''c'')) demo_confirmed)"

lemma demo_refreshed_eval:
  "w_minted demo_refreshed = [(7, True)]" "w_step demo_refreshed = 5"
  "users (w_db demo_refreshed) = [demo_user\<lparr>u_confirmed := True\<rparr>]"
  by (simp_all add: demo_refreshed_def demo_confirmed_def refresh_def confirm_email_def demo_defs
      hash_refresh_def run_query_def fault_of_def now_of_def tick_def auth_query_defs
      live_refresh_def sign_access_def)

theorem confirmed_claim_sound_witness: "u_confirmed (demo_user\<lparr>u_confirmed := True\<rparr>)"
proof -
  have "auth_reach 1000 demo_crypto demo_auth demo_reset demo_refreshed"
    using auth_reach.serve [OF demo_reach_confirmed, of "Refresh (Some ''c'')"]
    by (simp add: demo_refreshed_def)
  from confirmed_claim_sound [OF this, of 7 "demo_user\<lparr>u_confirmed := True\<rparr>"] show ?thesis
    by (simp add: demo_refreshed_eval demo_user_def)
qed

text \<open>
  C3. The link a confirmation mail carries works: from any later world with the same
  database, before the link expires and with the calls going through, following it confirms
  the user and lands on the welcome page.
\<close>

theorem mailed_link_confirms:
  assumes send: "run_state (send_confirmation C D to_email u) w = (True, w1)"
    and ok: "links_ok (confirmations (w_db w))"
    and db: "w_db w2 = w_db w1"
    and up: "\<forall>n < 4. fault_at (w_env w2) (w_step w2 + n) = NoFault"
    and time: "clock (w_env w2) (w_step w2 + 2) \<le> clock (w_env w) (w_step w + 1) + confirmation_ttl"
  shows "\<exists>token. w_sent w1 = w_sent w @
            [confirmation_message to_email (cf_api_base D @ ''/auth/confirm?token='' @ token)] \<and>
          (case run_state (confirm_email C D token) w2 of (resp, w3) \<Rightarrow>
             (\<exists>s. r_location resp = Some (cf_app_base D @ ''/?welcome=true'' @ s)) \<and>
             settled_in (w_db w3) u)"
proof -
  obtain token wr where tok: "run_state generate_refresh w = (Some token, wr)"
    using send by (auto simp: send_confirmation_def split: if_splits option.splits prod.splits)
  have wr: "wr = tick w" using tok by (auto simp: generate_refresh_def run_read_random)
  have shape: "length token = 43" "query_escape token = token" using generate_refresh_shape [OF tok] by auto
  let ?h = "hash_refresh C token" and ?ex = "clock (w_env w) (w_step w + 1) + confirmation_ttl"
  obtain wu where up1: "run_query (upsert_email_confirmation u ?h ?ex) (tick w) = (Inr (), wu)"
    and sent: "run_state (send_mail (confirmation_message to_email
        (cf_api_base D @ ''/auth/confirm?token='' @ token))) wu = (True, w1)"
    using send tok wr shape
    by (auto simp: send_confirmation_def now_of_def split: if_splits option.splits prod.splits sum.splits)
  have w1: "w_sent w1 = w_sent w @ [confirmation_message to_email
      (cf_api_base D @ ''/auth/confirm?token='' @ token)]" "w_db w1 = w_db wu"
    using sent up1 run_query_frame(3) [of "upsert_email_confirmation u ?h ?ex" "tick w"]
    by (auto simp: send_mail_def split: fault.splits)
  obtain c where c: "rotate_link (user_exists (w_db w) u) u ?h ?ex (now_of (tick w)) (confirmations (w_db w)) = Inr c"
    and dbu: "w_db wu = w_db w\<lparr>confirmations := c\<rparr>"
    using run_query_Inr [OF up1] by (auto simp: upsert_email_confirmation_def split: sum.splits)
  obtain l where l: "find (\<lambda>r. lk_token_hash r = ?h) c = Some l" "lk_user_id l = u"
    using rotate_link_laws(3) [OF ok c, of ?h] by (auto simp: owner_of_def)
  have fresh: "lk_consumed_at l = None" "lk_expires_at l = ?ex"
    using rotated_link_fresh [OF c l(1)] by auto
  have q: "get_email_confirmation ?h t (w_db w2) = Inr (l, w_db w2)" for t
    by (simp add: get_email_confirmation_def one_row_def db w1 dbu l(1))
  have nf: "fault_of w2 = NoFault" "fault_at (w_env w2) (Suc (w_step w2)) = NoFault"
    "fault_at (w_env w2) (Suc (Suc (w_step w2))) = NoFault"
    "fault_at (w_env w2) (Suc (Suc (Suc (w_step w2)))) = NoFault"
    using up [rule_format, of 0] up [rule_format, of 1] up [rule_format, of 2] up [rule_format, of 3]
    by (simp_all add: fault_of_def numeral_2_eq_2 numeral_3_eq_3)
  have run1: "run_query (get_email_confirmation ?h) w2 = (Inr l, tick w2)"
    by (simp add: run_query_def nf(1) q)
  obtain x where run2: "run_query (get_user_by_id u) (tick w2) = (x, tick (tick w2))"
    using nf(2) by (cases "find (\<lambda>r. u_id r = u \<and> u_deleted_at r = None) (users (w_db w2))")
      (auto simp: run_query_def auth_query_defs)
  have live: "\<not> lk_expires_at l < now_of (tick (tick w2))"
    using time fresh by (simp add: numeral_2_eq_2)
  have "token \<noteq> []" using shape(1) by auto
  let ?mail = "case x of Inl e \<Rightarrow> [] | Inr r \<Rightarrow> ''&email='' @ query_escape (u_email r)"
  have "case run_state (confirm_email C D token) w2 of (resp, w3) \<Rightarrow>
      resp = redirect (cf_app_base D @ ''/?welcome=true'' @ ?mail) \<and>
      users (w_db w3) = update_rows (\<lambda>r. u_id r = u) (u_confirmed_update (\<lambda>_. True)) (users (w_db w2))"
    using \<open>token \<noteq> []\<close> live
    by (simp add: confirm_email_def Let_def run1 run2 l(2) fresh(1))
      (simp add: run_query_def nf fault_of_def mark_user_confirmed_def consume_email_confirmation_def)
  then show ?thesis
    using w1(1) by (intro exI [of _ token]) (auto simp: settled_in_def ball_update_rows split: prod.splits)
qed

definition demo_mailed :: "unit world" where
  "demo_mailed = snd (run_state (send_confirmation demo_crypto demo_conf ''a@b.c'' 7) demo_world)"

lemma demo_mailed_run:
  "run_state (send_confirmation demo_crypto demo_conf ''a@b.c'' 7) demo_world = (True, demo_mailed)"
  "w_step demo_mailed = 3" "w_env demo_mailed = demo_outside"
proof -
  have "fst (run_state (send_confirmation demo_crypto demo_conf ''a@b.c'' 7) demo_world) = True \<and>
      w_step demo_mailed = 3 \<and> w_env demo_mailed = demo_outside"
    by (simp add: demo_mailed_def send_confirmation_def generate_refresh_def run_read_random demo_defs
        run_query_def fault_of_def tick_def upsert_email_confirmation_def rotate_link_def has_row_def
        user_exists_def send_mail_def)
  then show "run_state (send_confirmation demo_crypto demo_conf ''a@b.c'' 7) demo_world = (True, demo_mailed)"
    "w_step demo_mailed = 3" "w_env demo_mailed = demo_outside"
    by (auto simp: demo_mailed_def prod_eq_iff)
qed

theorem mailed_link_confirms_witness:
  "\<exists>token. w_sent demo_mailed =
       [confirmation_message ''a@b.c'' (''https://api/auth/confirm?token='' @ token)] \<and>
     settled_in (w_db (snd (run_state (confirm_email demo_crypto demo_conf token) demo_mailed))) 7"
proof -
  have "links_ok (confirmations (w_db demo_world))"
    by (simp add: demo_defs links_ok_def two_keyed_def keyed_def)
  moreover have "w_sent demo_world = []" "w_env demo_world = demo_outside" "w_step demo_world = 0"
    "cf_api_base demo_conf = ''https://api''"
    by (simp_all add: demo_world_def init_world_def demo_conf_def)
  moreover have "clock demo_outside n = int n * second" "fault_at demo_outside n = NoFault" for n
    by (simp_all add: demo_outside_def)
  ultimately obtain token where "w_sent demo_mailed =
       [confirmation_message ''a@b.c'' (''https://api/auth/confirm?token='' @ token)]"
    "case run_state (confirm_email demo_crypto demo_conf token) demo_mailed of (resp, w3) \<Rightarrow>
       (\<exists>s. r_location resp = Some (cf_app_base demo_conf @ ''/?welcome=true'' @ s)) \<and>
       settled_in (w_db w3) 7"
    using mailed_link_confirms [OF demo_mailed_run(1), of demo_mailed]
    by (auto simp: demo_mailed_run confirmation_ttl_def)
  then show ?thesis by (intro exI [of _ token]) (auto split: prod.splits)
qed

section \<open>Signing in\<close>

text \<open>Opening a session and mailing a link leave the users alone.\<close>

lemma leaves_users_links:
  "query_keeps (\<lambda>d. users d = us) (create_refresh_token u h ex f)"
  "query_keeps (\<lambda>d. users d = us) (upsert_email_confirmation u h ex)"
  by (auto intro!: query_keepsI simp: auth_query_defs split: if_splits sum.splits)

lemma keeps_users_session:
  "keeps (\<lambda>w. users (w_db w) = us) (open_session C D r)"
  "keeps (\<lambda>w. users (w_db w) = us) (send_confirmation C E e u)"
  by (auto simp: open_session_def send_confirmation_def sign_access_def generate_refresh_def
      intro!: keeps_rules keeps_db_call keeps_db_insert keeps_other_calls leaves_users_links
      split: option.splits sum.splits)

lemma open_session_error:
  "run_state (open_session C D r) w = (Inl resp, w') \<Longrightarrow> r_status resp = 500"
  by (auto simp: open_session_def split: option.splits sum.splits prod.splits)

lemma set_refresh_cookie_simps [simp]:
  "r_status (set_refresh_cookie t ttl now r) = r_status r"
  "r_body (set_refresh_cookie t ttl now r) = r_body r"
  by (simp_all add: set_refresh_cookie_def)

text \<open>What a successful signup did: it stored the user under a hash of the password.\<close>

lemma signup_created:
  assumes run: "run_state (signup C D (Some (e, pw))) w = (resp, w1)" and st: "r_status resp = 201"
  obtains hash r wh wc city where
    "run_state (pw_hash C pw) w = (Some hash, wh)"
    and "run_query (create_user (to_lower (cr_text C) (trim_space e)) hash city False (fresh_of wh)) wh = (Inr r, wc)"
    and "users (w_db w1) = users (w_db wc)"
proof -
  let ?email = "to_lower (cr_text C) (trim_space e)"
  obtain hash wh city where h: "run_state (pw_hash C pw) w = (Some hash, wh)"
    and city: "parse_uuid C (ad_city_id D) = Some city"
    and ok: "looks_like_email ?email" "\<not> length pw < min_password_len"
    using run st by (auto simp: signup_def Let_def split: if_splits option.splits prod.splits)
  obtain x wc where c: "run_query (create_user ?email hash city False (fresh_of wh)) wh = (x, wc)"
    by fastforce
  obtain r where r: "x = Inr r"
    using run st h city ok c
    by (cases x) (auto simp: signup_def Let_def split: db_error.splits)
  obtain y ws where s: "run_state (open_session C D r) wc = (y, ws)" by fastforce
  obtain p where p: "y = Inr p"
    using run st h city ok c r s open_session_error [of C D r wc _ ws]
    by (cases y) (auto simp: signup_def Let_def)
  obtain b wm where m: "run_state (send_confirmation C (ad_conf D) (u_email r) (u_id r)) ws = (b, wm)"
    by fastforce
  have w1: "w1 = wm"
    using run h city ok c r s p m by (cases p) (auto simp: signup_def Let_def)
  have "users (w_db ws) = users (w_db wc)"
    using keepsD [OF keeps_users_session(1) refl, of C D r wc] s by simp
  moreover have "users (w_db wm) = users (w_db ws)"
    using keepsD [OF keeps_users_session(2) refl, of C "ad_conf D" "u_email r" "u_id r" ws] m by simp
  ultimately show thesis using that [OF h c [unfolded r]] w1 by simp
qed

lemma verify_stored_hash:
  assumes "argon2_ok C" and "run_state (pw_hash C pw) w = (Some h, w')"
  shows "pw_verify C pw h = Verified True"
proof -
  obtain salt key where h: "h = phc_string (argon2_version C) salt key"
    and key: "argon2 C pw salt time_cost memory_kib parallelism key_len = Some key"
    using pw_hash_Some [OF assms(2)] by blast
  have "length key = key_len" using assms(1) key by (metis argon2_ok_def option.inject)
  with assms(1) key show ?thesis by (simp add: h pw_verify_phc argon2_ok_def)
qed

lemma find_snoc_new: "\<forall>x \<in> set xs. \<not> P x \<Longrightarrow> P r \<Longrightarrow> find P (xs @ [r]) = Some r"
  by (induction xs) auto
lemma create_user_new:
  assumes "create_user email pw city conf fresh t d = Inr (r, d')"
  shows "r = \<lparr>u_id = fresh, u_email = email, u_password_hash = pw, u_city_id = city,
                    u_embedding = None, u_embedding_at = None, u_created_at = t,
                    u_deleted_at = None, u_score_threshold = None, u_confirmed = conf,
                    u_show_setlists = False\<rparr> \<and> d' = d\<lparr>users := users d @ [r]\<rparr>"
    and "\<not> has_row (\<lambda>r. u_id r = fresh \<or> (u_email r = email \<and> u_deleted_at r = None)) (users d)"
  using assms unfolding create_user_def Let_def by (auto split: if_splits)
lemma create_user_Inr:
  assumes "create_user email pw city conf fresh t d = Inr (r, d')"
  shows "u_email r = email" "u_deleted_at r = None" "u_password_hash r = pw"
    and "users d' = users d @ [r]"
    and "\<forall>x \<in> set (users d). \<not> (u_email x = email \<and> u_deleted_at x = None)"
proof -
  show "u_email r = email" "u_deleted_at r = None" "u_password_hash r = pw" "users d' = users d @ [r]"
    using create_user_new(1) [OF assms] by simp_all
  show "\<forall>x \<in> set (users d). \<not> (u_email x = email \<and> u_deleted_at x = None)"
    using create_user_new(2) [OF assms] unfolding has_row_iff by blast
qed

text \<open>
  C4. An account one has just opened can be signed in to: a login with the same address and
  password, on the database the signup left, is never turned away for its credentials. It
  answers 200, or 500 when the session itself could not be signed or stored.
\<close>

theorem signup_then_login:
  assumes "argon2_ok C"
    and run: "run_state (signup C D (Some (e, pw))) w = (resp, w1)" and "r_status resp = 201"
    and "w_db w2 = w_db w1" and "fault_of w2 = NoFault"
  shows "r_status (fst (run_state (login C D (Some (e, pw))) w2)) \<in> {200, 500}"
proof -
  let ?email = "to_lower (cr_text C) (trim_space e)"
  obtain hash r wh wc city where
    h: "run_state (pw_hash C pw) w = (Some hash, wh)"
    and c: "run_query (create_user ?email hash city False (fresh_of wh)) wh = (Inr r, wc)"
    and us: "users (w_db w1) = users (w_db wc)"
    by (rule signup_created [OF run assms(3)])
  have cr: "create_user ?email hash city False (fresh_of wh) (now_of wh) (w_db wh) = Inr (r, w_db wc)"
    using run_query_Inr [OF c] by simp
  note r = create_user_Inr(1-3) [OF cr] and new = create_user_Inr(4,5) [OF cr]
  have "find (\<lambda>x. u_email x = ?email \<and> u_deleted_at x = None) (users (w_db wc)) = Some r"
    using find_snoc_new [OF new(2), of r] r unfolding new(1) by simp
  then have q: "run_query (get_user_by_email ?email) w2 = (Inr r, tick w2)"
    using assms(4,5) us by (simp add: run_query_def auth_query_defs)
  have v: "pw_verify C pw (u_password_hash r) = Verified True"
    using verify_stored_hash [OF assms(1) h] r by simp
  obtain y ws where s: "run_state (open_session C D r) (tick w2) = (y, ws)" by fastforce
  show ?thesis
  proof (cases y)
    case (Inl resp)
    with open_session_error s have "r_status resp = 500" by blast
    with Inl show ?thesis by (simp add: login_def q v s)
  next
    case (Inr p)
    then show ?thesis by (cases p) (simp add: login_def q v s)
  qed
qed

definition demo_blank :: "unit world" where
  "demo_blank =
     init_world demo_outside
       (empty_db\<lparr>cities := [\<lparr>c_id = 1, c_slug = ''v1-city'', c_name = ''C'', c_timezone = ''UTC''\<rparr>]\<rparr>) ()"

definition demo_signup :: "response \<times> unit world" where
  "demo_signup = run_state (signup demo_crypto demo_auth (Some ('' X@y.z'', ''password''))) demo_blank"

lemma demo_address: "to_lower plain_env (trim_space '' X@y.z'') = ''x@y.z''" "looks_like_email ''x@y.z''"
  by code_simp+

lemma demo_signup_status: "r_status (fst demo_signup) = 201"
  and demo_signup_fault: "fault_of (snd demo_signup) = NoFault"
  by (simp_all add: demo_signup_def demo_blank_def signup_def Let_def demo_crypto_def demo_auth_def
      demo_conf_def demo_outside_def init_world_def empty_db_def demo_address min_password_len_def
      pw_hash_def run_read_random run_query_def fault_of_def fresh_of_def now_of_def tick_def
      create_user_def has_row_def open_session_def sign_access_def generate_refresh_def
      create_refresh_token_def user_exists_def send_confirmation_def upsert_email_confirmation_def
      rotate_link_def send_mail_def)

lemma demo_argon2: "argon2_ok demo_crypto"
  by (auto simp: argon2_ok_def demo_crypto_def min_def)

theorem signup_then_login_witness:
  "r_status (fst (run_state (login demo_crypto demo_auth (Some ('' X@y.z'', ''password''))) (snd demo_signup)))
     \<in> {200, 500}"
  by (rule signup_then_login [OF demo_argon2 _ demo_signup_status refl demo_signup_fault,
        of demo_auth "'' X@y.z''" "''password''" demo_blank])
    (simp add: demo_signup_def)

section \<open>Password reset\<close>

text \<open>A refresh token whose row is revoked is turned away, whatever else happens.\<close>

lemma refresh_dead_token:
  assumes "\<forall>k \<in> set (refresh_tokens (w_db w)). rt_token_hash k = hash_refresh C c \<longrightarrow> rt_revoked_at k \<noteq> None"
  shows "r_status (fst (run_state (refresh C D (Some c)) w)) = 401"
proof (cases c)
  case (Cons x xs)
  have "find (live_refresh t (hash_refresh C c)) (refresh_tokens (w_db w)) = None" for t
    using assms by (auto simp: find_None_iff live_refresh_def)
  then obtain e w' where "run_query (get_active_refresh_token (hash_refresh C c)) w = (Inl e, w')"
    by (cases "fault_of w") (auto simp: run_query_def get_active_refresh_token_def)
  with Cons show ?thesis by (simp add: refresh_def)
qed (simp add: refresh_def)

lemma reset_answer:
  assumes "run_state (reset_password C R (Some (tok, pw))) w = (resp, w1)" and "r_status resp = 200"
  obtains hash wh r wr where "run_state (pw_hash C pw) w = (Some hash, wh)"
    and "run_query (reset_password_with_token (hash_refresh C tok) hash) wh = (Inr (Some r), wr)"
    and "w_db w1 = w_db wr" and "w_db wh = w_db w"
proof -
  obtain hash wh where h: "run_state (pw_hash C pw) w = (Some hash, wh)"
    and ok: "tok \<noteq> []" "\<not> length pw < min_password_len"
    using assms by (auto simp: reset_password_def split: if_splits option.splits prod.splits)
  obtain x wr where q: "run_query (reset_password_with_token (hash_refresh C tok) hash) wh = (x, wr)"
    by fastforce
  obtain r where r: "x = Inr (Some r)"
    using assms h ok q
    by (cases x) (auto simp: reset_password_def split: option.splits)
  have "w_db w1 = w_db wr"
    using assms h ok q r
    by (auto simp: reset_password_def send_mail_def split: if_splits fault.splits)
  moreover have "w_db wh = w_db w" using h by (auto simp: pw_hash_def run_read_random)
  ultimately show thesis using that [OF h q [unfolded r]] by simp
qed

text \<open>The one statement: what a claimed link changes.\<close>

lemma reset_statement:
  assumes q: "reset_password_with_token h pw t d = Inr (Some r, d')" and ok: "links_ok (resets d)"
  obtains l where "l \<in> set (resets d)" "live_link t h l"
    and "u_id r = lk_user_id l" "u_password_hash r = pw" "u_confirmed r" "r \<in> set (users d')"
    and "\<forall>k \<in> set (resets d'). lk_token_hash k = h \<longrightarrow> lk_consumed_at k \<noteq> None"
    and "\<forall>k \<in> set (refresh_tokens d'). rt_user_id k = lk_user_id l \<longrightarrow> rt_revoked_at k \<noteq> None"
proof -
  obtain l where f: "find (live_link t h) (resets d) = Some l"
    using q by (cases "find (live_link t h) (resets d)") (auto simp: reset_password_with_token_def)
  then have l: "l \<in> set (resets d)" "live_link t h l" by (auto dest: find_in_set)
  let ?P = "\<lambda>r. u_id r = lk_user_id l \<and> u_deleted_at r = None"
  let ?f = "\<lambda>r. r\<lparr>u_password_hash := pw, u_confirmed := True\<rparr>"
  have us: "users d' = update_rows ?P ?f (users d)"
    and rs: "resets d' = update_rows (live_link t h) (\<lambda>r. r\<lparr>lk_consumed_at := Some t\<rparr>) (resets d)"
    and ts: "refresh_tokens d' = update_rows (\<lambda>r. rt_user_id r = lk_user_id l \<and> rt_revoked_at r = None)
               (\<lambda>r. r\<lparr>rt_revoked_at := Some t\<rparr>) (refresh_tokens d)"
    and r: "map_option ?f (find ?P (users d)) = Some r"
    using q f by (auto simp: reset_password_with_token_def Let_def)
  from r obtain r0 where r0: "r0 \<in> set (users d)" "?P r0" "r = ?f r0"
    by (auto dest: find_in_set)
  have "r \<in> set (users d')"
    unfolding us set_update_rows using r0 by (intro image_eqI [of _ _ r0]) simp_all
  moreover have "live_link t h k" if "k \<in> set (resets d)" "lk_token_hash k = h" for k
  proof -
    have "k = l"
      using ok l that by (auto simp: links_ok_def two_keyed_def live_link_def intro: keyed_unique)
    with l show ?thesis by simp
  qed
  then have "\<forall>k \<in> set (resets d'). lk_token_hash k = h \<longrightarrow> lk_consumed_at k \<noteq> None"
    unfolding rs ball_update_rows by auto
  moreover have "\<forall>k \<in> set (refresh_tokens d'). rt_user_id k = lk_user_id l \<longrightarrow> rt_revoked_at k \<noteq> None"
    unfolding ts ball_update_rows by auto
  moreover have "u_id r = lk_user_id l" "u_password_hash r = pw" "u_confirmed r" using r0 by simp_all
  ultimately show thesis using that l by blast
qed

text \<open>
  C5. A reset that answers 200 spent a live link of one user, stored a hash the new password
  verifies against, confirmed the account and revoked every refresh token the user had; and
  the link is spent: no later reset with it answers 200, while a refresh with any of those
  tokens is turned away.
\<close>

theorem reset_spends_link:
  assumes "argon2_ok C" and "links_ok (resets (w_db w))" and "keyed rt_token_hash (refresh_tokens (w_db w1))"
    and run: "run_state (reset_password C R (Some (tok, pw))) w = (resp, w1)" and "r_status resp = 200"
  shows "\<exists>u. (\<exists>l \<in> set (resets (w_db w)). lk_user_id l = u \<and> lk_token_hash l = hash_refresh C tok \<and>
                lk_consumed_at l = None) \<and>
             (\<exists>r \<in> set (users (w_db w1)). u_id r = u \<and> u_confirmed r \<and>
                pw_verify C pw (u_password_hash r) = Verified True) \<and>
             (\<forall>w2 pw2. resets (w_db w2) = resets (w_db w1) \<longrightarrow>
                r_status (fst (run_state (reset_password C R (Some (tok, pw2))) w2)) \<noteq> 200) \<and>
             (\<forall>w2 c. refresh_tokens (w_db w2) = refresh_tokens (w_db w1) \<longrightarrow>
                (\<exists>k \<in> set (refresh_tokens (w_db w1)). rt_user_id k = u \<and> rt_token_hash k = hash_refresh C c) \<longrightarrow>
                r_status (fst (run_state (refresh C D (Some c)) w2)) = 401)"
proof -
  obtain hash wh r wr where h: "run_state (pw_hash C pw) w = (Some hash, wh)"
    and q: "run_query (reset_password_with_token (hash_refresh C tok) hash) wh = (Inr (Some r), wr)"
    and dbs: "w_db w1 = w_db wr" "w_db wh = w_db w"
    using reset_answer [OF run assms(5)] by blast
  have q': "reset_password_with_token (hash_refresh C tok) hash (now_of wh) (w_db w) = Inr (Some r, w_db w1)"
    using run_query_Inr [OF q] dbs by simp
  obtain l where l: "l \<in> set (resets (w_db w))" "live_link (now_of wh) (hash_refresh C tok) l"
    and r: "u_id r = lk_user_id l" "u_password_hash r = hash" "u_confirmed r" "r \<in> set (users (w_db w1))"
    and spent: "\<forall>k \<in> set (resets (w_db w1)). lk_token_hash k = hash_refresh C tok \<longrightarrow> lk_consumed_at k \<noteq> None"
    and revoked: "\<forall>k \<in> set (refresh_tokens (w_db w1)). rt_user_id k = lk_user_id l \<longrightarrow> rt_revoked_at k \<noteq> None"
    by (rule reset_statement [OF q' assms(2)])
  have "r_status (fst (run_state (reset_password C R (Some (tok, pw2))) w2)) \<noteq> 200"
    if w2: "resets (w_db w2) = resets (w_db w1)" for w2 pw2
  proof
    assume st: "r_status (fst (run_state (reset_password C R (Some (tok, pw2))) w2)) = 200"
    obtain resp2 w3 where run2: "run_state (reset_password C R (Some (tok, pw2))) w2 = (resp2, w3)" by fastforce
    obtain hash2 wh2 r2 wr2 where "run_state (pw_hash C pw2) w2 = (Some hash2, wh2)"
      and q2: "run_query (reset_password_with_token (hash_refresh C tok) hash2) wh2 = (Inr (Some r2), wr2)"
      and "w_db wh2 = w_db w2"
    proof -
      have st2: "r_status resp2 = 200" using st run2 by simp
      show thesis by (rule reset_answer [OF run2 st2]) (rule that; assumption)
    qed
    have "reset_password_with_token (hash_refresh C tok) hash2 (now_of wh2) (w_db w2) = Inr (Some r2, w_db wr2)"
      using run_query_Inr [OF q2] \<open>w_db wh2 = w_db w2\<close> by simp
    then obtain l2 where "find (live_link (now_of wh2) (hash_refresh C tok)) (resets (w_db w2)) = Some l2"
      by (cases "find (live_link (now_of wh2) (hash_refresh C tok)) (resets (w_db w2))")
        (auto simp: reset_password_with_token_def)
    then have "l2 \<in> set (resets (w_db w1))" "live_link (now_of wh2) (hash_refresh C tok) l2"
      using w2 by (auto dest: find_in_set)
    with spent show False by (auto simp: live_link_def)
  qed
  moreover have "r_status (fst (run_state (refresh C D (Some c)) w2)) = 401"
    if "refresh_tokens (w_db w2) = refresh_tokens (w_db w1)"
      "k \<in> set (refresh_tokens (w_db w1))" "rt_user_id k = lk_user_id l" "rt_token_hash k = hash_refresh C c"
    for w2 c k
  proof (rule refresh_dead_token)
    have "k' = k" if "k' \<in> set (refresh_tokens (w_db w1))" "rt_token_hash k' = hash_refresh C c" for k'
      using assms(3) that \<open>k \<in> _\<close> \<open>rt_token_hash k = _\<close> by (auto intro: keyed_unique)
    with revoked that show "\<forall>k \<in> set (refresh_tokens (w_db w2)). rt_token_hash k = hash_refresh C c \<longrightarrow>
        rt_revoked_at k \<noteq> None" by metis
  qed
  moreover have "pw_verify C pw (u_password_hash r) = Verified True"
    using verify_stored_hash [OF assms(1) h] r(2) by simp
  ultimately show ?thesis
    using l r by (intro exI [of _ "lk_user_id l"]) (auto simp: live_link_def)
qed

definition demo_reset_done :: "response \<times> unit world" where
  "demo_reset_done = run_state (reset_password demo_crypto demo_reset (Some (''r'', ''password''))) demo_world"

lemma demo_reset_eval:
  "r_status (fst demo_reset_done) = 200"
  "refresh_tokens (w_db (snd demo_reset_done)) =
     [\<lparr>rt_id = 9, rt_user_id = 7, rt_token_hash = ''c'', rt_expires_at = day,
       rt_revoked_at = Some second, rt_created_at = 0\<rparr>]"
  by (simp_all add: demo_reset_done_def demo_defs reset_password_def min_password_len_def pw_hash_def
      run_read_random run_query_def fault_of_def now_of_def tick_def hash_refresh_def
      reset_password_with_token_def live_link_def Let_def send_mail_def)

theorem reset_spends_link_witness:
  "\<exists>r \<in> set (users (w_db (snd demo_reset_done))).
     u_id r = 7 \<and> u_confirmed r \<and> pw_verify demo_crypto ''password'' (u_password_hash r) = Verified True"
proof -
  have "links_ok (resets (w_db demo_world))" "keyed rt_token_hash (refresh_tokens (w_db (snd demo_reset_done)))"
    by (simp_all add: demo_defs links_ok_def two_keyed_def keyed_def demo_reset_eval(2)
        [unfolded demo_world_def init_world_def demo_outside_def demo_db_def demo_user_def empty_db_def])
  from reset_spends_link [OF demo_argon2 this _ demo_reset_eval(1), of demo_reset "''r''" "''password''" demo_auth]
  have "\<exists>u. (\<exists>l \<in> set (resets (w_db demo_world)). lk_user_id l = u) \<and>
      (\<exists>r \<in> set (users (w_db (snd demo_reset_done))). u_id r = u \<and> u_confirmed r \<and>
         pw_verify demo_crypto ''password'' (u_password_hash r) = Verified True)"
    by (auto simp: demo_reset_done_def)
  then show ?thesis by (simp add: demo_world_def init_world_def demo_db_def)
qed

section \<open>Sessions and links\<close>

text \<open>
  C6. Logging out ends the session: once the statement went through, a refresh with the same
  cookie is turned away in every later world with these refresh tokens.
\<close>

theorem logout_ends_session:
  assumes "fault_of w \<noteq> FaultBefore" and "run_state (logout C (Some c)) w = (resp, w1)"
    and "refresh_tokens (w_db w2) = refresh_tokens (w_db w1)"
  shows "r_status (fst (run_state (refresh C D (Some c)) w2)) = 401"
proof (cases "c = []")
  case False
  then have ts: "refresh_tokens (w_db w1) =
      update_rows (\<lambda>r. rt_token_hash r = hash_refresh C c \<and> rt_revoked_at r = None)
        (\<lambda>r. r\<lparr>rt_revoked_at := Some (now_of w)\<rparr>) (refresh_tokens (w_db w))"
    using assms(1,2)
    by (auto simp: logout_def run_query_def revoke_refresh_token_def neq_Nil_conv split: fault.splits)
  show ?thesis
    by (rule refresh_dead_token) (simp add: assms(3) ts ball_update_rows)
qed (simp add: refresh_def)

theorem logout_ends_session_witness:
  "r_status (fst (run_state (refresh demo_crypto demo_auth (Some ''c''))
      (snd (run_state (logout demo_crypto (Some ''c'')) demo_world)))) = 401"
  by (rule logout_ends_session [of demo_world _ "''c''", OF _ prod.collapse [symmetric] refl])
    (simp add: demo_world_def init_world_def demo_outside_def fault_of_def)

text \<open>
  C7. Links rotate: after any sequence of stored confirmation links, starting from a
  consistent table, the hash that resolves to a user is the last one stored for that user, or
  the one from before when the sequence stored none. Every older link is dead.
\<close>

theorem confirmation_links_rotate:
  assumes "links_ok (confirmations d)" and "rotate_all put_confirmation xs d = Some d'"
  shows "confirmation_owner k d' = Some u \<longleftrightarrow>
    (case latest_token u xs of Some h \<Rightarrow> k = h | None \<Rightarrow> confirmation_owner k d = Some u)"
  using assms by (rule confirmation_tokens.live_iff_latest)

theorem confirmation_links_rotate_witness:
  "\<exists>d'. rotate_all put_confirmation [((day, 0), 7, ''x''), ((day, 1), 7, ''y'')] demo_db = Some d' \<and>
     confirmation_owner ''y'' d' = Some 7 \<and> confirmation_owner ''x'' d' \<noteq> Some 7 \<and>
     confirmation_owner ''t'' d' \<noteq> Some 7"
proof -
  let ?xs = "[((day, 0), 7, ''x''), ((day, 1), 7, ''y'')] :: ((int \<times> int) \<times> uuid \<times> string) list"
  obtain d' where d': "rotate_all put_confirmation ?xs demo_db = Some d'"
    by (simp add: demo_defs put_confirmation_def query_put_def upsert_email_confirmation_def
        rotate_link_def user_exists_def upsert_row_def)
  have "links_ok (confirmations demo_db)"
    by (simp add: demo_defs links_ok_def two_keyed_def keyed_def)
  from confirmation_links_rotate [OF this d', of _ 7] d' show ?thesis by simp
qed

definition account_view :: "db \<Rightarrow> user_row list \<times> refresh_row list \<times> link_row list" where
  "account_view d = (users d, refresh_tokens d, confirmations d)"

lemma reset_view_queries:
  "query_keeps (\<lambda>d. account_view d = x) (get_user_by_email a)"
  "query_keeps (\<lambda>d. account_view d = x) (upsert_password_reset u h ex)"
  by (auto intro!: query_keepsI simp: account_view_def auth_query_defs split: option.splits sum.splits)

text \<open>
  Asking for a reset reveals nothing: every request that decodes is answered 204 with an
  empty body and no cookie, in every world, for known and unknown addresses alike, and it
  never touches the users, the refresh tokens or the confirmations.
\<close>

theorem reset_request_uniform:
  "fst (run_state (request_password_reset C R (Some e)) w) = no_content \<and>
   users (w_db (snd (run_state (request_password_reset C R (Some e)) w))) = users (w_db w) \<and>
   refresh_tokens (w_db (snd (run_state (request_password_reset C R (Some e)) w))) = refresh_tokens (w_db w) \<and>
   confirmations (w_db (snd (run_state (request_password_reset C R (Some e)) w))) = confirmations (w_db w)"
proof -
  let ?J = "\<lambda>x w. account_view (w_db w) = x"
  have "keeps (?J x) (request_password_reset C R (Some e))" for x
    unfolding request_password_reset_def send_password_reset_def mail_reset_link_def generate_refresh_def
    by (auto intro!: keeps_rules keeps_db_call keeps_other_calls reset_view_queries
        split: option.splits sum.splits db_error.splits)
  from keepsD [OF this refl, of w] show ?thesis
    by (simp add: account_view_def request_password_reset_def split: prod.splits)
qed

end
