(* ===== verification/PosterSystem.thy ===== *)
theory PosterSystem
  imports Posters StoreAuth AuthProps
begin

text \<open>
  The poster subsystem over time: requests claim jobs, started generations finish within
  their time bounds or are lost, and accounts come and go. What is proved of every reachable
  state: a ready job always has a key that can be signed, and a job never has two live
  generations.
\<close>

text \<open>
  The bounds on a generation after its claim: the answer to the claim (5 s), the client's
  own timeout (\<open>generateTimeout\<close>) and the status write (\<open>posterDBTimeout\<close>).
\<close>

definition generate_timeout :: instant where "generate_timeout = 310 * second"
definition poster_db_timeout :: instant where "poster_db_timeout = 5 * second"

definition generation_lifetime :: instant where
  "generation_lifetime = 5 * second + generate_timeout + poster_db_timeout"

lemma lifetime_below_stale: "generation_lifetime < stale_pending_after"
  by (simp add: generation_lifetime_def generate_timeout_def poster_db_timeout_def
      stale_pending_after_def)

section \<open>Invariants at one instant\<close>

definition jobs_ok :: "db \<Rightarrow> bool" where
  "jobs_ok d =
     (keyed pj_id (poster_jobs d) \<and>
      (\<forall>r \<in> set (poster_jobs d). pj_status r \<in> {''pending'', ''ready'', ''failed''} \<and>
         (pj_status r = ''ready'' \<longrightarrow> (\<exists>k. pj_png_key r = Some k \<and> validate_key k = Some k))))"

definition live_at :: "instant \<Rightarrow> generation \<Rightarrow> bool" where
  "live_at now g = (case g of (i, u, t) \<Rightarrow> now \<le> t + generation_lifetime)"

text \<open>A live generation owns its job: the row is still the pending row its claim wrote.\<close>

definition owns_job :: "db \<Rightarrow> generation \<Rightarrow> bool" where
  "owns_job d g =
     (case g of (i, u, t) \<Rightarrow>
        (case find (\<lambda>r. pj_id r = i) (poster_jobs d) of
           Some r \<Rightarrow> pj_status r = ''pending'' \<and> pj_updated_at r = t \<and> pj_user_id r = u
         | None \<Rightarrow> \<not> user_exists d u))"

definition running_ok :: "instant \<Rightarrow> db \<Rightarrow> generation list \<Rightarrow> bool" where
  "running_ok now d gs =
     (jobs_ok d \<and>
      (\<forall>g \<in> set gs. snd (snd g) \<le> now \<and> (live_at now g \<longrightarrow> owns_job d g)) \<and>
      distinct (map fst (filter (live_at now) gs)))"

text \<open>The key of a job under way is not also the key of another user's job.\<close>

definition no_collision :: "crypto_env \<Rightarrow> generation list \<Rightarrow> uuid \<Rightarrow> bool" where
  "no_collision C gs u =
     (\<forall>(i, v, t) \<in> set gs. \<forall>p ve da. i = job_id C (uuid_string u) p ve da \<longrightarrow> v = u)"

lemma running_ok_later:
  assumes "running_ok now d gs" "now \<le> now'"
  shows "running_ok now' d gs"
proof -
  have live: "live_at now' g \<Longrightarrow> live_at now g" for g
    using assms(2) by (auto simp: live_at_def split: prod.splits)
  have "filter (live_at now') gs = filter (live_at now') (filter (live_at now) gs)"
    using live by (auto intro: filter_cong)
  then have "distinct (map fst (filter (live_at now') gs))"
    using assms(1) by (metis distinct_map_filter running_ok_def)
  with assms live show ?thesis by (force simp: running_ok_def)
qed

lemma running_ok_remove:
  "running_ok now d (xs @ g # ys) \<Longrightarrow> running_ok now d (xs @ ys)"
proof -
  assume ok: "running_ok now d (xs @ g # ys)"
  have "distinct (a @ b @ c) \<Longrightarrow> distinct (a @ c)" for a b c :: "string list" by auto
  moreover have "distinct (map fst (filter (live_at now) xs) @ map fst (filter (live_at now) [g])
      @ map fst (filter (live_at now) ys))"
    using ok by (simp only: running_ok_def flip: map_append filter_append) simp
  ultimately have "distinct (map fst (filter (live_at now) xs) @ map fst (filter (live_at now) ys))" .
  with ok show ?thesis unfolding running_ok_def by simp
qed

text \<open>The other live generations have other jobs.\<close>

lemma live_elsewhere:
  assumes "running_ok now d (xs @ g # ys)" "live_at now g" "h \<in> set (xs @ ys)" "live_at now h"
  shows "fst h \<noteq> fst g"
proof -
  let ?L = "{x \<in> set (xs @ ys). live_at now x}"
  have "fst g \<notin> fst ` ?L" using assms(1,2) by (auto simp: running_ok_def)
  moreover have "fst h \<in> fst ` ?L" using assms(3,4) by (intro imageI) simp
  ultimately show ?thesis by metis
qed

lemma jobs_ok_update:
  assumes "jobs_ok d" and "poster_jobs d' = update_rows (\<lambda>r. pj_id r = i) f (poster_jobs d)"
    and "\<And>r. pj_id (f r) = pj_id r"
    and "\<And>r. pj_status (f r) \<in> {''pending'', ''failed''} \<or>
           pj_status (f r) = ''ready'' \<and> (\<exists>k. pj_png_key (f r) = Some k \<and> validate_key k = Some k)"
  shows "jobs_ok d'"
proof -
  have "keyed pj_id (poster_jobs d')"
    using assms(1,3) by (simp add: assms(2) jobs_ok_def keyed_update_rows)
  moreover have "pj_status (f r) \<in> {''pending'', ''ready'', ''failed''} \<and>
      (pj_status (f r) = ''ready'' \<longrightarrow> (\<exists>k. pj_png_key (f r) = Some k \<and> validate_key k = Some k))" for r
    using assms(4) [of r] by auto
  ultimately show ?thesis
    using assms(1) unfolding jobs_ok_def assms(2) ball_update_rows by auto
qed

text \<open>A row update of one job leaves the generations of other jobs their rows.\<close>

lemma owns_job_frame:
  assumes "poster_jobs d' = update_rows (\<lambda>r. pj_id r = i) f (poster_jobs d)"
    and "\<And>r. pj_id (f r) = pj_id r" and "users d' = users d" and "fst g \<noteq> i" and "owns_job d g"
  shows "owns_job d' g"
  using assms(3-5) find_update_key [of pj_id f, OF assms(2)]
  by (auto simp: owns_job_def assms(1) user_exists_def split: prod.splits option.splits)

section \<open>The steps keep the invariant\<close>

text \<open>A claim that succeeds finds no live generation of the job.\<close>

lemma claim_excludes:
  assumes ok: "running_ok now d gs" and coll: "no_collision C gs u"
    and i: "i = job_id C (uuid_string u) p ve da"
    and claim: "claim_poster_job i u p ve da (now - stale_pending_after) force now d = Inr (r, d')"
    and g: "g \<in> set gs" "live_at now g"
  shows "fst g \<noteq> i"
proof
  assume "fst g = i"
  obtain v t where gv: "g = (i, v, t)" using \<open>fst g = i\<close> by (cases g) auto
  have "v = u" using coll g(1) i \<open>fst g = i\<close> unfolding no_collision_def gv by fastforce
  have own: "owns_job d g" using ok g by (auto simp: running_ok_def)
  show False
  proof (cases "find (\<lambda>r. pj_id r = i) (poster_jobs d)")
    case None
    with own claim \<open>v = u\<close> show False
      by (auto simp: owns_job_def gv claim_poster_job_def split: if_splits)
  next
    case (Some r0)
    with own have "pj_status r0 = ''pending''" "pj_updated_at r0 = t" by (auto simp: owns_job_def gv)
    moreover have "claimable u (now - stale_pending_after) force r0"
      using claim Some by (auto simp: claim_poster_job_def split: if_splits)
    ultimately have "t < now - stale_pending_after" by (auto simp: claimable_def)
    with g(2) lifetime_below_stale show False by (auto simp: live_at_def gv)
  qed
qed

lemma claim_keeps:
  assumes ok: "running_ok now d gs" and coll: "no_collision C gs u"
    and i: "i = job_id C (uuid_string u) p ve da"
    and claim: "claim_poster_job i u p ve da (now - stale_pending_after) force now d = Inr (r, d')"
  shows "running_ok now d' (gs @ [(i, u, now)])" and "pj_updated_at r = now"
proof -
  have other: "fst g \<noteq> i" if "g \<in> set gs" "live_at now g" for g
    using claim_excludes [OF ok coll i claim that] .
  have step: "jobs_ok d' \<and> owns_job d' (i, u, now) \<and> pj_updated_at r = now \<and>
      (\<forall>g. fst g \<noteq> i \<longrightarrow> owns_job d g \<longrightarrow> owns_job d' g)"
  proof (cases "find (\<lambda>r. pj_id r = i) (poster_jobs d)")
    case None
    with claim have d': "poster_jobs d' = poster_jobs d @ [r]" "users d' = users d"
      and r: "pj_id r = i" "pj_user_id r = u" "pj_status r = ''pending''" "pj_updated_at r = now"
      by (auto simp: claim_poster_job_def Let_def split: if_splits)
    have "\<forall>x \<in> set (poster_jobs d). pj_id x \<noteq> i" using None by (auto simp: find_None_iff)
    then have "jobs_ok d'" using ok r d' by (auto simp: running_ok_def jobs_ok_def keyed_def)
    moreover have "owns_job d' (i, u, now)" using None r by (simp add: owns_job_def d' find_snoc)
    moreover have "owns_job d' g" if "fst g \<noteq> i" "owns_job d g" for g
      using that r d' by (auto simp: owns_job_def find_snoc user_exists_def split: option.splits prod.splits)
    ultimately show ?thesis using r by blast
  next
    case (Some r0)
    with claim have d': "poster_jobs d' = update_rows (\<lambda>r. pj_id r = i) (reclaimed now) (poster_jobs d)"
      "users d' = users d" and r: "r = reclaimed now r0" and c: "claimable u (now - stale_pending_after) force r0"
      by (auto simp: claim_poster_job_def split: if_splits)
    have keep: "\<And>r. pj_id (reclaimed now r) = pj_id r" by (simp add: reclaimed_def)
    have "jobs_ok d" using ok by (simp add: running_ok_def)
    then have "jobs_ok d'" using d'(1) keep by (rule jobs_ok_update) (simp add: reclaimed_def)
    moreover have "owns_job d' (i, u, now)"
      using Some c find_update_key [of pj_id "reclaimed now", OF keep]
      by (simp add: owns_job_def d' reclaimed_def claimable_def)
    moreover have "owns_job d' g" if "fst g \<noteq> i" "owns_job d g" for g
      using owns_job_frame [OF d'(1) keep d'(2) that] .
    ultimately show ?thesis by (simp add: r reclaimed_def)
  qed
  then show "pj_updated_at r = now" by simp
  have "live_at now (i, u, now)"
    by (simp add: live_at_def generation_lifetime_def generate_timeout_def poster_db_timeout_def)
  moreover have "i \<notin> fst ` set (filter (live_at now) gs)" using other by auto
  ultimately show "running_ok now d' (gs @ [(i, u, now)])"
    using ok step other by (auto simp: running_ok_def)
qed

lemma running_ok_butlast: "running_ok now d (gs @ [g]) \<Longrightarrow> running_ok now d gs"
  using running_ok_remove [of now d gs g "[]"] by simp

lemma mark_keeps:
  assumes ok: "running_ok now d (xs @ (i, u, t) # ys)" and live: "live_at now (i, u, t)"
    and d': "poster_jobs d' = update_rows (\<lambda>r. pj_id r = i) f (poster_jobs d)" "users d' = users d"
    and f: "\<And>r. pj_id (f r) = pj_id r"
      "\<And>r. pj_status (f r) \<in> {''pending'', ''failed''} \<or>
           pj_status (f r) = ''ready'' \<and> (\<exists>k. pj_png_key (f r) = Some k \<and> validate_key k = Some k)"
  shows "running_ok now d' (xs @ ys)"
proof -
  have "jobs_ok d'" using ok f by (intro jobs_ok_update [OF _ d'(1)]) (simp_all add: running_ok_def)
  moreover have "owns_job d' g" if "g \<in> set (xs @ ys)" "live_at now g" for g
  proof (rule owns_job_frame [OF d'(1) f(1) d'(2)])
    show "fst g \<noteq> i" using live_elsewhere [OF ok live that] by simp
    show "owns_job d g" using ok that by (auto simp: running_ok_def)
  qed
  ultimately show ?thesis using running_ok_remove [OF ok] by (auto simp: running_ok_def)
qed

text \<open>Deleting an account removes its jobs and, with them, the chance to claim them again.\<close>

lemma delete_user_keeps:
  assumes ok: "running_ok now d gs" and q: "delete_user u t d = Inr (a, d')"
  shows "running_ok now d' gs"
proof -
  have pj: "poster_jobs d' = delete_rows (\<lambda>r. pj_user_id r = u) (poster_jobs d)"
    and us: "users d' = delete_rows (\<lambda>r. u_id r = u) (users d)"
    using q by (auto simp: delete_user_def)
  have k: "keyed pj_id (poster_jobs d)" using ok by (simp add: running_ok_def jobs_ok_def)
  have "jobs_ok d'" using ok k by (auto simp: running_ok_def jobs_ok_def pj table_simps keyed_delete_rows)
  moreover have "owns_job d' g" if "owns_job d g" for g
  proof -
    obtain i v t where g: "g = (i, v, t)" by (cases g)
    have f: "find (\<lambda>r. pj_id r = i) (poster_jobs d') =
        (case find (\<lambda>r. pj_id r = i) (poster_jobs d) of
           None \<Rightarrow> None | Some r \<Rightarrow> if pj_user_id r = u then None else Some r)"
      unfolding pj using k by (rule find_delete_rows)
    have "user_exists d' v \<longleftrightarrow> user_exists d v \<and> v \<noteq> u"
      by (auto simp: user_exists_iff us table_simps)
    then show ?thesis
      using that by (auto simp: owns_job_def g f split: option.splits)
  qed
  ultimately show ?thesis using ok by (auto simp: running_ok_def)
qed

section \<open>The system\<close>

record 'l poster_sys =
  ps_world :: "'l world"
  ps_running :: "generation list"

definition sys_ok :: "'l poster_sys \<Rightarrow> bool" where
  "sys_ok s =
     (mono (clock (w_env (ps_world s))) \<and>
      running_ok (now_of (ps_world s)) (w_db (ps_world s)) (ps_running s))"

text \<open>
  The steps: a request claims a job and may start a generation; a generation finishes within
  its bounds with any reply, or is lost with its process; an account is deleted; another
  component changes other tables, without reviving the user of a generation under way.
\<close>

inductive poster_reach :: "crypto_env \<Rightarrow> 'l poster_sys \<Rightarrow> bool" for C where
  start: "mono (clock (w_env w)) \<Longrightarrow> poster_jobs (w_db w) = [] \<Longrightarrow>
    poster_reach C \<lparr>ps_world = w, ps_running = []\<rparr>"
| claim: "poster_reach C \<lparr>ps_world = w, ps_running = gs\<rparr> \<Longrightarrow>
    (\<And>u. uid = Some u \<Longrightarrow> no_collision C gs u) \<Longrightarrow>
    run_state (create_poster C uid req) w = ((resp, started), w') \<Longrightarrow>
    poster_reach C \<lparr>ps_world = w', ps_running = gs @ (case started of None \<Rightarrow> [] | Some g \<Rightarrow> [g])\<rparr>"
| finish: "poster_reach C \<lparr>ps_world = w, ps_running = xs @ (i, u, t) # ys\<rparr> \<Longrightarrow>
    live_at (now_of w) (i, u, t) \<Longrightarrow>
    poster_reach C \<lparr>ps_world = snd (run_state (finish_generation i reply) w), ps_running = xs @ ys\<rparr>"
| lost: "poster_reach C \<lparr>ps_world = w, ps_running = xs @ g # ys\<rparr> \<Longrightarrow>
    poster_reach C \<lparr>ps_world = w, ps_running = xs @ ys\<rparr>"
| delete: "poster_reach C \<lparr>ps_world = w, ps_running = gs\<rparr> \<Longrightarrow>
    poster_reach C \<lparr>ps_world = snd (run_query (delete_user u) w), ps_running = gs\<rparr>"
| other: "poster_reach C \<lparr>ps_world = w, ps_running = gs\<rparr> \<Longrightarrow> poster_jobs d = poster_jobs (w_db w) \<Longrightarrow>
    (\<forall>(i, u, t) \<in> set gs. user_exists d u \<longrightarrow> user_exists (w_db w) u) \<Longrightarrow>
    poster_reach C \<lparr>ps_world = tick (w\<lparr>w_db := d\<rparr>), ps_running = gs\<rparr>"

lemma mono_tick: "mono (clock (w_env w)) \<Longrightarrow> now_of w \<le> clock (w_env w) (Suc (w_step w))"
  by (simp add: now_of_def mono_def)

lemma now_of_run_query [simp]: "now_of (snd (run_query q w)) = clock (w_env w) (Suc (w_step w))"
  by (simp add: now_of_def)

text \<open>A query that keeps the invariant at its instant keeps it afterwards.\<close>

lemma sys_ok_query:
  assumes "mono (clock (w_env w))" and "running_ok (now_of w) (w_db w) gs" and "set gs' \<subseteq> set gs"
    and "distinct (map fst (filter (live_at (now_of w)) gs'))"
    and "\<And>a d'. q (now_of w) (w_db w) = Inr (a, d') \<Longrightarrow> running_ok (now_of w) d' gs'"
  shows "sys_ok \<lparr>ps_world = snd (run_query q w), ps_running = gs'\<rparr>"
proof -
  have "running_ok (now_of w) (w_db w) gs'" using assms(2-4) by (auto simp: running_ok_def)
  then have "running_ok (now_of w) (w_db (snd (run_query q w))) gs'"
    using run_query_db [of q w] assms(5) by auto
  with assms(1) show ?thesis
    by (simp add: sys_ok_def) (rule running_ok_later [OF _ mono_tick])
qed

lemma sys_ok_create:
  assumes ok: "sys_ok \<lparr>ps_world = w, ps_running = gs\<rparr>"
    and coll: "\<And>u. uid = Some u \<Longrightarrow> no_collision C gs u"
    and run: "run_state (create_poster C uid req) w = ((resp, started), w')"
  shows "sys_ok \<lparr>ps_world = w', ps_running = gs @ (case started of None \<Rightarrow> [] | Some g \<Rightarrow> [g])\<rparr>"
proof (cases "\<exists>u p pf ve da. uid = Some u \<and> req = Some p \<and>
    validate_fields (pq_performer p) (pq_venue p) (pq_date p) = Inr (pf, ve, da)")
  case False
  then have "started = None \<and> w' = w"
    using run by (auto simp: create_poster_def split: option.splits sum.splits)
  with ok show ?thesis by simp
next
  case True
  then obtain u p pf ve da where v: "uid = Some u" "req = Some p"
    "validate_fields (pq_performer p) (pq_venue p) (pq_date p) = Inr (pf, ve, da)" by blast
  let ?i = "job_id C (uuid_string u) pf ve da"
  let ?q = "claim_poster_job ?i u pf ve da (now_of w - stale_pending_after) (pq_force p)"
  have mono: "mono (clock (w_env w))" and r_ok: "running_ok (now_of w) (w_db w) gs"
    using ok by (auto simp: sys_ok_def)
  have keep: "running_ok (now_of w) d' (gs @ [(?i, u, now_of w)])" "pj_updated_at r = now_of w"
    if "?q (now_of w) (w_db w) = Inr (r, d')" for r d'
    using claim_keeps [OF r_ok coll [OF v(1)] refl that] by auto
  have w': "w' = snd (run_query ?q w)"
    using run v by (auto simp: create_poster_def Let_def split: sum.splits db_error.splits prod.splits)
  show ?thesis
  proof (cases "fst (run_query ?q w)")
    case (Inl e)
    then have "started = None"
      using run v by (auto simp: create_poster_def Let_def split: sum.splits db_error.splits prod.splits)
    with keep show ?thesis
      unfolding w' using r_ok mono
      by (auto intro!: sys_ok_query dest: running_ok_butlast simp: running_ok_def)
  next
    case (Inr r)
    then obtain wc where q: "run_query ?q w = (Inr r, wc)" by (metis prod.collapse)
    have qd: "?q (now_of w) (w_db w) = Inr (r, w_db wc)" using run_query_Inr [OF q] by simp
    have "started = Some (?i, u, now_of w)" "w' = wc"
      using run v q keep(2) [OF qd] by (auto simp: create_poster_def Let_def)
    moreover have "now_of wc = clock (w_env w) (Suc (w_step w))" "w_env wc = w_env w"
      using now_of_run_query [of ?q w] run_query_frame(1) [of ?q w] q by simp_all
    ultimately show ?thesis
      using keep(1) [OF qd] mono running_ok_later [OF _ mono_tick [OF mono]] by (simp add: sys_ok_def)
  qed
qed

lemma sys_ok_finish:
  assumes ok: "sys_ok \<lparr>ps_world = w, ps_running = xs @ (i, u, t) # ys\<rparr>" and live: "live_at (now_of w) (i, u, t)"
  shows "sys_ok \<lparr>ps_world = snd (run_state (finish_generation i reply) w), ps_running = xs @ ys\<rparr>"
proof -
  have mono: "mono (clock (w_env w))" and r_ok: "running_ok (now_of w) (w_db w) (xs @ (i, u, t) # ys)"
    using ok by (auto simp: sys_ok_def)
  have fin: "sys_ok \<lparr>ps_world = snd (run_query q w), ps_running = xs @ ys\<rparr>"
    if "\<And>a d'. q (now_of w) (w_db w) = Inr (a, d') \<Longrightarrow> running_ok (now_of w) d' (xs @ ys)" for q :: "unit query"
    using running_ok_remove [OF r_ok] that
    by (intro sys_ok_query [OF mono r_ok]) (auto simp: running_ok_def)
  have failed: "sys_ok \<lparr>ps_world = snd (run_query (mark_poster_job_failed i st rs) w), ps_running = xs @ ys\<rparr>" for st rs
  proof (rule fin)
    fix a d'
    assume "mark_poster_job_failed i st rs (now_of w) (w_db w) = Inr (a, d')"
    then show "running_ok (now_of w) d' (xs @ ys)"
      by (intro mark_keeps [OF r_ok live, where f = "\<lambda>r. r\<lparr>pj_status := ''failed'',
            pj_failure_stage := Some st, pj_failure_reason := Some rs, pj_updated_at := now_of w\<rparr>"])
        (auto simp: mark_poster_job_failed_def)
  qed
  have ready: "sys_ok \<lparr>ps_world = snd (run_query (mark_poster_job_ready i k a c) w), ps_running = xs @ ys\<rparr>"
    if "validate_key k = Some k" for k a c
  proof (rule fin)
    fix x d'
    assume "mark_poster_job_ready i k a c (now_of w) (w_db w) = Inr (x, d')"
    with that show "running_ok (now_of w) d' (xs @ ys)"
      by (intro mark_keeps [OF r_ok live, where f = "\<lambda>r. r\<lparr>pj_status := ''ready'', pj_png_key := Some k,
            pj_artist := a, pj_credit := c, pj_failure_stage := None, pj_failure_reason := None,
            pj_updated_at := now_of w\<rparr>"])
        (auto simp: mark_poster_job_ready_def)
  qed
  have "validate_key k = Some k'' \<Longrightarrow> validate_key k = Some k" for k k''
    by (auto simp: validate_key_def split: if_splits)
  with failed ready show ?thesis
    by (auto simp: finish_generation_def split: option.splits prod.splits) (metis snd_conv)+
qed

lemma poster_reach_ok: "poster_reach C s \<Longrightarrow> sys_ok s"
proof (induction rule: poster_reach.induct)
  case (start w)
  then show ?case by (auto simp: sys_ok_def running_ok_def jobs_ok_def keyed_def)
next
  case (claim w gs uid req resp started w')
  from claim.IH claim.hyps(2,3) show ?case by (rule sys_ok_create)
next
  case (finish w xs i u t ys reply)
  from finish.IH finish.hyps(2) show ?case by (rule sys_ok_finish)
next
  case (lost w xs g ys)
  then show ?case by (auto simp: sys_ok_def intro: running_ok_remove)
next
  case (delete w gs u)
  then have m: "mono (clock (w_env w))" and r: "running_ok (now_of w) (w_db w) gs"
    by (auto simp: sys_ok_def)
  show ?case
    by (rule sys_ok_query [OF m r order_refl])
      (use r in \<open>auto simp: running_ok_def [of _ "w_db w" gs] intro: delete_user_keeps [OF r]\<close>)
next
  case (other w gs d)
  have "running_ok (now_of w) d gs"
    using other by (auto simp: sys_ok_def running_ok_def jobs_ok_def owns_job_def split: option.splits)
  with other.IH show ?case by (auto simp: sys_ok_def intro: running_ok_later [OF _ mono_tick])
qed

section \<open>What the poster subsystem guarantees\<close>

text \<open>
  C9. In every reachable state a ready job holds an artifact key that passes the key check,
  so serving it fails only when the signer itself does: there is no ready row that answers
  500 for ever.
\<close>

theorem ready_job_signable:
  assumes "poster_reach C s" and "r \<in> set (poster_jobs (w_db (ps_world s)))" and "pj_status r = ''ready''"
  shows "\<exists>k. pj_png_key r = Some k \<and> has_prefix k ''posters/v'' \<and> has_suffix k ''.png'' \<and>
           \<not> str_contains k ''..'' \<and> presign_get sdk (opt_str (pj_png_key r)) = sdk k"
proof -
  have "jobs_ok (w_db (ps_world s))"
    using poster_reach_ok [OF assms(1)] by (simp add: sys_ok_def running_ok_def)
  with assms(2,3) obtain k where "pj_png_key r = Some k" "validate_key k = Some k"
    by (auto simp: jobs_ok_def)
  then show ?thesis
    by (auto simp: presign_get_def opt_str_def validate_key_def split: if_splits)
qed

text \<open>A claim in the concrete world, and its generation finishing with an artifact.\<close>

definition demo_show :: poster_request where
  "demo_show = \<lparr>pq_performer = '' La Luz'', pq_venue = ''V'', pq_date = ''Aug 20'', pq_force = False\<rparr>"

definition demo_job :: string where
  "demo_job = job_id demo_crypto (uuid_string 7) ''La Luz'' ''V'' ''Aug 20''"

definition demo_claim :: "(response \<times> generation option) \<times> unit world" where
  "demo_claim = run_state (create_poster demo_crypto (Some 7) (Some demo_show)) demo_world"

definition demo_row :: poster_row where
  "demo_row =
     \<lparr>pj_id = demo_job, pj_user_id = 7, pj_performer = ''La Luz'', pj_venue = ''V'', pj_date = ''Aug 20'',
      pj_status = ''pending'', pj_png_key = None, pj_artist = None, pj_credit = None,
      pj_failure_stage = None, pj_failure_reason = None, pj_created_at = 0, pj_updated_at = 0\<rparr>"

lemma demo_fields:
  "validate_fields '' La Luz'' ''V'' ''Aug 20'' = Inr (''La Luz'', ''V'', ''Aug 20'')"
  "validate_fields ''la luz'' ''v'' ''aug 20 '' = Inr (''la luz'', ''v'', ''aug 20'')"
  "rune_count ''La Luz'' = 6" "rune_count ''V'' = 1" "rune_count ''Aug 20'' = 6"
  by code_simp+

lemma demo_claim_eval:
  "fst demo_claim = (json_status 202 ''pending'' [], Some (demo_job, 7, 0))"
  "poster_jobs (w_db (snd demo_claim)) = [demo_row]" "users (w_db (snd demo_claim)) = [demo_user]"
  "w_env (snd demo_claim) = demo_outside" "w_step (snd demo_claim) = 1"
  by (simp_all add: demo_claim_def demo_show_def demo_row_def demo_job_def create_poster_def demo_fields
      claim_poster_job_def max_performer_def max_venue_def max_date_def Let_def run_query_def fault_of_def
      now_of_def tick_def user_exists_def demo_world_def init_world_def demo_outside_def demo_db_def
      demo_user_def empty_db_def)

lemma demo_poster_start: "poster_reach demo_crypto \<lparr>ps_world = demo_world, ps_running = []\<rparr>"
  by (rule poster_reach.start)
    (auto simp: demo_world_def init_world_def demo_outside_def demo_db_def empty_db_def mono_def)

lemma demo_poster_claimed:
  "poster_reach demo_crypto \<lparr>ps_world = snd demo_claim, ps_running = [(demo_job, 7, 0)]\<rparr>"
proof -
  have run: "run_state (create_poster demo_crypto (Some 7) (Some demo_show)) demo_world =
      ((json_status 202 ''pending'' [], Some (demo_job, 7, 0)), snd demo_claim)"
    using demo_claim_eval(1) by (simp add: demo_claim_def prod_eq_iff)
  from poster_reach.claim [OF demo_poster_start _ run] show ?thesis by (simp add: no_collision_def)
qed

definition demo_finished :: "unit world" where
  "demo_finished =
     snd (run_state (finish_generation demo_job
       (Reply 200 (Some (''posters/v1/u-7/x.png'', None, None)) None)) (snd demo_claim))"

lemma demo_artifact: "validate_key ''posters/v1/u-7/x.png'' = Some ''posters/v1/u-7/x.png''"
  by code_simp

lemma demo_finished_eval:
  "poster_jobs (w_db demo_finished) =
     [demo_row\<lparr>pj_status := ''ready'', pj_png_key := Some ''posters/v1/u-7/x.png'', pj_updated_at := second\<rparr>]"
  by (simp add: demo_finished_def finish_generation_def poster_generate_def demo_artifact run_query_def
      fault_of_def now_of_def mark_poster_job_ready_def demo_claim_eval demo_row_def demo_outside_def)

lemma demo_poster_finished:
  "poster_reach demo_crypto \<lparr>ps_world = demo_finished, ps_running = []\<rparr>"
  using poster_reach.finish [where xs = "[]" and ys = "[]", of demo_crypto "snd demo_claim" demo_job 7 0]
    demo_poster_claimed
  by (simp add: demo_finished_def live_at_def now_of_def demo_claim_eval demo_outside_def
      generation_lifetime_def generate_timeout_def poster_db_timeout_def)

theorem ready_job_signable_witness:
  "\<exists>k. presign_get (\<lambda>k. Some (''https://s3/'' @ k)) ''posters/v1/u-7/x.png'' = Some (''https://s3/'' @ k)"
  using ready_job_signable [OF demo_poster_finished,
      of "hd (poster_jobs (w_db demo_finished))" "\<lambda>k. Some (''https://s3/'' @ k)"]
  by (auto simp: demo_finished_eval opt_str_def)



section \<open>Job keys\<close>

lemma trim_normalize [simp]: "poster_normalize E (trim_space s) = poster_normalize E s"
  by (simp add: poster_normalize_def)

lemma hex_pair_inj:
  assumes "[digit_char (byte_of c div 16), digit_char (byte_of c mod 16)] =
    [digit_char (byte_of d div 16), digit_char (byte_of d mod 16)]"
  shows "c = d"
proof -
  have r: "byte_of c div 16 < 16" "byte_of d div 16 < 16" 
    using byte_of_less [of c] byte_of_less [of d] less_mult_imp_div_less [of _ 16 16] by simp_all
  have "digit_val (digit_char (byte_of c div 16)) = digit_val (digit_char (byte_of d div 16))"
    "digit_val (digit_char (byte_of c mod 16)) = digit_val (digit_char (byte_of d mod 16))"
    using assms by simp_all
  then have "byte_of c div 16 = byte_of d div 16" "byte_of c mod 16 = byte_of d mod 16"
    using r by simp_all
  then have "byte_of c = byte_of d" by (metis div_mult_mod_eq)
  then show ?thesis by simp
qed

lemma hex_encode_inj: "hex_encode s = hex_encode t \<Longrightarrow> s = t"
proof (induction s arbitrary: t)
  case Nil
  then show ?case by (cases t) (simp_all add: hex_encode_def)
next
  case (Cons c s)
  then obtain d t' where t: "t = d # t'" by (cases t) (simp_all add: hex_encode_def)
  with Cons.prems have "hex_encode s = hex_encode t'"
    and cd: "[digit_char (byte_of c div 16), digit_char (byte_of c mod 16)] =
      [digit_char (byte_of d div 16), digit_char (byte_of d mod 16)]"
    by (simp_all add: hex_encode_def)
  with Cons.IH hex_pair_inj [OF cd] t show ?case by simp
qed

text \<open>
  C11. Job keys separate: if SHA-256 answers 32 bytes and does not collide on the ten strings
  involved, two natural keys with the same job id agree in user, performer, venue and date
  up to case and surrounding space. No byte of one field can pass for a byte of another.
\<close>

theorem job_id_separates:
  assumes len: "\<And>s. length (sha256 C s) = 32"
    and coll: "inj_on (sha256 C)
      ({job_key_parts C u p v d, job_key_parts C u' p' v' d'} \<union>
       poster_normalize (cr_text C) ` {u, p, v, d, u', p', v', d'})"
    and eq: "job_id C u p v d = job_id C u' p' v' d'"
  shows "map (poster_normalize (cr_text C)) [u, p, v, d] = map (poster_normalize (cr_text C)) [u', p', v', d']"
proof -
  let ?n = "poster_normalize (cr_text C)"
  have "sha256 C (job_key_parts C u p v d) = sha256 C (job_key_parts C u' p' v' d')"
    using eq unfolding job_id_def by (rule hex_encode_inj)
  then have "job_key_parts C u p v d = job_key_parts C u' p' v' d'"
    using coll by (auto dest: inj_onD)
  then have "sha256 C (?n u) = sha256 C (?n u') \<and> sha256 C (?n p) = sha256 C (?n p') \<and>
      sha256 C (?n v) = sha256 C (?n v') \<and> sha256 C (?n d) = sha256 C (?n d')"
    unfolding job_key_parts_def by (simp add: append_eq_append_conv len)
  then show ?thesis using coll by (auto dest: inj_onD)
qed

text \<open>A hash of fixed length that tells the strings of the example apart.\<close>

definition demo_hash :: crypto_env where
  "demo_hash = demo_crypto\<lparr>sha256 :=
     (\<lambda>s. take 32 (byte (length s mod 256) # s @ replicate 32 (CHR 0x00)))\<rparr>"

lemma demo_parts:
  "poster_normalize (cr_text demo_hash) ` {''u'', ''La Luz'', ''V'', ''D'', ''U'', ''la luz '', ''v'', ''d''} =
     set [''u'', ''la luz'', ''v'', ''d'']"
  "job_key_parts demo_hash ''U'' ''la luz '' ''v'' ''d'' = job_key_parts demo_hash ''u'' ''La Luz'' ''V'' ''D''"
proof -
  have n: "map (poster_normalize (cr_text demo_hash)) [''u'', ''La Luz'', ''V'', ''D'', ''U'', ''la luz '', ''v'', ''d''] =
      [''u'', ''la luz'', ''v'', ''d'', ''u'', ''la luz'', ''v'', ''d'']"
    by code_simp
  then have "poster_normalize (cr_text demo_hash) ` set [''u'', ''La Luz'', ''V'', ''D'', ''U'', ''la luz '', ''v'', ''d''] =
      set [''u'', ''la luz'', ''v'', ''d'', ''u'', ''la luz'', ''v'', ''d'']"
    by (metis set_map)
  then show "poster_normalize (cr_text demo_hash) ` {''u'', ''La Luz'', ''V'', ''D'', ''U'', ''la luz '', ''v'', ''d''} =
     set [''u'', ''la luz'', ''v'', ''d'']"
    by (simp add: insert_commute)
  show "job_key_parts demo_hash ''U'' ''la luz '' ''v'' ''d'' = job_key_parts demo_hash ''u'' ''La Luz'' ''V'' ''D''"
    using n by (simp add: job_key_parts_def)
qed

theorem job_id_separates_witness:
  "map (poster_normalize (cr_text demo_hash)) [''u'', ''La Luz'', ''V'', ''D''] =
   map (poster_normalize (cr_text demo_hash)) [''U'', ''la luz '', ''v'', ''d'']"
proof (rule job_id_separates)
  show "length (sha256 demo_hash s) = 32" for s by (simp add: demo_hash_def)
  let ?j = "job_key_parts demo_hash ''u'' ''La Luz'' ''V'' ''D''"
  have "distinct (map (sha256 demo_hash) [?j, ''u'', ''la luz'', ''v'', ''d''])" by code_simp
  then have "inj_on (sha256 demo_hash) (set [?j, ''u'', ''la luz'', ''v'', ''d''])"
    by (rule conjunct2 [OF iffD1 [OF distinct_map]])
  moreover have "{?j, job_key_parts demo_hash ''U'' ''la luz '' ''v'' ''d''} \<union>
       poster_normalize (cr_text demo_hash) ` {''u'', ''La Luz'', ''V'', ''D'', ''U'', ''la luz '', ''v'', ''d''} =
       set [?j, ''u'', ''la luz'', ''v'', ''d'']"
    unfolding demo_parts list.set by blast
  ultimately show "inj_on (sha256 demo_hash)
      ({?j, job_key_parts demo_hash ''U'' ''la luz '' ''v'' ''d''} \<union>
       poster_normalize (cr_text demo_hash) ` {''u'', ''La Luz'', ''V'', ''D'', ''U'', ''la luz '', ''v'', ''d''})"
    by (simp only:)
  show "job_id demo_hash ''u'' ''La Luz'' ''V'' ''D'' = job_id demo_hash ''U'' ''la luz '' ''v'' ''d''"
    by (simp add: job_id_def demo_parts)
qed

lemma claimed_row:
  assumes "claim_poster_job i u a b c st force now d = Inr (r, d')"
  shows "r \<in> set (poster_jobs d') \<and> pj_id r = i \<and> pj_user_id r = u"
proof (cases "find (\<lambda>r. pj_id r = i) (poster_jobs d)")
  case None
  with assms show ?thesis by (auto simp: claim_poster_job_def Let_def split: if_splits)
next
  case (Some r0)
  then have r0: "r0 \<in> set (poster_jobs d)" "pj_id r0 = i" by (auto dest: find_in_set)
  have r: "r = reclaimed now r0" "pj_user_id r0 = u"
    and d': "poster_jobs d' = update_rows (\<lambda>r. pj_id r = i) (reclaimed now) (poster_jobs d)"
    using assms Some by (auto simp: claim_poster_job_def claimable_def split: if_splits)
  have "r \<in> set (poster_jobs d')"
    unfolding d' set_update_rows r(1) using r0 by (intro image_eqI [of _ _ r0]) simp_all
  with r r0 show ?thesis by (simp add: reclaimed_def)
qed

text \<open>
  C10. A POST and a later GET of the same show meet: after a claim that was answered 202, a GET
  by the same user whose fields agree up to case and surrounding space never answers
  ``unknown''.
\<close>

theorem create_then_get:
  assumes run: "run_state (create_poster C (Some u) (Some p)) w = ((resp, g), w1)" and "r_status resp = 202"
    and fields: "map (poster_normalize (cr_text C)) [pq_performer p, pq_venue p, pq_date p] =
      map (poster_normalize (cr_text C)) [pf, ve, da]"
    and valid: "validate_fields pf ve da = Inr x"
    and own: "\<forall>r \<in> set (poster_jobs (w_db w)).
      pj_id r = job_id C (uuid_string u) pf ve da \<longrightarrow> pj_user_id r = u"
    and "w_db w2 = w_db w1" and up: "fault_of w2 = NoFault"
  shows "r_status (fst (run_state (get_poster C sdk (Some u) pf ve da) w2)) \<in> {200, 202, 500}"
proof -
  have idem: "job_id C (uuid_string u) (trim_space a) (trim_space b) (trim_space c) =
      job_id C (uuid_string u) a b c" for a b c
    by (simp add: job_id_def job_key_parts_def)
  obtain a b c where v: "validate_fields (pq_performer p) (pq_venue p) (pq_date p) = Inr (a, b, c)"
    using run assms(2) by (auto simp: create_poster_def split: sum.splits)
  let ?i = "job_id C (uuid_string u) pf ve da"
  have "a = trim_space (pq_performer p)" "b = trim_space (pq_venue p)" "c = trim_space (pq_date p)"
    using v by (auto simp: validate_fields_def Let_def split: if_splits)
  then have i: "job_id C (uuid_string u) a b c = ?i"
    using fields idem by (simp add: job_id_def job_key_parts_def)
  have x: "x = (trim_space pf, trim_space ve, trim_space da)"
    using valid by (auto simp: validate_fields_def Let_def split: if_splits)
  let ?q = "claim_poster_job ?i u a b c (now_of w - stale_pending_after) (pq_force p)"
  have w1: "w1 = snd (run_query ?q w)"
    using run v i by (auto simp: create_poster_def Let_def split: sum.splits db_error.splits prod.splits)
  have "(\<exists>r. fst (run_query ?q w) = Inr r) \<or> fst (run_query ?q w) = Inl NoRows"
    using run v i assms(2) by (auto simp: create_poster_def Let_def split: sum.splits db_error.splits prod.splits)
  then have "\<exists>r \<in> set (poster_jobs (w_db w1)). pj_id r = ?i \<and> pj_user_id r = u"
  proof
    assume "\<exists>r. fst (run_query ?q w) = Inr r"
    then obtain r where "?q (now_of w) (w_db w) = Inr (r, w_db w1)"
      using run_query_Inr [of ?q w _ w1] w1 by (metis prod.collapse)
    from claimed_row [OF this] show ?thesis by blast
  next
    assume n: "fst (run_query ?q w) = Inl NoRows"
    then have "?q (now_of w) (w_db w) = Inl NoRows \<and> w_db w1 = w_db w"
      unfolding w1 by (auto simp: run_query_def split: fault.splits sum.splits prod.splits)
    then show ?thesis using own
      by (auto simp: claim_poster_job_def Let_def dest!: find_in_set split: option.splits if_splits)
  qed
  then obtain j where "find (\<lambda>r. pj_id r = ?i \<and> pj_user_id r = u) (poster_jobs (w_db w2)) = Some j"
    using assms(6) by (cases "find (\<lambda>r. pj_id r = ?i \<and> pj_user_id r = u) (poster_jobs (w_db w2))")
      (auto simp: find_None_iff)
  then have "run_query (get_poster_job ?i u) w2 = (Inr j, tick w2)"
    using up by (simp add: run_query_def get_poster_job_def)
  then show ?thesis
    using valid x idem by (simp add: get_poster_def json_status_def split: option.splits)
qed

theorem create_then_get_witness:
  "r_status (fst (run_state (get_poster demo_crypto (\<lambda>k. Some k) (Some 7) ''la luz'' ''v'' ''aug 20 '')
     (snd demo_claim))) \<in> {200, 202, 500}"
proof (rule create_then_get)
  show "run_state (create_poster demo_crypto (Some 7) (Some demo_show)) demo_world =
      ((json_status 202 ''pending'' [], Some (demo_job, 7, 0)), snd demo_claim)"
    using demo_claim_eval(1) by (simp add: demo_claim_def prod_eq_iff)
  show "r_status (json_status 202 ''pending'' []) = 202" by (simp add: json_status_def)
  show "map (poster_normalize (cr_text demo_crypto)) [pq_performer demo_show, pq_venue demo_show, pq_date demo_show] =
      map (poster_normalize (cr_text demo_crypto)) [''la luz'', ''v'', ''aug 20 '']"
    by code_simp
  show "validate_fields ''la luz'' ''v'' ''aug 20 '' = Inr (''la luz'', ''v'', ''aug 20'')" by (rule demo_fields)
  show "\<forall>r \<in> set (poster_jobs (w_db demo_world)).
      pj_id r = job_id demo_crypto (uuid_string 7) ''la luz'' ''v'' ''aug 20 '' \<longrightarrow> pj_user_id r = 7"
    by (simp add: demo_world_def init_world_def demo_db_def empty_db_def)
  show "w_db (snd demo_claim) = w_db (snd demo_claim)" ..
  show "fault_of (snd demo_claim) = NoFault"
    by (simp add: fault_of_def demo_claim_eval demo_outside_def)
qed

end
