(* ===== verification/Keyset.thy ===== *)
theory Keyset
  imports Prelude "HOL-Library.Product_Lexorder"
begin

text \<open>
  Keyset pagination as a contract. The provider is a query that answers at most \<open>n\<close> rows of
  a feed, in the order of a unique key, from a position on; the client asks for one row more
  than it shows, and turns the last row it shows into the position of the next page. The
  database may change from page to page. The calendar pages are interpretations of the
  locale.
\<close>

text \<open>One page: the rows shown, and the last of them when there are more.\<close>

definition cut_page :: "nat \<Rightarrow> 'e list \<Rightarrow> 'e list \<times> 'e option" where
  "cut_page n rows = (if n < length rows then (take n rows, Some (last (take n rows))) else (rows, None))"

lemma cut_page_rows: "fst (cut_page n rows) = take n rows"
  by (simp add: cut_page_def)

lemma sorted_le_last: "sorted xs \<Longrightarrow> x \<in> set xs \<Longrightarrow> (x::'k::linorder) \<le> last xs"
  by (induction xs) auto

lemma list_not_Nil: "x \<in> set xs \<Longrightarrow> xs \<noteq> []"
  by auto

lemma last_take_nth: "0 < n \<Longrightarrow> n \<le> length xs \<Longrightarrow> last (take n xs) = xs ! (n - 1)"
  by (cases "take n xs = []") (auto simp: last_conv_nth min_def)

lemma cut_page_last:
  assumes "snd (cut_page n rows) = Some e" and "0 < n"
  shows "e \<in> set rows"
proof -
  have "n < length rows" "e = last (take n rows)"
    using assms(1) by (auto simp: cut_page_def split: if_splits)
  then show ?thesis using last_take_nth [OF assms(2), of rows] by simp
qed

locale keyset =
  fixes fetch :: "'s \<Rightarrow> nat \<Rightarrow> 'd \<Rightarrow> 'e list"
    and key :: "'e \<Rightarrow> 'k::linorder"
    and feed :: "'d \<Rightarrow> 'e list"
    and good :: "'d \<Rightarrow> bool"
    and after :: "'s \<Rightarrow> 'k \<Rightarrow> bool"
    and cursor :: "'k \<Rightarrow> 's"
  assumes fetch: "fetch s n d = take n (filter (\<lambda>e. after s (key e)) (feed d))"
    and ordered: "good d \<Longrightarrow> sorted_wrt (<) (map key (feed d))"
    and after_cursor: "after (cursor k) k' \<longleftrightarrow> k < k'"
    and after_up: "after s k \<Longrightarrow> k < k' \<Longrightarrow> after s k'"
begin

text \<open>The pages a client sees, one database per request, until a page has no successor.\<close>

fun walk :: "nat \<Rightarrow> 'd list \<Rightarrow> 's \<Rightarrow> 'e list list" where
  "walk n [] s = []"
| "walk n (d # ds) s =
     (case cut_page n (fetch s (Suc n) d) of
        (rows, None) \<Rightarrow> [rows]
      | (rows, Some e) \<Rightarrow> rows # walk n ds (cursor (key e)))"

text \<open>The walk reached a page without a successor.\<close>

fun finished :: "nat \<Rightarrow> 'd list \<Rightarrow> 's \<Rightarrow> bool" where
  "finished n [] s = False"
| "finished n (d # ds) s =
     (case cut_page n (fetch s (Suc n) d) of
        (rows, None) \<Rightarrow> True
      | (rows, Some e) \<Rightarrow> finished n ds (cursor (key e)))"

definition rest :: "'s \<Rightarrow> 'd \<Rightarrow> 'e list" where
  "rest s d = filter (\<lambda>e. after s (key e)) (feed d)"

lemma fetch_rest: "fetch s n d = take n (rest s d)"
  by (simp add: fetch rest_def)

lemma rest_sorted: "good d \<Longrightarrow> sorted_wrt (<) (map key (rest s d))"
proof -
  assume "good d"
  then have "sorted_wrt (\<lambda>x y. key x < key y) (feed d)" using ordered by (simp add: sorted_wrt_map)
  then have "sorted_wrt (\<lambda>x y. key x < key y) (rest s d)" unfolding rest_def by (rule sorted_wrt_filter)
  then show ?thesis by (simp add: sorted_wrt_map)
qed

lemma rest_after: "e \<in> set (rest s d) \<Longrightarrow> after s (key e) \<and> e \<in> set (feed d)"
  by (simp add: rest_def)

lemma rest_cursor: "after s k \<Longrightarrow> rest (cursor k) d = filter (\<lambda>e. k < key e) (rest s d)"
  using after_up by (auto simp: rest_def after_cursor intro!: filter_cong)

text \<open>The page and the position behind it split what is left.\<close>

lemma page_split:
  assumes "good d" and "0 < n" and "n < length (rest s d)"
  shows "rest (cursor (key (last (take n (rest s d))))) d = drop n (rest s d)"
proof -
  let ?r = "rest s d" and ?k = "key (last (take n (rest s d)))"
  have lt: "last (take n ?r) = ?r ! (n - 1)" using assms(2,3) by (intro last_take_nth) auto
  have srt: "sorted_wrt (\<lambda>x y. key x < key y) ?r" using rest_sorted [OF assms(1)] by (simp add: sorted_wrt_map)
  have lo: "\<forall>e \<in> set (take n ?r). \<not> ?k < key e"
  proof
    fix e assume "e \<in> set (take n ?r)"
    then obtain i where i: "i < n" "e = ?r ! i" using assms(3) by (auto simp: in_set_conv_nth)
    show "\<not> ?k < key e"
    proof (cases "i = n - 1")
      case False
      then have "key (?r ! i) < key (?r ! (n - 1))"
        using sorted_wrt_nth_less [OF srt, of i "n - 1"] i assms by simp
      then show ?thesis using i lt by simp
    qed (simp add: i lt)
  qed
  have hi: "\<forall>e \<in> set (drop n ?r). ?k < key e"
  proof
    fix e assume "e \<in> set (drop n ?r)"
    then obtain j where "j < length ?r - n" "e = ?r ! (n + j)" by (auto simp: in_set_conv_nth)
    then obtain i where i: "n \<le> i" "i < length ?r" "e = ?r ! i" by (auto intro: that [of "n + j"])
    then show "?k < key e" unfolding lt using sorted_wrt_nth_less [OF srt, of "n - 1" i] assms by simp
  qed
  have "last (take n ?r) \<in> set ?r" unfolding lt using assms by simp
  then have "after s ?k" using rest_after by blast
  then have "rest (cursor ?k) d = filter (\<lambda>e. ?k < key e) ?r" by (rule rest_cursor)
  also have "\<dots> = filter (\<lambda>e. ?k < key e) (take n ?r @ drop n ?r)" by simp
  also have "\<dots> = drop n ?r"
  proof -
    have "filter (\<lambda>e. ?k < key e) (take n ?r) = []" using lo by (simp add: filter_empty_conv)
    moreover have "filter (\<lambda>e. ?k < key e) (drop n ?r) = drop n ?r" using hi by (simp add: filter_id_conv)
    ultimately show ?thesis by (simp only: filter_append) simp
  qed
  finally show ?thesis .
qed

lemma walk_Cons:
  "walk n (d # ds) s =
     (if n < length (rest s d)
      then take n (rest s d) # walk n ds (cursor (key (last (take n (rest s d)))))
      else [rest s d])"
  by (auto simp: fetch_rest cut_page_def min_def)

lemma finished_Cons:
  "finished n (d # ds) s =
     (n < length (rest s d) \<longrightarrow> finished n ds (cursor (key (last (take n (rest s d))))))"
  by (auto simp: fetch_rest cut_page_def min_def)

declare walk.simps(2) [simp del] finished.simps(2) [simp del]

text \<open>Every listed row is past the starting position.\<close>

lemma walk_after:
  "0 < n \<Longrightarrow> e \<in> set (concat (walk n ds s)) \<Longrightarrow> after s (key e) \<and> (\<exists>d \<in> set ds. e \<in> set (feed d))"
proof (induction ds arbitrary: s)
  case (Cons d ds)
  show ?case
  proof (cases "n < length (rest s d)")
    case True
    let ?p = "take n (rest s d)"
    have last: "last ?p \<in> set (rest s d)"
      using True Cons.prems(1) last_take_nth [of n "rest s d"] by simp
    from Cons.prems(2) True consider "e \<in> set ?p" | "e \<in> set (concat (walk n ds (cursor (key (last ?p)))))"
      by (auto simp: walk_Cons)
    then show ?thesis
    proof cases
      case 1
      then have "e \<in> set (rest s d)" by (rule in_set_takeD)
      then show ?thesis using rest_after by auto
    next
      case 2
      from Cons.IH [OF Cons.prems(1) this]
      have "key (last ?p) < key e" "\<exists>d \<in> set ds. e \<in> set (feed d)" by (auto simp: after_cursor)
      moreover have "after s (key (last ?p))" using rest_after [OF last] ..
      ultimately show ?thesis using after_up by simp
    qed
  qed (use Cons.prems in \<open>auto simp: walk_Cons dest: rest_after\<close>)
qed simp

text \<open>Whatever the databases do, the keys listed are strictly increasing.\<close>

lemma walk_increasing:
  "0 < n \<Longrightarrow> \<forall>d \<in> set ds. good d \<Longrightarrow> sorted_wrt (<) (map key (concat (walk n ds s)))"
proof (induction ds arbitrary: s)
  case (Cons d ds)
  have srt: "sorted_wrt (<) (map key (rest s d))" using Cons.prems by (simp add: rest_sorted)
  show ?case
  proof (cases "n < length (rest s d)")
    case True
    let ?p = "take n (rest s d)"
    let ?w = "concat (walk n ds (cursor (key (last ?p))))"
    have p: "sorted_wrt (<) (map key ?p)" using sorted_wrt_take [OF srt, of n] by (simp add: take_map)
    have w: "sorted_wrt (<) (map key ?w)" using Cons by simp
    have "key x < key y" if "x \<in> set ?p" "y \<in> set ?w" for x y
    proof -
      have y: "key (last ?p) < key y"
        using walk_after [OF Cons.prems(1) that(2)] by (simp add: after_cursor)
      have "sorted (map key ?p)" using p by (rule strict_sorted_imp_sorted)
      then have "key x \<le> last (map key ?p)" using that(1) by (intro sorted_le_last) auto
      moreover have "?p \<noteq> []" using that(1) by (rule list_not_Nil)
      then have "last (map key ?p) = key (last ?p)" by (rule last_map)
      ultimately show ?thesis using y by simp
    qed
    then have "\<forall>x \<in> set (map key ?p). \<forall>y \<in> set (map key ?w). x < y"
      unfolding set_map by (intro ballI) (elim imageE, simp only:)
    with p w have "sorted_wrt (<) (map key ?p @ map key ?w)" unfolding sorted_wrt_append by blast
    then show ?thesis using True by (simp add: walk_Cons)
  qed (use srt in \<open>simp add: walk_Cons\<close>)
qed simp

text \<open>A row that is in the feed at every request is listed by a walk that finishes.\<close>

lemma walk_complete:
  "0 < n \<Longrightarrow> \<forall>d \<in> set ds. good d \<and> e \<in> set (feed d) \<Longrightarrow> after s (key e) \<Longrightarrow> finished n ds s \<Longrightarrow>
     e \<in> set (concat (walk n ds s))"
proof (induction ds arbitrary: s)
  case (Cons d ds)
  have e: "e \<in> set (rest s d)" using Cons.prems by (simp add: rest_def)
  show ?case
  proof (cases "n < length (rest s d)")
    case True
    let ?c = "cursor (key (last (take n (rest s d))))"
    from e consider "e \<in> set (take n (rest s d))" | "e \<in> set (drop n (rest s d))"
      by (metis Un_iff append_take_drop_id set_append)
    then show ?thesis
    proof cases
      case 2
      then have "e \<in> set (rest ?c d)" using page_split [of d n s] True Cons.prems by simp
      then have "after ?c (key e)" by (simp add: rest_after)
      then show ?thesis using Cons True by (simp add: walk_Cons finished_Cons)
    qed (simp add: walk_Cons True)
  qed (use e in \<open>simp add: walk_Cons\<close>)
qed simp

text \<open>Over a database that does not change, the walk finishes and lists exactly the rest.\<close>

lemma walk_static:
  assumes "good d" and "0 < n"
  shows "length (rest s d) \<le> n * k \<Longrightarrow> k > 0 \<Longrightarrow>
    finished n (replicate k d) s \<and> concat (walk n (replicate k d) s) = rest s d"
proof (induction k arbitrary: s)
  case (Suc k)
  show ?case
  proof (cases "n < length (rest s d)")
    case True
    let ?c = "cursor (key (last (take n (rest s d))))"
    have r: "rest ?c d = drop n (rest s d)" using page_split assms True by simp
    have "k > 0" using Suc.prems True by (cases k) auto
    moreover have "length (rest ?c d) \<le> n * k" using Suc.prems(1) r by simp
    ultimately show ?thesis using Suc.IH [of ?c] True r by (simp add: walk_Cons finished_Cons)
  qed (simp add: walk_Cons finished_Cons)
qed simp

lemma walk_pages: "p \<in> set (walk n ds s) \<Longrightarrow> length p \<le> n"
proof (induction ds arbitrary: s)
  case (Cons d ds)
  then show ?case by (cases "n < length (rest s d)") (auto simp: walk_Cons)
qed simp

end

end
