(* ===== verification/Calendar.thy ===== *)
theory Calendar
  imports World EventVocab Keyset
begin

text \<open>
  The calendar of a user and of a city (\<open>handlers/calendar.go\<close>, \<open>cursor.go\<close>,
  \<open>artist.go\<close> and \<open>calendar.sql.go\<close>): the page cursor, the query parameters, the page
  queries, the artist enrichment that decorates a page, and the three handlers.
  \<open>uuid.Parse\<close> is the parameter \<open>P\<close> of the handlers.
\<close>

section \<open>The page cursor\<close>

definition encode_cursor :: "instant \<Rightarrow> uuid \<Rightarrow> string" where
  "encode_cursor t i = b64_encode URLAlphabet (format_rfc3339_nano t @ ''|'' @ uuid_string i)"

definition decode_cursor :: "(string \<Rightarrow> uuid option) \<Rightarrow> string \<Rightarrow> (instant \<times> uuid) option" where
  "decode_cursor P s =
     (case b64_decode URLAlphabet s of
        None \<Rightarrow> None
      | Some b \<Rightarrow>
          (case cut_byte b (CHR ''|'') of
             None \<Rightarrow> None
           | Some (ts, i) \<Rightarrow>
               (case parse_rfc3339 ts of
                  None \<Rightarrow> None
                | Some t \<Rightarrow>
                    (case P i of None \<Rightarrow> None | Some u \<Rightarrow> Some (t, u)))))"

lemma decode_encode_cursor:
  assumes "uuid_parse_ok P" and "0 \<le> year_of t" and "year_of t < 10000"
  shows "decode_cursor P (encode_cursor t i) = Some (t, i)"
proof -
  have "cut_byte (format_rfc3339_nano t @ ''|'' @ uuid_string i) (CHR ''|'')
      = Some (format_rfc3339_nano t, uuid_string i)"
    using cut_byte_append [OF format_rfc3339_nano_no_bar [of t], of "uuid_string i"] by simp
  then show ?thesis
    using assms parse_format_rfc3339_nano [of t]
    by (simp add: decode_cursor_def encode_cursor_def uuid_parse_ok_def)
qed

lemma encode_cursor_not_Nil [simp]: "encode_cursor t i \<noteq> []"
proof
  assume "encode_cursor t i = []"
  then have "b64_decode URLAlphabet (encode_cursor t i) = Some []" by (simp add: b64_decode_def)
  then show False by (simp add: encode_cursor_def)
qed

section \<open>Query parameters\<close>

text \<open>The parameters of a page request; a missing one is the empty string.\<close>

record page_params =
  pp_cursor :: string
  pp_starts_at :: string
  pp_segment :: string
  pp_venue_id :: string

definition parse_cursor ::
    "(string \<Rightarrow> uuid option) \<Rightarrow> page_params \<Rightarrow> response + (instant \<times> uuid) option" where
  "parse_cursor P pp =
     (if pp_cursor pp = [] then Inr None
      else case decode_cursor P (pp_cursor pp) of
        None \<Rightarrow> Inl (http_err 400 ''bad_cursor'' ''cursor is not valid'')
      | Some c \<Rightarrow> Inr (Some c))"

definition parse_starts_at_after :: "page_params \<Rightarrow> response + instant option" where
  "parse_starts_at_after pp =
     (if pp_starts_at pp = [] then Inr None
      else case parse_rfc3339 (pp_starts_at pp) of
        None \<Rightarrow> Inl (http_err 400 ''bad_starts_at'' ''starts_at must be an RFC 3339 timestamp'')
      | Some t \<Rightarrow> Inr (Some t))"

definition parse_segment :: "string \<Rightarrow> response + string option" where
  "parse_segment raw =
     (if raw = [] then Inr None
      else if \<not> valid_segment raw then
        Inl (http_err 400 ''bad_segment''
          ''segment must be one of: music, sports, arts-theatre, film, miscellaneous, undefined'')
      else Inr (Some raw))"

definition parse_venue_id :: "(string \<Rightarrow> uuid option) \<Rightarrow> page_params \<Rightarrow> response + uuid option" where
  "parse_venue_id P pp =
     (if pp_venue_id pp = [] then Inr None
      else case P (pp_venue_id pp) of
        None \<Rightarrow> Inl (http_err 400 ''bad_venue_id'' ''venue_id is not a valid uuid'')
      | Some v \<Rightarrow> Inr (Some v))"

text \<open>Where a page begins: a cursor, a lower bound, or neither.\<close>

datatype page_start = FromTop | FromCursor instant uuid | FromBound instant

definition parse_page_start ::
    "(string \<Rightarrow> uuid option) \<Rightarrow> page_params \<Rightarrow> response + page_start" where
  "parse_page_start P pp =
     (if pp_cursor pp \<noteq> [] \<and> pp_starts_at pp \<noteq> [] then
        Inl (http_err 422 ''cursor_and_starts_at'' ''pass either cursor or starts_at, not both'')
      else case parse_cursor P pp of
        Inl r \<Rightarrow> Inl r
      | Inr c \<Rightarrow>
          (case parse_starts_at_after pp of
             Inl r \<Rightarrow> Inl r
           | Inr b \<Rightarrow>
               Inr (case c of
                      Some (t, i) \<Rightarrow> FromCursor t i
                    | None \<Rightarrow> (case b of Some t \<Rightarrow> FromBound t | None \<Rightarrow> FromTop))))"

section \<open>Page queries\<close>

text \<open>A row of the page queries: the event, its venue, and the match where there is one.\<close>

record calendar_row =
  cal_event :: event_row
  cal_venue :: venue_row
  cal_score :: "f64 option"
  cal_breakdown :: "json option"

definition cal_key :: "calendar_row \<Rightarrow> instant \<times> uuid" where
  "cal_key r = (e_starts_at (cal_event r), e_id (cal_event r))"

definition find_event :: "db \<Rightarrow> uuid \<Rightarrow> event_row option" where
  "find_event d i = find (\<lambda>e. e_id e = i) (events d)"

definition find_venue :: "db \<Rightarrow> uuid \<Rightarrow> venue_row option" where
  "find_venue d i = find (\<lambda>v. v_id v = i) (venues d)"

definition find_match :: "db \<Rightarrow> uuid \<Rightarrow> uuid \<Rightarrow> match_row option" where
  "find_match d u i = find (\<lambda>m. m_user_id m = u \<and> m_event_id m = i) (matches d)"

text \<open>
  The joins, along the foreign keys: the user's matches with their events and venues, and
  the events with their venues.
\<close>

definition match_row_join :: "uuid \<Rightarrow> db \<Rightarrow> match_row \<Rightarrow> calendar_row option" where
  "match_row_join u d m =
     (if m_user_id m \<noteq> u then None
      else case find_event d (m_event_id m) of
        None \<Rightarrow> None
      | Some e \<Rightarrow>
          (case find_venue d (e_venue_id e) of
             None \<Rightarrow> None
           | Some v \<Rightarrow> Some \<lparr>cal_event = e, cal_venue = v, cal_score = Some (m_score m),
                             cal_breakdown = Some (m_breakdown m)\<rparr>))"

definition match_join :: "uuid \<Rightarrow> db \<Rightarrow> calendar_row list" where
  "match_join u d = List.map_filter (match_row_join u d) (matches d)"

definition event_row_join :: "db \<Rightarrow> event_row \<Rightarrow> calendar_row option" where
  "event_row_join d e =
     (case find_venue d (e_venue_id e) of
        None \<Rightarrow> None
      | Some v \<Rightarrow> Some \<lparr>cal_event = e, cal_venue = v, cal_score = None, cal_breakdown = None\<rparr>)"

definition event_join :: "db \<Rightarrow> calendar_row list" where
  "event_join d = List.map_filter (event_row_join d) (events d)"

text \<open>The keyset seek and the strict lower bound.\<close>

fun start_after :: "page_start \<Rightarrow> instant \<times> uuid \<Rightarrow> bool" where
  "start_after FromTop k = True"
| "start_after (FromCursor t i) k = ((t, i) < k)"
| "start_after (FromBound t) k = (t < fst k)"

text \<open>The optional filters: an event without a segment passes every segment filter.\<close>

definition segment_passes :: "string option \<Rightarrow> event_row \<Rightarrow> bool" where
  "segment_passes seg e = (seg = None \<or> e_segment e = None \<or> e_segment e = seg)"

definition venue_passes :: "uuid option \<Rightarrow> event_row \<Rightarrow> bool" where
  "venue_passes v e = (case v of None \<Rightarrow> True | Some i \<Rightarrow> e_venue_id e = i)"

text \<open>What a page request can see at all, in the order of the feed.\<close>

definition user_feed :: "uuid \<Rightarrow> string option \<Rightarrow> instant \<Rightarrow> db \<Rightarrow> calendar_row list" where
  "user_feed u seg now d =
     sort_key cal_key
       (filter (\<lambda>r. showable now (cal_event r) \<and> segment_passes seg (cal_event r)) (match_join u d))"

definition city_feed ::
    "uuid \<Rightarrow> string option \<Rightarrow> uuid option \<Rightarrow> instant \<Rightarrow> db \<Rightarrow> calendar_row list" where
  "city_feed c seg v now d =
     sort_key cal_key
       (filter (\<lambda>r. v_city_id (cal_venue r) = c \<and> showable now (cal_event r) \<and>
                    segment_passes seg (cal_event r) \<and> venue_passes v (cal_event r)) (event_join d))"

definition get_user_calendar_page ::
    "uuid \<Rightarrow> page_start \<Rightarrow> string option \<Rightarrow> nat \<Rightarrow> calendar_row list query" where
  "get_user_calendar_page u st seg n now d =
     Inr (take n (filter (\<lambda>r. start_after st (cal_key r)) (user_feed u seg now d)), d)"

definition get_city_calendar_page ::
    "uuid \<Rightarrow> page_start \<Rightarrow> string option \<Rightarrow> uuid option \<Rightarrow> nat \<Rightarrow> calendar_row list query" where
  "get_city_calendar_page c st seg v n now d =
     Inr (take n (filter (\<lambda>r. start_after st (cal_key r)) (city_feed c seg v now d)), d)"

definition get_matched_event_for_user :: "uuid \<Rightarrow> uuid \<Rightarrow> calendar_row query" where
  "get_matched_event_for_user i u now d =
     (case find_event d i of
        None \<Rightarrow> Inl NoRows
      | Some e \<Rightarrow>
          if e_archived_at e \<noteq> None then Inl NoRows
          else case find_venue d (e_venue_id e) of
            None \<Rightarrow> Inl NoRows
          | Some v \<Rightarrow>
              Inr (\<lparr>cal_event = e, cal_venue = v, cal_score = map_option m_score (find_match d u i),
                    cal_breakdown = map_option m_breakdown (find_match d u i)\<rparr>, d))"

section \<open>Artist enrichment\<close>

record enrichment_row =
  en_artist :: artist_row
  en_image :: "image_row option"
  en_bio :: "bio_row option"
  en_tour :: "tour_row option"

definition get_artist_enrichment_batch :: "uuid list \<Rightarrow> enrichment_row list query" where
  "get_artist_enrichment_batch ids now d =
     Inr (map (\<lambda>a. \<lparr>en_artist = a, en_image = find (\<lambda>i. ai_artist_id i = a_id a) (images d),
                    en_bio = find (\<lambda>b. ab_artist_id b = a_id a) (bios d),
                    en_tour = find (\<lambda>t. at_artist_id t = a_id a) (tours d)\<rparr>)
             (filter (\<lambda>a. a_id a \<in> set ids) (artists d)), d)"

definition omit_int :: "string \<Rightarrow> int option \<Rightarrow> (string \<times> json) list" where
  "omit_int k v =
     (case v of None \<Rightarrow> [] | Some n \<Rightarrow> if n = 0 then [] else [(k, JNum (Fin (of_int n)))])"

definition omit_raw :: "string \<Rightarrow> json option \<Rightarrow> (string \<times> json) list" where
  "omit_raw k v = (case v of None \<Rightarrow> [] | Some j \<Rightarrow> [(k, j)])"

definition image_json :: "image_row option \<Rightarrow> json option" where
  "image_json i =
     (case i of
        None \<Rightarrow> None
      | Some r \<Rightarrow>
          (if ai_status r = ''ok'' then
             map_option (\<lambda>url. JObj ([(''url'', JStr url)] @ omit_int ''width'' (ai_width r)
                                     @ omit_int ''height'' (ai_height r) @ omit_raw ''credit'' (ai_credit r)))
               (ai_url r)
           else None))"

definition bio_json :: "bio_row option \<Rightarrow> json option" where
  "bio_json b =
     (case b of
        None \<Rightarrow> None
      | Some r \<Rightarrow>
          (if ab_status r = ''ok'' then
             map_option (\<lambda>md. JObj [(''text'', JStr md), (''sources'', ab_sources r)]) (ab_bio_md r)
           else None))"

definition observed_json :: "tour_row \<Rightarrow> json option" where
  "observed_json r =
     (if at_observed_date r \<noteq> None \<or> at_observed_venue r \<noteq> None \<or> at_observed_city r \<noteq> None
      then Some (JObj (omit_str ''date'' (case at_observed_date r of None \<Rightarrow> [] | Some t \<Rightarrow> format_date_only t)
                       @ omit_str ''venue'' (opt_str (at_observed_venue r))
                       @ omit_str ''city'' (opt_str (at_observed_city r))))
      else None)"

definition tour_json :: "tour_row option \<Rightarrow> json option" where
  "tour_json t =
     (case t of
        None \<Rightarrow> None
      | Some r \<Rightarrow>
          (if at_status r = ''ok'' then
             Some (JObj (omit_str ''name'' (opt_str (at_tour_name r)) @ omit_str ''blurb'' (opt_str (at_blurb r))
                         @ omit_str ''setlist_url'' (opt_str (at_setlist_url r)) @ [(''songs'', at_songs r)]
                         @ omit_raw ''observed'' (observed_json r)))
           else None))"

definition build_artist :: "enrichment_row \<Rightarrow> json" where
  "build_artist r =
     JObj ([(''name'', JStr (a_display_name (en_artist r)))]
           @ omit_str ''disambiguation'' (opt_str (a_disambiguation (en_artist r)))
           @ omit_str ''mbid'' (opt_str (a_mbid (en_artist r)))
           @ omit_raw ''image'' (image_json (en_image r)) @ omit_raw ''bio'' (bio_json (en_bio r))
           @ omit_raw ''tour'' (tour_json (en_tour r)))"

text \<open>
  \<open>attachArtists\<close>: the artist object of each row, by its headline artist. A failed lookup
  leaves the page undecorated.
\<close>

definition attach_artists :: "calendar_row list \<Rightarrow> ('l, json option list) act" where
  "attach_artists rows =
     (let ids = List.map_filter (\<lambda>r. e_headline_artist_id (cal_event r)) rows;
          none = map (\<lambda>_. None) rows
      in if ids = [] then ret none
         else do {
           res \<leftarrow> db_call (get_artist_enrichment_batch ids);
           ret (case res of
              Inl e \<Rightarrow> none
            | Inr ens \<Rightarrow>
                map (\<lambda>r. case e_headline_artist_id (cal_event r) of
                           None \<Rightarrow> None
                         | Some a \<Rightarrow> map_option build_artist (find (\<lambda>n. a_id (en_artist n) = a) ens)) rows) })"

section \<open>The JSON of a page\<close>

text \<open>An array of strings as \<open>json.Unmarshal\<close> reads it: a wrong element stays empty.\<close>

definition strs_of :: "json \<Rightarrow> string list" where
  "strs_of j = (case j of JArr xs \<Rightarrow> map (\<lambda>x. case x of JStr s \<Rightarrow> s | _ \<Rightarrow> []) xs | _ \<Rightarrow> [])"

definition parse_breakdown :: "json option \<Rightarrow> string list \<times> string list" where
  "parse_breakdown raw =
     (case raw of
        None \<Rightarrow> ([], [])
      | Some j \<Rightarrow> (strs_of (json_get ''matched_performers'' j), strs_of (json_get ''matched_genres'' j)))"

definition match_json :: "json option \<Rightarrow> json" where
  "match_json raw =
     (case parse_breakdown raw of (ps, gs) \<Rightarrow>
        JObj [(''performers'', JArr (map JStr ps)), (''genres'', JArr (map JStr gs))])"

definition calendar_event :: "calendar_row \<Rightarrow> json option \<Rightarrow> json" where
  "calendar_event r artist =
     (let e = cal_event r; v = cal_venue r in
      JObj ([(''id'', JStr (uuid_string (e_id e))), (''title'', JStr (e_title e))]
            @ omit_str ''description'' (e_description e)
            @ [(''starts_at'', JStr (format_rfc3339 (e_starts_at e)))]
            @ omit_str ''ends_at'' (case e_ends_at e of None \<Rightarrow> [] | Some t \<Rightarrow> format_rfc3339 t)
            @ omit_str ''image_url'' (opt_str (e_image_url e)) @ omit_str ''url'' (opt_str (e_url e))
            @ [(''venue'', JObj ([(''name'', JStr (v_name v))] @ omit_str ''address'' (opt_str (v_address v))))]
            @ omit_str ''segment'' (opt_str (e_segment e))
            @ [(''score'', JNum (case cal_score r of None \<Rightarrow> Fin 0 | Some s \<Rightarrow> s)),
               (''matched_because'', match_json (cal_breakdown r))]
            @ omit_raw ''artist'' artist))"

definition calendar_response :: "calendar_row list \<Rightarrow> json option list \<Rightarrow> string \<Rightarrow> json" where
  "calendar_response rows arts next =
     JObj ([(''events'', JArr (map2 calendar_event rows arts))] @ omit_str ''next_cursor'' next)"

section \<open>Handlers\<close>

definition calendar_page_size :: nat where "calendar_page_size = 20"

text \<open>The page shown of the rows loaded, and the cursor of the next one.\<close>

definition page_of :: "calendar_row list \<Rightarrow> calendar_row list \<times> string" where
  "page_of rows =
     (if calendar_page_size < length rows
      then let shown = take calendar_page_size rows; l = cal_event (last shown)
           in (shown, encode_cursor (e_starts_at l) (e_id l))
      else (rows, []))"

definition show_page :: "calendar_row list \<Rightarrow> 'l handler" where
  "show_page rows =
     (case page_of rows of (shown, next) \<Rightarrow> do {
        arts \<leftarrow> attach_artists shown;
        ret (write_json 200 (calendar_response shown arts next)) })"

definition get_my_calendar ::
    "(string \<Rightarrow> uuid option) \<Rightarrow> uuid option \<Rightarrow> page_params \<Rightarrow> 'l handler" where
  "get_my_calendar P uid pp =
     (case uid of
        None \<Rightarrow> ret no_user
      | Some u \<Rightarrow>
          (case parse_page_start P pp of
             Inl r \<Rightarrow> ret r
           | Inr st \<Rightarrow>
               (case parse_segment (pp_segment pp) of
                  Inl r \<Rightarrow> ret r
                | Inr seg \<Rightarrow> do {
                    rows \<leftarrow> db_call (get_user_calendar_page u st seg (calendar_page_size + 1));
                    case rows of
                      Inl e \<Rightarrow> ret (http_err 500 ''db_error'' ''could not load calendar'')
                    | Inr rs \<Rightarrow> show_page rs })))"

definition get_city_calendar ::
    "(string \<Rightarrow> uuid option) \<Rightarrow> string \<Rightarrow> page_params \<Rightarrow> 'l handler" where
  "get_city_calendar P city pp =
     (case P city of
        None \<Rightarrow> ret (http_err 400 ''bad_city_id'' ''cityId is not a valid uuid'')
      | Some c \<Rightarrow>
          (case parse_page_start P pp of
             Inl r \<Rightarrow> ret r
           | Inr st \<Rightarrow>
               (case parse_segment (pp_segment pp) of
                  Inl r \<Rightarrow> ret r
                | Inr seg \<Rightarrow>
                    (case parse_venue_id P pp of
                       Inl r \<Rightarrow> ret r
                     | Inr v \<Rightarrow> do {
                         rows \<leftarrow> db_call (get_city_calendar_page c st seg v (calendar_page_size + 1));
                         case rows of
                           Inl e \<Rightarrow> ret (http_err 500 ''db_error'' ''could not load city calendar'')
                         | Inr rs \<Rightarrow> show_page rs }))))"

definition get_event_by_id_for_user ::
    "(string \<Rightarrow> uuid option) \<Rightarrow> uuid option \<Rightarrow> string \<Rightarrow> 'l handler" where
  "get_event_by_id_for_user P uid idstr =
     (case uid of
        None \<Rightarrow> ret no_user
      | Some u \<Rightarrow>
          (case P idstr of
             None \<Rightarrow> ret (http_err 400 ''bad_id'' ''id is not a valid uuid'')
           | Some i \<Rightarrow> do {
               row \<leftarrow> db_call (get_matched_event_for_user i u);
               case row of
                 Inl e \<Rightarrow> ret (http_err 404 ''not_found'' ''event not found'')
               | Inr r \<Rightarrow> do {
                   arts \<leftarrow> attach_artists [r];
                   ret (write_json 200 (calendar_event r (hd arts))) } }))"

end
