(* ===== verification/CalendarProps.thy ===== *)
theory CalendarProps
  imports Calendar
begin

text \<open>
  Paging through a calendar. The handlers meet the keyset contract, so a client that follows
  \<open>next_cursor\<close> sees every event exactly once, even while the catalogue changes and the
  clock advances between its requests.
\<close>

section \<open>What a client reads of a response\<close>

definition next_of :: "response \<Rightarrow> string" where
  "next_of r =
     (case r_body r of
        JsonBody j \<Rightarrow> (case json_get ''next_cursor'' j of JStr s \<Rightarrow> s | _ \<Rightarrow> [])
      | _ \<Rightarrow> [])"

definition str_of :: "json \<Rightarrow> string" where
  "str_of j = (case j of JStr s \<Rightarrow> s | _ \<Rightarrow> [])"

definition ids_of :: "response \<Rightarrow> string list" where
  "ids_of r =
     (case r_body r of
        JsonBody j \<Rightarrow> (case json_get ''events'' j of JArr es \<Rightarrow> map (\<lambda>e. str_of (json_get ''id'' e)) es | _ \<Rightarrow> [])
      | _ \<Rightarrow> [])"

text \<open>
  A client that pages: each request is served by a world of its own, the following ones carry
  the cursor alone.
\<close>

fun page_walk :: "(page_params \<Rightarrow> 'l handler) \<Rightarrow> page_params \<Rightarrow> 'l world list \<Rightarrow> response list" where
  "page_walk H pp [] = []"
| "page_walk H pp (w # ws) =
     (let r = fst (run_state (H pp) w) in
      r # (if next_of r = [] then []
           else page_walk H (pp\<lparr>pp_cursor := next_of r, pp_starts_at := []\<rparr>) ws))"

definition row_id :: "calendar_row \<Rightarrow> string" where
  "row_id r = uuid_string (e_id (cal_event r))"

definition listed :: "response list \<Rightarrow> string list" where
  "listed rs = concat (map ids_of rs)"

section \<open>Pages as the handlers write them\<close>

text \<open>The stored JSON that the pages embed can be encoded.\<close>

definition json_ok :: "db \<Rightarrow> bool" where
  "json_ok d =
     ((\<forall>i \<in> set (images d). \<forall>j. ai_credit i = Some j \<longrightarrow> encodable j) \<and>
      (\<forall>b \<in> set (bios d). encodable (ab_sources b)) \<and> (\<forall>t \<in> set (tours d). encodable (at_songs t)))"

lemma encodable_omit [simp]: "list_all (\<lambda>f. encodable (snd f)) (omit_str k v)"
  "list_all (\<lambda>f. encodable (snd f)) (omit_int k n)"
  "list_all (\<lambda>f. encodable (snd f)) (omit_raw k j) \<longleftrightarrow> (\<forall>x. j = Some x \<longrightarrow> encodable x)"
  by (auto simp: omit_str_def omit_int_def omit_raw_def split: option.splits)

lemma encodable_image:
  "json_ok d \<Longrightarrow> image_json (find (\<lambda>i. ai_artist_id i = a) (images d)) = Some j \<Longrightarrow> encodable j"
  by (auto simp: image_json_def json_ok_def split: option.splits if_splits dest!: find_in_set)

lemma encodable_bio:
  "json_ok d \<Longrightarrow> bio_json (find (\<lambda>i. ab_artist_id i = a) (bios d)) = Some j \<Longrightarrow> encodable j"
  by (auto simp: bio_json_def json_ok_def split: option.splits if_splits dest!: find_in_set)

lemma encodable_observed: "observed_json t = Some j \<Longrightarrow> encodable j"
  by (auto simp: observed_json_def split: if_splits)

lemma encodable_tour:
  "json_ok d \<Longrightarrow> tour_json (find (\<lambda>i. at_artist_id i = a) (tours d)) = Some j \<Longrightarrow> encodable j"
  by (auto simp: tour_json_def json_ok_def encodable_observed split: option.splits if_splits dest!: find_in_set)

lemma encodable_artist:
  assumes "json_ok d" and "get_artist_enrichment_batch ids t d = Inr (ens, d')" and "n \<in> set ens"
  shows "encodable (build_artist n)"
proof -
  from assms(2,3) obtain a where "n = \<lparr>en_artist = a, en_image = find (\<lambda>i. ai_artist_id i = a_id a) (images d),
      en_bio = find (\<lambda>b. ab_artist_id b = a_id a) (bios d),
      en_tour = find (\<lambda>t. at_artist_id t = a_id a) (tours d)\<rparr>"
    by (auto simp: get_artist_enrichment_batch_def)
  then show ?thesis
    using encodable_image [OF assms(1)] encodable_bio [OF assms(1)] encodable_tour [OF assms(1)]
    by (auto simp: build_artist_def)
qed

text \<open>Decoration never changes how many rows there are, and a failed lookup only drops it.\<close>

lemma attach_artists_shape:
  assumes "json_ok (w_db w)"
  shows "length (fst (run_state (attach_artists rows) w)) = length rows \<and>
    (\<forall>j. Some j \<in> set (fst (run_state (attach_artists rows) w)) \<longrightarrow> encodable j)"
proof -
  let ?ids = "List.map_filter (\<lambda>r. e_headline_artist_id (cal_event r)) rows"
  obtain res w' where run: "run_query (get_artist_enrichment_batch ?ids) w = (res, w')" by fastforce
  show ?thesis
  proof (cases res)
    case (Inl e)
    with run show ?thesis by (auto simp: attach_artists_def Let_def)
  next
    case (Inr ens)
    with run have "get_artist_enrichment_batch ?ids (now_of w) (w_db w) = Inr (ens, w_db w')"
      by (auto dest: run_query_Inr)
    then have "\<forall>n \<in> set ens. encodable (build_artist n)" using encodable_artist [OF assms] by blast
    with run Inr show ?thesis
      by (auto simp: attach_artists_def Let_def map_option_case split: option.splits dest!: find_in_set)
  qed
qed

definition row_ok :: "calendar_row \<Rightarrow> bool" where
  "row_ok r =
     (0 \<le> year_of (e_starts_at (cal_event r)) \<and> year_of (e_starts_at (cal_event r)) < 10000 \<and>
      (\<forall>s. cal_score r = Some s \<longrightarrow> is_finite s))"

lemma encodable_match [simp]: "encodable (match_json b)"
  by (auto simp: match_json_def list_all_iff split: prod.splits)

lemma encodable_event: "row_ok r \<Longrightarrow> (\<And>j. a = Some j \<Longrightarrow> encodable j) \<Longrightarrow> encodable (calendar_event r a)"
  by (cases "cal_score r") (auto simp: calendar_event_def Let_def row_ok_def)

lemma event_id [simp]: "json_get ''id'' (calendar_event r a) = JStr (row_id r)"
  by (simp add: calendar_event_def row_id_def Let_def)

lemma page_of_cut:
  "page_of rows =
     (case cut_page calendar_page_size rows of
        (shown, None) \<Rightarrow> (shown, [])
      | (shown, Some l) \<Rightarrow> (shown, encode_cursor (e_starts_at (cal_event l)) (e_id (cal_event l))))"
  by (simp add: page_of_def cut_page_def Let_def)

lemma map2_const_left: "length xs = length ys \<Longrightarrow> map (\<lambda>z. f (case z of (x, y) \<Rightarrow> g x)) (zip xs ys) = map (f \<circ> g) xs"
  by (induction xs ys rule: list_induct2) auto

text \<open>A page that is served: the ids of the rows shown and the cursor behind them.\<close>

lemma show_page_reads:
  assumes "json_ok (w_db w)" and "\<forall>r \<in> set rows. row_ok r"
  shows "ids_of (fst (run_state (show_page rows) w)) = map row_id (fst (page_of rows)) \<and>
    next_of (fst (run_state (show_page rows) w)) = snd (page_of rows)"
proof -
  obtain shown nx where p: "page_of rows = (shown, nx)" by fastforce
  have sub: "set shown \<subseteq> set rows" using p by (auto simp: page_of_def Let_def dest: in_set_takeD split: if_splits)
  let ?as = "fst (run_state (attach_artists shown) w)"
  have len: "length ?as = length shown" and enc: "\<And>j. Some j \<in> set ?as \<Longrightarrow> encodable j"
    using attach_artists_shape [OF assms(1), of shown] by blast+
  let ?j = "calendar_response shown ?as nx"
  have "encodable (calendar_event r a)" if "(r, a) \<in> set (zip shown ?as)" for r a
  proof (rule encodable_event)
    show "row_ok r" using that sub assms(2) by (auto dest!: set_zip_leftD)
    show "encodable j" if "a = Some j" for j
      using that \<open>(r, a) \<in> set (zip shown ?as)\<close> enc by (auto dest!: set_zip_rightD)
  qed
  then have "list_all encodable (map2 calendar_event shown ?as)" by (auto simp: list_all_iff)
  then have "encodable ?j" by (simp add: calendar_response_def)
  then have body: "fst (run_state (show_page rows) w) = respond 200 (JsonBody ?j)"
    by (simp add: show_page_def p write_json_def case_prod_unfold)
  have "map (\<lambda>e. str_of (json_get ''id'' e)) (map2 calendar_event shown ?as) = map row_id shown"
    using len by (simp add: str_of_def comp_def case_prod_unfold map_fst_zip
        flip: map_map [of row_id fst, unfolded comp_def])
  then show ?thesis
    unfolding body p by (simp add: ids_of_def next_of_def calendar_response_def omit_str_def)
qed


text \<open>What a query sees of the world: the clock and the tables.\<close>

definition view :: "'l world \<Rightarrow> instant \<times> db" where
  "view w = (now_of w, w_db w)"

section \<open>The contract of a paged feed\<close>

text \<open>
  A handler that serves one page of a feed from where the parameters say. It gives a keyset
  contract, whose database is the pair of the clock and the tables.
\<close>

locale calendar_feed =
  fixes P :: "string \<Rightarrow> uuid option"
    and serve :: "page_params \<Rightarrow> 'l handler"
    and mine :: "page_params \<Rightarrow> bool"
    and feed :: "instant \<times> db \<Rightarrow> calendar_row list"
    and good :: "db \<Rightarrow> bool"
  assumes serve: "mine pp \<Longrightarrow> parse_page_start P pp = Inr st \<Longrightarrow> fault_of w = NoFault \<Longrightarrow>
      run_state (serve pp) w =
        run_state (show_page (take (Suc calendar_page_size)
          (filter (\<lambda>r. start_after st (cal_key r)) (feed (now_of w, w_db w))))) (tick w)"
    and mine_next: "mine pp \<Longrightarrow> mine (pp\<lparr>pp_cursor := c, pp_starts_at := []\<rparr>)"
    and feed_sorted: "good d \<Longrightarrow> sorted_wrt (<) (map cal_key (feed (t, d)))"
    and feed_rows: "good d \<Longrightarrow> r \<in> set (feed (t, d)) \<Longrightarrow> row_ok r"
    and good_json: "good d \<Longrightarrow> json_ok d"

sublocale calendar_feed \<subseteq> pages: keyset
    "\<lambda>st n p. take n (filter (\<lambda>r. start_after st (cal_key r)) (feed p))" cal_key feed
    "\<lambda>p. good (snd p)" start_after "\<lambda>k. FromCursor (fst k) (snd k)"
proof
  show "start_after s k'" if "start_after s k" "k < k'" for s and k k' :: "instant \<times> uuid"
    using that by (cases s) (auto simp: less_prod_def)
qed (auto intro: feed_sorted)

context calendar_feed begin

text \<open>One request: the page of the contract, and the cursor that leads to its successor.\<close>

lemma serve_page:
  assumes "mine pp" and "parse_page_start P pp = Inr st" and "fault_of w = NoFault" and "good (w_db w)"
    and "uuid_parse_ok P"
  defines "r \<equiv> fst (run_state (serve pp) w)"
    and "c \<equiv> cut_page calendar_page_size (take (Suc calendar_page_size)
          (filter (\<lambda>r. start_after st (cal_key r)) (feed (view w))))"
  shows "ids_of r = map row_id (fst c)" and "next_of r = [] \<longleftrightarrow> snd c = None"
    and "snd c = Some e \<Longrightarrow>
      parse_page_start P (pp\<lparr>pp_cursor := next_of r, pp_starts_at := []\<rparr>) =
        Inr (FromCursor (fst (cal_key e)) (snd (cal_key e)))"
proof -
  let ?rows = "take (Suc calendar_page_size) (filter (\<lambda>r. start_after st (cal_key r)) (feed (view w)))"
  have rows: "\<forall>r \<in> set ?rows. row_ok r"
    using feed_rows [OF assms(4)] by (auto simp: view_def dest!: in_set_takeD)
  have r: "r = fst (run_state (show_page ?rows) (tick w))"
    unfolding r_def view_def by (simp add: serve [OF assms(1-3)])
  have "json_ok (w_db (tick w))" using good_json [OF assms(4)] by simp
  from show_page_reads [OF this rows] r
  have ids: "ids_of r = map row_id (fst (page_of ?rows))" and nx: "next_of r = snd (page_of ?rows)"
    by simp_all
  obtain shown e' where c: "c = (shown, e')" by fastforce
  then show "ids_of r = map row_id (fst c)" and "next_of r = [] \<longleftrightarrow> snd c = None"
    unfolding ids nx by (auto simp: page_of_cut c_def split: option.splits)
  assume e: "snd c = Some e"
  then have n: "next_of r = encode_cursor (e_starts_at (cal_event e)) (e_id (cal_event e))"
    unfolding nx using c by (simp add: page_of_cut c_def)
  have "e \<in> set ?rows"
    using cut_page_last [OF e [unfolded c_def]] by (simp add: calendar_page_size_def)
  then have "row_ok e" using rows by blast
  then show "parse_page_start P (pp\<lparr>pp_cursor := next_of r, pp_starts_at := []\<rparr>) =
      Inr (FromCursor (fst (cal_key e)) (snd (cal_key e)))"
    unfolding n using decode_encode_cursor [OF assms(5)]
    by (simp add: parse_page_start_def parse_cursor_def parse_starts_at_after_def row_ok_def cal_key_def)
qed

text \<open>A whole walk is the walk of the contract.\<close>

lemma walk_listed:
  assumes "uuid_parse_ok P"
  shows "mine pp \<Longrightarrow> parse_page_start P pp = Inr st \<Longrightarrow>
    \<forall>w \<in> set ws. fault_of w = NoFault \<and> good (w_db w) \<Longrightarrow>
    listed (page_walk serve pp ws) = map row_id (concat (pages.walk calendar_page_size (map view ws) st)) \<and>
    (ws \<noteq> [] \<longrightarrow> (next_of (last (page_walk serve pp ws)) = [] \<longleftrightarrow>
       pages.finished calendar_page_size (map view ws) st))"
proof (induction ws arbitrary: pp st)
  case (Cons w ws)
  let ?c = "cut_page calendar_page_size (take (Suc calendar_page_size)
      (filter (\<lambda>r. start_after st (cal_key r)) (feed (view w))))"
  note page = serve_page [OF Cons.prems(1,2) _ _ assms, of w]
  have w: "fault_of w = NoFault" "good (w_db w)" using Cons.prems(3) by simp_all
  obtain shown e where c: "?c = (shown, e)" by fastforce
  show ?case
  proof (cases e)
    case None
    then show ?thesis using page(1,2) [OF w] c
      by (simp add: Let_def listed_def pages.walk.simps pages.finished.simps)
  next
    case (Some r)
    let ?pp = "pp\<lparr>pp_cursor := next_of (fst (run_state (serve pp) w)), pp_starts_at := []\<rparr>"
    have "parse_page_start P ?pp = Inr (FromCursor (fst (cal_key r)) (snd (cal_key r)))"
      using page(3) [OF w] c Some by simp
    note IH = Cons.IH [OF mine_next [OF Cons.prems(1)] this]
    show ?thesis using IH Cons.prems(3) page(1,2) [OF w] c Some
      by (cases ws) (auto simp: Let_def listed_def pages.walk.simps pages.finished.simps)
  qed
qed (simp add: listed_def)

lemma paging_complete:
  assumes "uuid_parse_ok P" and "mine pp" and "parse_page_start P pp = Inr st" and "ws \<noteq> []"
    and "\<forall>w \<in> set ws. fault_of w = NoFault \<and> good (w_db w)"
  shows "\<exists>rows. listed (page_walk serve pp ws) = map row_id rows \<and> sorted_wrt (<) (map cal_key rows) \<and>
    (\<forall>r \<in> set rows. start_after st (cal_key r) \<and> (\<exists>w \<in> set ws. r \<in> set (feed (view w)))) \<and>
    (next_of (last (page_walk serve pp ws)) = [] \<longrightarrow>
      (\<forall>r. start_after st (cal_key r) \<and> (\<forall>w \<in> set ws. r \<in> set (feed (view w))) \<longrightarrow> r \<in> set rows))"
proof -
  let ?ds = "map view ws"
  let ?rows = "concat (pages.walk calendar_page_size ?ds st)"
  have pos: "0 < calendar_page_size" by (simp add: calendar_page_size_def)
  have good: "\<forall>d \<in> set ?ds. good (snd d)" using assms(5) by (simp add: view_def)
  have l: "listed (page_walk serve pp ws) = map row_id ?rows"
    and f: "next_of (last (page_walk serve pp ws)) = [] \<longleftrightarrow> pages.finished calendar_page_size ?ds st"
    using walk_listed [OF assms(1-3,5)] assms(4) by blast+
  show ?thesis
  proof (intro exI [of _ ?rows] conjI impI ballI allI)
    show "listed (page_walk serve pp ws) = map row_id ?rows" by (rule l)
    show "sorted_wrt (<) (map cal_key ?rows)" by (rule pages.walk_increasing [OF pos good])
    show "start_after st (cal_key r)" if "r \<in> set ?rows" for r
      using pages.walk_after [OF pos that] by blast
    show "\<exists>w \<in> set ws. r \<in> set (feed (view w))" if "r \<in> set ?rows" for r
      using pages.walk_after [OF pos that] by auto
    fix r assume "next_of (last (page_walk serve pp ws)) = []"
      "start_after st (cal_key r) \<and> (\<forall>w \<in> set ws. r \<in> set (feed (view w)))"
    then show "r \<in> set ?rows" using f good by (intro pages.walk_complete [OF pos]) auto
  qed
qed

lemma paging_exact:
  assumes "uuid_parse_ok P" and "mine pp" and "parse_page_start P pp = Inr st"
    and "fault_of w = NoFault" and "good (w_db w)" and "0 < k"
    and "length (feed (view w)) \<le> calendar_page_size * k"
  shows "listed (page_walk serve pp (replicate k w)) =
      map row_id (filter (\<lambda>r. start_after st (cal_key r)) (feed (view w)))"
    and "next_of (last (page_walk serve pp (replicate k w))) = []"
proof -
  have ws: "\<forall>w' \<in> set (replicate k w). fault_of w' = NoFault \<and> good (w_db w')" using assms by simp
  have "length (pages.rest st (view w)) \<le> calendar_page_size * k"
    unfolding pages.rest_def using assms(7) length_filter_le le_trans by blast
  then have "pages.finished calendar_page_size (replicate k (view w)) st \<and>
      concat (pages.walk calendar_page_size (replicate k (view w)) st) = pages.rest st (view w)"
    using assms(5,6) by (intro pages.walk_static) (simp_all add: view_def calendar_page_size_def)
  then show "listed (page_walk serve pp (replicate k w)) =
      map row_id (filter (\<lambda>r. start_after st (cal_key r)) (feed (view w)))"
    and "next_of (last (page_walk serve pp (replicate k w))) = []"
    using walk_listed [OF assms(1-3) ws] assms(6) by (simp_all add: pages.rest_def)
qed

end


section \<open>The two calendars\<close>

text \<open>
  What the paging theorems ask of the tables: the primary keys, dates RFC 3339 can write, and
  numbers JSON can carry.
\<close>

definition feed_ok :: "db \<Rightarrow> bool" where
  "feed_ok d =
     (keyed e_id (events d) \<and> keyed (\<lambda>m. (m_user_id m, m_event_id m)) (matches d) \<and>
      (\<forall>e \<in> set (events d). 0 \<le> year_of (e_starts_at e) \<and> year_of (e_starts_at e) < 10000) \<and>
      (\<forall>m \<in> set (matches d). is_finite (m_score m)) \<and> json_ok d)"

lemma map_filter_keyed:
  assumes "keyed k xs" and "\<And>x x' y y'. f x = Some y \<Longrightarrow> f x' = Some y' \<Longrightarrow> h y = h y' \<Longrightarrow> k x = k x'"
  shows "distinct (map h (List.map_filter f xs))"
  using assms(1)
proof (induction xs)
  case (Cons x xs)
  then have IH: "distinct (map h (List.map_filter f xs))" and x: "k x \<notin> k ` set xs"
    by (simp_all add: keyed_def)
  show ?case
  proof (cases "f x")
    case (Some y)
    have "h y \<noteq> h y'" if "x' \<in> set xs" "f x' = Some y'" for x' y'
      using assms(2) [OF Some that(2)] x that(1) by force
    then have "h y \<notin> h ` set (List.map_filter f xs)" by (auto simp: map_filter_def) metis
    then show ?thesis using Some IH by (simp add: map_filter_simps)
  qed (simp add: map_filter_simps IH)
qed (simp add: map_filter_simps)

lemma set_map_filter: "y \<in> set (List.map_filter f xs) \<longleftrightarrow> (\<exists>x \<in> set xs. f x = Some y)"
  by (force simp: map_filter_def)

lemma match_row_join_Some:
  assumes "match_row_join u d m = Some r"
  shows "m_user_id m = u \<and> cal_event r \<in> set (events d) \<and> e_id (cal_event r) = m_event_id m \<and>
    cal_score r = Some (m_score m)"
  using assms by (auto simp: match_row_join_def find_event_def split: if_splits option.splits dest!: find_in_set)

lemma match_join_row:
  "r \<in> set (match_join u d) \<Longrightarrow>
     \<exists>m \<in> set (matches d). cal_event r \<in> set (events d) \<and> cal_score r = Some (m_score m)"
  unfolding match_join_def set_map_filter by (auto dest: match_row_join_Some)

lemma event_row_join_Some: "event_row_join d e = Some r \<Longrightarrow> cal_event r = e \<and> cal_score r = None"
  by (auto simp: event_row_join_def split: option.splits)

lemma event_join_row:
  "r \<in> set (event_join d) \<Longrightarrow> cal_event r \<in> set (events d) \<and> cal_score r = None"
  unfolding event_join_def set_map_filter by (auto dest: event_row_join_Some)

lemma match_join_distinct:
  "keyed (\<lambda>m. (m_user_id m, m_event_id m)) (matches d) \<Longrightarrow>
     distinct (map (\<lambda>r. e_id (cal_event r)) (match_join u d))"
  unfolding match_join_def
  by (erule map_filter_keyed) (auto dest!: match_row_join_Some)

lemma event_join_distinct:
  "keyed e_id (events d) \<Longrightarrow> distinct (map (\<lambda>r. e_id (cal_event r)) (event_join d))"
  unfolding event_join_def
proof (erule map_filter_keyed)
  fix x x' y y' assume "event_row_join d x = Some y" "event_row_join d x' = Some y'"
    "e_id (cal_event y) = e_id (cal_event y')"
  then show "e_id x = e_id x'" using event_row_join_Some by metis
qed

lemma sort_filter_strict:
  assumes "distinct (map (\<lambda>r. e_id (cal_event r)) rows)"
  shows "sorted_wrt (<) (map cal_key (sort_key cal_key (filter Q rows)))"
proof -
  have "distinct (map (\<lambda>r. e_id (cal_event r)) (filter Q rows))" using assms by (rule distinct_map_filter)
  then have d: "distinct (filter Q rows)" and inj: "inj_on (\<lambda>r. e_id (cal_event r)) (set (filter Q rows))"
    by (simp_all add: distinct_map)
  have "inj_on cal_key (set (filter Q rows))"
    using inj unfolding inj_on_def cal_key_def by auto
  then have "distinct (map cal_key (sort_key cal_key (filter Q rows)))" using d by (simp add: distinct_map)
  then show ?thesis unfolding strict_sorted_iff by (simp add: sorted_sort_key)
qed

lemma user_feed_sorted: "feed_ok d \<Longrightarrow> sorted_wrt (<) (map cal_key (user_feed u seg t d))"
  unfolding user_feed_def by (rule sort_filter_strict) (simp add: feed_ok_def match_join_distinct)

lemma city_feed_sorted: "feed_ok d \<Longrightarrow> sorted_wrt (<) (map cal_key (city_feed c seg v t d))"
  unfolding city_feed_def by (rule sort_filter_strict) (simp add: feed_ok_def event_join_distinct)

lemma user_feed_rows: "feed_ok d \<Longrightarrow> r \<in> set (user_feed u seg t d) \<Longrightarrow> row_ok r"
  by (auto simp: user_feed_def feed_ok_def row_ok_def dest!: match_join_row)

lemma city_feed_rows: "feed_ok d \<Longrightarrow> r \<in> set (city_feed c seg v t d) \<Longrightarrow> row_ok r"
  by (auto simp: city_feed_def feed_ok_def row_ok_def dest!: event_join_row)

interpretation my_pages: calendar_feed P "get_my_calendar P (Some u)"
    "\<lambda>pp. parse_segment (pp_segment pp) = Inr seg" "\<lambda>p. user_feed u seg (fst p) (snd p)" feed_ok
  for P u seg
  by unfold_locales
    (auto simp: get_my_calendar_def run_query_def get_user_calendar_page_def user_feed_sorted user_feed_rows
      feed_ok_def)

interpretation city_pages: calendar_feed P "get_city_calendar P city"
    "\<lambda>pp. P city = Some c \<and> parse_segment (pp_segment pp) = Inr seg \<and> parse_venue_id P pp = Inr v"
    "\<lambda>p. city_feed c seg v (fst p) (snd p)" feed_ok
  for P city c seg v
  by unfold_locales
    (auto simp: get_city_calendar_def run_query_def get_city_calendar_page_def city_feed_sorted city_feed_rows
      feed_ok_def parse_venue_id_def)

section \<open>A small catalogue\<close>

definition demo_event :: "uuid \<Rightarrow> instant \<Rightarrow> event_row" where
  "demo_event i t =
     \<lparr>e_id = i, e_source_id = 1, e_source_event_id = ''s'', e_title = ''Show'', e_description = [],
      e_starts_at = t, e_ends_at = None, e_venue_id = 5, e_image_url = None, e_url = None,
      e_embedding = None, e_last_seen_at = 0, e_archived_at = None, e_updated_at = 0, e_time_tbd = False,
      e_headline_artist_id = None, e_segment = None\<rparr>"

definition demo_venue :: venue_row where
  "demo_venue = \<lparr>v_id = 5, v_city_id = 3, v_name = ''Neumos'', v_normalized = ''neumos'', v_address = None,
     v_lat = None, v_lng = None, v_website = None\<rparr>"

definition demo_match :: "uuid \<Rightarrow> match_row" where
  "demo_match i = \<lparr>m_user_id = 7, m_event_id = i, m_score = Fin (1/2), m_breakdown = JNull, m_computed_at = 0\<rparr>"

definition demo_catalogue :: "event_row list \<Rightarrow> db" where
  "demo_catalogue es =
     empty_db\<lparr>venues := [demo_venue], events := es, matches := [demo_match 1, demo_match 2]\<rparr>"

definition calm :: outside where
  "calm = \<lparr>clock = (\<lambda>_. 10956 * day), fault_at = (\<lambda>_. NoFault), rand_bytes = (\<lambda>_ n. Some []),
     fresh_uuid = (\<lambda>_. 0)\<rparr>"

definition demo_two :: "unit world" where
  "demo_two = init_world calm
     (demo_catalogue [demo_event 1 (10957 * day + hour), demo_event 2 (10957 * day)]) ()"

definition demo_one :: "unit world" where
  "demo_one = init_world calm (demo_catalogue [demo_event 2 (10957 * day)]) ()"

definition no_params :: page_params where
  "no_params = \<lparr>pp_cursor = [], pp_starts_at = [], pp_segment = [], pp_venue_id = []\<rparr>"

lemma no_params_parse:
  "parse_page_start P no_params = Inr FromTop" "parse_segment (pp_segment no_params) = Inr None"
  "parse_venue_id P no_params = Inr None"
  by (simp_all add: no_params_def parse_page_start_def parse_cursor_def parse_starts_at_after_def
      parse_segment_def parse_venue_id_def)

lemma millennium: "locate cycle_lens 0 = (0, 0)"
  by (simp add: cycle_lens_def upt_conv_Cons year_len_def leap_year_def)

lemma year_2000: "0 \<le> r \<Longrightarrow> r < day \<Longrightarrow> year_of (10957 * day + r) = 2000"
  by (simp add: year_of_def date_of_def civil_of_days_def millennium Let_def month_lens_def leap_year_def
      div_add1_eq)

lemmas demo_catalogue_defs = demo_two_def demo_one_def init_world_def demo_catalogue_def demo_event_def
  demo_venue_def demo_match_def calm_def empty_db_def

lemma demo_feed_ok: "feed_ok (w_db demo_two)" "feed_ok (w_db demo_one)"
  "fault_of demo_two = NoFault" "fault_of demo_one = NoFault"
  using year_2000 [of 0] year_2000 [of hour]
  by (simp_all add: feed_ok_def json_ok_def keyed_def fault_of_def demo_catalogue_defs)

lemma demo_feeds:
  "map row_id (user_feed 7 None (now_of demo_two) (w_db demo_two)) = [uuid_string 2, uuid_string 1]"
  "map row_id (city_feed 3 None None (now_of demo_two) (w_db demo_two)) = [uuid_string 2, uuid_string 1]"
  by (simp_all add: user_feed_def city_feed_def match_join_def event_join_def match_row_join_def
      event_row_join_def find_event_def find_venue_def map_filter_simps segment_passes_def venue_passes_def
      showable_def event_over_at_def now_of_def cal_key_def row_id_def demo_catalogue_defs)

lemma demo_feed_lengths:
  "length (user_feed 7 None (now_of demo_two) (w_db demo_two)) = 2"
  "length (city_feed 3 None None (now_of demo_two) (w_db demo_two)) = 2"
  using arg_cong [where f = length, OF demo_feeds(1)] arg_cong [where f = length, OF demo_feeds(2)]
  by simp_all

text \<open>
  C12. Following \<open>next_cursor\<close> through a user's calendar over a catalogue that does not change
  lists exactly the showable matched events that pass the filter and lie past the start, each
  once, in the order of their start; the walk ends after as many pages as the feed needs.
\<close>

theorem my_calendar_exact:
  assumes "uuid_parse_ok P" and "parse_page_start P pp = Inr st"
    and "parse_segment (pp_segment pp) = Inr seg"
    and "fault_of w = NoFault" and "feed_ok (w_db w)" and "0 < k"
    and "length (user_feed u seg (now_of w) (w_db w)) \<le> calendar_page_size * k"
  shows "listed (page_walk (get_my_calendar P (Some u)) pp (replicate k w)) =
      map row_id (filter (\<lambda>r. start_after st (cal_key r)) (user_feed u seg (now_of w) (w_db w))) \<and>
    next_of (last (page_walk (get_my_calendar P (Some u)) pp (replicate k w))) = []"
  using my_pages.paging_exact [where P = P and w = w and st = st and u = u and seg = seg and pp = pp and k = k] assms
  by (simp add: view_def)

theorem my_calendar_exact_witness:
  "listed (page_walk (get_my_calendar parse_uuid36 (Some 7)) no_params (replicate 1 demo_two)) =
     [uuid_string 2, uuid_string 1]"
  using my_calendar_exact [OF parse_uuid36_ok no_params_parse(1,2) demo_feed_ok(3,1), of 1 7]
  by (simp add: demo_feeds demo_feed_lengths calendar_page_size_def)



text \<open>
  The same walk through a city's calendar, optionally of one venue, lists exactly the
  showable events of the city that pass the filters and lie past the start.
\<close>

theorem city_calendar_exact:
  assumes "uuid_parse_ok P" and "parse_page_start P pp = Inr st" and "P city = Some c"
    and "parse_segment (pp_segment pp) = Inr seg" and "parse_venue_id P pp = Inr v"
    and "fault_of w = NoFault" and "feed_ok (w_db w)" and "0 < k"
    and "length (city_feed c seg v (now_of w) (w_db w)) \<le> calendar_page_size * k"
  shows "listed (page_walk (get_city_calendar P city) pp (replicate k w)) =
      map row_id (filter (\<lambda>r. start_after st (cal_key r)) (city_feed c seg v (now_of w) (w_db w))) \<and>
    next_of (last (page_walk (get_city_calendar P city) pp (replicate k w))) = []"
  using city_pages.paging_exact [where P = P and w = w and st = st and c = c and seg = seg and pp = pp
      and k = k and city = city and v = v] assms
  by (simp add: view_def)

theorem city_calendar_exact_witness:
  "listed (page_walk (get_city_calendar parse_uuid36 (uuid_string 3)) no_params (replicate 1 demo_two)) =
     [uuid_string 2, uuid_string 1]"
  using city_calendar_exact [OF parse_uuid36_ok no_params_parse(1) parse_uuid36_string no_params_parse(2,3)
      demo_feed_ok(3,1), of 1]
  by (simp add: demo_feeds demo_feed_lengths calendar_page_size_def)

text \<open>
  A page cursor read back is the position it was made from, whatever the event, for every
  start of a four-digit year.
\<close>

theorem cursor_roundtrip:
  assumes "uuid_parse_ok P" and "0 \<le> year_of t" and "year_of t < 10000"
  shows "decode_cursor P (encode_cursor t i) = Some (t, i)"
  using assms by (rule decode_encode_cursor)

theorem cursor_roundtrip_witness:
  "decode_cursor parse_uuid36 (encode_cursor (10957 * day + 1001) 77) = Some (10957 * day + 1001, 77)"
  by (rule cursor_roundtrip [OF parse_uuid36_ok])
    (simp_all add: year_of_def date_of_def civil_of_days_def millennium Let_def month_lens_def leap_year_def)

end
