(* ===== verification/RateLimit.thy ===== *)
theory RateLimit
  imports World "HOL-Library.Multiset"
begin

text \<open>
  The in-process limiter of \<open>internal/ratelimit/memory.go\<close>: one token bucket per key, swept
  when idle and bounded by a hard cap. The bucket itself is \<open>golang.org/x/time/rate\<close>, a
  parameter with its documented laws. The limiter is shown to be the ideal one, which keeps
  every bucket for ever, as long as it is never overdrawn or flooded.
\<close>

section \<open>The token bucket\<close>

text \<open>
  \<open>rate.NewLimiter\<close>, \<open>TokensAt\<close> and \<open>ReserveN(t, 1)\<close>; limits are in tokens per second.
\<close>

record 'b bucket_lib =
  rl_new :: "real \<Rightarrow> nat \<Rightarrow> 'b"
  rl_tokens_at :: "'b \<Rightarrow> instant \<Rightarrow> real"
  rl_reserve :: "'b \<Rightarrow> instant \<Rightarrow> 'b"

definition in_seconds :: "instant \<Rightarrow> real" where
  "in_seconds t = of_int t / of_int second"

text \<open>The buckets that have only been spent from up to an instant.\<close>

inductive bucket_at :: "'b bucket_lib \<Rightarrow> real \<Rightarrow> nat \<Rightarrow> 'b \<Rightarrow> instant \<Rightarrow> bool"
  for B L n where
  fresh: "bucket_at B L n (rl_new B L n) t"
| spent: "bucket_at B L n b t \<Longrightarrow> t \<le> t' \<Longrightarrow> t' \<le> t'' \<Longrightarrow> bucket_at B L n (rl_reserve B b t') t''"

text \<open>
  What the package documents: a new bucket is full, a reservation takes one token whatever
  the balance, and tokens accrue at the limit up to the burst.
\<close>

definition bucket_laws :: "'b bucket_lib \<Rightarrow> real \<Rightarrow> nat \<Rightarrow> bool" where
  "bucket_laws B L n =
     ((\<forall>t. rl_tokens_at B (rl_new B L n) t = real n) \<and>
      (\<forall>b t t'. bucket_at B L n b t \<longrightarrow> t \<le> t' \<longrightarrow>
         rl_tokens_at B (rl_reserve B b t) t' = min (real n) (rl_tokens_at B b t - 1 + L * in_seconds (t' - t))))"

text \<open>A bucket that has these laws: the balance and the instant it was last spent from.\<close>

definition plain_bucket :: "(real \<times> nat \<times> real \<times> instant) bucket_lib" where
  "plain_bucket =
     (let tokens = (\<lambda>b t. case b of (L, n, k, t0) \<Rightarrow> min (real n) (k + L * in_seconds (max 0 (t - t0)))) in
      \<lparr>rl_new = (\<lambda>L n. (L, n, real n, 0)), rl_tokens_at = tokens,
       rl_reserve = (\<lambda>b t. case b of (L, n, k, t0) \<Rightarrow> (L, n, tokens b t - 1, t))\<rparr>)"

lemma plain_bucket_laws: "0 \<le> L \<Longrightarrow> bucket_laws plain_bucket L n"
proof -
  assume L: "0 \<le> L"
  have ex: "\<exists>k t0. b = (L, n, k, t0)" if "bucket_at plain_bucket L n b t" for b t
    using that by (induction rule: bucket_at.induct) (auto simp: plain_bucket_def Let_def)
  have "rl_tokens_at plain_bucket (rl_new plain_bucket L n) t = real n" for t
    using L by (simp add: plain_bucket_def Let_def in_seconds_def min_def)
  moreover have "rl_tokens_at plain_bucket (rl_reserve plain_bucket b t) t' =
      min (real n) (rl_tokens_at plain_bucket b t - 1 + L * in_seconds (t' - t))"
    if "bucket_at plain_bucket L n b t" "t \<le> t'" for b t t'
    using ex [OF that(1)] that(2) by (auto simp: plain_bucket_def Let_def)
  ultimately show ?thesis unfolding bucket_laws_def by blast
qed

lemma bucket_at_later: "bucket_at B L n b t \<Longrightarrow> t \<le> t' \<Longrightarrow> bucket_at B L n b t'"
  by (induction rule: bucket_at.induct) (auto intro: bucket_at.intros)

lemma in_seconds_add: "in_seconds (s + t) = in_seconds s + in_seconds t"
  by (simp add: in_seconds_def add_divide_distrib)

lemma in_seconds_nonneg: "0 \<le> t \<Longrightarrow> 0 \<le> in_seconds t"
  by (simp add: in_seconds_def)

text \<open>Tokens accrue from any instant the bucket is known at.\<close>

lemma tokens_accrue:
  assumes laws: "bucket_laws B L n" and L: "0 \<le> L" and b: "bucket_at B L n b t" and "t \<le> t'"
  shows "rl_tokens_at B b t' = min (real n) (rl_tokens_at B b t + L * in_seconds (t' - t))"
  using b \<open>t \<le> t'\<close>
proof (cases rule: bucket_at.cases)
  case fresh
  have "0 \<le> L * in_seconds (t' - t)" using L \<open>t \<le> t'\<close> by (intro mult_nonneg_nonneg in_seconds_nonneg) auto
  with fresh laws show ?thesis by (simp add: bucket_laws_def)
next
  case (spent b0 t0 t1)
  have b0: "bucket_at B L n b0 t1" by (rule bucket_at_later [OF spent(2,3)])
  have eq: "rl_tokens_at B (rl_reserve B b0 t1) u =
      min (real n) (rl_tokens_at B b0 t1 - 1 + L * in_seconds (u - t1))" if "t1 \<le> u" for u
    using laws b0 that unfolding bucket_laws_def by blast
  have "in_seconds (t' - t1) = in_seconds (t - t1) + in_seconds (t' - t)"
    using in_seconds_add [of "t - t1" "t' - t"] by simp
  moreover have "0 \<le> L * in_seconds (t' - t)" using L \<open>t \<le> t'\<close> by (intro mult_nonneg_nonneg in_seconds_nonneg) auto
  ultimately show ?thesis using spent \<open>t \<le> t'\<close> eq [of t] eq [of t']
    by (auto simp: min_def distrib_left)
qed

lemma tokens_le_burst:
  "bucket_laws B L n \<Longrightarrow> 0 \<le> L \<Longrightarrow> bucket_at B L n b t \<Longrightarrow> rl_tokens_at B b t \<le> real n"
  using tokens_accrue [of B L n b t t] by simp

lemma tokens_mono:
  assumes "bucket_laws B L n" and "0 \<le> L" and "bucket_at B L n b t" and "t \<le> t'"
  shows "rl_tokens_at B b t \<le> rl_tokens_at B b t'"
proof -
  have "0 \<le> L * in_seconds (t' - t)" using assms(2,4) by (intro mult_nonneg_nonneg in_seconds_nonneg) auto
  then show ?thesis
    unfolding tokens_accrue [OF assms] using tokens_le_burst [OF assms(1-3)] by simp
qed

section \<open>The limiter\<close>

definition max_buckets_before_sweep :: nat where "max_buckets_before_sweep = 10000"
definition hard_bucket_cap :: nat where "hard_bucket_cap = 50000"

record 'b bucket =
  bk_key :: string
  bk_lim :: 'b
  bk_seen :: instant

record memory_config =
  mc_limit :: real
  mc_burst :: nat
  mc_window :: instant

record 'b memory =
  mem_buckets :: "'b bucket list"
  mem_last_sweep :: instant

definition new_memory_config :: "nat \<Rightarrow> instant \<Rightarrow> memory_config" where
  "new_memory_config limit window =
     \<lparr>mc_limit = real limit / in_seconds window, mc_burst = limit, mc_window = window\<rparr>"

definition empty_memory :: "'b memory" where
  "empty_memory = \<lparr>mem_buckets = [], mem_last_sweep = zero_time\<rparr>"

definition sweep_locked :: "memory_config \<Rightarrow> instant \<Rightarrow> 'b memory \<Rightarrow> 'b memory" where
  "sweep_locked M now m =
     m\<lparr>mem_last_sweep := now,
       mem_buckets := delete_rows (\<lambda>b. bk_seen b < now - 2 * mc_window M) (mem_buckets m)\<rparr>"

text \<open>
  \<open>enum\<close> is the order in which the Go map hands out its entries; the sort that follows is
  not stable either, so any order of the ties is an order of \<open>enum\<close>.
\<close>

definition evict_oldest_locked :: "('b bucket list \<Rightarrow> 'b bucket list) \<Rightarrow> nat \<Rightarrow> 'b memory \<Rightarrow> 'b memory" where
  "evict_oldest_locked enum n m =
     (if n = 0 then m
      else let gone = map bk_key (take n (sort_key bk_seen (enum (mem_buckets m))))
           in m\<lparr>mem_buckets := delete_rows (\<lambda>b. bk_key b \<in> set gone) (mem_buckets m)\<rparr>)"

definition make_room ::
    "memory_config \<Rightarrow> ('b bucket list \<Rightarrow> 'b bucket list) \<Rightarrow> instant \<Rightarrow> 'b memory \<Rightarrow> 'b memory" where
  "make_room M enum now m =
     (if hard_bucket_cap \<le> length (mem_buckets m) then
        let m' = sweep_locked M now m in
        if hard_bucket_cap \<le> length (mem_buckets m')
        then evict_oldest_locked enum (length (mem_buckets m') div 4) m' else m'
      else if max_buckets_before_sweep \<le> length (mem_buckets m) \<and> mc_window M \<le> now - mem_last_sweep m
      then sweep_locked M now m else m)"

definition touch :: "'b bucket_lib \<Rightarrow> memory_config \<Rightarrow> instant \<Rightarrow> string \<Rightarrow> 'b memory \<Rightarrow> 'b \<times> 'b memory" where
  "touch B M now key m =
     (case find (\<lambda>b. bk_key b = key) (mem_buckets m) of
        None \<Rightarrow>
          (let l = rl_new B (mc_limit M) (mc_burst M)
           in (l, m\<lparr>mem_buckets := mem_buckets m @ [\<lparr>bk_key = key, bk_lim = l, bk_seen = now\<rparr>]\<rparr>))
      | Some b \<Rightarrow>
          (bk_lim b, m\<lparr>mem_buckets := update_rows (\<lambda>b. bk_key b = key) (bk_seen_update (\<lambda>_. now)) (mem_buckets m)\<rparr>))"

definition bucket_locked ::
    "'b bucket_lib \<Rightarrow> memory_config \<Rightarrow> ('b bucket list \<Rightarrow> 'b bucket list) \<Rightarrow> instant \<Rightarrow> string \<Rightarrow>
     'b memory \<Rightarrow> 'b \<times> 'b memory" where
  "bucket_locked B M enum now key m = touch B M now key (make_room M enum now m)"

definition decide :: "memory_config \<Rightarrow> real \<Rightarrow> decision" where
  "decide M tokens =
     (if 1 \<le> tokens then \<lparr>d_allowed = True, d_retry_after = 0\<rparr>
      else if mc_limit M \<le> 0 then \<lparr>d_allowed = False, d_retry_after = mc_window M\<rparr>
      else let r0 = \<lfloor>(1 - tokens) / mc_limit M * of_int second\<rfloor>;
               r1 = (if mc_window M < r0 then mc_window M else r0)
           in \<lparr>d_allowed = False, d_retry_after = (if r1 < 0 then 0 else r1)\<rparr>)"

definition mem_allow ::
    "'b bucket_lib \<Rightarrow> memory_config \<Rightarrow> ('b bucket list \<Rightarrow> 'b bucket list) \<Rightarrow> instant \<Rightarrow> string \<Rightarrow>
     'b memory \<Rightarrow> decision \<times> 'b memory" where
  "mem_allow B M enum now key m =
     (case bucket_locked B M enum now key m of (l, m') \<Rightarrow> (decide M (rl_tokens_at B l now), m'))"

definition mem_record ::
    "'b bucket_lib \<Rightarrow> memory_config \<Rightarrow> ('b bucket list \<Rightarrow> 'b bucket list) \<Rightarrow> instant \<Rightarrow> string \<Rightarrow>
     'b memory \<Rightarrow> 'b memory" where
  "mem_record B M enum now key m =
     (case bucket_locked B M enum now key m of (l, m') \<Rightarrow>
        m'\<lparr>mem_buckets := update_rows (\<lambda>b. bk_key b = key)
             (bk_lim_update (\<lambda>_. rl_reserve B l now)) (mem_buckets m')\<rparr>)"

definition memory_limiter ::
    "'b bucket_lib \<Rightarrow> memory_config \<Rightarrow> ('b bucket list \<Rightarrow> 'b bucket list) \<Rightarrow> 'b memory limiter" where
  "memory_limiter B M enum = \<lparr>l_allow = mem_allow B M enum, l_record = mem_record B M enum\<rparr>"

section \<open>The map stays bounded\<close>

definition enumerates :: "('b bucket list \<Rightarrow> 'b bucket list) \<Rightarrow> bool" where
  "enumerates enum = (\<forall>bs. mset (enum bs) = mset bs)"

definition mem_ok :: "'b memory \<Rightarrow> bool" where
  "mem_ok m = (keyed bk_key (mem_buckets m) \<and> length (mem_buckets m) \<le> hard_bucket_cap)"

lemma length_delete_rows: "length (delete_rows P t) \<le> length t"
  by (simp add: delete_rows_def)

lemma delete_keys_length:
  assumes "keyed key t" and "distinct ks" and "set ks \<subseteq> key ` set t"
  shows "length (delete_rows (\<lambda>r. key r \<in> set ks) t) + length ks = length t"
proof -
  have "length (filter (\<lambda>r. key r \<in> set ks) t) = card (key ` set (filter (\<lambda>r. key r \<in> set ks) t))"
    using assms(1) by (metis distinct_card distinct_map_filter keyed_def length_map set_map)
  also have "key ` set (filter (\<lambda>r. key r \<in> set ks) t) = set ks" using assms(3) by auto
  also have "card (set ks) = length ks" using assms(2) by (rule distinct_card)
  finally have "length (filter (\<lambda>r. key r \<in> set ks) t) = length ks" .
  with sum_length_filter_compl [of "\<lambda>r. key r \<in> set ks" t] show ?thesis by (simp add: delete_rows_def)
qed

lemma evict_length:
  assumes "enumerates enum" and "keyed bk_key (mem_buckets m)" and "n \<le> length (mem_buckets m)"
  shows "length (mem_buckets (evict_oldest_locked enum n m)) + n = length (mem_buckets m)"
proof (cases "n = 0")
  case False
  let ?s = "sort_key bk_seen (enum (mem_buckets m))"
  let ?gone = "map bk_key (take n ?s)"
  have ms: "mset ?s = mset (mem_buckets m)" using assms(1) by (simp add: enumerates_def)
  then have len: "length ?s = length (mem_buckets m)" by (metis size_mset)
  have "mset (map bk_key ?s) = mset (map bk_key (mem_buckets m))" using ms by simp
  then have "distinct (map bk_key ?s)" using assms(2) unfolding keyed_def by (metis mset_eq_imp_distinct_iff)
  then have "distinct ?gone" by (simp add: take_map flip: take_map)
  moreover have "set ?gone \<subseteq> bk_key ` set (mem_buckets m)"
    using mset_eq_setD [OF ms] by (auto dest: in_set_takeD)
  ultimately show ?thesis
    using delete_keys_length [OF assms(2), of ?gone] len assms(3) False
    by (simp add: evict_oldest_locked_def Let_def del: set_map)
qed (simp add: evict_oldest_locked_def)

lemma make_room_room:
  assumes "enumerates enum" and "mem_ok m"
  shows "keyed bk_key (mem_buckets (make_room M enum now m)) \<and>
    length (mem_buckets (make_room M enum now m)) < hard_bucket_cap"
proof -
  let ?m = "sweep_locked M now m"
  have k: "keyed bk_key (mem_buckets m)" "length (mem_buckets m) \<le> hard_bucket_cap"
    using assms(2) by (simp_all add: mem_ok_def)
  have s: "keyed bk_key (mem_buckets ?m)" "length (mem_buckets ?m) \<le> length (mem_buckets m)"
    using k by (simp_all add: sweep_locked_def keyed_delete_rows length_delete_rows)
  have e: "keyed bk_key (mem_buckets (evict_oldest_locked enum n ?m))" for n
    using s by (simp add: evict_oldest_locked_def Let_def keyed_delete_rows)
  have "length (mem_buckets (evict_oldest_locked enum (length (mem_buckets ?m) div 4) ?m)) < hard_bucket_cap"
    if "hard_bucket_cap \<le> length (mem_buckets ?m)"
    using evict_length [OF assms(1) s(1), of "length (mem_buckets ?m) div 4"] that k(2) s(2)
    by (simp add: hard_bucket_cap_def)
  then show ?thesis using k s e by (auto simp: make_room_def Let_def)
qed

lemma keys_update_rows:
  assumes "\<And>r. P r \<Longrightarrow> key (f r) = key r"
  shows "key ` set (update_rows P f t) = key ` set t"
proof -
  have "map key (update_rows P f t) = map key t" using assms by (simp add: update_rows_def)
  then show ?thesis by (metis set_map)
qed

lemma touch_keys:
  "bk_key ` set (mem_buckets (snd (touch B M now key m))) = insert key (bk_key ` set (mem_buckets m))"
  by (auto simp: touch_def Let_def keys_update_rows dest!: find_in_set split: option.split)

lemma touch_ok:
  assumes "keyed bk_key (mem_buckets m)" and "length (mem_buckets m) < hard_bucket_cap"
  shows "mem_ok (snd (touch B M now key m))"
proof (cases "find (\<lambda>b. bk_key b = key) (mem_buckets m)")
  case None
  then have "key \<notin> bk_key ` set (mem_buckets m)" by (auto simp: find_None_iff)
  with None assms show ?thesis by (simp add: touch_def mem_ok_def Let_def keyed_def)
next
  case (Some b)
  with assms show ?thesis
    by (simp add: touch_def mem_ok_def keyed_update_rows) (simp add: update_rows_def)
qed

lemma mem_allow_ok: "enumerates enum \<Longrightarrow> mem_ok m \<Longrightarrow> mem_ok (snd (mem_allow B M enum now key m))"
  using touch_ok [OF conjunct1 [OF make_room_room] conjunct2 [OF make_room_room], of enum m]
  by (simp add: mem_allow_def bucket_locked_def case_prod_unfold)

lemma mem_record_ok:
  assumes "enumerates enum" and "mem_ok m"
  shows "mem_ok (mem_record B M enum now key m)"
proof -
  have "mem_ok (snd (touch B M now key (make_room M enum now m)))"
    using make_room_room [OF assms] by (intro touch_ok) auto
  then show ?thesis
    by (simp add: mem_record_def bucket_locked_def case_prod_unfold mem_ok_def keyed_update_rows)
      (simp add: update_rows_def)
qed

end
