(* ===== verification/RateLimitProps.thy ===== *)
theory RateLimitProps
  imports RateLimit
begin

text \<open>
  What the limiter promises. Its reference is the ideal limiter that keeps a bucket for every
  key for ever; the simulation between them shows that sweeping idle buckets is invisible as
  long as no bucket was overdrawn and the map stays below its hard cap.
\<close>

section \<open>Runs of the limiter and of the ideal one\<close>

datatype limit_op = AllowOp instant string | RecordOp instant string

fun op_time :: "limit_op \<Rightarrow> instant" where
  "op_time (AllowOp t k) = t"
| "op_time (RecordOp t k) = t"

fun op_key :: "limit_op \<Rightarrow> string" where
  "op_key (AllowOp t k) = k"
| "op_key (RecordOp t k) = k"

fun mem_run ::
    "'b bucket_lib \<Rightarrow> memory_config \<Rightarrow> ('b bucket list \<Rightarrow> 'b bucket list) \<Rightarrow> limit_op list \<Rightarrow> 'b memory \<Rightarrow>
     decision list" where
  "mem_run B M enum [] m = []"
| "mem_run B M enum (AllowOp t k # ops) m =
     (case mem_allow B M enum t k m of (d, m') \<Rightarrow> d # mem_run B M enum ops m')"
| "mem_run B M enum (RecordOp t k # ops) m = mem_run B M enum ops (mem_record B M enum t k m)"

fun ideal_run :: "'b bucket_lib \<Rightarrow> memory_config \<Rightarrow> limit_op list \<Rightarrow> (string \<Rightarrow> 'b) \<Rightarrow> decision list" where
  "ideal_run B M [] I = []"
| "ideal_run B M (AllowOp t k # ops) I = decide M (rl_tokens_at B (I k) t) # ideal_run B M ops I"
| "ideal_run B M (RecordOp t k # ops) I = ideal_run B M ops (I(k := rl_reserve B (I k) t))"

text \<open>Every use recorded finds a token: what a caller that pairs the two operations does.\<close>

fun never_overdrawn :: "'b bucket_lib \<Rightarrow> limit_op list \<Rightarrow> (string \<Rightarrow> 'b) \<Rightarrow> bool" where
  "never_overdrawn B [] I = True"
| "never_overdrawn B (AllowOp t k # ops) I = never_overdrawn B ops I"
| "never_overdrawn B (RecordOp t k # ops) I =
     (1 \<le> rl_tokens_at B (I k) t \<and> never_overdrawn B ops (I(k := rl_reserve B (I k) t)))"

definition ideal_start :: "'b bucket_lib \<Rightarrow> memory_config \<Rightarrow> string \<Rightarrow> 'b" where
  "ideal_start B M k = rl_new B (mc_limit M) (mc_burst M)"

section \<open>The simulation\<close>

definition sim_bucket :: "'b bucket_lib \<Rightarrow> memory_config \<Rightarrow> instant \<Rightarrow> (string \<Rightarrow> 'b) \<Rightarrow> 'b bucket \<Rightarrow> bool" where
  "sim_bucket B M now I b =
     (bk_seen b \<le> now \<and> bucket_at B (mc_limit M) (mc_burst M) (bk_lim b) (bk_seen b) \<and>
      0 \<le> rl_tokens_at B (bk_lim b) (bk_seen b) \<and>
      (\<forall>t \<ge> now. rl_tokens_at B (bk_lim b) t = rl_tokens_at B (I (bk_key b)) t))"

definition full_from :: "'b bucket_lib \<Rightarrow> memory_config \<Rightarrow> instant \<Rightarrow> 'b \<Rightarrow> bool" where
  "full_from B M now l = (\<forall>t \<ge> now. rl_tokens_at B l t = real (mc_burst M))"

definition sim :: "'b bucket_lib \<Rightarrow> memory_config \<Rightarrow> instant \<Rightarrow> string set \<Rightarrow> 'b memory \<Rightarrow> (string \<Rightarrow> 'b) \<Rightarrow> bool" where
  "sim B M now K m I =
     (keyed bk_key (mem_buckets m) \<and> bk_key ` set (mem_buckets m) \<subseteq> K \<and>
      (\<forall>b \<in> set (mem_buckets m). sim_bucket B M now I b) \<and>
      (\<forall>k. k \<notin> bk_key ` set (mem_buckets m) \<longrightarrow> full_from B M now (I k)) \<and>
      (\<forall>k. bucket_at B (mc_limit M) (mc_burst M) (I k) now))"

definition sound_config :: "'b bucket_lib \<Rightarrow> memory_config \<Rightarrow> bool" where
  "sound_config B M =
     (bucket_laws B (mc_limit M) (mc_burst M) \<and> 0 < mc_window M \<and>
      mc_limit M * in_seconds (mc_window M) = real (mc_burst M))"

lemma window_pos: "0 < w \<Longrightarrow> 0 < in_seconds w"
  by (simp add: in_seconds_def)

lemma sound_limit: "sound_config B M \<Longrightarrow> 0 \<le> mc_limit M"
proof -
  assume c: "sound_config B M"
  then have "0 < in_seconds (mc_window M)" by (simp add: sound_config_def window_pos)
  moreover have "0 \<le> mc_limit M * in_seconds (mc_window M)" using c by (simp add: sound_config_def)
  ultimately show ?thesis by (simp add: zero_le_mult_iff)
qed

lemma sound_new: "0 < w \<Longrightarrow> bucket_laws B (mc_limit (new_memory_config n w)) n \<Longrightarrow> sound_config B (new_memory_config n w)"
  using window_pos [of w] by (simp add: sound_config_def new_memory_config_def)

lemma sim_later: "sim B M now K m I \<Longrightarrow> now \<le> t \<Longrightarrow> sim B M t K m I"
  by (auto simp: sim_def sim_bucket_def full_from_def intro: bucket_at_later)

text \<open>A bucket that was not seen for two windows is full.\<close>

lemma idle_full:
  assumes "sound_config B M" and "sim_bucket B M now I b" and "bk_seen b < now - 2 * mc_window M"
  shows "full_from B M now (I (bk_key b))"
  unfolding full_from_def
proof (intro allI impI)
  fix t assume t: "now \<le> t"
  have b: "bucket_at B (mc_limit M) (mc_burst M) (bk_lim b) (bk_seen b)" "bk_seen b \<le> t"
    and pos: "0 \<le> rl_tokens_at B (bk_lim b) (bk_seen b)"
    and same: "rl_tokens_at B (I (bk_key b)) t = rl_tokens_at B (bk_lim b) t"
    using assms(2) t by (auto simp: sim_bucket_def)
  have "in_seconds (mc_window M) \<le> in_seconds (t - bk_seen b)"
    using assms(1,3) t by (simp add: sound_config_def in_seconds_def divide_right_mono)
  then have "mc_limit M * in_seconds (mc_window M) \<le> mc_limit M * in_seconds (t - bk_seen b)"
    using sound_limit [OF assms(1)] by (rule mult_left_mono)
  moreover have "mc_limit M * in_seconds (mc_window M) = real (mc_burst M)"
    using assms(1) by (simp add: sound_config_def)
  ultimately have "real (mc_burst M) \<le> rl_tokens_at B (bk_lim b) (bk_seen b) + mc_limit M * in_seconds (t - bk_seen b)"
    using pos by simp
  then show "rl_tokens_at B (I (bk_key b)) t = real (mc_burst M)"
    unfolding same using tokens_accrue [OF _ sound_limit [OF assms(1)] b] assms(1)
    by (simp add: sound_config_def min_def)
qed

lemma sim_sweep:
  assumes "sound_config B M" and "sim B M now K m I"
  shows "sim B M now K (sweep_locked M now m) I"
proof -
  let ?old = "\<lambda>b. bk_seen b < now - 2 * mc_window M"
  have "full_from B M now (I k)" if "k \<notin> bk_key ` set (delete_rows ?old (mem_buckets m))" for k
  proof (cases "k \<in> bk_key ` set (mem_buckets m)")
    case True
    then obtain b where b: "b \<in> set (mem_buckets m)" "k = bk_key b" by blast
    with that have "?old b" by (auto simp: table_simps)
    then show ?thesis using idle_full [OF assms(1)] assms(2) b by (auto simp: sim_def)
  qed (use assms(2) in \<open>simp add: sim_def\<close>)
  then show ?thesis using assms(2) unfolding sim_def sweep_locked_def
    by (auto simp: keyed_delete_rows table_simps)
qed

lemma sim_make_room:
  assumes "sound_config B M" and "sim B M now K m I" and "finite K" and "card K < hard_bucket_cap"
  shows "sim B M now K (make_room M enum now m) I"
proof -
  have "length (mem_buckets m) = card (bk_key ` set (mem_buckets m))"
    using assms(2) by (simp add: sim_def keyed_def) (metis distinct_card length_map set_map)
  also have "\<dots> \<le> card K" using assms(2,3) by (intro card_mono) (simp_all add: sim_def)
  finally have "length (mem_buckets m) < hard_bucket_cap" using assms(4) by simp
  then show ?thesis using sim_sweep [OF assms(1,2)] assms(2) by (simp add: make_room_def)
qed

lemma sim_bucket_touched:
  assumes "sound_config B M" and "sim_bucket B M now I b"
  shows "sim_bucket B M now I (b\<lparr>bk_seen := now\<rparr>)"
  using assms tokens_mono [of B "mc_limit M" "mc_burst M" "bk_lim b" "bk_seen b" now] sound_limit [OF assms(1)]
  by (auto simp: sim_bucket_def sound_config_def intro: bucket_at_later)

text \<open>After a touch the bucket of the key is there, current, and reads as the ideal one.\<close>

lemma sim_touch:
  assumes c: "sound_config B M" and s: "sim B M now K m I" and "k \<in> K" and t: "touch B M now k m = (l, m')"
  shows "sim B M now K m' I" and "\<exists>b \<in> set (mem_buckets m'). bk_key b = k \<and> bk_lim b = l \<and> bk_seen b = now"
proof -
  have "sim B M now K m' I \<and> (\<exists>b \<in> set (mem_buckets m'). bk_key b = k \<and> bk_lim b = l \<and> bk_seen b = now)"
  proof (cases "find (\<lambda>b. bk_key b = k) (mem_buckets m)")
    case None
    let ?b = "\<lparr>bk_key = k, bk_lim = l, bk_seen = now\<rparr>"
    have l: "l = rl_new B (mc_limit M) (mc_burst M)" and m': "mem_buckets m' = mem_buckets m @ [?b]"
      using t None by (auto simp: touch_def Let_def)
    have k: "k \<notin> bk_key ` set (mem_buckets m)" using None by (auto simp: find_None_iff)
    then have "full_from B M now (I k)" using s by (simp add: sim_def)
    then have "sim_bucket B M now I ?b"
      using c unfolding l by (simp add: sim_bucket_def full_from_def sound_config_def bucket_laws_def bucket_at.fresh)
    then show ?thesis using s k assms(3) unfolding sim_def m' by (auto simp: keyed_def)
  next
    case (Some b)
    then have b: "b \<in> set (mem_buckets m)" "bk_key b = k" by (auto dest: find_in_set)
    have l: "l = bk_lim b"
      and m': "mem_buckets m' = update_rows (\<lambda>b. bk_key b = k) (bk_seen_update (\<lambda>_. now)) (mem_buckets m)"
      using t Some by (auto simp: touch_def)
    have "if bk_key r = k then sim_bucket B M now I (r\<lparr>bk_seen := now\<rparr>) else sim_bucket B M now I r" if "r \<in> set (mem_buckets m)" for r
      using s that sim_bucket_touched [OF c] by (simp add: sim_def)
    then have "\<forall>r \<in> set (mem_buckets m'). sim_bucket B M now I r"
      unfolding m' ball_update_rows by blast
    moreover have "keyed bk_key (mem_buckets m')" "bk_key ` set (mem_buckets m') = bk_key ` set (mem_buckets m)"
      using s unfolding m' by (simp_all add: sim_def keyed_update_rows keys_update_rows)
    moreover have "\<exists>b \<in> set (mem_buckets m'). bk_key b = k \<and> bk_lim b = l \<and> bk_seen b = now"
      unfolding m' bex_update_rows using b l by (intro bexI [of _ b]) auto
    ultimately show ?thesis using s by (simp add: sim_def)
  qed
  then show "sim B M now K m' I" and "\<exists>b \<in> set (mem_buckets m'). bk_key b = k \<and> bk_lim b = l \<and> bk_seen b = now"
    by blast+
qed

lemma sim_bucket_locked:
  assumes "sound_config B M" and "sim B M now K m I" and "k \<in> K" and "finite K" and "card K < hard_bucket_cap"
    and "bucket_locked B M enum now k m = (l, m')"
  shows "sim B M now K m' I" and "\<exists>b \<in> set (mem_buckets m'). bk_key b = k \<and> bk_lim b = l \<and> bk_seen b = now"
  using sim_touch [OF assms(1) sim_make_room [OF assms(1,2,4,5)] assms(3)] assms(6)
  unfolding bucket_locked_def by blast+

lemma sim_allow:
  assumes "sound_config B M" and "sim B M now K m I" and "k \<in> K" and "finite K" and "card K < hard_bucket_cap"
    and "mem_allow B M enum now k m = (d, m')"
  shows "sim B M now K m' I \<and> d = decide M (rl_tokens_at B (I k) now)"
proof -
  obtain l where l: "bucket_locked B M enum now k m = (l, m')" and d: "d = decide M (rl_tokens_at B l now)"
    using assms(6) by (auto simp: mem_allow_def split: prod.splits)
  note locked = sim_bucket_locked [OF assms(1-5) l]
  then obtain b where "b \<in> set (mem_buckets m')" "bk_key b = k" "bk_lim b = l" by blast
  with locked(1) have "rl_tokens_at B l now = rl_tokens_at B (I k) now"
    by (auto simp: sim_def sim_bucket_def)
  with locked(1) d show ?thesis by simp
qed

lemma sim_record:
  assumes c: "sound_config B M" and s: "sim B M now K m I" and K: "k \<in> K" "finite K" "card K < hard_bucket_cap"
    and one: "1 \<le> rl_tokens_at B (I k) now"
  shows "sim B M now K (mem_record B M enum now k m) (I(k := rl_reserve B (I k) now))"
proof -
  let ?L = "mc_limit M" and ?n = "mc_burst M" and ?I = "I(k := rl_reserve B (I k) now)"
  obtain l m' where lm: "bucket_locked B M enum now k m = (l, m')" by fastforce
  note locked = sim_bucket_locked [OF c s K lm]
  then obtain b where b: "b \<in> set (mem_buckets m')" "bk_key b = k" "bk_lim b = l" "bk_seen b = now" by blast
  let ?f = "bk_lim_update (\<lambda>_. rl_reserve B l now) :: 'a bucket \<Rightarrow> 'a bucket"
  let ?bs = "update_rows (\<lambda>b. bk_key b = k) ?f (mem_buckets m')"
  have uniq: "r = b" if "r \<in> set (mem_buckets m')" "bk_key r = k" for r
    using locked(1) b(1,2) that by (auto simp: sim_def intro: keyed_unique)
  have bl: "bucket_at B ?L ?n l now" and bi: "bucket_at B ?L ?n (I k) now"
    and same: "\<And>t. now \<le> t \<Longrightarrow> rl_tokens_at B l t = rl_tokens_at B (I k) t"
    using locked(1) b by (auto simp: sim_def sim_bucket_def)
  have laws: "bucket_laws B ?L ?n" using c by (simp add: sound_config_def)
  have spend: "rl_tokens_at B (rl_reserve B x now) t = min (real ?n) (rl_tokens_at B x now - 1 + ?L * in_seconds (t - now))"
    if "bucket_at B ?L ?n x now" "now \<le> t" for x t
    using laws that unfolding bucket_laws_def by blast
  have "1 \<le> real ?n" using tokens_le_burst [OF laws sound_limit [OF c] bi] one by simp
  then have "0 \<le> rl_tokens_at B (rl_reserve B l now) now"
    using spend [OF bl, of now] same [of now] one by (simp add: in_seconds_def)
  then have new: "sim_bucket B M now ?I (?f b)"
    using b bl bi spend same by (auto simp: sim_bucket_def intro: bucket_at.spent)
  have "if bk_key r = k then sim_bucket B M now ?I (?f r) else sim_bucket B M now ?I r" if r: "r \<in> set (mem_buckets m')" for r
  proof (cases "bk_key r = k")
    case True
    then show ?thesis using new uniq [OF r True] by simp
  next
    case False
    then show ?thesis using locked(1) r by (simp add: sim_def sim_bucket_def)
  qed
  then have "\<forall>r \<in> set ?bs. sim_bucket B M now ?I r" unfolding ball_update_rows by blast
  moreover have "keyed bk_key ?bs" "bk_key ` set ?bs = bk_key ` set (mem_buckets m')"
    using locked(1) by (simp_all add: sim_def keyed_update_rows keys_update_rows)
  moreover have "bucket_at B ?L ?n (?I k') now" for k'
    using locked(1) bi by (auto simp: sim_def intro: bucket_at.spent)
  moreover have "full_from B M now (?I k')" if "k' \<notin> bk_key ` set (mem_buckets m')" for k'
    using locked(1) b(1,2) that by (auto simp: sim_def)
  moreover have "mem_buckets (mem_record B M enum now k m) = ?bs" by (simp add: mem_record_def lm)
  moreover have "bk_key ` set (mem_buckets m') \<subseteq> K" using locked(1) by (simp add: sim_def)
  ultimately show ?thesis unfolding sim_def by simp
qed

lemma sim_run:
  assumes "sound_config B M" and "finite K" and "card K < hard_bucket_cap"
  shows "sim B M now K m I \<Longrightarrow> sorted (now # map op_time ops) \<Longrightarrow> op_key ` set ops \<subseteq> K \<Longrightarrow>
    never_overdrawn B ops I \<Longrightarrow> mem_run B M enum ops m = ideal_run B M ops I"
proof (induction ops arbitrary: now m I)
  case (Cons op ops)
  show ?case
  proof (cases op)
    case (AllowOp t k)
    obtain d m' where a: "mem_allow B M enum t k m = (d, m')" by fastforce
    have "sim B M t K m I" using sim_later [OF Cons.prems(1)] Cons.prems(2) AllowOp by simp
    from sim_allow [OF assms(1) this _ assms(2,3) a]
    have "sim B M t K m' I \<and> d = decide M (rl_tokens_at B (I k) t)" using Cons.prems(3) AllowOp by simp
    moreover have "mem_run B M enum ops m' = ideal_run B M ops I"
      using Cons.prems calculation AllowOp by (intro Cons.IH [of t]) auto
    ultimately show ?thesis using AllowOp a by simp
  next
    case (RecordOp t k)
    have "sim B M t K m I" using sim_later [OF Cons.prems(1)] Cons.prems(2) RecordOp by simp
    from sim_record [OF assms(1) this _ assms(2,3)]
    have "sim B M t K (mem_record B M enum t k m) (I(k := rl_reserve B (I k) t))"
      using Cons.prems(3,4) RecordOp by simp
    moreover have "mem_run B M enum ops (mem_record B M enum t k m) = ideal_run B M ops (I(k := rl_reserve B (I k) t))"
      using Cons.prems calculation RecordOp by (intro Cons.IH [of t]) (auto simp del: fun_upd_apply simp: fun_upd_def)
    ultimately show ?thesis using RecordOp by simp
  qed
qed simp

lemma sim_start:
  assumes "sound_config B M"
  shows "sim B M now K empty_memory (ideal_start B M)"
  using assms by (auto simp: sim_def empty_memory_def keyed_def full_from_def ideal_start_def sound_config_def
      bucket_laws_def intro: bucket_at.fresh)


section \<open>Properties\<close>


lemma demo_config:
  "new_memory_config 3 hour = \<lparr>mc_limit = 1 / 1200, mc_burst = 3, mc_window = hour\<rparr>"
  by (simp add: new_memory_config_def in_seconds_def)

lemma demo_laws: "bucket_laws plain_bucket (mc_limit (new_memory_config 3 hour)) 3"
  unfolding demo_config by (rule plain_bucket_laws) simp

definition demo_ops :: "limit_op list" where
  "demo_ops = [AllowOp 0 ''a'', RecordOp 0 ''a'', AllowOp second ''a'', RecordOp second ''a'',
     AllowOp second ''b'', AllowOp (4 * hour) ''a'', RecordOp (4 * hour) ''a'']"


text \<open>Requests that go through \<open>limitEvery\<close>: a check, and a use when it was allowed.\<close>

fun limit_requests ::
    "'b bucket_lib \<Rightarrow> memory_config \<Rightarrow> ('b bucket list \<Rightarrow> 'b bucket list) \<Rightarrow> (instant \<times> string) list \<Rightarrow>
     'b memory \<Rightarrow> bool list \<times> 'b memory" where
  "limit_requests B M enum [] m = ([], m)"
| "limit_requests B M enum ((t, k) # rs) m =
     (case mem_allow B M enum t k m of (d, m1) \<Rightarrow>
        let m2 = (if d_allowed d then mem_record B M enum t k m1 else m1)
        in apfst (Cons (d_allowed d)) (limit_requests B M enum rs m2))"

definition admitted :: "string \<Rightarrow> (instant \<times> string) list \<Rightarrow> bool list \<Rightarrow> nat" where
  "admitted k rs bs = length (filter (\<lambda>x. snd (fst x) = k \<and> snd x) (zip rs bs))"

definition balance_ok :: "'b bucket_lib \<Rightarrow> instant \<Rightarrow> (string \<Rightarrow> 'b) \<Rightarrow> bool" where
  "balance_ok B now I = (\<forall>k. 0 \<le> rl_tokens_at B (I k) now)"

lemma sim_balance: "sound_config B M \<Longrightarrow> sim B M now K m I \<Longrightarrow> 0 \<le> rl_tokens_at B (I k) now"
proof (cases "k \<in> bk_key ` set (mem_buckets m)")
  case True
  assume c: "sound_config B M" and s: "sim B M now K m I"
  from True obtain b where b: "b \<in> set (mem_buckets m)" "k = bk_key b" by blast
  then have "sim_bucket B M now I b" using s by (simp add: sim_def)
  then show ?thesis
    using c b tokens_mono [of B "mc_limit M" "mc_burst M" "bk_lim b" "bk_seen b" now] sound_limit [OF c]
    by (auto simp: sim_bucket_def sound_config_def)
qed (auto simp: sim_def full_from_def)

lemma decide_allowed [simp]: "d_allowed (decide M x) \<longleftrightarrow> 1 \<le> x"
  by (simp add: decide_def Let_def)

text \<open>One request: the simulation goes on, and an admitted one costs its key a token.\<close>

lemma request_step:
  assumes c: "sound_config B M" and s: "sim B M now K m I" and "now \<le> t"
    and K: "k \<in> K" "finite K" "card K < hard_bucket_cap"
    and a: "mem_allow B M enum t k m = (d, m1)"
    and m2: "m2 = (if d_allowed d then mem_record B M enum t k m1 else m1)"
  shows "\<exists>I'. sim B M t K m2 I' \<and>
    (\<forall>k'. rl_tokens_at B (I' k') t + (if d_allowed d \<and> k' = k then 1 else 0)
       \<le> rl_tokens_at B (I k') now + mc_limit M * in_seconds (t - now))"
proof -
  have laws: "bucket_laws B (mc_limit M) (mc_burst M)" using c by (simp add: sound_config_def)
  have at_now: "bucket_at B (mc_limit M) (mc_burst M) (I k') now" for k' using s by (simp add: sim_def)
  have grow: "rl_tokens_at B (I k') t \<le> rl_tokens_at B (I k') now + mc_limit M * in_seconds (t - now)" for k'
    using tokens_accrue [OF laws sound_limit [OF c] at_now \<open>now \<le> t\<close>] by simp
  have sa: "sim B M t K m1 I" and d: "d = decide M (rl_tokens_at B (I k) t)"
    using sim_allow [OF c sim_later [OF s \<open>now \<le> t\<close>] K a] by simp_all
  show ?thesis
  proof (cases "d_allowed d")
    case True
    then have one: "1 \<le> rl_tokens_at B (I k) t" using d by simp
    let ?I = "I(k := rl_reserve B (I k) t)"
    have "bucket_at B (mc_limit M) (mc_burst M) (I k) t" by (rule bucket_at_later [OF at_now \<open>now \<le> t\<close>])
    then have "rl_tokens_at B (rl_reserve B (I k) t) t \<le> rl_tokens_at B (I k) t - 1"
      using laws unfolding bucket_laws_def by (simp add: in_seconds_def)
    moreover have "sim B M t K m2 ?I" using sim_record [OF c sa K one] m2 True by simp
    moreover have "rl_tokens_at B (?I k') t + (if d_allowed d \<and> k' = k then 1 else 0)
        \<le> rl_tokens_at B (I k') now + mc_limit M * in_seconds (t - now)" for k'
      using calculation(1) grow [of k'] grow [of k] True by auto
    ultimately show ?thesis by blast
  qed (use sa m2 grow in auto)
qed

lemma admitted_bound:
  assumes "sound_config B M" and "finite K" and "card K < hard_bucket_cap"
  shows "sim B M now K m I \<Longrightarrow> sorted (now # map fst rs @ [end]) \<Longrightarrow> snd ` set rs \<subseteq> K \<Longrightarrow>
    real (admitted k rs (fst (limit_requests B M enum rs m))) \<le>
      rl_tokens_at B (I k) now + mc_limit M * in_seconds (end - now)"
proof (induction rs arbitrary: now m I)
  case Nil
  have "0 \<le> mc_limit M * in_seconds (end - now)"
    using Nil sound_limit [OF assms(1)] by (simp add: in_seconds_nonneg)
  then show ?case using sim_balance [OF assms(1) Nil(1), of k] by (simp add: admitted_def)
next
  case (Cons r rs)
  obtain t k' where r: "r = (t, k')" by fastforce
  obtain d m1 where a: "mem_allow B M enum t k' m = (d, m1)" by fastforce
  let ?m2 = "if d_allowed d then mem_record B M enum t k' m1 else m1"
  have "now \<le> t" "k' \<in> K" using Cons.prems r by simp_all
  from request_step [OF assms(1) Cons.prems(1) this assms(2,3) a refl]
  obtain I' where I': "sim B M t K ?m2 I'"
    "rl_tokens_at B (I' k) t + (if d_allowed d \<and> k = k' then 1 else 0)
       \<le> rl_tokens_at B (I k) now + mc_limit M * in_seconds (t - now)" by blast
  have "real (admitted k rs (fst (limit_requests B M enum rs ?m2))) \<le>
      rl_tokens_at B (I' k) t + mc_limit M * in_seconds (end - t)"
    using Cons.prems r by (intro Cons.IH [OF I'(1)]) auto
  moreover have "mc_limit M * in_seconds (end - now) =
      mc_limit M * in_seconds (t - now) + mc_limit M * in_seconds (end - t)"
    using in_seconds_add [of "t - now" "end - t"] by (simp add: distrib_left)
  moreover have "admitted k (r # rs) (fst (limit_requests B M enum (r # rs) m)) =
      (if d_allowed d \<and> k = k' then 1 else 0) + admitted k rs (fst (limit_requests B M enum rs ?m2))"
    using r a by (auto simp: admitted_def Let_def)
  ultimately show ?case using I'(2) by (simp split: if_splits)
qed

lemma sim_requests:
  assumes "sound_config B M" and "finite K" and "card K < hard_bucket_cap"
  shows "sim B M now K m I \<Longrightarrow> sorted (now # map fst rs @ [end]) \<Longrightarrow> snd ` set rs \<subseteq> K \<Longrightarrow>
    \<exists>I'. sim B M end K (snd (limit_requests B M enum rs m)) I'"
proof (induction rs arbitrary: now m I)
  case Nil
  then show ?case using sim_later [OF Nil(1)] by auto
next
  case (Cons r rs)
  obtain t k' where r: "r = (t, k')" by fastforce
  obtain d m1 where a: "mem_allow B M enum t k' m = (d, m1)" by fastforce
  have "now \<le> t" "k' \<in> K" using Cons.prems r by simp_all
  from request_step [OF assms(1) Cons.prems(1) this assms(2,3) a refl]
  obtain I' where "sim B M t K (if d_allowed d then mem_record B M enum t k' m1 else m1) I'" by blast
  from Cons.IH [OF this] Cons.prems r a show ?case by (simp add: Let_def)
qed

lemma limit_requests_append:
  "limit_requests B M enum (xs @ ys) m =
     (let (bs, m') = limit_requests B M enum xs m; (cs, m'') = limit_requests B M enum ys m' in (bs @ cs, m''))"
  by (induction xs arbitrary: m) (auto simp: Let_def case_prod_unfold)



text \<open>
  C22. The map never holds more than the hard cap of buckets, under any flood of keys and any
  behaviour of the clock.
\<close>

fun mem_after ::
    "'b bucket_lib \<Rightarrow> memory_config \<Rightarrow> ('b bucket list \<Rightarrow> 'b bucket list) \<Rightarrow> limit_op list \<Rightarrow> 'b memory \<Rightarrow>
     'b memory" where
  "mem_after B M enum [] m = m"
| "mem_after B M enum (AllowOp t k # ops) m = mem_after B M enum ops (snd (mem_allow B M enum t k m))"
| "mem_after B M enum (RecordOp t k # ops) m = mem_after B M enum ops (mem_record B M enum t k m)"

lemma mem_after_ok: "enumerates enum \<Longrightarrow> mem_ok m \<Longrightarrow> mem_ok (mem_after B M enum ops m)"
  by (induction B M enum ops m rule: mem_after.induct) (simp_all add: mem_allow_ok mem_record_ok)

theorem buckets_bounded:
  assumes "enumerates enum"
  shows "length (mem_buckets (mem_after B M enum ops empty_memory)) \<le> 50000"
proof -
  have "mem_ok (mem_after B M enum ops empty_memory)"
    by (rule mem_after_ok [OF assms]) (simp add: mem_ok_def empty_memory_def keyed_def)
  then show ?thesis by (simp add: mem_ok_def hard_bucket_cap_def)
qed

theorem buckets_bounded_witness:
  "length (mem_buckets (mem_after plain_bucket (new_memory_config 3 hour) rev demo_ops empty_memory)) \<le> 50000"
  by (rule buckets_bounded) (simp add: enumerates_def)

text \<open>
  Overdrawn buckets are the exception: requests that are checked together and recorded
  together can take the balance below zero by more than two windows refill. Dropping such a
  bucket when it has been idle for two windows forgives the rest of its debt.
\<close>

definition demo_debt :: "(real \<times> nat \<times> real \<times> instant) memory" where
  "demo_debt =
     (let spend = RecordOp 0 ''a'' in
      mem_after plain_bucket (new_memory_config 3 hour) id
        [spend, spend, spend, spend, spend, spend, spend, spend, spend] empty_memory)"

definition debt_at :: "real \<Rightarrow> (real \<times> nat \<times> real \<times> instant) memory" where
  "debt_at k = \<lparr>mem_buckets = [\<lparr>bk_key = ''a'', bk_lim = (1 / 1200, 3, k, 0), bk_seen = 0\<rparr>],
     mem_last_sweep = zero_time\<rparr>"

lemma small_map: "length (mem_buckets m) < 10 \<Longrightarrow> make_room M id now m = m"
  by (simp add: make_room_def hard_bucket_cap_def max_buckets_before_sweep_def)

lemma debt_first: "mem_record plain_bucket (new_memory_config 3 hour) id 0 ''a'' empty_memory = debt_at 2"
  unfolding demo_config mem_record_def bucket_locked_def small_map [of empty_memory, unfolded empty_memory_def, simplified]
  by (simp add: touch_def Let_def empty_memory_def small_map debt_at_def plain_bucket_def in_seconds_def)

lemma debt_step:
  "k \<le> 3 \<Longrightarrow> mem_record plain_bucket (new_memory_config 3 hour) id 0 ''a'' (debt_at k) = debt_at (k - 1)"
  unfolding demo_config mem_record_def bucket_locked_def
  by (simp add: touch_def Let_def small_map debt_at_def plain_bucket_def in_seconds_def)

lemma demo_debt_eval: "demo_debt = debt_at (- 6)"
  unfolding demo_debt_def Let_def mem_after.simps debt_first by (simp only: debt_step) (simp add: debt_step)

theorem sweep_forgives_debt:
  "\<not> d_allowed (fst (mem_allow plain_bucket (new_memory_config 3 hour) id (2 * hour + 1) ''a'' demo_debt)) \<and>
   d_allowed (fst (mem_allow plain_bucket (new_memory_config 3 hour) id (2 * hour + 1) ''a''
     (sweep_locked (new_memory_config 3 hour) (2 * hour + 1) demo_debt)))"
  unfolding demo_debt_eval demo_config mem_allow_def bucket_locked_def
  by (simp add: small_map touch_def Let_def sweep_locked_def debt_at_def plain_bucket_def in_seconds_def)

end
