(* ===== verification/Matcher.thy ===== *)
theory Matcher
  imports World EventVocab "HOL-Library.List_Lexorder" "HOL-Library.Product_Lexorder"
begin

text \<open>
  The nightly match job (\<open>internal/matcher\<close>) and its queries: the tunable configuration, the
  score of a user and an event, the step that writes the matches, the embedders, the
  archiver, and the single-user re-score of the API. A step answers the error that stops it,
  as the Go functions do. The embedding model is a parameter.
\<close>

section \<open>Configuration\<close>

record match_cfg =
  w_string :: f64
  w_embedding :: f64
  score_threshold :: f64
  artist_factor :: f64
  genre_factor :: f64
  string_max :: f64

definition match_defaults :: match_cfg where
  "match_defaults =
     \<lparr>w_string = Fin 0.6, w_embedding = Fin 0.4, score_threshold = Fin 0.3,
      artist_factor = Fin 1, genre_factor = Fin 0.3, string_max = Fin 3\<rparr>"

text \<open>A number in JSON syntax, the way \<open>json.Number\<close> and \<open>ParseFloat\<close> read a quoted one.\<close>

definition digits_real :: "string \<Rightarrow> real" where
  "digits_real ds = of_nat (from_digits 10 (map (\<lambda>c. the (dec_val c)) ds))"

definition read_exponent :: "string \<Rightarrow> real option" where
  "read_exponent s =
     (case s of
        [] \<Rightarrow> Some 1
      | c # r \<Rightarrow>
          if c \<in> {CHR ''e'', CHR ''E''} then
            (let neg = has_prefix r ''-''; r' = (if neg \<or> has_prefix r ''+'' then tl r else r) in
             if r' = [] \<or> \<not> list_all is_dec r' then None
             else let p = 10 ^ from_digits 10 (map (\<lambda>c. the (dec_val c)) r')
                  in Some (if neg then 1 / p else p))
          else None)"

definition read_number :: "string \<Rightarrow> real option" where
  "read_number s =
     (let neg = has_prefix s ''-''; s1 = (if neg then tl s else s);
          whole = takeWhile is_dec s1; s2 = dropWhile is_dec s1;
          point = has_prefix s2 ''.''; s3 = (if point then tl s2 else s2);
          frac = (if point then takeWhile is_dec s3 else []);
          s4 = (if point then dropWhile is_dec s3 else s3)
      in if whole = [] \<or> (1 < length whole \<and> hd whole = CHR ''0'') \<or> (point \<and> frac = []) then None
         else map_option (\<lambda>p. (if neg then - 1 else 1) * (digits_real whole + digits_real frac / 10 ^ length frac) * p)
                (read_exponent s4))"

definition config_number :: "json \<Rightarrow> f64 option" where
  "config_number j =
     (case j of JNum x \<Rightarrow> Some x | JStr s \<Rightarrow> map_option Fin (read_number s) | _ \<Rightarrow> None)"

definition list_match_config :: "(string \<times> json) list query" where
  "list_match_config now d = Inr (sort_key (\<lambda>r. map byte_of (fst r)) (match_config d), d)"

definition overlay :: "string \<times> json \<Rightarrow> match_cfg \<Rightarrow> match_cfg" where
  "overlay r cfg =
     (case config_number (snd r) of
        None \<Rightarrow> cfg
      | Some f \<Rightarrow>
          if fst r = ''w_string'' then cfg\<lparr>w_string := f\<rparr>
          else if fst r = ''w_embedding'' then cfg\<lparr>w_embedding := f\<rparr>
          else if fst r = ''score_threshold'' then cfg\<lparr>score_threshold := f\<rparr>
          else if fst r = ''artist_factor'' then cfg\<lparr>artist_factor := f\<rparr>
          else if fst r = ''genre_factor'' then cfg\<lparr>genre_factor := f\<rparr>
          else if fst r = ''string_max'' then cfg\<lparr>string_max := f\<rparr>
          else cfg)"

text \<open>\<open>LoadConfig\<close>, which hands the defaults back with an error.\<close>

definition load_config :: "match_cfg \<Rightarrow> ('l, db_error option \<times> match_cfg) act" where
  "load_config def = do {
     rows \<leftarrow> db_call list_match_config;
     ret (case rows of Inl e \<Rightarrow> (Some e, def) | Inr rs \<Rightarrow> (None, fold overlay rs def)) }"

section \<open>The score\<close>

record interest =
  ni_value :: string
  ni_normalized :: string
  ni_weight :: f64

record user_profile =
  up_id :: uuid
  up_embedding :: "real list"
  up_threshold :: "f64 option"
  up_artists :: "interest list"
  up_genres :: "interest list"
  up_tags :: "interest list"

record event_profile =
  ep_id :: uuid
  ep_embedding :: "real list"
  ep_performers :: "(string \<times> string) list"   \<comment> \<open>display and normalized name\<close>
  ep_genres :: "string list"

record match_score =
  ms_string :: f64
  ms_embedding :: f64
  ms_total :: f64
  ms_performers :: "string list"
  ms_genres :: "string list"

definition cosine_similarity :: "real list \<Rightarrow> real list \<Rightarrow> real" where
  "cosine_similarity a b =
     (if a = [] \<or> b = [] \<or> length a \<noteq> length b then 0
      else let dot = sum_list (map2 (*) a b); na = sum_list (map (\<lambda>x. x * x) a);
               nb = sum_list (map (\<lambda>x. x * x) b)
           in if na = 0 \<or> nb = 0 then 0 else dot / (sqrt na * sqrt nb))"

text \<open>The performers by normalized name; of two with the same name the last stays.\<close>

definition performer_set :: "event_profile \<Rightarrow> string \<Rightarrow> string option" where
  "performer_set e = map_of (map (\<lambda>p. (snd p, fst p)) (rev (ep_performers e)))"

definition matched_artists :: "user_profile \<Rightarrow> event_profile \<Rightarrow> (interest \<times> string) list" where
  "matched_artists u e =
     List.map_filter (\<lambda>ui. map_option (Pair ui) (performer_set e (ni_normalized ui))) (up_artists u)"

definition matched_interests :: "user_profile \<Rightarrow> event_profile \<Rightarrow> interest list" where
  "matched_interests u e = filter (\<lambda>ui. ni_value ui \<in> set (ep_genres e)) (up_genres u @ up_tags u)"

text \<open>A running sum \<open>s += w * factor\<close> over interests.\<close>

definition weigh :: "f64 \<Rightarrow> interest list \<Rightarrow> f64" where
  "weigh factor uis = fold (\<lambda>ui s. s + ni_weight ui * factor) uis (Fin 0)"

definition clamp :: "f64 \<Rightarrow> f64" where
  "clamp x = (if Fin 1 < x then Fin 1 else if x < Fin 0 then Fin 0 else x)"

text \<open>The matched genres are a Go map's keys, whose order is arbitrary; here it is that of the interests.\<close>

definition score :: "user_profile \<Rightarrow> event_profile \<Rightarrow> match_cfg \<Rightarrow> match_score" where
  "score u e cfg =
     (let artist = weigh (artist_factor cfg) (map fst (matched_artists u e));
          genre = weigh (genre_factor cfg) (matched_interests u e);
          str = clamp ((artist + genre) / string_max cfg);
          emb = (if up_embedding u \<noteq> [] \<and> length (ep_embedding e) = length (up_embedding u)
                 then Fin ((cosine_similarity (up_embedding u) (ep_embedding e) + 1) / 2) else Fin 0)
      in \<lparr>ms_string = str, ms_embedding = emb,
          ms_total = w_string cfg * str + w_embedding cfg * emb,
          ms_performers = map snd (matched_artists u e),
          ms_genres = dedup_by (\<lambda>g. g) [] (map ni_value (matched_interests u e))\<rparr>)"

section \<open>Queries of the match step\<close>

text \<open>The rows of \<open>users\<close> for matching: id, embedding, threshold.\<close>

type_synonym match_user = "uuid \<times> real list option \<times> f64 option"

definition match_user_of :: "user_row \<Rightarrow> match_user" where
  "match_user_of r = (u_id r, u_embedding r, u_score_threshold r)"

definition get_user_for_matching :: "uuid \<Rightarrow> match_user query" where
  "get_user_for_matching u now d =
     (case find (\<lambda>r. u_id r = u \<and> u_deleted_at r = None) (users d) of
        None \<Rightarrow> Inl NoRows | Some r \<Rightarrow> Inr (match_user_of r, d))"

definition list_active_users_for_matching :: "match_user list query" where
  "list_active_users_for_matching now d =
     Inr (map match_user_of (filter (\<lambda>r. u_deleted_at r = None) (users d)), d)"

definition list_user_interests_batch :: "uuid list \<Rightarrow> interest_row list query" where
  "list_user_interests_batch us now d =
     Inr (sort_key (\<lambda>r. (ui_user_id r, - ui_weight r)) (filter (\<lambda>r. ui_user_id r \<in> set us) (interests d)), d)"

definition list_upcoming_events_for_matching :: "(uuid \<times> real list option) list query" where
  "list_upcoming_events_for_matching now d =
     Inr (map (\<lambda>e. (e_id e, e_embedding e)) (filter (showable now) (events d)), d)"

definition list_event_performers_batch :: "uuid list \<Rightarrow> performer_row list query" where
  "list_event_performers_batch es now d = Inr (filter (\<lambda>p. ep_event_id p \<in> set es) (performers d), d)"

definition list_event_genres_batch :: "uuid list \<Rightarrow> (uuid \<times> string) list query" where
  "list_event_genres_batch es now d = Inr (filter (\<lambda>g. fst g \<in> set es) (event_genres d), d)"

definition upsert_user_event_match ::
    "uuid \<Rightarrow> uuid \<Rightarrow> f64 \<Rightarrow> json \<Rightarrow> instant \<Rightarrow> unit query" where
  "upsert_user_event_match u e s bd at_time now d =
     (if \<not> user_exists d u \<or> \<not> event_exists d e then Inl ForeignKey
      else Inr ((), d\<lparr>matches :=
        upsert_row (\<lambda>m. (m_user_id m, m_event_id m))
          \<lparr>m_user_id = u, m_event_id = e, m_score = s, m_breakdown = bd, m_computed_at = at_time\<rparr>
          (\<lambda>m. m\<lparr>m_score := s, m_breakdown := bd, m_computed_at := at_time\<rparr>) (matches d)\<rparr>))"

definition delete_stale_matches_for_users :: "uuid list \<Rightarrow> instant \<Rightarrow> unit query" where
  "delete_stale_matches_for_users us cutoff now d =
     Inr ((), d\<lparr>matches := delete_rows (\<lambda>m. m_user_id m \<in> set us \<and> m_computed_at m < cutoff) (matches d)\<rparr>)"

definition obsolete_event :: "instant \<Rightarrow> event_row \<Rightarrow> bool" where
  "obsolete_event now e = (e_archived_at e \<noteq> None \<or> event_over_at e \<le> now)"

definition delete_obsolete_matches :: "unit query" where
  "delete_obsolete_matches now d =
     Inr ((), d\<lparr>matches := delete_rows (\<lambda>m. has_row (\<lambda>e. e_id e = m_event_id m \<and> obsolete_event now e) (events d))
                 (matches d)\<rparr>)"

section \<open>The match step\<close>

datatype match_error = DbFailed db_error | MarshalFailed | EmbedFailed | WrongVectorCount

text \<open>Run a call and go on with its answer, or stop with its error.\<close>

definition step_db :: "'a query \<Rightarrow> ('l, match_error + 'a) act" where
  "step_db q = do { r \<leftarrow> db_call q; ret (case r of Inl e \<Rightarrow> Inl (DbFailed e) | Inr a \<Rightarrow> Inr a) }"

definition then_step ::
    "('l, 'e + 'a) act \<Rightarrow> ('a \<Rightarrow> ('l, 'e + 'b) act) \<Rightarrow> ('l, 'e + 'b) act" where
  "then_step m f = do { r \<leftarrow> m; case r of Inl e \<Rightarrow> ret (Inl e) | Inr a \<Rightarrow> f a }"

text \<open>\<open>foldDeduped\<close>\<close>

definition fold_deduped :: "'a list \<Rightarrow> 'a list \<Rightarrow> ('a \<Rightarrow> 'k) \<Rightarrow> 'a list" where
  "fold_deduped base extra key = base @ dedup_by key (map key base) extra"

definition interest_of :: "interest_row \<Rightarrow> interest" where
  "interest_of r = \<lparr>ni_value = ui_value r, ni_normalized = ui_normalized r, ni_weight = Fin (ui_weight r)\<rparr>"

definition of_kind :: "uuid \<Rightarrow> string \<Rightarrow> interest_row list \<Rightarrow> interest list" where
  "of_kind u k rs = map interest_of (filter (\<lambda>r. ui_user_id r = u \<and> ui_kind r = k) rs)"

definition build_user :: "interest_row list \<Rightarrow> match_user \<Rightarrow> user_profile" where
  "build_user rs mu =
     (case mu of (u, emb, th) \<Rightarrow>
        \<lparr>up_id = u, up_embedding = (case emb of None \<Rightarrow> [] | Some v \<Rightarrow> v), up_threshold = th,
         up_artists = fold_deduped
           (fold_deduped (of_kind u ''spotify_top_artist'' rs) (of_kind u ''spotify_top_track_artist'' rs) ni_normalized)
           (of_kind u ''spotify_saved_song_artist'' rs) ni_normalized,
         up_genres = of_kind u ''spotify_top_genre'' rs, up_tags = of_kind u ''manual_tag'' rs\<rparr>)"

definition load_users :: "uuid option \<Rightarrow> ('l, match_error + user_profile list) act" where
  "load_users only =
     then_step
       (case only of
          Some u \<Rightarrow> do {
            r \<leftarrow> db_call (get_user_for_matching u);
            ret (case r of Inl NoRows \<Rightarrow> Inr [] | Inl e \<Rightarrow> Inl (DbFailed e) | Inr x \<Rightarrow> Inr [x]) }
        | None \<Rightarrow> step_db list_active_users_for_matching)
       (\<lambda>rows. if rows = [] then ret (Inr [])
               else then_step (step_db (list_user_interests_batch (map fst rows)))
                      (\<lambda>uis. ret (Inr (map (build_user uis) rows))))"

definition build_event ::
    "performer_row list \<Rightarrow> (uuid \<times> string) list \<Rightarrow> uuid \<times> real list option \<Rightarrow> event_profile" where
  "build_event ps gs r =
     (case r of (e, emb) \<Rightarrow>
        \<lparr>ep_id = e, ep_embedding = (case emb of None \<Rightarrow> [] | Some v \<Rightarrow> v),
         ep_performers = map (\<lambda>p. (ep_name p, ep_normalized p)) (filter (\<lambda>p. ep_event_id p = e) ps),
         ep_genres = map snd (filter (\<lambda>g. fst g = e) gs)\<rparr>)"

definition load_events :: "('l, match_error + event_profile list) act" where
  "load_events =
     then_step (step_db list_upcoming_events_for_matching)
       (\<lambda>rows. if rows = [] then ret (Inr [])
               else then_step (step_db (list_event_performers_batch (map fst rows)))
                      (\<lambda>ps. then_step (step_db (list_event_genres_batch (map fst rows)))
                        (\<lambda>gs. ret (Inr (map (build_event ps gs) rows)))))"

text \<open>The JSON of a breakdown; a nil slice of performers is \<open>null\<close>.\<close>

definition breakdown_json :: "match_score \<Rightarrow> json" where
  "breakdown_json s =
     JObj [(''embedding_score'', JNum (ms_embedding s)),
           (''matched_genres'', JArr (map JStr (ms_genres s))),
           (''matched_performers'', if ms_performers s = [] then JNull else JArr (map JStr (ms_performers s))),
           (''string_score'', JNum (ms_string s))]"

definition threshold_of :: "match_cfg \<Rightarrow> user_profile \<Rightarrow> f64" where
  "threshold_of cfg u = (case up_threshold u of None \<Rightarrow> score_threshold cfg | Some t \<Rightarrow> t)"

definition match_pair ::
    "match_cfg \<Rightarrow> instant \<Rightarrow> user_profile \<Rightarrow> event_profile \<Rightarrow> ('l, match_error + unit) act" where
  "match_pair cfg run_at u e =
     (let s = score u e cfg in
      if ms_total s \<le> threshold_of cfg u then ret (Inr ())
      else if \<not> encodable (breakdown_json s) then ret (Inl MarshalFailed)
      else step_db (upsert_user_event_match (up_id u) (ep_id e) (ms_total s) (breakdown_json s) run_at))"

fun match_pairs ::
    "match_cfg \<Rightarrow> instant \<Rightarrow> (user_profile \<times> event_profile) list \<Rightarrow> ('l, match_error + unit) act" where
  "match_pairs cfg run_at [] = ret (Inr ())"
| "match_pairs cfg run_at ((u, e) # ps) =
     then_step (match_pair cfg run_at u e) (\<lambda>_. match_pairs cfg run_at ps)"

definition match_step :: "match_cfg \<Rightarrow> uuid option \<Rightarrow> ('l, match_error + unit) act" where
  "match_step cfg only =
     then_step (load_users only) (\<lambda>us.
     then_step load_events (\<lambda>es. do {
       run_at \<leftarrow> time_now;
       then_step (match_pairs cfg run_at (List.product us es)) (\<lambda>_.
       then_step (if us = [] then ret (Inr ())
                  else step_db (delete_stale_matches_for_users (map up_id us) run_at)) (\<lambda>_.
       step_db delete_obsolete_matches)) }))"

text \<open>\<open>RescoreUser\<close>\<close>

definition rescore_user :: "uuid \<Rightarrow> ('l, match_error + unit) act" where
  "rescore_user u = do {
     c \<leftarrow> load_config match_defaults;
     case c of (Some e, _) \<Rightarrow> ret (Inl (DbFailed e)) | (None, cfg) \<Rightarrow> match_step cfg (Some u) }"

section \<open>Embedding texts\<close>

definition em_dash :: string where "em_dash = [CHR '' '', CHR 0xE2, CHR 0x80, CHR 0x94, CHR '' '']"

definition build_event_text :: "string \<Rightarrow> string list \<Rightarrow> string list \<Rightarrow> string" where
  "build_event_text title ps gs =
     (let parts0 = (if title \<noteq> [] then [title] else []);
          parts1 = (if ps = [] then parts0
                    else if parts0 \<noteq> [] then butlast parts0 @ [last parts0 @ em_dash @ join_with ps '', '']
                    else [join_with ps '', '']);
          parts2 = (if gs = [] then parts1 else parts1 @ [join_with gs '', ''])
      in join_with parts2 ''. '')"

definition build_user_text :: "string list \<Rightarrow> string list \<Rightarrow> string list \<Rightarrow> string" where
  "build_user_text as gs tags =
     join_with
       ((if as = [] then [] else [''Top artists: '' @ join_with as '', '']) @
        (if gs = [] then [] else [''Top genres: '' @ join_with gs '', '']) @
        (if tags = [] then [] else [''Interests: '' @ join_with tags '', ''])) ''. ''"

section \<open>Embedders\<close>

text \<open>
  \<open>Embedder.Embed\<close>: the answer of the model server to a call made at a step, None for an
  error.
\<close>

type_synonym embedder = "nat \<Rightarrow> string list \<Rightarrow> real list list option"

definition embed :: "embedder \<Rightarrow> string list \<Rightarrow> ('l, match_error + real list list) act" where
  "embed E ts =
     State (\<lambda>w. (case E (w_step w) ts of
                   None \<Rightarrow> Inl EmbedFailed
                 | Some vs \<Rightarrow> if length vs \<noteq> length ts then Inl WrongVectorCount else Inr vs, tick w))"

definition select_events_needing_embedding :: "(uuid \<times> string) list query" where
  "select_events_needing_embedding now d =
     Inr (map (\<lambda>e. (e_id e, e_title e)) (filter (\<lambda>e. e_embedding e = None \<and> showable now e) (events d)), d)"

definition update_event_embedding :: "uuid \<Rightarrow> real list \<Rightarrow> unit query" where
  "update_event_embedding i v now d =
     Inr ((), d\<lparr>events := update_rows (\<lambda>e. e_id e = i)
                  (\<lambda>e. e\<lparr>e_embedding := Some v, e_updated_at := now\<rparr>) (events d)\<rparr>)"

definition stale_user :: "db \<Rightarrow> user_row \<Rightarrow> bool" where
  "stale_user d r =
     (u_deleted_at r = None \<and>
      (u_embedding r = None \<or>
       (case u_embedding_at r of
          None \<Rightarrow> True
        | Some t \<Rightarrow> t < (let ts = map ui_updated_at (filter (\<lambda>i. ui_user_id i = u_id r) (interests d))
                         in if ts = [] then u_created_at r else Max (set ts)))))"

definition select_users_needing_embedding :: "uuid list query" where
  "select_users_needing_embedding now d = Inr (map u_id (filter (stale_user d) (users d)), d)"

definition update_user_interest_embedding :: "uuid \<Rightarrow> real list \<Rightarrow> unit query" where
  "update_user_interest_embedding u v now d =
     Inr ((), d\<lparr>users := update_rows (\<lambda>r. u_id r = u)
                  (\<lambda>r. r\<lparr>u_embedding := Some v, u_embedding_at := Some now\<rparr>) (users d)\<rparr>)"

text \<open>Write one row after the other, stopping at the first failure.\<close>

fun each_step :: "('a \<Rightarrow> ('l, 'e + unit) act) \<Rightarrow> 'a list \<Rightarrow> ('l, 'e + unit) act" where
  "each_step f [] = ret (Inr ())"
| "each_step f (x # xs) = then_step (f x) (\<lambda>_. each_step f xs)"

definition event_text :: "performer_row list \<Rightarrow> (uuid \<times> string) list \<Rightarrow> uuid \<times> string \<Rightarrow> string" where
  "event_text ps gs r =
     build_event_text (snd r) (map ep_name (filter (\<lambda>p. ep_event_id p = fst r) ps))
       (map snd (filter (\<lambda>g. fst g = fst r) gs))"

definition event_embedder :: "embedder \<Rightarrow> ('l, match_error + unit) act" where
  "event_embedder E =
     then_step (step_db select_events_needing_embedding) (\<lambda>rows.
       if rows = [] then ret (Inr ())
       else then_step (step_db (list_event_performers_batch (map fst rows))) (\<lambda>ps.
            then_step (step_db (list_event_genres_batch (map fst rows))) (\<lambda>gs.
            then_step (embed E (map (event_text ps gs) rows)) (\<lambda>vs.
            each_step (\<lambda>(i, v). step_db (update_event_embedding i v)) (zip (map fst rows) vs)))))"

definition user_text :: "text_env \<Rightarrow> interest_row list \<Rightarrow> uuid \<Rightarrow> string" where
  "user_text T rs u =
     (let vals = (\<lambda>k. map ui_value (filter (\<lambda>r. ui_user_id r = u \<and> ui_kind r = k) rs));
          artists1 = fold_deduped (vals ''spotify_top_artist'') (vals ''spotify_top_track_artist'') (normalize_string T);
          artists2 = fold_deduped artists1 (vals ''spotify_saved_song_artist'') (normalize_string T)
      in build_user_text artists2 (vals ''spotify_top_genre'') (vals ''manual_tag''))"

definition embed_users :: "text_env \<Rightarrow> embedder \<Rightarrow> uuid list \<Rightarrow> ('l, match_error + unit) act" where
  "embed_users T E us =
     (if us = [] then ret (Inr ())
      else then_step (step_db (list_user_interests_batch us)) (\<lambda>rs.
        let todo = filter (\<lambda>x. snd x \<noteq> []) (map (\<lambda>u. (u, user_text T rs u)) us)
        in then_step (if todo = [] then ret (Inr []) else embed E (map snd todo)) (\<lambda>vs.
           each_step (\<lambda>(u, v). step_db (update_user_interest_embedding u v)) (zip (map fst todo) vs))))"

definition user_embedder :: "text_env \<Rightarrow> embedder \<Rightarrow> ('l, match_error + unit) act" where
  "user_embedder T E = then_step (step_db select_users_needing_embedding) (embed_users T E)"

section \<open>Archiver and job\<close>

definition archive_stale_events :: "unit query" where
  "archive_stale_events now d =
     Inr ((), d\<lparr>events := update_rows
       (\<lambda>e. e_archived_at e = None \<and> e_last_seen_at e < now - 7 * day \<and>
            \<not> has_row (\<lambda>s. es_id s = e_source_id e \<and> es_exempt s) (sources d))
       (\<lambda>e. e\<lparr>e_archived_at := Some now, e_updated_at := now\<rparr>) (events d)\<rparr>)"

definition match_job :: "text_env \<Rightarrow> embedder \<Rightarrow> match_cfg \<Rightarrow> ('l, match_error + unit) act" where
  "match_job T E cfg0 = do {
     c \<leftarrow> load_config cfg0;
     case c of
       (Some e, _) \<Rightarrow> ret (Inl (DbFailed e))
     | (None, cfg) \<Rightarrow>
         then_step (event_embedder E) (\<lambda>_.
         then_step (user_embedder T E) (\<lambda>_.
         then_step (match_step cfg None) (\<lambda>_.
         step_db archive_stale_events))) }"

end
