(* ===== verification/MatcherProps.thy ===== *)
theory MatcherProps
  imports Matcher Calendar
begin

text \<open>
  What the match job guarantees: the range of the score, the exact table a run leaves behind,
  and the two ways it goes wrong (a zero normalizer stops it, two overlapping runs can lose a
  match).
\<close>

section \<open>The score\<close>

text \<open>Cauchy and Schwarz for lists, by induction.\<close>

lemma cauchy_schwarz_step:
  fixes D A B x y :: real
  assumes "D\<^sup>2 \<le> A * B" and "0 \<le> A" and "0 \<le> B"
  shows "(D + x * y)\<^sup>2 \<le> (A + x * x) * (B + y * y)"
proof -
  have "\<bar>D\<bar> \<le> sqrt A * sqrt B"
    using assms by (metis real_sqrt_abs real_sqrt_le_iff real_sqrt_mult)
  then have "\<bar>D\<bar> * \<bar>x * y\<bar> \<le> (sqrt A * sqrt B) * \<bar>x * y\<bar>" by (rule mult_right_mono) simp
  then have "2 * (D * (x * y)) \<le> 2 * ((sqrt A * \<bar>y\<bar>) * (sqrt B * \<bar>x\<bar>))"
    using abs_ge_self [of "D * (x * y)"] by (simp add: abs_mult mult.assoc mult.left_commute mult.commute)
  also have "\<dots> \<le> (sqrt A * \<bar>y\<bar>)\<^sup>2 + (sqrt B * \<bar>x\<bar>)\<^sup>2"
    using sum_squares_bound [of "sqrt A * \<bar>y\<bar>" "sqrt B * \<bar>x\<bar>"] by (simp add: mult.assoc)
  also have "\<dots> = A * (y * y) + B * (x * x)"
    using assms(2,3) by (simp add: power_mult_distrib) (simp add: power2_eq_square)
  finally show ?thesis using assms(1) by (simp add: power2_eq_square algebra_simps)
qed

lemma cauchy_schwarz_list:
  fixes xs ys :: "real list"
  assumes "length xs = length ys"
  shows "(sum_list (map2 (*) xs ys))\<^sup>2 \<le> sum_list (map (\<lambda>x. x * x) xs) * sum_list (map (\<lambda>x. x * x) ys)"
  using assms
proof (induction xs ys rule: list_induct2)
  case (Cons x xs y ys)
  have "0 \<le> sum_list (map (\<lambda>x. x * x) zs)" for zs :: "real list"
    by (rule sum_list_nonneg) auto
  from cauchy_schwarz_step [OF Cons.IH this this, of x y] show ?case by (simp add: add.commute)
qed simp

lemma cosine_range: "- 1 \<le> cosine_similarity a b \<and> cosine_similarity a b \<le> 1"
proof (cases "a = [] \<or> b = [] \<or> length a \<noteq> length b")
  case False
  let ?d = "sum_list (map2 (*) a b)" and ?A = "sum_list (map (\<lambda>x. x * x) a)" and ?B = "sum_list (map (\<lambda>x. x * x) b)"
  have nn: "0 \<le> sum_list (map (\<lambda>x. x * x) zs)" for zs :: "real list"
    by (rule sum_list_nonneg) auto
  show ?thesis
  proof (cases "?A = 0 \<or> ?B = 0")
    case f: False
    then have pos: "0 < sqrt ?A * sqrt ?B" using nn [of a] nn [of b] by (simp add: less_le)
    have "\<bar>?d\<bar> \<le> sqrt (?A * ?B)"
      using cauchy_schwarz_list [of a b] False by (metis real_sqrt_abs real_sqrt_le_iff)
    then have "\<bar>?d\<bar> \<le> sqrt ?A * sqrt ?B" by (simp add: real_sqrt_mult)
    then have "- 1 \<le> ?d / (sqrt ?A * sqrt ?B) \<and> ?d / (sqrt ?A * sqrt ?B) \<le> 1"
      using pos by (simp add: le_divide_eq divide_le_eq abs_le_iff)
    then show ?thesis using False f by (simp add: cosine_similarity_def Let_def)
  next
    case True
    then show ?thesis by (auto simp: cosine_similarity_def Let_def)
  qed
qed (auto simp: cosine_similarity_def)

definition finite_weights :: "user_profile \<Rightarrow> bool" where
  "finite_weights u = (\<forall>ui \<in> set (up_artists u @ up_genres u @ up_tags u). is_finite (ni_weight ui))"

definition sane_config :: "match_cfg \<Rightarrow> bool" where
  "sane_config cfg =
     (is_finite (w_string cfg) \<and> is_finite (w_embedding cfg) \<and> is_finite (artist_factor cfg) \<and>
      is_finite (genre_factor cfg) \<and> (\<exists>m. string_max cfg = Fin m \<and> m \<noteq> 0))"

lemma weigh_finite:
  assumes "is_finite factor" and "\<forall>ui \<in> set uis. is_finite (ni_weight ui)"
  shows "is_finite (weigh factor uis)"
proof -
  have "is_finite (fold (\<lambda>ui s. s + ni_weight ui * factor) uis s)" if "is_finite s" for s
    using assms(2) that by (induction uis arbitrary: s) (simp_all add: assms(1))
  then show ?thesis by (simp add: weigh_def)
qed

lemma matched_artists_sub: "fst ` set (matched_artists u e) \<subseteq> set (up_artists u)"
  by (auto simp: matched_artists_def map_filter_def split: option.splits)

lemma clamp_range: "is_finite x \<Longrightarrow> \<exists>r. clamp x = Fin r \<and> 0 \<le> r \<and> r \<le> 1"
  by (cases x) (auto simp: clamp_def)

lemma score_string:
  assumes "finite_weights u" and "sane_config cfg"
  shows "\<exists>r. ms_string (score u e cfg) = Fin r \<and> 0 \<le> r \<and> r \<le> 1"
proof -
  let ?a = "weigh (artist_factor cfg) (map fst (matched_artists u e))"
  let ?g = "weigh (genre_factor cfg) (matched_interests u e)"
  have "is_finite ?a" using assms matched_artists_sub [of u e]
    by (intro weigh_finite) (auto simp: sane_config_def finite_weights_def)
  moreover have "is_finite ?g" using assms
    by (intro weigh_finite) (auto simp: sane_config_def finite_weights_def matched_interests_def)
  ultimately obtain s where s: "?a + ?g = Fin s" using is_finite_cases is_finite_arith(1) by blast
  obtain m where "string_max cfg = Fin m" "m \<noteq> 0" using assms(2) by (auto simp: sane_config_def)
  then have "is_finite ((?a + ?g) / string_max cfg)" by (simp add: s)
  from clamp_range [OF this] show ?thesis by (simp add: score_def Let_def)
qed

lemma score_embedding: "\<exists>r. ms_embedding (score u e cfg) = Fin r \<and> 0 \<le> r \<and> r \<le> 1"
proof -
  let ?c = "cosine_similarity (up_embedding u) (ep_embedding e)"
  have "0 \<le> (?c + 1) / 2 \<and> (?c + 1) / 2 \<le> 1" using cosine_range [of "up_embedding u" "ep_embedding e"] by simp
  moreover have "ms_embedding (score u e cfg) = Fin ((?c + 1) / 2) \<or> ms_embedding (score u e cfg) = Fin 0"
    by (simp add: score_def Let_def)
  ultimately show ?thesis by (metis order_refl zero_le_one)
qed

lemma score_encodable:
  "finite_weights u \<Longrightarrow> sane_config cfg \<Longrightarrow> encodable (breakdown_json (score u e cfg))"
  using score_string [of u cfg e] score_embedding [of u e cfg]
  by (auto simp: breakdown_json_def list_all_iff)


definition demo_fan :: user_profile where
  "demo_fan =
     \<lparr>up_id = 7, up_embedding = [1, 0], up_threshold = None,
      up_artists = [\<lparr>ni_value = ''La Luz'', ni_normalized = ''la luz'', ni_weight = Fin 1\<rparr>],
      up_genres = [], up_tags = [\<lparr>ni_value = ''rock'', ni_normalized = ''rock'', ni_weight = Fin 1\<rparr>]\<rparr>"

definition demo_show_profile :: event_profile where
  "demo_show_profile =
     \<lparr>ep_id = 1, ep_embedding = [1, 0], ep_performers = [(''La Luz'', ''la luz'')], ep_genres = [''rock'']\<rparr>"


section \<open>A zero normalizer\<close>

text \<open>
  C18. If the tunable \<open>string_max\<close> is zero, the first pair without a shared artist or genre
  stops the match step: its score is not a number, which no threshold filters and no JSON
  holds. Nothing after it is matched, pruned or archived.
\<close>

theorem zero_string_max_stops:
  assumes "string_max cfg = Fin 0" and "matched_artists u e = []" and "matched_interests u e = []"
  shows "run_state (match_pairs cfg t ((u, e) # ps)) w = (Inl MarshalFailed, w)"
proof -
  have "ms_string (score u e cfg) = NaN"
    using assms by (simp add: score_def Let_def weigh_def f64_inf_def clamp_def)
  moreover from this have "ms_total (score u e cfg) = NaN" by (simp add: score_def Let_def)
  ultimately show ?thesis
    by (simp add: match_pair_def Let_def breakdown_json_def then_step_def)
qed

theorem zero_string_max_stops_witness:
  "run_state (match_pairs (match_defaults\<lparr>string_max := Fin 0\<rparr>) 0
      [(demo_fan, demo_show_profile\<lparr>ep_performers := [], ep_genres := []\<rparr>), (demo_fan, demo_show_profile)])
     (init_world \<lparr>clock = (\<lambda>_. 0), fault_at = (\<lambda>_. NoFault), rand_bytes = (\<lambda>_ n. None), fresh_uuid = (\<lambda>_. 0)\<rparr>
        empty_db ()) =
   (Inl MarshalFailed, init_world \<lparr>clock = (\<lambda>_. 0), fault_at = (\<lambda>_. NoFault), rand_bytes = (\<lambda>_ n. None),
      fresh_uuid = (\<lambda>_. 0)\<rparr> empty_db ())"
  by (rule zero_string_max_stops)
    (simp_all add: demo_fan_def demo_show_profile_def matched_artists_def matched_interests_def
      performer_set_def map_filter_simps)

section \<open>What a run leaves behind\<close>

definition always_up :: "'l world \<Rightarrow> bool" where
  "always_up w = (\<forall>n. fault_at (w_env w) n = NoFault)"

lemma always_up_query:
  "always_up w \<Longrightarrow> q (now_of w) (w_db w) = Inr (a, d) \<Longrightarrow> run_query q w = (Inr a, tick (w\<lparr>w_db := d\<rparr>))"
  by (simp add: run_query_NoFault always_up_def fault_of_def)

lemma always_up_tick [simp]: "always_up (tick (w\<lparr>w_db := d\<rparr>)) = always_up w" "always_up (tick w) = always_up w"
  "always_up (w\<lparr>w_db := d\<rparr>) = always_up w"
  by (simp_all add: always_up_def tick_def)

lemma step_db_up:
  "always_up w \<Longrightarrow> q (now_of w) (w_db w) = Inr (a, d) \<Longrightarrow>
     run_state (step_db q) w = (Inr a, tick (w\<lparr>w_db := d\<rparr>))"
  by (simp add: step_db_def always_up_query)

lemma run_then_step:
  "run_state m w = (Inr a, w') \<Longrightarrow> run_state (then_step m f) w = run_state (f a) w'"
  by (simp add: then_step_def)

text \<open>What the two loads answer, as functions of the tables.\<close>

definition match_users :: "uuid option \<Rightarrow> db \<Rightarrow> match_user list" where
  "match_users only d =
     (case only of
        None \<Rightarrow> map match_user_of (filter (\<lambda>r. u_deleted_at r = None) (users d))
      | Some u \<Rightarrow> (case find (\<lambda>r. u_id r = u \<and> u_deleted_at r = None) (users d) of
                     None \<Rightarrow> [] | Some r \<Rightarrow> [match_user_of r]))"

definition loaded_users :: "uuid option \<Rightarrow> db \<Rightarrow> user_profile list" where
  "loaded_users only d =
     map (build_user (sort_key (\<lambda>r. (ui_user_id r, - ui_weight r))
            (filter (\<lambda>r. ui_user_id r \<in> fst ` set (match_users only d)) (interests d)))) (match_users only d)"

definition loaded_events :: "instant \<Rightarrow> db \<Rightarrow> event_profile list" where
  "loaded_events now d =
     (let es = filter (showable now) (events d) in
      map (\<lambda>e. build_event (filter (\<lambda>p. ep_event_id p \<in> e_id ` set es) (performers d))
                 (filter (\<lambda>g. fst g \<in> e_id ` set es) (event_genres d)) (e_id e, e_embedding e)) es)"

text \<open>Some number of reads later.\<close>

definition later :: "'l world \<Rightarrow> 'l world \<Rightarrow> bool" where
  "later w w' = (w_db w' = w_db w \<and> w_env w' = w_env w \<and> w_step w \<le> w_step w')"

lemma tick_same_db: "tick (w\<lparr>w_db := w_db w\<rparr>) = tick w"
  by (simp add: tick_def)

lemma load_users_up:
  assumes "always_up w"
  shows "\<exists>w'. run_state (load_users only) w = (Inr (loaded_users only (w_db w)), w') \<and> later w w'"
proof -
  let ?rows = "match_users only (w_db w)"
  have rest: "\<exists>w'. run_state (if ?rows = [] then ret (Inr [])
      else then_step (step_db (list_user_interests_batch (map fst ?rows)))
        (\<lambda>uis. ret (Inr (map (build_user uis) ?rows)))) (tick w) = (Inr (loaded_users only (w_db w)), w') \<and> later w w'"
  proof (cases "?rows = []")
    case False
    let ?q = "list_user_interests_batch (map fst ?rows)"
    have q: "run_state (step_db ?q) (tick w) = (Inr (sort_key (\<lambda>r. (ui_user_id r, - ui_weight r))
            (filter (\<lambda>r. ui_user_id r \<in> fst ` set ?rows) (interests (w_db w)))), tick (tick w))"
      using assms step_db_up [of "tick w" ?q] tick_same_db [of "tick w"]
      by (simp add: list_user_interests_batch_def)
    show ?thesis using False by (simp add: run_then_step [OF q] loaded_users_def later_def)
  qed (simp add: loaded_users_def later_def)
  show ?thesis
  proof (cases only)
    case None
    have q: "run_state (step_db list_active_users_for_matching) w = (Inr ?rows, tick w)"
      using assms step_db_up [of w list_active_users_for_matching]
      by (simp add: list_active_users_for_matching_def match_users_def None tick_same_db)
    show ?thesis using rest by (simp add: run_then_step [OF q] load_users_def None)
  next
    case (Some u)
    have q: "run_state (do { r \<leftarrow> db_call (get_user_for_matching u);
        ret (case r of Inl NoRows \<Rightarrow> Inr [] | Inl e \<Rightarrow> Inl (DbFailed e) | Inr x \<Rightarrow> Inr [x]) }) w = (Inr ?rows, tick w)"
      using assms by (simp add: Some match_users_def get_user_for_matching_def run_query_NoFault always_up_def
          fault_of_def tick_same_db split: option.splits)
    show ?thesis using rest unfolding load_users_def Some option.case run_then_step [OF q] by simp
  qed
qed

lemma load_events_up:
  assumes "always_up w"
  shows "\<exists>w'. run_state load_events w = (Inr (loaded_events (now_of w) (w_db w)), w') \<and> later w w'"
proof -
  let ?es = "filter (showable (now_of w)) (events (w_db w))"
  let ?rows = "map (\<lambda>e. (e_id e, e_embedding e)) ?es"
  have ids: "map fst ?rows = map e_id ?es" by simp
  have 1: "run_state (step_db list_upcoming_events_for_matching) w = (Inr ?rows, tick w)"
    using assms step_db_up [of w list_upcoming_events_for_matching]
    by (simp add: list_upcoming_events_for_matching_def tick_same_db)
  have 2: "run_state (step_db (list_event_performers_batch (map e_id ?es))) (tick w) =
      (Inr (filter (\<lambda>p. ep_event_id p \<in> e_id ` set ?es) (performers (w_db w))), tick (tick w))"
    using assms step_db_up [of "tick w" "list_event_performers_batch (map e_id ?es)"] tick_same_db [of "tick w"]
    by (simp add: list_event_performers_batch_def)
  have 3: "run_state (step_db (list_event_genres_batch (map e_id ?es))) (tick (tick w)) =
      (Inr (filter (\<lambda>g. fst g \<in> e_id ` set ?es) (event_genres (w_db w))), tick (tick (tick w)))"
    using assms step_db_up [of "tick (tick w)" "list_event_genres_batch (map e_id ?es)"] tick_same_db [of "tick (tick w)"]
    by (simp add: list_event_genres_batch_def)
  show ?thesis
  proof (cases "?es = []")
    case True
    then show ?thesis unfolding load_events_def run_then_step [OF 1]
      by (simp add: loaded_events_def later_def Let_def)
  next
    case False
    then show ?thesis unfolding load_events_def run_then_step [OF 1] ids
      by (simp add: run_then_step [OF 2] run_then_step [OF 3] loaded_events_def later_def Let_def comp_def)
  qed
qed


text \<open>The writes of a run as a function of the table of matches.\<close>

definition match_key :: "match_row \<Rightarrow> uuid \<times> uuid" where
  "match_key m = (m_user_id m, m_event_id m)"

definition stored_row :: "match_cfg \<Rightarrow> instant \<Rightarrow> user_profile \<Rightarrow> event_profile \<Rightarrow> match_row" where
  "stored_row cfg t u e =
     \<lparr>m_user_id = up_id u, m_event_id = ep_id e, m_score = ms_total (score u e cfg),
      m_breakdown = breakdown_json (score u e cfg), m_computed_at = t\<rparr>"

definition passes :: "match_cfg \<Rightarrow> user_profile \<Rightarrow> event_profile \<Rightarrow> bool" where
  "passes cfg u e = (\<not> ms_total (score u e cfg) \<le> threshold_of cfg u)"

definition overwrite :: "match_row \<Rightarrow> match_row \<Rightarrow> match_row" where
  "overwrite r m = m\<lparr>m_score := m_score r, m_breakdown := m_breakdown r, m_computed_at := m_computed_at r\<rparr>"

fun store_pairs ::
    "match_cfg \<Rightarrow> instant \<Rightarrow> (user_profile \<times> event_profile) list \<Rightarrow> match_row list \<Rightarrow> match_row list" where
  "store_pairs cfg t [] ms = ms"
| "store_pairs cfg t ((u, e) # ps) ms =
     store_pairs cfg t ps
       (if passes cfg u e
        then upsert_row match_key (stored_row cfg t u e) (overwrite (stored_row cfg t u e)) ms else ms)"

lemma match_key_overwrite [simp]: "match_key (overwrite r m) = match_key m"
  by (simp add: match_key_def overwrite_def)

lemma overwrite_same_key: "match_key m = match_key r \<Longrightarrow> overwrite r m = r"
  by (cases m; cases r) (simp add: match_key_def overwrite_def)

lemma find_upsert:
  assumes "\<And>r. key (merge r) = key r" and "\<And>r. key r = key new \<Longrightarrow> merge r = new"
  shows "find (\<lambda>r. key r = k) (upsert_row key new merge t) =
    (if k = key new then Some new else find (\<lambda>r. key r = k) t)"
proof (cases "has_row (\<lambda>r. key r = key new) t")
  case True
  have "find (\<lambda>r. key r = key new) t \<noteq> None" using True by (auto simp: has_row_iff find_None_iff)
  then obtain r where "find (\<lambda>r. key r = key new) t = Some r" by blast
  moreover from this have "merge r = new" using assms(2) by (auto dest: find_in_set)
  ultimately show ?thesis
    using True find_update_key [of key merge k "key new" t] assms(1) by (simp add: upsert_row_def)
next
  case False
  then have "find (\<lambda>r. key r = key new) t = None" by (auto simp: has_row_iff find_None_iff)
  with False show ?thesis by (auto simp: upsert_row_def find_snoc split: option.split)
qed

lemma stored_key: "match_key (stored_row cfg t u e) = (up_id u, ep_id e)"
  by (simp add: match_key_def stored_row_def)

lemma find_store_upsert:
  "find (\<lambda>m. match_key m = k) (upsert_row match_key (stored_row cfg t u e) (overwrite (stored_row cfg t u e)) ms) =
     (if k = (up_id u, ep_id e) then Some (stored_row cfg t u e) else find (\<lambda>m. match_key m = k) ms)"
  using find_upsert [of match_key "overwrite (stored_row cfg t u e)" "stored_row cfg t u e" k ms] overwrite_same_key
  by (simp add: stored_key)

definition pair_key :: "user_profile \<times> event_profile \<Rightarrow> uuid \<times> uuid" where
  "pair_key p = (up_id (fst p), ep_id (snd p))"

lemma find_store_pairs:
  "distinct (map pair_key ps) \<Longrightarrow>
   find (\<lambda>m. match_key m = k) (store_pairs cfg t ps ms) =
     (case find (\<lambda>p. pair_key p = k \<and> passes cfg (fst p) (snd p)) ps of
        Some p \<Rightarrow> Some (stored_row cfg t (fst p) (snd p))
      | None \<Rightarrow> find (\<lambda>m. match_key m = k) ms)"
proof (induction ps arbitrary: ms)
  case (Cons p ps)
  obtain u e where p: "p = (u, e)" by fastforce
  have d: "distinct (map pair_key ps)" "pair_key p \<notin> pair_key ` set ps" using Cons.prems by simp_all
  note IH = Cons.IH [OF d(1)]
  show ?case
  proof (cases "pair_key p = k \<and> passes cfg u e")
    case True
    have other: "pair_key q \<noteq> k" if "q \<in> set ps" for q
    proof
      assume "pair_key q = k"
      then have "pair_key p \<in> pair_key ` set ps" using True that by (intro image_eqI [of _ _ q]) simp_all
      with d(2) show False ..
    qed
    have nf: "find (\<lambda>p. pair_key p = k \<and> passes cfg (fst p) (snd p)) ps = None"
      by (auto simp: find_None_iff dest: other)
    have k: "k = (up_id u, ep_id e)" and pass: "passes cfg u e" using True p by (simp_all add: pair_key_def)
    show ?thesis unfolding p store_pairs.simps IH nf using pass k by (simp add: find_store_upsert pair_key_def)
  next
    case False
    then have "\<not> (passes cfg u e \<and> k = (up_id u, ep_id e))" by (auto simp: p pair_key_def)
    then have up: "find (\<lambda>m. match_key m = k) (if passes cfg u e
          then upsert_row match_key (stored_row cfg t u e) (overwrite (stored_row cfg t u e)) ms else ms)
        = find (\<lambda>m. match_key m = k) ms" by (simp add: find_store_upsert)
    have "find (\<lambda>q. pair_key q = k \<and> passes cfg (fst q) (snd q)) (p # ps) =
        find (\<lambda>q. pair_key q = k \<and> passes cfg (fst q) (snd q)) ps" using False p by auto
    then show ?thesis unfolding p store_pairs.simps IH up by simp
  qed
qed simp

lemma store_pairs_keyed: "keyed match_key ms \<Longrightarrow> keyed match_key (store_pairs cfg t ps ms)"
  by (induction cfg t ps ms rule: store_pairs.induct) (simp_all add: keyed_upsert_row)

lemma run_match_pair:
  assumes "always_up w" and "sane_config cfg" and "finite_weights u"
    and "user_exists (w_db w) (up_id u)" and "event_exists (w_db w) (ep_id e)"
  shows "run_state (match_pair cfg t u e) w =
    (if passes cfg u e
     then (Inr (), tick (w\<lparr>w_db := (w_db w)\<lparr>matches := upsert_row match_key (stored_row cfg t u e)
        (overwrite (stored_row cfg t u e)) (matches (w_db w))\<rparr>\<rparr>)) else (Inr (), w))"
proof (cases "passes cfg u e")
  case True
  have "upsert_user_event_match (up_id u) (ep_id e) (ms_total (score u e cfg)) (breakdown_json (score u e cfg)) t
      (now_of w) (w_db w) = Inr ((), (w_db w)\<lparr>matches := upsert_row match_key (stored_row cfg t u e)
        (overwrite (stored_row cfg t u e)) (matches (w_db w))\<rparr>)"
    using assms(4,5)
    by (simp add: upsert_user_event_match_def match_key_def [abs_def] overwrite_def [abs_def] stored_row_def)
  from step_db_up [of w "upsert_user_event_match (up_id u) (ep_id e) (ms_total (score u e cfg))
      (breakdown_json (score u e cfg)) t", OF assms(1) this]
  show ?thesis using True score_encodable [OF assms(3,2), of e]
    by (simp add: match_pair_def Let_def passes_def)
qed (simp add: match_pair_def Let_def passes_def)

lemma run_match_pairs:
  "always_up w \<Longrightarrow> sane_config cfg \<Longrightarrow>
   \<forall>(u, e) \<in> set ps. finite_weights u \<and> user_exists (w_db w) (up_id u) \<and> event_exists (w_db w) (ep_id e) \<Longrightarrow>
   \<exists>w'. run_state (match_pairs cfg t ps) w = (Inr (), w') \<and> w_env w' = w_env w \<and> w_step w \<le> w_step w' \<and>
     w_db w' = (w_db w)\<lparr>matches := store_pairs cfg t ps (matches (w_db w))\<rparr>"
proof (induction ps arbitrary: w)
  case (Cons p ps)
  obtain u e where p: "p = (u, e)" by fastforce
  have ok: "finite_weights u" "user_exists (w_db w) (up_id u)" "event_exists (w_db w) (ep_id e)"
    using Cons.prems(3) p by auto
  note r = run_match_pair [OF Cons.prems(1,2) ok, of t]
  let ?w = "snd (run_state (match_pair cfg t u e) w)"
  have w: "always_up ?w" "w_env ?w = w_env w" "w_step w \<le> w_step ?w" "users (w_db ?w) = users (w_db w)" "events (w_db ?w) = events (w_db w)"
    "w_db ?w = (w_db w)\<lparr>matches := if passes cfg u e then upsert_row match_key (stored_row cfg t u e)
        (overwrite (stored_row cfg t u e)) (matches (w_db w)) else matches (w_db w)\<rparr>"
    using Cons.prems(1) unfolding r by simp_all
  have "\<forall>(u, e) \<in> set ps. finite_weights u \<and> user_exists (w_db ?w) (up_id u) \<and> event_exists (w_db ?w) (ep_id e)"
    using Cons.prems(3) w(4,5) by (auto simp: user_exists_def event_exists_def)
  from Cons.IH [OF w(1) Cons.prems(2) this] obtain w' where
    w': "run_state (match_pairs cfg t ps) ?w = (Inr (), w')" "w_env w' = w_env ?w"
      "w_step ?w \<le> w_step w'"
      "w_db w' = (w_db ?w)\<lparr>matches := store_pairs cfg t ps (matches (w_db ?w))\<rparr>" by blast
  have "run_state (match_pair cfg t u e) w = (Inr (), ?w)" unfolding r by simp
  from run_then_step [OF this, of "\<lambda>_. match_pairs cfg t ps"] w' w show ?case
    by (simp add: p)
qed simp

lemma match_users_ids: "keyed u_id (users d) \<Longrightarrow> distinct (map fst (match_users only d))"
  by (auto simp: match_users_def keyed_def match_user_of_def comp_def distinct_map_filter split: option.split)

lemma loaded_users_ids: "map up_id (loaded_users only d) = map fst (match_users only d)"
  by (simp add: loaded_users_def build_user_def comp_def case_prod_unfold)

lemma loaded_events_ids: "map ep_id (loaded_events t d) = map e_id (filter (showable t) (events d))"
  by (simp add: loaded_events_def Let_def build_event_def comp_def)

lemma loaded_users_ok: "u \<in> set (loaded_users only d) \<Longrightarrow> finite_weights u \<and> user_exists d (up_id u)"
proof
  assume u: "u \<in> set (loaded_users only d)"
  have fd: "set (fold_deduped xs ys ni_normalized) \<subseteq> set xs \<union> set ys" for xs ys :: "interest list"
    unfolding fold_deduped_def using dedup_by_set [of ni_normalized _ ys] by auto
  have k: "\<forall>ui \<in> set (of_kind x y rs). is_finite (ni_weight ui)" for x y rs
    by (auto simp: of_kind_def interest_of_def)
  have a: "\<forall>ui \<in> set (fold_deduped xs ys ni_normalized). is_finite (ni_weight ui)"
    if "\<forall>ui \<in> set xs. is_finite (ni_weight ui)" "\<forall>ui \<in> set ys. is_finite (ni_weight ui)" for xs ys :: "interest list"
    using fd [of xs ys] that by blast
  from u obtain rs mu where b: "u = build_user rs mu" by (auto simp: loaded_users_def)
  obtain x emb th where mu: "mu = (x, emb, th)" by (cases mu)
  show "finite_weights u"
    unfolding finite_weights_def b mu build_user_def using a [OF a [OF k k] k] k by (simp add: ball_Un)
  have "up_id u \<in> set (map up_id (loaded_users only d))" using u by simp
  then have "up_id u \<in> fst ` set (match_users only d)" unfolding loaded_users_ids by simp
  then show "user_exists d (up_id u)"
    by (cases only; cases "find (\<lambda>r. u_id r = the only \<and> u_deleted_at r = None) (users d)")
      (auto simp: match_users_def user_exists_def has_row_iff match_user_of_def dest!: find_in_set)
qed

lemma loaded_events_ok: "e \<in> set (loaded_events t d) \<Longrightarrow> event_exists d (ep_id e)"
proof -
  assume "e \<in> set (loaded_events t d)"
  then have "ep_id e \<in> set (map ep_id (loaded_events t d))" by simp
  then show ?thesis unfolding loaded_events_ids by (auto simp: event_exists_def has_row_iff)
qed

lemma find_unique: "x \<in> set xs \<Longrightarrow> P x \<Longrightarrow> (\<And>y. y \<in> set xs \<Longrightarrow> P y \<Longrightarrow> y = x) \<Longrightarrow> find P xs = Some x"
proof (induction xs)
  case (Cons a xs)
  show ?case
  proof (cases "P a")
    case True
    with Cons.prems(3) [of a] show ?thesis by simp
  next
    case False
    with Cons.prems(1,2) have "x \<in> set xs" by auto
    from Cons.IH [OF this Cons.prems(2) Cons.prems(3) [OF list.set_intros(2)]] False show ?thesis by simp
  qed
qed simp

lemma distinct_product_keys:
  "distinct (map up_id us) \<Longrightarrow> distinct (map ep_id es) \<Longrightarrow> distinct (map pair_key (List.product us es))"
proof -
  have "map pair_key (List.product us es) = List.product (map up_id us) (map ep_id es)"
    by (induction us) (simp_all add: pair_key_def comp_def)
  then show "distinct (map up_id us) \<Longrightarrow> distinct (map ep_id es) \<Longrightarrow> ?thesis"
    by (simp add: distinct_product)
qed

lemma find_in_product:
  assumes "distinct (map up_id us)" and "distinct (map ep_id es)"
  shows "find (\<lambda>p. pair_key p = (x, i) \<and> passes cfg (fst p) (snd p)) (List.product us es) =
    (case find (\<lambda>u. up_id u = x) us of
       None \<Rightarrow> None
     | Some u \<Rightarrow> (case find (\<lambda>e. ep_id e = i) es of
         None \<Rightarrow> None | Some e \<Rightarrow> if passes cfg u e then Some (u, e) else None))"
proof (cases "\<exists>u \<in> set us. \<exists>e \<in> set es. up_id u = x \<and> ep_id e = i")
  case True
  then obtain u e where ue: "u \<in> set us" "e \<in> set es" "up_id u = x" "ep_id e = i" by blast
  have uu: "v = u" if "v \<in> set us" "up_id v = x" for v
    using assms(1) ue that by (auto simp: distinct_map dest: inj_onD)
  have ee: "f = e" if "f \<in> set es" "ep_id f = i" for f
    using assms(2) ue that by (auto simp: distinct_map dest: inj_onD)
  have "find (\<lambda>u. up_id u = x) us = Some u" using ue(1,3) uu by (rule find_unique)
  moreover have "find (\<lambda>e. ep_id e = i) es = Some e" using ue(2,4) ee by (rule find_unique)
  moreover have "find (\<lambda>p. pair_key p = (x, i) \<and> passes cfg (fst p) (snd p)) (List.product us es) =
      (if passes cfg u e then Some (u, e) else None)"
  proof (cases "passes cfg u e")
    case True
    then have "find (\<lambda>p. pair_key p = (x, i) \<and> passes cfg (fst p) (snd p)) (List.product us es) = Some (u, e)"
    proof (intro find_unique)
      show "(u, e) \<in> set (List.product us es)" using ue by simp
      show "pair_key (u, e) = (x, i) \<and> passes cfg (fst (u, e)) (snd (u, e))" using ue True by (simp add: pair_key_def)
      fix q assume "q \<in> set (List.product us es)" "pair_key q = (x, i) \<and> passes cfg (fst q) (snd q)"
      then have "fst q = u" "snd q = e" using uu [of "fst q"] ee [of "snd q"] by (auto simp: pair_key_def)
      then show "q = (u, e)" by (simp add: prod_eq_iff)
    qed
    then show ?thesis using True by simp
  next
    case False
    have "\<not> (pair_key q = (x, i) \<and> passes cfg (fst q) (snd q))" if "q \<in> set (List.product us es)" for q
    proof
      assume q: "pair_key q = (x, i) \<and> passes cfg (fst q) (snd q)"
      then have "fst q = u" "snd q = e" using that uu [of "fst q"] ee [of "snd q"] by (auto simp: pair_key_def)
      with q False show False by simp
    qed
    then have "find (\<lambda>p. pair_key p = (x, i) \<and> passes cfg (fst p) (snd p)) (List.product us es) = None"
      unfolding find_None_iff by blast
    then show ?thesis using False by simp
  qed
  ultimately show ?thesis by simp
next
  case False
  then have "find (\<lambda>p. pair_key p = (x, i) \<and> passes cfg (fst p) (snd p)) (List.product us es) = None"
    by (auto simp: find_None_iff pair_key_def)
  then show ?thesis using False by (auto split: option.splits dest!: find_in_set)
qed


definition tables_ok :: "db \<Rightarrow> bool" where
  "tables_ok d = (keyed u_id (users d) \<and> keyed e_id (events d) \<and> keyed match_key (matches d))"

lemma find_match_key: "find_match d u i = find (\<lambda>m. match_key m = (u, i)) (matches d)"
  by (simp add: find_match_def match_key_def)

text \<open>The table a run leaves behind, and what it holds of a pair.\<close>

definition table_after ::
    "match_cfg \<Rightarrow> uuid option \<Rightarrow> instant \<Rightarrow> instant \<Rightarrow> instant \<Rightarrow> db \<Rightarrow> match_row list" where
  "table_after cfg only began run_at ended d =
     delete_rows (\<lambda>m. has_row (\<lambda>e. e_id e = m_event_id m \<and> obsolete_event ended e) (events d))
       (delete_rows (\<lambda>m. m_user_id m \<in> set (map up_id (loaded_users only d)) \<and> m_computed_at m < run_at)
         (store_pairs cfg run_at (List.product (loaded_users only d) (loaded_events began d)) (matches d)))"

definition wanted_match ::
    "match_cfg \<Rightarrow> uuid option \<Rightarrow> instant \<Rightarrow> instant \<Rightarrow> db \<Rightarrow> uuid \<Rightarrow> uuid \<Rightarrow> match_row option" where
  "wanted_match cfg only began run_at d u i =
     (case find (\<lambda>p. up_id p = u) (loaded_users only d) of
        None \<Rightarrow> find_match d u i
      | Some p \<Rightarrow> (case find (\<lambda>e. ep_id e = i) (loaded_events began d) of
          None \<Rightarrow> None
        | Some e \<Rightarrow> if passes cfg p e then Some (stored_row cfg run_at p e) else None))"

lemma loaded_ids_distinct:
  assumes "tables_ok d"
  shows "distinct (map up_id (loaded_users only d))" "distinct (map ep_id (loaded_events began d))"
  using assms match_users_ids [of d only] distinct_map_filter [of e_id "events d" "showable began"]
  unfolding loaded_users_ids loaded_events_ids by (simp_all add: tables_ok_def keyed_def)

lemma find_pruned:
  assumes tabs: "tables_ok d" and older: "\<forall>m \<in> set (matches d). m_computed_at m < run_at"
  shows "find (\<lambda>m. match_key m = (u, i))
      (delete_rows (\<lambda>m. m_user_id m \<in> set (map up_id (loaded_users only d)) \<and> m_computed_at m < run_at)
        (store_pairs cfg run_at (List.product (loaded_users only d) (loaded_events began d)) (matches d))) =
    wanted_match cfg only began run_at d u i"
proof -
  let ?us = "loaded_users only d" and ?es = "loaded_events began d"
  let ?stale = "\<lambda>m. m_user_id m \<in> set (map up_id ?us) \<and> m_computed_at m < run_at"
  note ids = loaded_ids_distinct [OF tabs]
  have k: "keyed match_key (store_pairs cfg run_at (List.product ?us ?es) (matches d))"
    using tabs by (simp add: tables_ok_def store_pairs_keyed)
  have f: "find (\<lambda>m. match_key m = (u, i)) (store_pairs cfg run_at (List.product ?us ?es) (matches d)) =
      (case find (\<lambda>p. pair_key p = (u, i) \<and> passes cfg (fst p) (snd p)) (List.product ?us ?es) of
         Some p \<Rightarrow> Some (stored_row cfg run_at (fst p) (snd p)) | None \<Rightarrow> find_match d u i)"
    unfolding find_match_key using find_store_pairs [OF distinct_product_keys [OF ids]] by simp
  have old: "?stale m \<longleftrightarrow> u \<in> set (map up_id ?us)" if "find_match d u i = Some m" for m
    using that older unfolding find_match_key by (auto simp: match_key_def dest!: find_in_set)
  have new: "\<not> ?stale (stored_row cfg run_at p e)" for p e by (simp add: stored_row_def)
  show ?thesis
  proof (cases "find (\<lambda>p. up_id p = u) ?us")
    case None
    then have "u \<notin> set (map up_id ?us)" by (auto simp: find_None_iff)
    then show ?thesis unfolding find_delete_rows [OF k] f find_in_product [OF ids] wanted_match_def None
      using old by (auto split: option.split)
  next
    case (Some p)
    then have "u \<in> set (map up_id ?us)" by (auto dest!: find_in_set)
    then have "\<And>m. find_match d u i = Some m \<Longrightarrow> ?stale m" using old by blast
    then show ?thesis unfolding find_delete_rows [OF k] f find_in_product [OF ids] wanted_match_def Some
      using new by (auto split: option.split)
  qed
qed

lemma find_table_after:
  assumes tabs: "tables_ok d" and older: "\<forall>m \<in> set (matches d). m_computed_at m < run_at"
  shows "find (\<lambda>m. match_key m = (u, i)) (table_after cfg only began run_at ended d) =
    (if has_row (\<lambda>e. e_id e = i \<and> obsolete_event ended e) (events d) then None
     else wanted_match cfg only began run_at d u i)"
proof -
  let ?m = "delete_rows (\<lambda>m. m_user_id m \<in> set (map up_id (loaded_users only d)) \<and> m_computed_at m < run_at)
        (store_pairs cfg run_at (List.product (loaded_users only d) (loaded_events began d)) (matches d))"
  let ?obs = "\<lambda>m. has_row (\<lambda>e. e_id e = m_event_id m \<and> obsolete_event ended e) (events d)"
  have k: "keyed match_key ?m"
    using tabs by (intro keyed_delete_rows) (simp add: tables_ok_def store_pairs_keyed)
  have ob: "?obs m \<longleftrightarrow> has_row (\<lambda>e. e_id e = i \<and> obsolete_event ended e) (events d)"
    if "find (\<lambda>m. match_key m = (u, i)) ?m = Some m" for m
    using that by (auto simp: match_key_def dest!: find_in_set)
  have "find (\<lambda>m. match_key m = (u, i)) (table_after cfg only began run_at ended d) =
      (case find (\<lambda>m. match_key m = (u, i)) ?m of None \<Rightarrow> None | Some m \<Rightarrow> if ?obs m then None else Some m)"
    unfolding table_after_def using find_delete_rows [OF k, of "(u, i)" ?obs] by simp
  also have "\<dots> = (if has_row (\<lambda>e. e_id e = i \<and> obsolete_event ended e) (events d) then None
      else find (\<lambda>m. match_key m = (u, i)) ?m)"
    using ob by (cases "find (\<lambda>m. match_key m = (u, i)) ?m") auto
  finally show ?thesis unfolding find_pruned [OF assms] .
qed

lemma run_match_step:
  assumes up: "always_up w" and sane: "sane_config cfg"
  shows "\<exists>w' a b c. run_state (match_step cfg only) w = (Inr (), w') \<and>
    w_step w \<le> a \<and> a \<le> b \<and> b \<le> c \<and> c < w_step w' \<and>
    w_db w' = (w_db w)\<lparr>matches :=
      table_after cfg only (clock (w_env w) a) (clock (w_env w) b) (clock (w_env w) c) (w_db w)\<rparr>"
proof -
  let ?d = "w_db w"
  let ?us = "loaded_users only ?d"
  obtain w1 where l1: "run_state (load_users only) w = (Inr ?us, w1)" "later w w1"
    using load_users_up [OF up] by blast
  have up1: "always_up w1" using up l1(2) by (simp add: always_up_def later_def)
  let ?es = "loaded_events (now_of w1) ?d"
  obtain w2 where l2: "run_state load_events w1 = (Inr ?es, w2)" "later w1 w2"
    using load_events_up [OF up1] l1(2) by (auto simp: later_def)
  have w2: "w_db w2 = ?d" "always_up w2" "w_env w2 = w_env w"
    using up l1(2) l2(2) by (auto simp: later_def always_up_def)
  let ?t = "now_of w2" and ?ps = "List.product ?us ?es"
  have "\<forall>(u, e) \<in> set ?ps. finite_weights u \<and> user_exists (w_db w2) (up_id u) \<and> event_exists (w_db w2) (ep_id e)"
    using loaded_users_ok loaded_events_ok w2(1) by fastforce
  from run_match_pairs [OF w2(2) sane this, of ?t] obtain w3 where
    w3: "run_state (match_pairs cfg ?t ?ps) w2 = (Inr (), w3)" "w_env w3 = w_env w2"
      "w_step w2 \<le> w_step w3" "w_db w3 = ?d\<lparr>matches := store_pairs cfg ?t ?ps (matches ?d)\<rparr>"
    unfolding w2(1) by blast
  have up3: "always_up w3" using w2(2) w3(2) by (simp add: always_up_def)
  let ?stale = "\<lambda>m. m_user_id m \<in> set (map up_id ?us) \<and> m_computed_at m < ?t"
  let ?m4 = "delete_rows ?stale (matches (w_db w3))"
  obtain w4 where w4: "run_state (if ?us = [] then ret (Inr ())
      else step_db (delete_stale_matches_for_users (map up_id ?us) ?t)) w3 = (Inr (), w4)"
      "w_env w4 = w_env w3" "w_step w3 \<le> w_step w4" "w_db w4 = ?d\<lparr>matches := ?m4\<rparr>"
  proof (cases "?us = []")
    case True
    then show ?thesis using that [of w3] w3(4) by (simp add: delete_rows_def)
  next
    case False
    have "delete_stale_matches_for_users (map up_id ?us) ?t (now_of w3) (w_db w3) = Inr ((), ?d\<lparr>matches := ?m4\<rparr>)"
      by (simp add: delete_stale_matches_for_users_def w3(4))
    from step_db_up [where q = "delete_stale_matches_for_users (map up_id ?us) ?t", OF up3 this] False show ?thesis
      by (intro that [of "tick (w3\<lparr>w_db := ?d\<lparr>matches := ?m4\<rparr>\<rparr>)"]) simp_all
  qed
  have up4: "always_up w4" using up3 w4(2) by (simp add: always_up_def)
  let ?d5 = "?d\<lparr>matches := delete_rows
      (\<lambda>m. has_row (\<lambda>e. e_id e = m_event_id m \<and> obsolete_event (now_of w4) e) (events ?d)) ?m4\<rparr>"
  have "delete_obsolete_matches (now_of w4) (w_db w4) = Inr ((), ?d5)" by (simp add: delete_obsolete_matches_def w4(4))
  note l5 = step_db_up [where q = delete_obsolete_matches, OF up4 this]
  let ?w5 = "tick (w4\<lparr>w_db := ?d5\<rparr>)"
  have run: "run_state (match_step cfg only) w = (Inr (), ?w5)"
    unfolding match_step_def run_then_step [OF l1(1)] run_then_step [OF l2(1)]
    by (simp add: run_then_step [OF w3(1)] run_then_step [OF w4(1)] l5)
  have steps: "w_step w \<le> w_step w1" "w_step w1 \<le> w_step w2" "w_step w2 \<le> w_step w4" "w_step w4 < w_step ?w5"
    using l1(2) l2(2) w3(3) w4(3) by (simp_all add: later_def)
  have env: "now_of w1 = clock (w_env w) (w_step w1)" "?t = clock (w_env w) (w_step w2)"
      "now_of w4 = clock (w_env w) (w_step w4)"
    using l1(2) w2(3) w3(2) w4(2) by (simp_all add: later_def now_of_def)
  have "w_db ?w5 = ?d\<lparr>matches := table_after cfg only (clock (w_env w) (w_step w1)) (clock (w_env w) (w_step w2))
      (clock (w_env w) (w_step w4)) ?d\<rparr>"
    unfolding env [symmetric] table_after_def by (simp add: w3(4))
  with run steps show ?thesis by blast
qed

text \<open>
  C16. A match run that meets no failure leaves exactly this table: no match of an event that is
  archived or over when the run ends; for every other event, a processed user has a match just
  when the event was upcoming when the run began and the score passes the user's threshold,
  with that score and breakdown; and every other user's matches are as they were.
\<close>

theorem match_step_exact:
  assumes "always_up w" and "sane_config cfg" and "tables_ok (w_db w)"
    and older: "\<forall>m \<in> set (matches (w_db w)). \<forall>n \<ge> w_step w. m_computed_at m < clock (w_env w) n"
  shows "\<exists>w' a b c began run_at ended. run_state (match_step cfg only) w = (Inr (), w') \<and>
    w_step w \<le> a \<and> a \<le> b \<and> b \<le> c \<and> c < w_step w' \<and>
    began = clock (w_env w) a \<and> run_at = clock (w_env w) b \<and> ended = clock (w_env w) c \<and>
    (\<forall>u i. find_match (w_db w') u i =
      (if has_row (\<lambda>e. e_id e = i \<and> obsolete_event ended e) (events (w_db w)) then None
       else case find (\<lambda>p. up_id p = u) (loaded_users only (w_db w)) of
          None \<Rightarrow> find_match (w_db w) u i
        | Some p \<Rightarrow> (case find (\<lambda>e. ep_id e = i) (loaded_events began (w_db w)) of
            None \<Rightarrow> None
          | Some e \<Rightarrow> if passes cfg p e then Some (stored_row cfg run_at p e) else None)))"
proof -
  obtain w' a b c where run: "run_state (match_step cfg only) w = (Inr (), w')"
      "w_step w \<le> a" "a \<le> b" "b \<le> c" "c < w_step w'"
      "w_db w' = (w_db w)\<lparr>matches :=
        table_after cfg only (clock (w_env w) a) (clock (w_env w) b) (clock (w_env w) c) (w_db w)\<rparr>"
    using run_match_step [OF assms(1,2)] by blast
  have "\<forall>m \<in> set (matches (w_db w)). m_computed_at m < clock (w_env w) b"
    using older run(2,3) by auto
  note after = find_table_after [OF assms(3) this, of _ _ cfg only "clock (w_env w) a" "clock (w_env w) c",
      unfolded wanted_match_def, folded find_match_key]
  have m: "matches (w_db w') =
      table_after cfg only (clock (w_env w) a) (clock (w_env w) b) (clock (w_env w) c) (w_db w)"
    using run(6) by simp
  show ?thesis
    by (intro exI conjI) (rule run refl allI after [folded m, folded find_match_key])+
qed

text \<open>A world with one user, who likes the one performer of the one upcoming event.\<close>

definition fan_row :: user_row where
  "fan_row =
     \<lparr>u_id = 7, u_email = ''fan@x.io'', u_password_hash = [], u_city_id = 3, u_embedding = None,
      u_embedding_at = None, u_created_at = 0, u_deleted_at = None, u_score_threshold = Some (Fin 0.1),
      u_confirmed = True, u_show_setlists = True\<rparr>"

definition upcoming_row :: event_row where
  "upcoming_row =
     \<lparr>e_id = 1, e_source_id = 1, e_source_event_id = ''s'', e_title = ''Show'', e_description = [],
      e_starts_at = 10957 * day, e_ends_at = None, e_venue_id = 5, e_image_url = None, e_url = None,
      e_embedding = None, e_last_seen_at = 0, e_archived_at = None, e_updated_at = 0, e_time_tbd = False,
      e_headline_artist_id = None, e_segment = None\<rparr>"

definition fan_db :: db where
  "fan_db =
     empty_db\<lparr>users := [fan_row], events := [upcoming_row],
       interests := [\<lparr>ui_id = 2, ui_user_id = 7, ui_kind = ''spotify_top_artist'', ui_value = ''La Luz'',
          ui_normalized = ''la luz'', ui_weight = 1, ui_created_at = 0, ui_updated_at = 0\<rparr>],
       performers := [\<lparr>ep_event_id = 1, ep_name = ''La Luz'', ep_normalized = ''la luz''\<rparr>]\<rparr>"

definition fan_world :: "unit world" where
  "fan_world = init_world \<lparr>clock = (\<lambda>_. 10956 * day), fault_at = (\<lambda>_. NoFault), rand_bytes = (\<lambda>_ n. None),
     fresh_uuid = (\<lambda>_. 0)\<rparr> fan_db ()"

lemmas fan_defs = fan_world_def init_world_def fan_db_def empty_db_def fan_row_def upcoming_row_def

lemma fan_loads:
  "loaded_users None (w_db fan_world) =
     [\<lparr>up_id = 7, up_embedding = [], up_threshold = Some (Fin 0.1),
       up_artists = [\<lparr>ni_value = ''La Luz'', ni_normalized = ''la luz'', ni_weight = Fin 1\<rparr>],
       up_genres = [], up_tags = []\<rparr>]"
  "loaded_events (10956 * day) (w_db fan_world) =
     [\<lparr>ep_id = 1, ep_embedding = [], ep_performers = [(''La Luz'', ''la luz'')], ep_genres = []\<rparr>]"
  by (simp_all add: loaded_users_def match_users_def match_user_of_def build_user_def of_kind_def interest_of_def
      fold_deduped_def loaded_events_def build_event_def showable_def event_over_at_def fan_defs)

lemma fan_clock: "clock (w_env fan_world) n = 10956 * day"
  unfolding fan_world_def init_world_def by simp

theorem match_step_exact_witness:
  "\<exists>w'. run_state (match_step match_defaults None) fan_world = (Inr (), w') \<and>
     map_option m_score (find_match (w_db w') 7 1) = Some (Fin (1 / 5)) \<and> find_match (w_db w') 7 2 = None"
proof -
  have "always_up fan_world" "sane_config match_defaults" "tables_ok (w_db fan_world)"
    "\<forall>m \<in> set (matches (w_db fan_world)). \<forall>n \<ge> w_step fan_world. m_computed_at m < clock (w_env fan_world) n"
    by (simp_all add: always_up_def sane_config_def match_defaults_def tables_ok_def keyed_def fan_defs)
  from match_step_exact [OF this, of None] obtain w' where
    run: "run_state (match_step match_defaults None) fan_world = (Inr (), w')" and
    f: "\<And>u i. find_match (w_db w') u i =
      (if has_row (\<lambda>e. e_id e = i \<and> obsolete_event (10956 * day) e) (events (w_db fan_world)) then None
       else case find (\<lambda>p. up_id p = u) (loaded_users None (w_db fan_world)) of
          None \<Rightarrow> find_match (w_db fan_world) u i
        | Some p \<Rightarrow> (case find (\<lambda>e. ep_id e = i) (loaded_events (10956 * day) (w_db fan_world)) of
            None \<Rightarrow> None
          | Some e \<Rightarrow> if passes match_defaults p e then Some (stored_row match_defaults (10956 * day) p e) else None))"
    unfolding fan_clock by blast
  have "\<not> has_row (\<lambda>e. e_id e = i \<and> obsolete_event (10956 * day) e) (events (w_db fan_world))" for i
    by (simp add: has_row_iff obsolete_event_def event_over_at_def fan_defs)
  then have "map_option m_score (find_match (w_db w') 7 1) = Some (Fin (1 / 5))" "find_match (w_db w') 7 2 = None"
    unfolding f fan_loads
    by (simp_all add: passes_def stored_row_def score_def Let_def matched_artists_def performer_set_def
        map_filter_simps matched_interests_def weigh_def clamp_def match_defaults_def threshold_of_def)
  with run show ?thesis by blast
qed

section \<open>Two runs at once\<close>

text \<open>
  The nightly run and the re-score of one user share the table. The older run takes its time
  stamp first, and its upsert of a pair writes that stamp over the younger one's.
\<close>

text \<open>
  C19. If a run that began earlier stores a pair after a later run has stored it, the later
  run's prune deletes the pair, although both runs scored it above the threshold: the stamp
  the prune compares is not kept at its maximum by the upsert.
\<close>

theorem overlapping_runs_lose_match:
  assumes "user_exists d (up_id u)" and "event_exists d (ep_id e)" and "keyed match_key (matches d)" and "old < new"
    and "upsert_user_event_match (up_id u) (ep_id e) (ms_total (score u e cfg)) (breakdown_json (score u e cfg))
           new t1 d = Inr ((), d1)"
    and "upsert_user_event_match (up_id u) (ep_id e) (ms_total (score u e cfg)) (breakdown_json (score u e cfg))
           old t2 d1 = Inr ((), d2)"
    and "delete_stale_matches_for_users [up_id u] new t3 d2 = Inr ((), d3)"
  shows "find_match d1 (up_id u) (ep_id e) = Some (stored_row cfg new u e) \<and>
    find_match d3 (up_id u) (ep_id e) = None"
proof -
  have up: "upsert_user_event_match (up_id u) (ep_id e) (ms_total (score u e cfg)) (breakdown_json (score u e cfg)) s t x =
      Inr ((), x\<lparr>matches := upsert_row match_key (stored_row cfg s u e) (overwrite (stored_row cfg s u e)) (matches x)\<rparr>)"
    if "users x = users d" "events x = events d" for s t x
    using assms(1,2) that
    by (simp add: upsert_user_event_match_def match_key_def [abs_def] overwrite_def [abs_def] stored_row_def
        user_exists_def event_exists_def)
  have d1: "d1 = d\<lparr>matches := upsert_row match_key (stored_row cfg new u e) (overwrite (stored_row cfg new u e)) (matches d)\<rparr>"
    using assms(5) up [of d new t1] by simp
  have d2: "d2 = d1\<lparr>matches := upsert_row match_key (stored_row cfg old u e) (overwrite (stored_row cfg old u e)) (matches d1)\<rparr>"
    using assms(6) up [of d1 old t2] d1 by simp
  have k: "keyed match_key (matches d2)" unfolding d2 d1 using assms(3) by (simp add: keyed_upsert_row)
  have "find (\<lambda>m. match_key m = (up_id u, ep_id e)) (matches d2) = Some (stored_row cfg old u e)"
    unfolding d2 by (simp add: find_store_upsert)
  then have "find_match d3 (up_id u) (ep_id e) = None"
    using assms(4,7) find_delete_rows [OF k, of "(up_id u, ep_id e)"]
    by (auto simp: find_match_key delete_stale_matches_for_users_def stored_row_def)
  moreover have "find_match d1 (up_id u) (ep_id e) = Some (stored_row cfg new u e)"
    unfolding find_match_key d1 by (simp add: find_store_upsert)
  ultimately show ?thesis by simp
qed

theorem overlapping_runs_lose_match_witness:
  "\<exists>d1 d2 d3.
     upsert_user_event_match 7 1 (ms_total (score demo_fan demo_show_profile match_defaults))
       (breakdown_json (score demo_fan demo_show_profile match_defaults)) 2 0 fan_db = Inr ((), d1) \<and>
     upsert_user_event_match 7 1 (ms_total (score demo_fan demo_show_profile match_defaults))
       (breakdown_json (score demo_fan demo_show_profile match_defaults)) 1 0 d1 = Inr ((), d2) \<and>
     delete_stale_matches_for_users [7] 2 0 d2 = Inr ((), d3) \<and>
     find_match d1 7 1 \<noteq> None \<and> find_match d3 7 1 = None"
proof -
  have ids: "up_id demo_fan = 7" "ep_id demo_show_profile = 1" by (simp_all add: demo_fan_def demo_show_profile_def)
  have fk: "user_exists fan_db 7" "event_exists fan_db 1" "keyed match_key (matches fan_db)"
    by (simp_all add: user_exists_def event_exists_def keyed_def fan_defs)
  define q where "q t n d = upsert_user_event_match 7 1 (ms_total (score demo_fan demo_show_profile match_defaults))
       (breakdown_json (score demo_fan demo_show_profile match_defaults)) t n d" for t n d
  obtain d1 where d1: "q 2 0 fan_db = Inr ((), d1)" "users d1 = users fan_db" "events d1 = events fan_db"
    using fk by (auto simp: q_def upsert_user_event_match_def)
  obtain d2 where d2: "q 1 0 d1 = Inr ((), d2)"
    using fk d1(2,3) by (auto simp: q_def upsert_user_event_match_def user_exists_def event_exists_def)
  obtain d3 where d3: "delete_stale_matches_for_users [7] 2 0 d2 = Inr ((), d3)"
    by (simp add: delete_stale_matches_for_users_def)
  have "find_match d1 7 1 = Some (stored_row match_defaults 2 demo_fan demo_show_profile) \<and> find_match d3 7 1 = None"
    using overlapping_runs_lose_match [of fan_db demo_fan demo_show_profile 1 2 match_defaults 0 d1 0 d2 0 d3,
      unfolded ids, OF fk _ d1(1) [unfolded q_def] d2 [unfolded q_def] d3] by simp
  then show ?thesis using d1(1) d2 d3 unfolding q_def by blast
qed

end
