(* ===== verification/UserLists.thy ===== *)
theory UserLists
  imports Calendar Matcher StoreAuth AuthHandlers
begin

text \<open>
  The small per-user handlers of \<open>internal/http/handlers\<close> and their queries: the going and
  not-interested lists, shows typed in by hand, the match threshold and setlist settings,
  \<open>GetMe\<close>, and the venues of a city.
\<close>

section \<open>Going and not interested\<close>

text \<open>
  The rows of the two lists are pairs of user and event, the primary key of their tables;
  the time of creation is never read.
\<close>

definition add_pair ::
    "((uuid \<times> uuid) list \<Rightarrow> db \<Rightarrow> db) \<Rightarrow> (db \<Rightarrow> (uuid \<times> uuid) list) \<Rightarrow> uuid \<Rightarrow> uuid \<Rightarrow> unit query" where
  "add_pair put get u e now d =
     (if (u, e) \<in> set (get d) then Inr ((), d)
      else if \<not> user_exists d u \<or> \<not> event_exists d e then Inl ForeignKey
      else Inr ((), put (get d @ [(u, e)]) d))"

definition insert_going :: "uuid \<Rightarrow> uuid \<Rightarrow> unit query" where
  "insert_going = add_pair (\<lambda>t d. d\<lparr>going := t\<rparr>) going"

definition clear_going :: "uuid \<Rightarrow> uuid \<Rightarrow> unit query" where
  "clear_going u e now d = Inr ((), d\<lparr>going := delete_rows (\<lambda>g. g = (u, e)) (going d)\<rparr>)"

definition select_going :: "uuid \<Rightarrow> uuid list query" where
  "select_going u now d = Inr (map snd (filter (\<lambda>g. fst g = u) (going d)), d)"

definition going_row_join :: "uuid \<Rightarrow> db \<Rightarrow> uuid \<times> uuid \<Rightarrow> calendar_row option" where
  "going_row_join u d g =
     (if fst g \<noteq> u then None
      else case find_event d (snd g) of
        None \<Rightarrow> None
      | Some e \<Rightarrow>
          if e_archived_at e \<noteq> None then None
          else (case find_venue d (e_venue_id e) of
             None \<Rightarrow> None
           | Some v \<Rightarrow> Some \<lparr>cal_event = e, cal_venue = v, cal_score = map_option m_score (find_match d u (e_id e)),
                             cal_breakdown = map_option m_breakdown (find_match d u (e_id e))\<rparr>))"

definition select_going_events :: "uuid \<Rightarrow> calendar_row list query" where
  "select_going_events u now d = Inr (sort_key cal_key (List.map_filter (going_row_join u d) (going d)), d)"

definition insert_not_interested :: "uuid \<Rightarrow> uuid \<Rightarrow> unit query" where
  "insert_not_interested = add_pair (\<lambda>t d. d\<lparr>not_interested := t\<rparr>) not_interested"

definition clear_not_interested :: "uuid \<Rightarrow> unit query" where
  "clear_not_interested u now d =
     Inr ((), d\<lparr>not_interested := delete_rows (\<lambda>g. fst g = u) (not_interested d)\<rparr>)"

definition select_not_interested :: "uuid \<Rightarrow> uuid list query" where
  "select_not_interested u now d =
     Inr (map snd (filter (\<lambda>g. fst g = u \<and>
       (case find_event d (snd g) of None \<Rightarrow> False | Some e \<Rightarrow> now < event_over_at e)) (not_interested d)), d)"

definition bad_json :: response where
  "bad_json = http_err 400 ''bad_json'' ''request body is not valid JSON''"

text \<open>The body of the two adds, which differ in the table and the message.\<close>

definition add_to_list ::
    "(uuid \<Rightarrow> uuid \<Rightarrow> unit query) \<Rightarrow> string \<Rightarrow> (string \<Rightarrow> uuid option) \<Rightarrow> uuid option \<Rightarrow> string option \<Rightarrow> 'l handler" where
  "add_to_list q msg P uid req =
     (case uid of
        None \<Rightarrow> ret no_user
      | Some u \<Rightarrow>
          (case req of
             None \<Rightarrow> ret bad_json
           | Some s \<Rightarrow>
               (case P s of
                  None \<Rightarrow> ret (http_err 400 ''bad_event'' ''event_id is not a valid uuid'')
                | Some e \<Rightarrow> do {
                    r \<leftarrow> db_call (q u e);
                    ret (case r of
                           Inl ForeignKey \<Rightarrow> http_err 400 ''unknown_event'' ''event does not exist''
                         | Inl _ \<Rightarrow> http_err 500 ''db_error'' msg
                         | Inr _ \<Rightarrow> no_content) })))"

definition add_going :: "(string \<Rightarrow> uuid option) \<Rightarrow> uuid option \<Rightarrow> string option \<Rightarrow> 'l handler" where
  "add_going = add_to_list insert_going ''could not save going''"

definition add_not_interested :: "(string \<Rightarrow> uuid option) \<Rightarrow> uuid option \<Rightarrow> string option \<Rightarrow> 'l handler" where
  "add_not_interested = add_to_list insert_not_interested ''could not save not-interested''"

text \<open>\<open>ResetGoing\<close> parses the event before it looks at the user.\<close>

definition reset_going :: "(string \<Rightarrow> uuid option) \<Rightarrow> uuid option \<Rightarrow> string \<Rightarrow> 'l handler" where
  "reset_going P uid event =
     (case P event of
        None \<Rightarrow> ret (http_err 400 ''bad_event'' ''event_id is not a valid uuid'')
      | Some e \<Rightarrow>
          (case uid of
             None \<Rightarrow> ret no_user
           | Some u \<Rightarrow> do {
               r \<leftarrow> db_call (clear_going u e);
               ret (case r of Inl _ \<Rightarrow> http_err 500 ''db_error'' ''could not reset going''
                            | Inr _ \<Rightarrow> no_content) }))"

definition reset_not_interested :: "uuid option \<Rightarrow> 'l handler" where
  "reset_not_interested uid =
     (case uid of
        None \<Rightarrow> ret no_user
      | Some u \<Rightarrow> do {
          r \<leftarrow> db_call (clear_not_interested u);
          ret (case r of Inl _ \<Rightarrow> http_err 500 ''db_error'' ''could not reset not-interested''
                       | Inr _ \<Rightarrow> no_content) })"

definition ids_json :: "uuid list \<Rightarrow> json" where
  "ids_json is = JArr (map (\<lambda>i. JStr (uuid_string i)) is)"

definition list_going :: "uuid option \<Rightarrow> 'l handler" where
  "list_going uid =
     (case uid of
        None \<Rightarrow> ret no_user
      | Some u \<Rightarrow> do {
          r \<leftarrow> db_call (select_going u);
          ret (case r of Inl _ \<Rightarrow> http_err 500 ''db_error'' ''could not list going''
                       | Inr is \<Rightarrow> write_json 200 (ids_json is)) })"

definition list_not_interested :: "uuid option \<Rightarrow> 'l handler" where
  "list_not_interested uid =
     (case uid of
        None \<Rightarrow> ret no_user
      | Some u \<Rightarrow> do {
          r \<leftarrow> db_call (select_not_interested u);
          ret (case r of Inl _ \<Rightarrow> http_err 500 ''db_error'' ''could not list not-interested''
                       | Inr is \<Rightarrow> write_json 200 (ids_json is)) })"

definition list_going_events :: "uuid option \<Rightarrow> 'l handler" where
  "list_going_events uid =
     (case uid of
        None \<Rightarrow> ret no_user
      | Some u \<Rightarrow> do {
          r \<leftarrow> db_call (select_going_events u);
          case r of
            Inl e \<Rightarrow> ret (http_err 500 ''db_error'' ''could not list going events'')
          | Inr rows \<Rightarrow> do {
              arts \<leftarrow> attach_artists rows;
              ret (write_json 200 (JArr (map2 calendar_event rows arts))) } })"

section \<open>Shows typed in by hand\<close>

definition insert_manual_event :: "uuid \<Rightarrow> instant \<Rightarrow> string \<Rightarrow> string \<Rightarrow> uuid \<Rightarrow> manual_row query" where
  "insert_manual_event u date name venue fresh now d =
     (if \<not> user_exists d u then Inl ForeignKey
      else if has_row (\<lambda>r. mg_id r = fresh) (manual_events d) then Inl Unique
      else let r = \<lparr>mg_id = fresh, mg_user_id = u, mg_show_date = date, mg_event_name = name,
                    mg_venue_name = venue, mg_created_at = now, mg_updated_at = now\<rparr>
           in Inr (r, d\<lparr>manual_events := manual_events d @ [r]\<rparr>))"

definition set_manual_event :: "uuid \<Rightarrow> uuid \<Rightarrow> instant \<Rightarrow> string \<Rightarrow> string \<Rightarrow> manual_row query" where
  "set_manual_event i u date name venue now d =
     (let f = (\<lambda>r. r\<lparr>mg_show_date := date, mg_event_name := name, mg_venue_name := venue, mg_updated_at := now\<rparr>)
      in case find (\<lambda>r. mg_id r = i \<and> mg_user_id r = u) (manual_events d) of
           None \<Rightarrow> Inl NoRows
         | Some r \<Rightarrow> Inr (f r, d\<lparr>manual_events :=
             update_rows (\<lambda>r. mg_id r = i \<and> mg_user_id r = u) f (manual_events d)\<rparr>))"

definition remove_manual_event :: "uuid \<Rightarrow> uuid \<Rightarrow> unit query" where
  "remove_manual_event i u now d =
     Inr ((), d\<lparr>manual_events := delete_rows (\<lambda>r. mg_id r = i \<and> mg_user_id r = u) (manual_events d)\<rparr>)"

text \<open>\<open>ORDER BY show_date DESC, id ASC\<close>\<close>

definition select_manual_events :: "uuid \<Rightarrow> manual_row list query" where
  "select_manual_events u now d =
     Inr (sort_key (\<lambda>r. (- mg_show_date r, mg_id r)) (filter (\<lambda>r. mg_user_id r = u) (manual_events d)), d)"

definition manual_event_name_limit :: nat where "manual_event_name_limit = 200"

record manual_request =
  mr_date :: string
  mr_event_name :: string
  mr_venue_name :: string

definition decode_manual_event :: "manual_request option \<Rightarrow> response + (instant \<times> string \<times> string)" where
  "decode_manual_event req =
     (case req of
        None \<Rightarrow> Inl bad_json
      | Some m \<Rightarrow>
          (case parse_date_only (trim_space (mr_date m)) of
             None \<Rightarrow> Inl (http_err 400 ''bad_date'' ''date must be a calendar day in YYYY-MM-DD form'')
           | Some t \<Rightarrow>
               (let name = trim_space (mr_event_name m); venue = trim_space (mr_venue_name m) in
                if name = [] then Inl (http_err 400 ''empty_event_name'' ''event_name must not be empty'')
                else if venue = [] then Inl (http_err 400 ''empty_venue_name'' ''venue_name must not be empty'')
                else if manual_event_name_limit < length name \<or> manual_event_name_limit < length venue
                then Inl (http_err 400 ''value_too_long'' ''event_name and venue_name must be 200 characters or fewer'')
                else Inr (t, name, venue))))"

definition manual_event_out :: "manual_row \<Rightarrow> json" where
  "manual_event_out r =
     JObj [(''id'', JStr (uuid_string (mg_id r))), (''date'', JStr (format_date_only (mg_show_date r))),
           (''event_name'', JStr (mg_event_name r)), (''venue_name'', JStr (mg_venue_name r)),
           (''created_at'', JStr (format_rfc3339 (mg_created_at r)))]"

definition list_manual_events :: "uuid option \<Rightarrow> 'l handler" where
  "list_manual_events uid =
     (case uid of
        None \<Rightarrow> ret no_user
      | Some u \<Rightarrow> do {
          r \<leftarrow> db_call (select_manual_events u);
          ret (case r of Inl _ \<Rightarrow> http_err 500 ''db_error'' ''could not list manual events''
                       | Inr rs \<Rightarrow> write_json 200 (JObj [(''events'', JArr (map manual_event_out rs))])) })"

definition create_manual_event :: "uuid option \<Rightarrow> manual_request option \<Rightarrow> 'l handler" where
  "create_manual_event uid req =
     (case uid of
        None \<Rightarrow> ret no_user
      | Some u \<Rightarrow>
          (case decode_manual_event req of
             Inl resp \<Rightarrow> ret resp
           | Inr (t, name, venue) \<Rightarrow> do {
               r \<leftarrow> db_insert (insert_manual_event u t name venue);
               ret (case r of Inl _ \<Rightarrow> http_err 500 ''db_error'' ''could not create manual event''
                            | Inr row \<Rightarrow> write_json 201 (manual_event_out row)) }))"

definition bad_id :: response where "bad_id = http_err 400 ''bad_id'' ''id is not a valid uuid''"

definition update_manual_event ::
    "(string \<Rightarrow> uuid option) \<Rightarrow> uuid option \<Rightarrow> string \<Rightarrow> manual_request option \<Rightarrow> 'l handler" where
  "update_manual_event P uid idstr req =
     (case uid of
        None \<Rightarrow> ret no_user
      | Some u \<Rightarrow>
          (case P idstr of
             None \<Rightarrow> ret bad_id
           | Some i \<Rightarrow>
               (case decode_manual_event req of
                  Inl resp \<Rightarrow> ret resp
                | Inr (t, name, venue) \<Rightarrow> do {
                    r \<leftarrow> db_call (set_manual_event i u t name venue);
                    ret (case r of
                           Inl NoRows \<Rightarrow> http_err 404 ''not_found'' ''no such manual event''
                         | Inl _ \<Rightarrow> http_err 500 ''db_error'' ''could not update manual event''
                         | Inr row \<Rightarrow> write_json 200 (manual_event_out row)) })))"

definition delete_manual_event :: "(string \<Rightarrow> uuid option) \<Rightarrow> uuid option \<Rightarrow> string \<Rightarrow> 'l handler" where
  "delete_manual_event P uid idstr =
     (case uid of
        None \<Rightarrow> ret no_user
      | Some u \<Rightarrow>
          (case P idstr of
             None \<Rightarrow> ret bad_id
           | Some i \<Rightarrow> do {
               r \<leftarrow> db_call (remove_manual_event i u);
               ret (case r of Inl _ \<Rightarrow> http_err 500 ''db_error'' ''could not delete manual event''
                            | Inr _ \<Rightarrow> no_content) }))"

section \<open>Settings\<close>

definition min_match_threshold :: f64 where "min_match_threshold = Fin 0.2"
definition max_match_threshold :: f64 where "max_match_threshold = Fin 0.6"

text \<open>The answer, and the user a background re-score (\<open>rescore_user\<close>) was started for.\<close>

definition update_match_threshold ::
    "uuid option \<Rightarrow> f64 option \<Rightarrow> ('l, response \<times> uuid option) act" where
  "update_match_threshold uid req =
     (case uid of
        None \<Rightarrow> ret (no_user, None)
      | Some u \<Rightarrow>
          (case req of
             None \<Rightarrow> ret (bad_json, None)
           | Some th \<Rightarrow>
               if th < min_match_threshold \<or> max_match_threshold < th
               then ret (http_err 400 ''invalid_threshold'' ''threshold must be between 0.20 and 0.60'', None)
               else do {
                 r \<leftarrow> db_call (update_user_score_threshold u (Some th));
                 ret (case r of
                        Inl _ \<Rightarrow> (http_err 500 ''db_error'' ''could not update threshold'', None)
                      | Inr _ \<Rightarrow> (write_json 202 (JObj [(''status'', JStr ''recomputing'')]), Some u)) }))"

text \<open>The body is None when it does not decode and \<open>Some None\<close> when the field is left out.\<close>

definition update_show_setlists :: "uuid option \<Rightarrow> bool option option \<Rightarrow> 'l handler" where
  "update_show_setlists uid req =
     (case uid of
        None \<Rightarrow> ret no_user
      | Some u \<Rightarrow>
          (case req of
             None \<Rightarrow> ret bad_json
           | Some None \<Rightarrow> ret (http_err 400 ''missing_field'' ''show_setlists is required'')
           | Some (Some b) \<Rightarrow> do {
               r \<leftarrow> db_call (update_user_show_setlists u b);
               ret (case r of Inl _ \<Rightarrow> http_err 500 ''db_error'' ''could not update setlist visibility''
                            | Inr _ \<Rightarrow> no_content) }))"

definition get_me :: "uuid option \<Rightarrow> 'l handler" where
  "get_me uid =
     (case uid of
        None \<Rightarrow> ret no_user
      | Some u \<Rightarrow> do {
          r \<leftarrow> db_call (get_user_by_id u);
          case r of
            Inl e \<Rightarrow> ret (http_err 404 ''no_user'' ''user not found'')
          | Inr row \<Rightarrow>
              (case u_score_threshold row of
                 Some th \<Rightarrow> ret (write_json 200 (user_out u row (Some th) (u_show_setlists row)))
               | None \<Rightarrow> do {
                   c \<leftarrow> load_config match_defaults;
                   ret (write_json 200 (user_out u row
                     (Some (case c of (Some e, _) \<Rightarrow> score_threshold match_defaults
                                    | (None, cfg) \<Rightarrow> score_threshold cfg))
                     (u_show_setlists row))) }) })"

section \<open>Venues of a city\<close>

record venue_count =
  vc_venue :: venue_row
  vc_count :: nat
  vc_next :: instant

text \<open>
  The join and its grouping: a venue with no event that passes has no group. The database's
  collation of \<open>lower(name)\<close> is the key \<open>collate\<close>.
\<close>

definition venue_events :: "string option \<Rightarrow> instant \<Rightarrow> db \<Rightarrow> venue_row \<Rightarrow> event_row list" where
  "venue_events seg now d v =
     filter (\<lambda>e. e_venue_id e = v_id v \<and> showable now e \<and> segment_passes seg e) (events d)"

definition select_city_venues ::
    "(string \<Rightarrow> nat list) \<Rightarrow> uuid \<Rightarrow> string option \<Rightarrow> venue_count list query" where
  "select_city_venues collate c seg now d =
     Inr (sort_key (\<lambda>r. (- int (vc_count r), collate (v_name (vc_venue r)), v_id (vc_venue r)))
            (List.map_filter
               (\<lambda>v. let es = venue_events seg now d v in
                    if v_city_id v \<noteq> c \<or> es = [] then None
                    else Some \<lparr>vc_venue = v, vc_count = length es, vc_next = Min (set (map e_starts_at es))\<rparr>)
               (venues d)), d)"

definition omit_num :: "string \<Rightarrow> real option \<Rightarrow> (string \<times> json) list" where
  "omit_num k v = (case v of None \<Rightarrow> [] | Some x \<Rightarrow> [(k, JNum (Fin x))])"

definition venue_json :: "venue_count \<Rightarrow> json" where
  "venue_json r =
     (let v = vc_venue r in
      JObj ([(''id'', JStr (uuid_string (v_id v))), (''name'', JStr (v_name v))]
            @ omit_str ''address'' (opt_str (v_address v)) @ omit_num ''lat'' (v_lat v) @ omit_num ''lng'' (v_lng v)
            @ omit_str ''website_url'' (opt_str (v_website v))
            @ [(''upcoming_event_count'', JNum (Fin (of_nat (vc_count r)))),
               (''next_event_at'', JStr (format_rfc3339 (vc_next r)))]))"

definition list_city_venues ::
    "(string \<Rightarrow> uuid option) \<Rightarrow> (string \<Rightarrow> nat list) \<Rightarrow> string \<Rightarrow> string \<Rightarrow> 'l handler" where
  "list_city_venues P collate city segment =
     (case P city of
        None \<Rightarrow> ret (http_err 400 ''bad_city_id'' ''cityId is not a valid uuid'')
      | Some c \<Rightarrow>
          (case parse_segment segment of
             Inl resp \<Rightarrow> ret resp
           | Inr seg \<Rightarrow> do {
               r \<leftarrow> db_call (select_city_venues collate c seg);
               ret (case r of Inl _ \<Rightarrow> http_err 500 ''db_error'' ''could not load venues''
                            | Inr rs \<Rightarrow> write_json 200 (JObj [(''venues'', JArr (map venue_json rs))])) }))"

end
