(* ===== verification/Ingest.thy ===== *)
theory Ingest
  imports Matcher UserLists "HOL-Library.Word"
begin

text \<open>
  The ingest side (\<open>internal/ingest\<close>): the messages of the two queues (\<open>internal/events\<close>),
  the catalogue writes they cause (\<open>artists.sql.go\<close>, \<open>venues.sql.go\<close>, \<open>events.sql.go\<close>,
  \<open>event_associations.sql.go\<close>, \<open>user_spotify_tokens.sql.go\<close>), the two handlers and the
  consumer. A message is what its JSON decodes to.
\<close>

section \<open>Messages\<close>

record venue_msg =
  vm_name :: string
  vm_address :: string
  vm_lat :: "real option"
  vm_lng :: "real option"
  vm_website :: string

record event_msg =
  em_source :: string
  em_source_event_id :: string
  em_title :: string
  em_description :: string
  em_starts_at :: instant
  em_ends_at :: "instant option"
  em_time_tbd :: bool
  em_venue :: venue_msg
  em_segment :: string
  em_performers :: "string list"
  em_genres :: "string list"
  em_image_url :: string
  em_url :: string

record artist_info =
  in_performer :: string
  in_display_name :: string
  in_mbid :: string
  in_disambiguation :: string
  in_type :: string
  in_country :: string
  in_begin_year :: string
  in_status :: string

text \<open>The credit, sources and songs are the JSON they are stored as, None for a nil pointer or slice.\<close>

record image_info =
  im_status :: string
  im_url :: string
  im_width :: int
  im_height :: int
  im_file :: string
  im_source :: string
  im_credit :: "json option"
  im_reason :: string

record bio_info =
  bi_status :: string
  bi_md :: string
  bi_sources :: "json option"
  bi_model :: string
  bi_reason :: string

record tour_info =
  ti_status :: string
  ti_name :: string
  ti_songs :: "json option"
  ti_observed_date :: string
  ti_observed_venue :: string
  ti_observed_city :: string
  ti_setlist_url :: string
  ti_blurb :: string
  ti_blurb_model :: string
  ti_reason :: string

record enrichment =
  er_artist :: "artist_info option"
  er_image :: "image_info option"
  er_bio :: "bio_info option"
  er_tour :: "tour_info option"

text \<open>An \<open>EnrichedMessage\<close>: the message and its enrichment block.\<close>

type_synonym enriched_msg = "event_msg \<times> enrichment option"

section \<open>Catalogue writes\<close>

definition get_event_source_by_name :: "string \<Rightarrow> source_row query" where
  "get_event_source_by_name n now d = one_row (\<lambda>s. es_name s = n) (sources d) d"

text \<open>
  An upsert that answers the id: the row with the key is merged, or a row with a fresh id is
  added; \<open>Unique\<close> when the id is taken.
\<close>

definition upsert_returning ::
    "('r \<Rightarrow> 'k) \<Rightarrow> ('r \<Rightarrow> uuid) \<Rightarrow> 'r \<Rightarrow> ('r \<Rightarrow> 'r) \<Rightarrow> 'r list \<Rightarrow> (uuid \<times> 'r list) option" where
  "upsert_returning key rid new merge t =
     (case find (\<lambda>r. key r = key new) t of
        Some r \<Rightarrow> Some (rid r, update_rows (\<lambda>r. key r = key new) merge t)
      | None \<Rightarrow> if has_row (\<lambda>r. rid r = rid new) t then None else Some (rid new, t @ [new]))"

definition upsert_artist ::
    "string \<Rightarrow> string \<Rightarrow> string option \<Rightarrow> string option \<Rightarrow> string option \<Rightarrow> string option \<Rightarrow>
     string option \<Rightarrow> string \<Rightarrow> uuid \<Rightarrow> uuid query" where
  "upsert_artist key display mbid disamb ty country begin_year status fresh now d =
     (if status \<notin> {''ok'', ''not_found''} then Inl CheckFailed
      else case upsert_returning a_name_key a_id
          \<lparr>a_id = fresh, a_name_key = key, a_display_name = display, a_mbid = mbid, a_disambiguation = disamb,
           a_type = ty, a_country = country, a_begin_year = begin_year, a_status = status, a_resolved_at = now\<rparr>
          (\<lambda>r. r\<lparr>a_display_name := display, a_mbid := mbid, a_disambiguation := disamb, a_type := ty,
                 a_country := country, a_begin_year := begin_year, a_status := status, a_resolved_at := now\<rparr>)
          (artists d) of
        None \<Rightarrow> Inl Unique
      | Some (i, t) \<Rightarrow> Inr (i, d\<lparr>artists := t\<rparr>))"

definition valid_status :: "string \<Rightarrow> bool" where
  "valid_status s = (s = ''ok'' \<or> s = ''none'' \<or> s = ''error'')"

text \<open>The columns of a section are kept when the new status is not \<open>ok\<close>.\<close>

definition guarded :: "bool \<Rightarrow> 'a \<Rightarrow> 'a \<Rightarrow> 'a" where
  "guarded ok new old = (if ok then new else old)"

definition upsert_section ::
    "uuid \<Rightarrow> string \<Rightarrow> ('r \<Rightarrow> uuid) \<Rightarrow> 'r \<Rightarrow> ('r \<Rightarrow> 'r) \<Rightarrow> (db \<Rightarrow> 'r list) \<Rightarrow> ('r list \<Rightarrow> db \<Rightarrow> db) \<Rightarrow> unit query" where
  "upsert_section a status key new merge get put now d =
     (if \<not> valid_status status then Inl CheckFailed
      else if \<not> has_row (\<lambda>r. key r = a) (get d) \<and> \<not> artist_exists d a then Inl ForeignKey
      else Inr ((), put (upsert_row key new merge (get d)) d))"

definition upsert_artist_image ::
    "uuid \<Rightarrow> string \<Rightarrow> string option \<Rightarrow> int option \<Rightarrow> int option \<Rightarrow> string option \<Rightarrow> string option \<Rightarrow>
     json option \<Rightarrow> string option \<Rightarrow> unit query" where
  "upsert_artist_image a status url width height file src credit reason now d =
     (let ok = (status = ''ok'') in
      upsert_section a status ai_artist_id
        \<lparr>ai_artist_id = a, ai_status = status, ai_url = url, ai_width = width, ai_height = height, ai_file = file,
         ai_source = src, ai_credit = credit, ai_reason = reason, ai_checked_at = now\<rparr>
        (\<lambda>r. r\<lparr>ai_status := status, ai_url := guarded ok url (ai_url r), ai_width := guarded ok width (ai_width r),
               ai_height := guarded ok height (ai_height r), ai_file := guarded ok file (ai_file r),
               ai_source := guarded ok src (ai_source r), ai_credit := guarded ok credit (ai_credit r),
               ai_reason := reason, ai_checked_at := now\<rparr>)
        images (\<lambda>t d. d\<lparr>images := t\<rparr>) now d)"

definition upsert_artist_bio ::
    "uuid \<Rightarrow> string \<Rightarrow> string option \<Rightarrow> json \<Rightarrow> string option \<Rightarrow> string option \<Rightarrow> unit query" where
  "upsert_artist_bio a status md srcs model reason now d =
     (let ok = (status = ''ok'') in
      upsert_section a status ab_artist_id
        \<lparr>ab_artist_id = a, ab_status = status, ab_bio_md = md, ab_sources = srcs, ab_model = model,
         ab_reason = reason, ab_generated_at = now\<rparr>
        (\<lambda>r. r\<lparr>ab_status := status, ab_bio_md := guarded ok md (ab_bio_md r),
               ab_sources := guarded ok srcs (ab_sources r), ab_model := guarded ok model (ab_model r),
               ab_reason := reason, ab_generated_at := now\<rparr>)
        bios (\<lambda>t d. d\<lparr>bios := t\<rparr>) now d)"

definition upsert_artist_tour_snapshot ::
    "uuid \<Rightarrow> string \<Rightarrow> string option \<Rightarrow> json \<Rightarrow> instant option \<Rightarrow> string option \<Rightarrow> string option \<Rightarrow>
     string option \<Rightarrow> string option \<Rightarrow> string option \<Rightarrow> string option \<Rightarrow> unit query" where
  "upsert_artist_tour_snapshot a status name songs date venue city setlist blurb blurb_model reason now d =
     (let ok = (status = ''ok'') in
      upsert_section a status at_artist_id
        \<lparr>at_artist_id = a, at_status = status, at_tour_name = name, at_songs = songs, at_observed_date = date,
         at_observed_venue = venue, at_observed_city = city, at_setlist_url = setlist, at_blurb = blurb,
         at_blurb_model = blurb_model, at_reason = reason, at_fetched_at = now\<rparr>
        (\<lambda>r. r\<lparr>at_status := status, at_tour_name := guarded ok name (at_tour_name r),
               at_songs := guarded ok songs (at_songs r), at_observed_date := guarded ok date (at_observed_date r),
               at_observed_venue := guarded ok venue (at_observed_venue r),
               at_observed_city := guarded ok city (at_observed_city r),
               at_setlist_url := guarded ok setlist (at_setlist_url r), at_blurb := guarded ok blurb (at_blurb r),
               at_blurb_model := guarded ok blurb_model (at_blurb_model r), at_reason := reason,
               at_fetched_at := now\<rparr>)
        tours (\<lambda>t d. d\<lparr>tours := t\<rparr>) now d)"

definition upsert_venue ::
    "uuid \<Rightarrow> string \<Rightarrow> string \<Rightarrow> string option \<Rightarrow> real option \<Rightarrow> real option \<Rightarrow> string option \<Rightarrow> uuid \<Rightarrow> uuid query" where
  "upsert_venue city name normalized address lat lng website fresh now d =
     (if \<not> has_row (\<lambda>c. c_id c = city) (cities d) then Inl ForeignKey
      else case upsert_returning (\<lambda>v. (v_city_id v, v_normalized v)) v_id
          \<lparr>v_id = fresh, v_city_id = city, v_name = name, v_normalized = normalized, v_address = address,
           v_lat = lat, v_lng = lng, v_website = website\<rparr>
          (\<lambda>v. v\<lparr>v_name := name, v_address := address, v_lat := lat, v_lng := lng, v_website := website\<rparr>)
          (venues d) of
        None \<Rightarrow> Inl Unique
      | Some (i, t) \<Rightarrow> Inr (i, d\<lparr>venues := t\<rparr>))"

text \<open>The columns \<open>upsertEvent\<close> writes; a link or a segment that is NULL keeps the stored one.\<close>

definition coalesce :: "'a option \<Rightarrow> 'a option \<Rightarrow> 'a option" where
  "coalesce a b = (case a of None \<Rightarrow> b | Some x \<Rightarrow> Some x)"

definition event_key :: "event_row \<Rightarrow> uuid \<times> string" where
  "event_key e = (e_source_id e, e_source_event_id e)"

definition new_event :: "uuid \<Rightarrow> event_msg \<Rightarrow> uuid \<Rightarrow> uuid option \<Rightarrow> uuid \<Rightarrow> instant \<Rightarrow> event_row" where
  "new_event src m venue headline fresh now =
     \<lparr>e_id = fresh, e_source_id = src, e_source_event_id = em_source_event_id m, e_title = em_title m,
      e_description = em_description m, e_starts_at = em_starts_at m, e_ends_at = em_ends_at m, e_venue_id = venue,
      e_image_url = str_opt (em_image_url m), e_url = str_opt (em_url m), e_embedding = None,
      e_last_seen_at = now, e_archived_at = None, e_updated_at = now, e_time_tbd = em_time_tbd m,
      e_headline_artist_id = headline, e_segment = str_opt (em_segment m)\<rparr>"

definition merge_event :: "event_row \<Rightarrow> event_row \<Rightarrow> event_row" where
  "merge_event n e =
     e\<lparr>e_title := e_title n, e_description := e_description n, e_starts_at := e_starts_at n,
       e_ends_at := e_ends_at n, e_venue_id := e_venue_id n, e_image_url := e_image_url n, e_url := e_url n,
       e_time_tbd := e_time_tbd n,
       e_headline_artist_id := coalesce (e_headline_artist_id n) (e_headline_artist_id e),
       e_segment := coalesce (e_segment n) (e_segment e), e_last_seen_at := e_last_seen_at n,
       e_archived_at := None, e_updated_at := e_updated_at n\<rparr>"

definition upsert_event :: "uuid \<Rightarrow> event_msg \<Rightarrow> uuid \<Rightarrow> uuid option \<Rightarrow> uuid \<Rightarrow> uuid query" where
  "upsert_event src m venue headline fresh now d =
     (if \<not> has_row (\<lambda>s. es_id s = src) (sources d) \<or> \<not> has_row (\<lambda>v. v_id v = venue) (venues d) \<or>
         (case headline of None \<Rightarrow> False | Some a \<Rightarrow> \<not> artist_exists d a) then Inl ForeignKey
      else let n = new_event src m venue headline fresh now
           in case upsert_returning event_key e_id n (merge_event n) (events d) of
                None \<Rightarrow> Inl Unique
              | Some (i, t) \<Rightarrow> Inr (i, d\<lparr>events := t\<rparr>))"

definition delete_event_performers :: "uuid \<Rightarrow> unit query" where
  "delete_event_performers i now d = Inr ((), d\<lparr>performers := delete_rows (\<lambda>p. ep_event_id p = i) (performers d)\<rparr>)"

definition insert_event_performer :: "uuid \<Rightarrow> string \<Rightarrow> string \<Rightarrow> unit query" where
  "insert_event_performer i name normalized now d =
     (if has_row (\<lambda>p. ep_event_id p = i \<and> ep_normalized p = normalized) (performers d) then Inr ((), d)
      else if \<not> event_exists d i then Inl ForeignKey
      else Inr ((), d\<lparr>performers := performers d @
             [\<lparr>ep_event_id = i, ep_name = name, ep_normalized = normalized\<rparr>]\<rparr>))"

definition delete_event_genres :: "uuid \<Rightarrow> unit query" where
  "delete_event_genres i now d = Inr ((), d\<lparr>event_genres := delete_rows (\<lambda>g. fst g = i) (event_genres d)\<rparr>)"

definition genre_exists :: "string \<Rightarrow> bool query" where
  "genre_exists s now d = Inr (s \<in> set (genres d), d)"

definition insert_event_genre :: "uuid \<Rightarrow> string \<Rightarrow> unit query" where
  "insert_event_genre i s now d =
     (if (i, s) \<in> set (event_genres d) then Inr ((), d)
      else if \<not> event_exists d i \<or> s \<notin> set (genres d) then Inl ForeignKey
      else Inr ((), d\<lparr>event_genres := event_genres d @ [(i, s)]\<rparr>))"

section \<open>The event handler\<close>

definition step_new :: "(uuid \<Rightarrow> 'a query) \<Rightarrow> ('l, match_error + 'a) act" where
  "step_new f = do { r \<leftarrow> db_insert f; ret (case r of Inl e \<Rightarrow> Inl (DbFailed e) | Inr a \<Rightarrow> Inr a) }"

text \<open>\<open>optInt32\<close>: zero is absent, and the conversion to \<open>int32\<close> wraps.\<close>

definition opt_int32 :: "int \<Rightarrow> int option" where
  "opt_int32 v = (if v = 0 then None else Some (sint (word_of_int v :: 32 word)))"

definition parse_observed_date :: "string \<Rightarrow> instant option option" where
  "parse_observed_date s = (if s = [] then Some None else map_option Some (parse_date_only s))"

definition image_step :: "uuid \<Rightarrow> image_info option \<Rightarrow> ('l, match_error + unit) act" where
  "image_step a img =
     (case img of
        None \<Rightarrow> ret (Inr ())
      | Some i \<Rightarrow>
          if \<not> valid_status (im_status i) then ret (Inr ())
          else step_db (upsert_artist_image a (im_status i) (str_opt (im_url i)) (opt_int32 (im_width i))
                 (opt_int32 (im_height i)) (str_opt (im_file i)) (str_opt (im_source i)) (im_credit i)
                 (str_opt (im_reason i))))"

definition or_empty :: "json option \<Rightarrow> json" where
  "or_empty j = (case j of None \<Rightarrow> JArr [] | Some x \<Rightarrow> x)"

definition bio_step :: "uuid \<Rightarrow> bio_info option \<Rightarrow> ('l, match_error + unit) act" where
  "bio_step a bio =
     (case bio of
        None \<Rightarrow> ret (Inr ())
      | Some b \<Rightarrow>
          if \<not> valid_status (bi_status b) then ret (Inr ())
          else step_db (upsert_artist_bio a (bi_status b) (str_opt (bi_md b)) (or_empty (bi_sources b))
                 (str_opt (bi_model b)) (str_opt (bi_reason b))))"

definition tour_step :: "uuid \<Rightarrow> tour_info option \<Rightarrow> ('l, match_error + unit) act" where
  "tour_step a tour =
     (case tour of
        None \<Rightarrow> ret (Inr ())
      | Some t \<Rightarrow>
          if \<not> valid_status (ti_status t) then ret (Inr ())
          else (case parse_observed_date (ti_observed_date t) of
                  None \<Rightarrow> ret (Inr ())
                | Some date \<Rightarrow>
                    step_db (upsert_artist_tour_snapshot a (ti_status t) (str_opt (ti_name t)) (or_empty (ti_songs t))
                      date (str_opt (ti_observed_venue t)) (str_opt (ti_observed_city t)) (str_opt (ti_setlist_url t))
                      (str_opt (ti_blurb t)) (str_opt (ti_blurb_model t)) (str_opt (ti_reason t)))))"

definition apply_enrichment ::
    "text_env \<Rightarrow> enrichment option \<Rightarrow> ('l, match_error + uuid option) act" where
  "apply_enrichment T en =
     (case en of
        None \<Rightarrow> ret (Inr None)
      | Some e \<Rightarrow>
          (case er_artist e of
             None \<Rightarrow> ret (Inr None)
           | Some a \<Rightarrow>
               if in_status a \<noteq> ''ok'' \<and> in_status a \<noteq> ''not_found'' then ret (Inr None)
               else then_step (step_new (upsert_artist (normalize_string T (in_performer a))
                        (if in_display_name a = [] then in_performer a else in_display_name a)
                        (str_opt (in_mbid a)) (str_opt (in_disambiguation a)) (str_opt (in_type a))
                        (str_opt (in_country a)) (str_opt (in_begin_year a)) (in_status a)))
                    (\<lambda>i. then_step (image_step i (er_image e))
                    (\<lambda>_. then_step (bio_step i (er_bio e))
                    (\<lambda>_. then_step (tour_step i (er_tour e))
                    (\<lambda>_. ret (Inr (Some i))))))))"

definition performer_step :: "text_env \<Rightarrow> uuid \<Rightarrow> string \<Rightarrow> ('l, match_error + unit) act" where
  "performer_step T i p =
     (if p = [] then ret (Inr ()) else step_db (insert_event_performer i p (normalize_string T p)))"

text \<open>The slug of a genre: its alias, or the string itself.\<close>

definition genre_slug :: "text_env \<Rightarrow> string \<Rightarrow> string" where
  "genre_slug T g = (let s = normalize_genre T g in if s = [] then g else s)"

definition genre_step :: "text_env \<Rightarrow> uuid \<Rightarrow> string \<Rightarrow> ('l, match_error + unit) act" where
  "genre_step T i g =
     then_step (step_db (genre_exists (genre_slug T g)))
       (\<lambda>known. if \<not> known then ret (Inr ()) else step_db (insert_event_genre i (genre_slug T g)))"

definition handle_message :: "text_env \<Rightarrow> uuid \<Rightarrow> enriched_msg \<Rightarrow> ('l, match_error + unit) act" where
  "handle_message T city em =
     (case em of (m, en) \<Rightarrow>
        then_step (step_db (get_event_source_by_name (em_source m))) (\<lambda>src.
        then_step (apply_enrichment T en) (\<lambda>artist.
        then_step (step_new (upsert_venue city (vm_name (em_venue m)) (normalize_string T (vm_name (em_venue m)))
                     (str_opt (vm_address (em_venue m))) (vm_lat (em_venue m)) (vm_lng (em_venue m))
                     (str_opt (vm_website (em_venue m))))) (\<lambda>venue.
        then_step (step_new (upsert_event (es_id src) m venue artist)) (\<lambda>i.
        then_step (step_db (delete_event_performers i)) (\<lambda>_.
        then_step (each_step (performer_step T i) (em_performers m)) (\<lambda>_.
        then_step (step_db (delete_event_genres i)) (\<lambda>_.
        each_step (genre_step T i) (em_genres m)))))))))"

text \<open>
  \<open>Handle\<close>: the body as an enriched message, else as a plain one, else it is dropped. The
  argument holds what the two decodes answer.
\<close>

definition handle_event ::
    "text_env \<Rightarrow> uuid \<Rightarrow> enriched_msg option \<times> event_msg option \<Rightarrow> ('l, match_error + unit) act" where
  "handle_event T city body =
     (case body of
        (Some em, _) \<Rightarrow> handle_message T city em
      | (None, Some m) \<Rightarrow> handle_message T city (m, None)
      | (None, None) \<Rightarrow> ret (Inr ()))"

section \<open>The interest handler\<close>

type_synonym top_item = "string \<times> int"   \<comment> \<open>name and rank\<close>

record interest_msg =
  it_user_id :: string
  it_op :: string
  it_artists :: "top_item list"
  it_track_artists :: "top_item list"
  it_saved_artists :: "top_item list"
  it_genres :: "top_item list"

definition delete_interests_of_kind :: "string \<Rightarrow> uuid \<Rightarrow> unit query" where
  "delete_interests_of_kind k u now d =
     Inr ((), d\<lparr>interests := delete_rows (\<lambda>r. ui_user_id r = u \<and> ui_kind r = k) (interests d)\<rparr>)"

definition interest_kinds :: "string list" where
  "interest_kinds =
     [''spotify_top_artist'', ''spotify_top_track_artist'', ''spotify_saved_song_artist'', ''spotify_top_genre'',
      ''manual_tag'']"

definition interest_key :: "interest_row \<Rightarrow> uuid \<times> string \<times> string" where
  "interest_key r = (ui_user_id r, ui_kind r, ui_normalized r)"

definition insert_spotify_interest ::
    "uuid \<Rightarrow> string \<Rightarrow> string \<Rightarrow> string \<Rightarrow> real \<Rightarrow> uuid \<Rightarrow> unit query" where
  "insert_spotify_interest u k v normalized weight fresh now d =
     (if k \<notin> set interest_kinds then Inl CheckFailed
      else if \<not> has_row (\<lambda>r. interest_key r = (u, k, normalized)) (interests d) \<and> \<not> user_exists d u
      then Inl ForeignKey
      else case upsert_returning interest_key ui_id
          \<lparr>ui_id = fresh, ui_user_id = u, ui_kind = k, ui_value = v, ui_normalized = normalized,
           ui_weight = weight, ui_created_at = now, ui_updated_at = now\<rparr>
          (\<lambda>r. r\<lparr>ui_value := v, ui_weight := weight, ui_updated_at := now\<rparr>) (interests d) of
        None \<Rightarrow> Inl Unique
      | Some (_, t) \<Rightarrow> Inr ((), d\<lparr>interests := t\<rparr>))"

text \<open>One of the four replacements: delete the kind, then insert the items one by one.\<close>

definition replace_kind ::
    "text_env \<Rightarrow> uuid \<Rightarrow> string \<Rightarrow> (int \<Rightarrow> real) \<Rightarrow> top_item list \<Rightarrow> ('l, match_error + unit) act" where
  "replace_kind T u k weight items =
     then_step (step_db (delete_interests_of_kind k u))
       (\<lambda>_. each_step (\<lambda>(name, rank). step_new (insert_spotify_interest u k name (normalize_string T name) (weight rank)))
              items)"

definition replace_interests :: "text_env \<Rightarrow> uuid \<Rightarrow> interest_msg \<Rightarrow> ('l, match_error + unit) act" where
  "replace_interests T u m =
     then_step (replace_kind T u ''spotify_top_artist'' rank_weight (it_artists m)) (\<lambda>_.
     then_step (replace_kind T u ''spotify_top_track_artist'' rank_weight (it_track_artists m)) (\<lambda>_.
     then_step (replace_kind T u ''spotify_saved_song_artist'' rank_weight (it_saved_artists m)) (\<lambda>_.
     replace_kind T u ''spotify_top_genre'' rank_genre_weight (it_genres m))))"

text \<open>The embedder is None where no model server is configured.\<close>

definition embed_and_match :: "text_env \<Rightarrow> embedder option \<Rightarrow> uuid \<Rightarrow> ('l, match_error + unit) act" where
  "embed_and_match T E u =
     (case E of
        None \<Rightarrow> ret (Inr ())
      | Some emb \<Rightarrow> then_step (embed_users T emb [u]) (\<lambda>_. rescore_user u))"

definition handle_interest ::
    "(string \<Rightarrow> uuid option) \<Rightarrow> text_env \<Rightarrow> embedder option \<Rightarrow> interest_msg option \<Rightarrow> ('l, match_error + unit) act" where
  "handle_interest P T E body =
     (case body of
        None \<Rightarrow> ret (Inr ())
      | Some m \<Rightarrow>
          (case P (it_user_id m) of
             None \<Rightarrow> ret (Inr ())
           | Some u \<Rightarrow>
               then_step (if it_op m = ''only_embed'' then ret (Inr ()) else replace_interests T u m)
                 (\<lambda>_. embed_and_match T E u)))"

section \<open>The consumer\<close>

text \<open>
  \<open>handleOne\<close> answers whether the message was deleted from the queue. A failed handler leaves
  it there for redelivery; the deletion itself is a call that may fail.
\<close>

definition queue_delete :: "('l, bool) act" where
  "queue_delete = State (\<lambda>w. (fault_of w \<noteq> FaultBefore, tick w))"

definition handle_one :: "('m \<Rightarrow> ('l, match_error + unit) act) \<Rightarrow> 'm \<Rightarrow> ('l, bool) act" where
  "handle_one h m = do { r \<leftarrow> h m; case r of Inl e \<Rightarrow> ret False | Inr _ \<Rightarrow> queue_delete }"

text \<open>The messages of one receive, in order; the ones not deleted stay in the queue.\<close>

fun handle_batch :: "('m \<Rightarrow> ('l, match_error + unit) act) \<Rightarrow> 'm list \<Rightarrow> ('l, 'm list) act" where
  "handle_batch h [] = ret []"
| "handle_batch h (m # ms) = do {
     gone \<leftarrow> handle_one h m;
     rest \<leftarrow> handle_batch h ms;
     ret (if gone then rest else m # rest) }"

end
