(* ===== verification/IngestProps.thy ===== *)
theory IngestProps
  imports Ingest MatcherProps
begin

text \<open>
  What the ingest side guarantees: a delivered event message is in the catalogue when it
  leaves the queue, whatever failed on earlier deliveries; a delivered interest message
  replaces exactly the user's Spotify interests; and where the guarded upserts of the
  enrichment do not protect what the API shows.
\<close>

section \<open>Steps that either fail or commit\<close>

text \<open>
  \<open>commits P m Q\<close>: from a database in \<open>P\<close>, whatever calls fail, an answer of \<open>m\<close> that is not
  an error leaves \<open>Q\<close>; and without failures there is such an answer.
\<close>

definition commits ::
    "(outside \<Rightarrow> db \<Rightarrow> bool) \<Rightarrow> ('l, 'e + 'a) act \<Rightarrow> ('a \<Rightarrow> outside \<Rightarrow> db \<Rightarrow> bool) \<Rightarrow> bool" where
  "commits P m Q =
     (\<forall>w. P (w_env w) (w_db w) \<longrightarrow>
        w_env (snd (run_state m w)) = w_env w \<and>
        (\<forall>a. fst (run_state m w) = Inr a \<longrightarrow> Q a (w_env w) (w_db (snd (run_state m w)))) \<and>
        (always_up w \<longrightarrow> (\<exists>a. fst (run_state m w) = Inr a)))"

lemma commitsD:
  assumes "commits P m Q" and "P (w_env w) (w_db w)"
  shows "w_env (snd (run_state m w)) = w_env w"
    "fst (run_state m w) = Inr a \<Longrightarrow> Q a (w_env w) (w_db (snd (run_state m w)))"
    "always_up w \<Longrightarrow> \<exists>a. fst (run_state m w) = Inr a"
  using assms by (auto simp: commits_def)

lemma commits_ret: "(\<And>E d. P E d \<Longrightarrow> Q a E d) \<Longrightarrow> commits P (ret (Inr a)) Q"
  by (simp add: commits_def)

lemma commits_then:
  assumes m: "commits P m Q" and f: "\<And>a. commits (Q a) (f a) R"
  shows "commits P (then_step m f) R"
  unfolding commits_def
proof (intro allI impI)
  fix w :: "'a world" assume p: "P (w_env w) (w_db w)"
  obtain r w1 where r: "run_state m w = (r, w1)" by fastforce
  note cm = commitsD [OF m p, unfolded r fst_conv snd_conv]
  let ?g = "\<lambda>x. w_env (snd x) = w_env w \<and> (\<forall>a. fst x = Inr a \<longrightarrow> R a (w_env w) (w_db (snd x))) \<and>
       (always_up w \<longrightarrow> (\<exists>a. fst x = Inr a))"
  show "?g (run_state (then_step m f) w)"
  proof (cases r)
    case (Inl e)
    then show ?thesis using cm(1,3) by (auto simp: then_step_def r)
  next
    case (Inr a)
    have q: "Q a (w_env w1) (w_db w1)" using cm(1) cm(2) [of a] Inr by simp
    have "always_up w1 = always_up w" using cm(1) by (simp add: always_up_def)
    moreover have "run_state (then_step m f) w = run_state (f a) w1" using Inr by (simp add: then_step_def r)
    ultimately show ?thesis using commitsD [OF f q] cm(1) by auto
  qed
qed

lemma not_always_up: "fault_of w \<noteq> NoFault \<Longrightarrow> \<not> always_up w"
  by (auto simp: always_up_def fault_of_def)

lemma commits_query:
  assumes "\<And>E t d. P E d \<Longrightarrow> \<exists>a d'. q t d = Inr (a, d') \<and> Q a E d'"
  shows "commits P (step_db q :: ('l, match_error + 'a) act) Q"
  unfolding commits_def
proof (intro allI impI)
  fix w :: "'l world" assume "P (w_env w) (w_db w)"
  from assms [OF this, of "now_of w"] obtain a d' where q: "q (now_of w) (w_db w) = Inr (a, d')" "Q a (w_env w) d'"
    by blast
  then show "w_env (snd (run_state (step_db q) w)) = w_env w \<and>
      (\<forall>a. fst (run_state (step_db q) w) = Inr a \<longrightarrow> Q a (w_env w) (w_db (snd (run_state (step_db q) w)))) \<and>
      (always_up w \<longrightarrow> (\<exists>a. fst (run_state (step_db q) w) = Inr a))"
    by (cases "fault_of w") (simp_all add: step_db_def run_query_def not_always_up)
qed

lemma commits_new:
  assumes "\<And>E t n d. P E d \<Longrightarrow> \<exists>a d'. f (fresh_uuid E n) t d = Inr (a, d') \<and> Q a E d'"
  shows "commits P (step_new f :: ('l, match_error + 'a) act) Q"
  unfolding commits_def
proof (intro allI impI)
  fix w :: "'l world" assume "P (w_env w) (w_db w)"
  from assms [OF this, of "w_step w" "now_of w"] obtain a d' where
    q: "f (fresh_of w) (now_of w) (w_db w) = Inr (a, d')" "Q a (w_env w) d'" unfolding fresh_of_def by blast
  then show "w_env (snd (run_state (step_new f) w)) = w_env w \<and>
      (\<forall>a. fst (run_state (step_new f) w) = Inr a \<longrightarrow> Q a (w_env w) (w_db (snd (run_state (step_new f) w)))) \<and>
      (always_up w \<longrightarrow> (\<exists>a. fst (run_state (step_new f) w) = Inr a))"
    by (cases "fault_of w") (simp_all add: step_new_def run_query_def not_always_up)
qed

text \<open>A loop, with an invariant over the items done so far.\<close>

lemma commits_each:
  assumes "\<And>xs x ys. items = xs @ x # ys \<Longrightarrow> commits (I xs) (f x) (\<lambda>_. I (xs @ [x]))"
  shows "commits (I []) (each_step f items) (\<lambda>_. I items)"
proof -
  have "xs @ todo = items \<Longrightarrow> commits (I xs) (each_step f todo) (\<lambda>_. I items)" for xs todo
  proof (induction todo arbitrary: xs)
    case Nil
    then show ?case by (auto intro: commits_ret)
  next
    case (Cons x todo)
    have "commits (I xs) (f x) (\<lambda>_. I (xs @ [x]))" by (rule assms [of xs x todo]) (use Cons.prems in simp)
    moreover have "commits (I (xs @ [x])) (each_step f todo) (\<lambda>_. I items)" using Cons.prems by (intro Cons.IH) simp
    ultimately show ?case by (auto intro: commits_then)
  qed
  from this [of "[]" items] show ?thesis by simp
qed

lemma commits_weaken:
  "commits P' m Q' \<Longrightarrow> (\<And>E d. P E d \<Longrightarrow> P' E d) \<Longrightarrow> (\<And>a E d. Q' a E d \<Longrightarrow> Q a E d) \<Longrightarrow> commits P m Q"
  unfolding commits_def by blast

section \<open>An upsert that answers the id\<close>

lemma upsert_returning_Some:
  assumes k: "keyed key t" and m: "\<And>r. key (merge r) = key r" and i: "\<And>r. rid (merge r) = rid r"
    and fresh: "\<not> has_row (\<lambda>r. rid r = rid new) t"
  shows "\<exists>r t'. upsert_returning key rid new merge t = Some (rid r, t') \<and>
    find (\<lambda>r. key r = key new) t' = Some r \<and>
    (case find (\<lambda>r. key r = key new) t of None \<Rightarrow> r = new | Some old \<Rightarrow> r = merge old) \<and>
    filter (\<lambda>r. key r \<noteq> key new) t' = filter (\<lambda>r. key r \<noteq> key new) t"
proof (cases "find (\<lambda>r. key r = key new) t")
  case None
  then have n: "\<forall>r \<in> set t. key r \<noteq> key new" by (auto simp: find_None_iff)
  then have "filter (\<lambda>r. key r \<noteq> key new) (t @ [new]) = filter (\<lambda>r. key r \<noteq> key new) t" by simp
  then show ?thesis using None fresh by (auto simp: upsert_returning_def find_snoc intro!: exI [of _ new])
next
  case (Some r)
  then have kr: "key r = key new" by (auto dest: find_in_set)
  have "filter (\<lambda>r. key r \<noteq> key new) (update_rows (\<lambda>r. key r = key new) merge t) = filter (\<lambda>r. key r \<noteq> key new) t"
    by (rule filter_update_rows_frame) (simp_all add: m)
  moreover have "find (\<lambda>r. key r = key new) (update_rows (\<lambda>r. key r = key new) merge t) = Some (merge r)"
    using Some find_update_key [of key merge "key new" "key new" t] m by simp
  ultimately show ?thesis using Some i [of r] kr
    by (intro exI [of _ "merge r"]) (auto simp: upsert_returning_def)
qed

section \<open>An event message\<close>

definition names_artist :: "enrichment option \<Rightarrow> bool" where
  "names_artist en =
     (case en of
        None \<Rightarrow> False
      | Some e \<Rightarrow> (case er_artist e of None \<Rightarrow> False | Some a \<Rightarrow> in_status a = ''ok'' \<or> in_status a = ''not_found''))"

text \<open>The tables an event message may change.\<close>

definition catalogue ::
    "db \<Rightarrow> artist_row list \<Rightarrow> image_row list \<Rightarrow> bio_row list \<Rightarrow> tour_row list \<Rightarrow> venue_row list \<Rightarrow> event_row list \<Rightarrow>
     performer_row list \<Rightarrow> (uuid \<times> string) list \<Rightarrow> db" where
  "catalogue d A I B U V Ev Pf G =
     d\<lparr>artists := A, images := I, bios := B, tours := U, venues := V, events := Ev, performers := Pf, event_genres := G\<rparr>"

lemma catalogue_fields [simp]:
  "artists (catalogue d A I B U V Ev Pf G) = A" "images (catalogue d A I B U V Ev Pf G) = I"
  "bios (catalogue d A I B U V Ev Pf G) = B" "tours (catalogue d A I B U V Ev Pf G) = U"
  "venues (catalogue d A I B U V Ev Pf G) = V" "events (catalogue d A I B U V Ev Pf G) = Ev"
  "performers (catalogue d A I B U V Ev Pf G) = Pf" "event_genres (catalogue d A I B U V Ev Pf G) = G"
  "sources (catalogue d A I B U V Ev Pf G) = sources d" "cities (catalogue d A I B U V Ev Pf G) = cities d"
  "genres (catalogue d A I B U V Ev Pf G) = genres d"
  "(catalogue d A I B U V Ev Pf G)\<lparr>artists := A'\<rparr> = catalogue d A' I B U V Ev Pf G"
  "(catalogue d A I B U V Ev Pf G)\<lparr>images := I'\<rparr> = catalogue d A I' B U V Ev Pf G"
  "(catalogue d A I B U V Ev Pf G)\<lparr>bios := B'\<rparr> = catalogue d A I B' U V Ev Pf G"
  "(catalogue d A I B U V Ev Pf G)\<lparr>tours := U'\<rparr> = catalogue d A I B U' V Ev Pf G"
  "(catalogue d A I B U V Ev Pf G)\<lparr>venues := V'\<rparr> = catalogue d A I B U V' Ev Pf G"
  "(catalogue d A I B U V Ev Pf G)\<lparr>events := Ev'\<rparr> = catalogue d A I B U V Ev' Pf G"
  "(catalogue d A I B U V Ev Pf G)\<lparr>performers := Pf'\<rparr> = catalogue d A I B U V Ev Pf' G"
  "(catalogue d A I B U V Ev Pf G)\<lparr>event_genres := G'\<rparr> = catalogue d A I B U V Ev Pf G'"
  by (simp_all add: catalogue_def)

lemma catalogue_self: "d = catalogue d (artists d) (images d) (bios d) (tours d) (venues d) (events d) (performers d) (event_genres d)"
  by (simp add: catalogue_def)

definition venue_key :: "venue_row \<Rightarrow> uuid \<times> string" where
  "venue_key v = (v_city_id v, v_normalized v)"

text \<open>What the schema and the seed data give: keys are unique, the source and the city exist, ids are fresh.\<close>

definition ingest_ok :: "outside \<Rightarrow> db \<Rightarrow> uuid \<Rightarrow> string \<Rightarrow> bool" where
  "ingest_ok E d city source =
     (keyed a_name_key (artists d) \<and> keyed venue_key (venues d) \<and> keyed event_key (events d) \<and>
      has_row (\<lambda>s. es_name s = source) (sources d) \<and> has_row (\<lambda>c. c_id c = city) (cities d) \<and>
      (\<forall>n. fresh_uuid E n \<notin> a_id ` set (artists d) \<union> v_id ` set (venues d) \<union> e_id ` set (events d)))"

text \<open>The stages of a delivery over the database it started from.\<close>

definition id_at :: "('r \<Rightarrow> 'k) \<Rightarrow> ('r \<Rightarrow> uuid) \<Rightarrow> 'k \<Rightarrow> 'r list \<Rightarrow> uuid option" where
  "id_at key rid k t = map_option rid (find (\<lambda>r. key r = k) t)"

definition artist_key :: "text_env \<Rightarrow> enrichment option \<Rightarrow> string" where
  "artist_key T en =
     (case en of None \<Rightarrow> [] | Some e \<Rightarrow> (case er_artist e of None \<Rightarrow> [] | Some a \<Rightarrow> normalize_string T (in_performer a)))"

text \<open>The artist is stored under its key, with the id it had if it was there before.\<close>

definition artist_stored :: "db \<Rightarrow> string \<Rightarrow> uuid \<Rightarrow> artist_row list \<Rightarrow> bool" where
  "artist_stored d0 k a A =
     (id_at a_name_key a_id k A = Some a \<and> (\<forall>old. id_at a_name_key a_id k (artists d0) = Some old \<longrightarrow> old = a))"

definition artist_stage :: "text_env \<Rightarrow> db \<Rightarrow> enrichment option \<Rightarrow> uuid option \<Rightarrow> artist_row list \<Rightarrow> bool" where
  "artist_stage T d0 en artist A =
     (case artist of None \<Rightarrow> \<not> names_artist en
                   | Some a \<Rightarrow> names_artist en \<and> artist_stored d0 (artist_key T en) a A)"

definition venue_matches :: "text_env \<Rightarrow> uuid \<Rightarrow> venue_msg \<Rightarrow> venue_row \<Rightarrow> bool" where
  "venue_matches T city m r =
     (venue_key r = (city, normalize_string T (vm_name m)) \<and>
      v_name r = vm_name m \<and> v_address r = str_opt (vm_address m) \<and> v_lat r = vm_lat m \<and> v_lng r = vm_lng m \<and>
      v_website r = str_opt (vm_website m))"

definition venue_stored :: "text_env \<Rightarrow> uuid \<Rightarrow> venue_msg \<Rightarrow> uuid \<Rightarrow> venue_row list \<Rightarrow> bool" where
  "venue_stored T city m v V =
     (\<exists>r. find (\<lambda>r. venue_key r = (city, normalize_string T (vm_name m))) V = Some r \<and> v_id r = v \<and>
        venue_matches T city m r)"

text \<open>The rows under other keys are as before, and a row that was there keeps its id.\<close>

definition others_kept :: "('r \<Rightarrow> 'k) \<Rightarrow> ('r \<Rightarrow> uuid) \<Rightarrow> 'k \<Rightarrow> 'r list \<Rightarrow> 'r list \<Rightarrow> bool" where
  "others_kept key rid k t0 t =
     (filter (\<lambda>r. key r \<noteq> k) t = filter (\<lambda>r. key r \<noteq> k) t0 \<and>
      (\<forall>i. id_at key rid k t0 = Some i \<longrightarrow> id_at key rid k t = Some i))"

definition event_stored :: "event_msg \<Rightarrow> uuid \<Rightarrow> uuid \<Rightarrow> uuid option \<Rightarrow> event_row \<Rightarrow> bool" where
  "event_stored m src v artist e =
     (event_key e = (src, em_source_event_id m) \<and> e_title e = em_title m \<and> e_description e = em_description m \<and>
      e_starts_at e = em_starts_at m \<and> e_ends_at e = em_ends_at m \<and> e_time_tbd e = em_time_tbd m \<and>
      e_venue_id e = v \<and> e_image_url e = str_opt (em_image_url m) \<and> e_url e = str_opt (em_url m) \<and>
      e_archived_at e = None \<and> (artist \<noteq> None \<longrightarrow> e_headline_artist_id e = artist) \<and>
      (em_segment m \<noteq> [] \<longrightarrow> e_segment e = Some (em_segment m)))"

text \<open>
  What a stored event keeps of the row it had: its id, its embedding, and the link and the
  segment where the message has none.
\<close>

definition event_kept :: "event_msg \<Rightarrow> uuid option \<Rightarrow> event_row \<Rightarrow> event_row \<Rightarrow> bool" where
  "event_kept m artist old e =
     (e_id e = e_id old \<and> e_embedding e = e_embedding old \<and>
      (artist = None \<longrightarrow> e_headline_artist_id e = e_headline_artist_id old) \<and>
      (em_segment m = [] \<longrightarrow> e_segment e = e_segment old))"

definition performer_rows :: "text_env \<Rightarrow> uuid \<Rightarrow> string list \<Rightarrow> performer_row list" where
  "performer_rows T i ps =
     map (\<lambda>p. \<lparr>ep_event_id = i, ep_name = p, ep_normalized = normalize_string T p\<rparr>)
       (dedup_by (normalize_string T) [] (filter (\<lambda>p. p \<noteq> []) ps))"

definition genre_rows :: "text_env \<Rightarrow> string list \<Rightarrow> uuid \<Rightarrow> string list \<Rightarrow> (uuid \<times> string) list" where
  "genre_rows T known i gs =
     map (Pair i) (dedup_by (\<lambda>s. s) [] (filter (\<lambda>s. s \<in> set known) (map (genre_slug T) gs)))"

text \<open>
  A message is in the catalogue: its venue and event are stored, the performers and genres of
  the event are exactly those of the message, and the rows of every other event are as before.
\<close>

definition ingested :: "text_env \<Rightarrow> uuid \<Rightarrow> enriched_msg \<Rightarrow> db \<Rightarrow> db \<Rightarrow> bool" where
  "ingested T city em d0 d =
     (\<exists>src v artist e A I B U V Ev Pf G.
        d = catalogue d0 A I B U V Ev Pf G \<and>
        find (\<lambda>s. es_name s = em_source (fst em)) (sources d0) = Some src \<and>
        artist_stage T d0 (snd em) artist A \<and> venue_stored T city (em_venue (fst em)) v V \<and>
        others_kept venue_key v_id (city, normalize_string T (vm_name (em_venue (fst em)))) (venues d0) V \<and>
        find (\<lambda>r. event_key r = (es_id src, em_source_event_id (fst em))) Ev = Some e \<and>
        event_stored (fst em) (es_id src) v artist e \<and>
        filter (\<lambda>r. event_key r \<noteq> event_key e) Ev = filter (\<lambda>r. event_key r \<noteq> event_key e) (events d0) \<and>
         (\<forall>old. find (\<lambda>r. event_key r = event_key e) (events d0) = Some old \<longrightarrow> event_kept (fst em) artist old e) \<and>
        Pf = filter (\<lambda>p. ep_event_id p \<noteq> e_id e) (performers d0) @ performer_rows T (e_id e) (em_performers (fst em)) \<and>
        G = filter (\<lambda>g. fst g \<noteq> e_id e) (event_genres d0) @ genre_rows T (genres d0) (e_id e) (em_genres (fst em)))"


text \<open>The stages: after the artist, after the venue, after the event row, after its performers.\<close>

definition stage_artist :: "text_env \<Rightarrow> db \<Rightarrow> uuid \<Rightarrow> string \<Rightarrow> enrichment option \<Rightarrow> uuid option \<Rightarrow> outside \<Rightarrow> db \<Rightarrow> bool" where
  "stage_artist T d0 city source en artist E d =
     (ingest_ok E d0 city source \<and>
      (\<exists>A I B U. d = catalogue d0 A I B U (venues d0) (events d0) (performers d0) (event_genres d0) \<and>
         artist_stage T d0 en artist A))"

definition stage_sections :: "db \<Rightarrow> uuid \<Rightarrow> string \<Rightarrow> string \<Rightarrow> uuid \<Rightarrow> outside \<Rightarrow> db \<Rightarrow> bool" where
  "stage_sections d0 city source k a E d =
     (ingest_ok E d0 city source \<and>
      (\<exists>A I B U. d = catalogue d0 A I B U (venues d0) (events d0) (performers d0) (event_genres d0) \<and> artist_stored d0 k a A))"

lemma artist_exists_iff: "artist_exists d a \<longleftrightarrow> a \<in> a_id ` set (artists d)"
  by (auto simp: artist_exists_def has_row_iff)

lemma id_at_in: "id_at key rid k t = Some i \<Longrightarrow> i \<in> rid ` set t"
  by (auto simp: id_at_def dest: find_in_set)

lemma commits_skip: "commits P (ret (Inr ())) (\<lambda>_. P)"
  by (rule commits_ret)

text \<open>An upsert of a section of an artist that exists goes through.\<close>

lemma commits_section:
  assumes q: "\<And>t d. valid_status st \<Longrightarrow> artist_exists d a \<Longrightarrow> \<exists>rows. q t d = Inr ((), put rows d)"
    and st: "valid_status st"
    and put: "\<And>rows A I B U V Ev Pf G. \<exists>I' B' U'. put rows (catalogue d0 A I B U V Ev Pf G) = catalogue d0 A I' B' U' V Ev Pf G"
  shows "commits (stage_sections d0 city source k a) (step_db q) (\<lambda>_. stage_sections d0 city source k a)"
proof (rule commits_query)
  fix E t d assume s: "stage_sections d0 city source k a E d"
  then obtain A I B U where d: "d = catalogue d0 A I B U (venues d0) (events d0) (performers d0) (event_genres d0)"
      "artist_stored d0 k a A" "ingest_ok E d0 city source" by (auto simp: stage_sections_def)
  then have "artist_exists d a" using id_at_in [of a_name_key a_id k A a] by (simp add: artist_exists_iff artist_stored_def)
  then obtain rows where "q t d = Inr ((), put rows d)" using q [OF st] by blast
  moreover have "stage_sections d0 city source k a E (put rows d)"
    using d put [of rows A I B U "venues d0" "events d0" "performers d0" "event_genres d0"]
    by (auto simp: stage_sections_def)
  ultimately show "\<exists>x d'. q t d = Inr (x, d') \<and> stage_sections d0 city source k a E d'" by blast
qed

lemma commits_image_step:
  "commits (stage_sections d0 city source k a) (image_step a img) (\<lambda>_. stage_sections d0 city source k a)"
proof (cases img)
  case (Some i)
  show ?thesis
  proof (cases "valid_status (im_status i)")
    case True
    have "commits (stage_sections d0 city source k a)
      (step_db (upsert_artist_image a (im_status i) (str_opt (im_url i)) (opt_int32 (im_width i))
         (opt_int32 (im_height i)) (str_opt (im_file i)) (str_opt (im_source i)) (im_credit i) (str_opt (im_reason i))))
      (\<lambda>_. stage_sections d0 city source k a)"
      by (rule commits_section [OF _ True, where put = "\<lambda>t d. d\<lparr>images := t\<rparr>"])
        (auto simp: upsert_artist_image_def upsert_section_def Let_def)
    then show ?thesis using True by (simp add: image_step_def Some)
  qed (simp add: image_step_def Some commits_skip)
qed (simp add: image_step_def commits_skip)

lemma commits_bio_step:
  "commits (stage_sections d0 city source k a) (bio_step a bio) (\<lambda>_. stage_sections d0 city source k a)"
proof (cases bio)
  case (Some b)
  show ?thesis
  proof (cases "valid_status (bi_status b)")
    case True
    have "commits (stage_sections d0 city source k a)
      (step_db (upsert_artist_bio a (bi_status b) (str_opt (bi_md b)) (or_empty (bi_sources b))
         (str_opt (bi_model b)) (str_opt (bi_reason b)))) (\<lambda>_. stage_sections d0 city source k a)"
      by (rule commits_section [OF _ True, where put = "\<lambda>t d. d\<lparr>bios := t\<rparr>"])
        (auto simp: upsert_artist_bio_def upsert_section_def Let_def)
    then show ?thesis using True by (simp add: bio_step_def Some)
  qed (simp add: bio_step_def Some commits_skip)
qed (simp add: bio_step_def commits_skip)

lemma commits_tour_step:
  "commits (stage_sections d0 city source k a) (tour_step a tour) (\<lambda>_. stage_sections d0 city source k a)"
proof (cases tour)
  case (Some t)
  show ?thesis
  proof (cases "valid_status (ti_status t)")
    case True
    have "commits (stage_sections d0 city source k a)
      (step_db (upsert_artist_tour_snapshot a (ti_status t) (str_opt (ti_name t)) (or_empty (ti_songs t))
        date (str_opt (ti_observed_venue t)) (str_opt (ti_observed_city t)) (str_opt (ti_setlist_url t))
        (str_opt (ti_blurb t)) (str_opt (ti_blurb_model t)) (str_opt (ti_reason t)))) (\<lambda>_. stage_sections d0 city source k a)"
      for date
      by (rule commits_section [OF _ True, where put = "\<lambda>t d. d\<lparr>tours := t\<rparr>"])
        (auto simp: upsert_artist_tour_snapshot_def upsert_section_def Let_def)
    then show ?thesis using True by (auto simp: tour_step_def Some commits_skip split: option.split)
  qed (simp add: tour_step_def Some commits_skip)
qed (simp add: tour_step_def commits_skip)

lemma fresh_row: "x \<notin> f ` set t \<Longrightarrow> \<not> has_row (\<lambda>r. f r = x) t"
  by (auto simp: has_row_iff)

lemma ingest_ok_keys:
  "ingest_ok E d city source \<Longrightarrow> keyed a_name_key (artists d)"
  "ingest_ok E d city source \<Longrightarrow> keyed venue_key (venues d)"
  "ingest_ok E d city source \<Longrightarrow> keyed event_key (events d)"
  "ingest_ok E d city source \<Longrightarrow> has_row (\<lambda>s. es_name s = source) (sources d)"
  "ingest_ok E d city source \<Longrightarrow> has_row (\<lambda>c. c_id c = city) (cities d)"
  by (simp_all add: ingest_ok_def)

lemma ingest_ok_fresh:
  "ingest_ok E d city source \<Longrightarrow> \<not> has_row (\<lambda>r. a_id r = fresh_uuid E n) (artists d)"
  "ingest_ok E d city source \<Longrightarrow> \<not> has_row (\<lambda>r. v_id r = fresh_uuid E n) (venues d)"
  "ingest_ok E d city source \<Longrightarrow> \<not> has_row (\<lambda>r. e_id r = fresh_uuid E n) (events d)"
  unfolding ingest_ok_def by (intro fresh_row; blast)+

text \<open>The upserts of the message: each goes through and stores its row.\<close>

lemma upsert_artist_stored:
  assumes ok: "ingest_ok E d0 city source" and st: "st = ''ok'' \<or> st = ''not_found''"
  shows "\<exists>i d'. upsert_artist k disp mbid dis ty co yr st (fresh_uuid E n) t d0 = Inr (i, d') \<and>
    stage_sections d0 city source k i E d'"
proof -
  let ?new = "\<lparr>a_id = fresh_uuid E n, a_name_key = k, a_display_name = disp, a_mbid = mbid, a_disambiguation = dis,
           a_type = ty, a_country = co, a_begin_year = yr, a_status = st, a_resolved_at = t\<rparr>"
  let ?merge = "\<lambda>r. r\<lparr>a_display_name := disp, a_mbid := mbid, a_disambiguation := dis, a_type := ty,
                 a_country := co, a_begin_year := yr, a_status := st, a_resolved_at := t\<rparr>"
  have "keyed a_name_key (artists d0)" "\<not> has_row (\<lambda>r. a_id r = a_id ?new) (artists d0)"
    using ingest_ok_keys(1) [OF ok] ingest_ok_fresh(1) [OF ok] by simp_all
  from upsert_returning_Some [of a_name_key "artists d0" ?merge a_id ?new, OF this(1) _ _ this(2)] obtain r t' where
    u: "upsert_returning a_name_key a_id ?new ?merge (artists d0) = Some (a_id r, t')" and
    f: "find (\<lambda>r. a_name_key r = k) t' = Some r" and
    r: "case find (\<lambda>r. a_name_key r = k) (artists d0) of None \<Rightarrow> r = ?new | Some old \<Rightarrow> r = ?merge old" by auto
  have "artist_stored d0 k (a_id r) t'" using f r by (auto simp: artist_stored_def id_at_def)
  then have "stage_sections d0 city source k (a_id r) E (d0\<lparr>artists := t'\<rparr>)"
    unfolding stage_sections_def catalogue_def
    by (intro conjI ok exI [of _ t'] exI [of _ "images d0"] exI [of _ "bios d0"] exI [of _ "tours d0"]) simp_all
  with u st show ?thesis by (auto simp: upsert_artist_def)
qed

lemma commits_enrichment:
  "commits (\<lambda>E d. d = d0 \<and> ingest_ok E d0 city source) (apply_enrichment T en :: ('l, match_error + uuid option) act)
     (stage_artist T d0 city source en)"
proof (cases "names_artist en")
  case False
  then have skip: "(apply_enrichment T en :: ('l, match_error + uuid option) act) = ret (Inr None)"
    by (auto simp: apply_enrichment_def names_artist_def split: option.splits)
  have none: "stage_artist T d0 city source en None E d0" if "ingest_ok E d0 city source" for E
    using that False catalogue_self [of d0] unfolding stage_artist_def artist_stage_def by auto
  show ?thesis unfolding skip by (rule commits_ret) (use none in blast)
next
  case True
  then obtain e a where en: "en = Some e" "er_artist e = Some a" and st: "in_status a = ''ok'' \<or> in_status a = ''not_found''"
    by (auto simp: names_artist_def split: option.splits)
  let ?k = "normalize_string T (in_performer a)"
  have k: "artist_key T en = ?k" using en by (simp add: artist_key_def)
  have last: "stage_artist T d0 city source en (Some i) E d" if "stage_sections d0 city source ?k i E d" for i E d
    using that True by (auto simp: stage_artist_def stage_sections_def artist_stage_def k)
  have first: "commits (\<lambda>E d. d = d0 \<and> ingest_ok E d0 city source)
      (step_new (upsert_artist (normalize_string T (in_performer a))
                        (if in_display_name a = [] then in_performer a else in_display_name a)
                        (str_opt (in_mbid a)) (str_opt (in_disambiguation a)) (str_opt (in_type a))
                        (str_opt (in_country a)) (str_opt (in_begin_year a)) (in_status a)))
      (\<lambda>i. stage_sections d0 city source ?k i)"
    by (rule commits_new) (use upsert_artist_stored [OF _ st] in blast)
  let ?rest = "\<lambda>i. then_step (image_step i (er_image e)) (\<lambda>_. then_step (bio_step i (er_bio e))
      (\<lambda>_. then_step (tour_step i (er_tour e)) (\<lambda>_. ret (Inr (Some i))))) :: ('l, match_error + uuid option) act"
  have rest: "commits (stage_sections d0 city source ?k i) (?rest i) (stage_artist T d0 city source en)" for i
    by (intro commits_then [OF commits_image_step] commits_then [OF commits_bio_step]
        commits_then [OF commits_tour_step] commits_ret last)
  have "\<not> (in_status a \<noteq> ''ok'' \<and> in_status a \<noteq> ''not_found'')" using st by blast
  then have "apply_enrichment T en = then_step (step_new (upsert_artist (normalize_string T (in_performer a))
                        (if in_display_name a = [] then in_performer a else in_display_name a)
                        (str_opt (in_mbid a)) (str_opt (in_disambiguation a)) (str_opt (in_type a))
                        (str_opt (in_country a)) (str_opt (in_begin_year a)) (in_status a))) ?rest"
    unfolding apply_enrichment_def en option.case by (rule if_not_P)
  then show ?thesis using commits_then [OF first rest] by simp
qed

definition stage_venue ::
    "text_env \<Rightarrow> db \<Rightarrow> uuid \<Rightarrow> event_msg \<Rightarrow> enrichment option \<Rightarrow> uuid option \<Rightarrow> uuid \<Rightarrow> outside \<Rightarrow> db \<Rightarrow> bool" where
  "stage_venue T d0 city m en artist v E d =
     (ingest_ok E d0 city (em_source m) \<and>
      (\<exists>A I B U V. d = catalogue d0 A I B U V (events d0) (performers d0) (event_genres d0) \<and>
         artist_stage T d0 en artist A \<and> venue_stored T city (em_venue m) v V \<and>
         others_kept venue_key v_id (city, normalize_string T (vm_name (em_venue m))) (venues d0) V))"

lemma commits_venue:
  "commits (stage_artist T d0 city (em_source m) en artist)
     (step_new (upsert_venue city (vm_name (em_venue m)) (normalize_string T (vm_name (em_venue m)))
        (str_opt (vm_address (em_venue m))) (vm_lat (em_venue m)) (vm_lng (em_venue m))
        (str_opt (vm_website (em_venue m)))))
     (stage_venue T d0 city m en artist)"
proof (rule commits_new)
  fix E t n d assume s: "stage_artist T d0 city (em_source m) en artist E d"
  then obtain A I B U where d: "d = catalogue d0 A I B U (venues d0) (events d0) (performers d0) (event_genres d0)"
    and a: "artist_stage T d0 en artist A" and ok: "ingest_ok E d0 city (em_source m)"
    by (auto simp: stage_artist_def)
  let ?k = "normalize_string T (vm_name (em_venue m))"
  let ?new = "\<lparr>v_id = fresh_uuid E n, v_city_id = city, v_name = vm_name (em_venue m), v_normalized = ?k,
      v_address = str_opt (vm_address (em_venue m)), v_lat = vm_lat (em_venue m), v_lng = vm_lng (em_venue m),
      v_website = str_opt (vm_website (em_venue m))\<rparr>"
  let ?merge = "\<lambda>v. v\<lparr>v_name := vm_name (em_venue m), v_address := str_opt (vm_address (em_venue m)),
      v_lat := vm_lat (em_venue m), v_lng := vm_lng (em_venue m), v_website := str_opt (vm_website (em_venue m))\<rparr>"
  have k: "venue_key ?new = (city, ?k)" "v_id ?new = fresh_uuid E n" by (simp_all add: venue_key_def)
  have mg: "venue_key (?merge r) = venue_key r" "v_id (?merge r) = v_id r" for r
    by (simp_all add: venue_key_def)
  from upsert_returning_Some [of venue_key "venues d0" ?merge v_id ?new, OF ingest_ok_keys(2) [OF ok] mg,
      unfolded k, OF ingest_ok_fresh(2) [OF ok]]
  obtain r V where u: "upsert_returning venue_key v_id ?new ?merge (venues d0) = Some (v_id r, V)"
    and f: "find (\<lambda>r. venue_key r = (city, ?k)) V = Some r"
    and r: "case find (\<lambda>r. venue_key r = (city, ?k)) (venues d0) of None \<Rightarrow> r = ?new | Some old \<Rightarrow> r = ?merge old"
    and fr0: "filter (\<lambda>r. venue_key r \<noteq> (city, ?k)) V = filter (\<lambda>r. venue_key r \<noteq> (city, ?k)) (venues d0)"
    by blast
  have "venue_matches T city (em_venue m) ?new" by (simp add: venue_matches_def venue_key_def)
  moreover have "venue_matches T city (em_venue m) (?merge old)" if "venue_key old = (city, ?k)" for old
    using that by (simp add: venue_matches_def venue_key_def)
  ultimately have "venue_matches T city (em_venue m) r"
    using r by (auto split: option.splits dest: find_in_set)
  with f have "venue_stored T city (em_venue m) (v_id r) V"
    unfolding venue_stored_def by blast
  moreover have fr: "others_kept venue_key v_id (city, ?k) (venues d0) V"
    using fr0 f r by (auto simp: others_kept_def id_at_def)
  ultimately have st: "stage_venue T d0 city m en artist (v_id r) E (d\<lparr>venues := V\<rparr>)"
    unfolding stage_venue_def d catalogue_fields
    by (intro exI [of _ A] exI [of _ I] exI [of _ B] exI [of _ U] exI [of _ V] conjI refl ok a fr)
  have "upsert_venue city (vm_name (em_venue m)) ?k (str_opt (vm_address (em_venue m)))
      (vm_lat (em_venue m)) (vm_lng (em_venue m)) (str_opt (vm_website (em_venue m))) (fresh_uuid E n) t d =
      Inr (v_id r, d\<lparr>venues := V\<rparr>)"
    using u [unfolded venue_key_def [abs_def]] ingest_ok_keys(5) [OF ok] by (simp add: upsert_venue_def d)
  with st show "\<exists>v d'. upsert_venue city (vm_name (em_venue m)) ?k (str_opt (vm_address (em_venue m)))
      (vm_lat (em_venue m)) (vm_lng (em_venue m)) (str_opt (vm_website (em_venue m))) (fresh_uuid E n) t d = Inr (v, d') \<and>
      stage_venue T d0 city m en artist v E d'"
    by blast
qed

definition stage_event ::
    "text_env \<Rightarrow> db \<Rightarrow> uuid \<Rightarrow> event_msg \<Rightarrow> enrichment option \<Rightarrow> uuid \<Rightarrow> uuid option \<Rightarrow> uuid \<Rightarrow>
     performer_row list \<Rightarrow> (uuid \<times> string) list \<Rightarrow> uuid \<Rightarrow> outside \<Rightarrow> db \<Rightarrow> bool" where
  "stage_event T d0 city m en src artist v Pf G i E d =
     (\<exists>A I B U V Ev e. d = catalogue d0 A I B U V Ev Pf G \<and> artist_stage T d0 en artist A \<and>
         venue_stored T city (em_venue m) v V \<and>
         others_kept venue_key v_id (city, normalize_string T (vm_name (em_venue m))) (venues d0) V \<and>
         find (\<lambda>r. event_key r = (src, em_source_event_id m)) Ev = Some e \<and> e_id e = i \<and>
         event_stored m src v artist e \<and>
         filter (\<lambda>r. event_key r \<noteq> event_key e) Ev = filter (\<lambda>r. event_key r \<noteq> event_key e) (events d0) \<and>
         (\<forall>old. find (\<lambda>r. event_key r = event_key e) (events d0) = Some old \<longrightarrow> event_kept m artist old e))"

lemma event_stored_new: "event_stored m src v artist (new_event src m v artist i t)"
  by (auto simp: event_stored_def new_event_def event_key_def str_opt_def)

lemma event_stored_merge:
  "event_key old = (src, em_source_event_id m) \<Longrightarrow>
     event_stored m src v artist (merge_event (new_event src m v artist i t) old)"
  by (auto simp: event_stored_def new_event_def merge_event_def event_key_def str_opt_def coalesce_def split: option.split)

lemma commits_event:
  assumes src: "src \<in> set (sources d0)"
  shows "commits (stage_venue T d0 city m en artist v) (step_new (upsert_event (es_id src) m v artist))
     (stage_event T d0 city m en (es_id src) artist v (performers d0) (event_genres d0))"
proof (rule commits_new)
  fix E t n d assume s: "stage_venue T d0 city m en artist v E d"
  then obtain A I B U V where d: "d = catalogue d0 A I B U V (events d0) (performers d0) (event_genres d0)"
    and a: "artist_stage T d0 en artist A" and ok: "ingest_ok E d0 city (em_source m)"
    and v: "venue_stored T city (em_venue m) v V"
      "others_kept venue_key v_id (city, normalize_string T (vm_name (em_venue m))) (venues d0) V"
    by (auto simp: stage_venue_def)
  let ?new = "new_event (es_id src) m v artist (fresh_uuid E n) t" and ?k = "(es_id src, em_source_event_id m)"
  have k: "event_key ?new = ?k" "e_id ?new = fresh_uuid E n" by (simp_all add: event_key_def new_event_def)
  have mg: "event_key (merge_event ?new r) = event_key r" "e_id (merge_event ?new r) = e_id r" for r
    by (simp_all add: event_key_def merge_event_def)
  from upsert_returning_Some [of event_key "events d0" "merge_event ?new" e_id ?new, OF ingest_ok_keys(3) [OF ok] mg,
      unfolded k, OF ingest_ok_fresh(3) [OF ok]]
  obtain e Ev where u: "upsert_returning event_key e_id ?new (merge_event ?new) (events d0) = Some (e_id e, Ev)"
    and f: "find (\<lambda>r. event_key r = ?k) Ev = Some e"
    and e: "case find (\<lambda>r. event_key r = ?k) (events d0) of None \<Rightarrow> e = ?new | Some old \<Rightarrow> e = merge_event ?new old"
    and fr: "filter (\<lambda>r. event_key r \<noteq> ?k) Ev = filter (\<lambda>r. event_key r \<noteq> ?k) (events d0)" by blast
  have es: "event_stored m (es_id src) v artist e" using e event_stored_new event_stored_merge by (auto split: option.splits dest: find_in_set)
  then have ek: "event_key e = ?k" by (simp add: event_stored_def)
  with fr have fr': "filter (\<lambda>r. event_key r \<noteq> event_key e) Ev = filter (\<lambda>r. event_key r \<noteq> event_key e) (events d0)" by simp
  have kept: "\<forall>old. find (\<lambda>r. event_key r = event_key e) (events d0) = Some old \<longrightarrow> event_kept m artist old e"
    using e unfolding ek by (auto simp: event_kept_def merge_event_def new_event_def coalesce_def str_opt_def)
  have st: "stage_event T d0 city m en (es_id src) artist v (performers d0) (event_genres d0) (e_id e) E (d\<lparr>events := Ev\<rparr>)"
    unfolding stage_event_def d catalogue_fields
    by (intro exI [of _ A] exI [of _ I] exI [of _ B] exI [of _ U] exI [of _ V] exI [of _ Ev] exI [of _ e]
        conjI refl a v f es fr' kept)
  have "has_row (\<lambda>s. es_id s = es_id src) (sources d0)" using src by (auto simp: has_row_iff)
  moreover have "has_row (\<lambda>x. v_id x = v) V"
    using v(1) by (auto simp: venue_stored_def has_row_iff dest!: find_in_set)
  moreover have "\<not> (case artist of None \<Rightarrow> False | Some a \<Rightarrow> \<not> artist_exists
      (catalogue d0 A I B U V (events d0) (performers d0) (event_genres d0)) a)"
    using a by (auto simp: artist_stage_def artist_stored_def artist_exists_iff dest!: id_at_in split: option.splits)
  ultimately have "upsert_event (es_id src) m v artist (fresh_uuid E n) t d = Inr (e_id e, d\<lparr>events := Ev\<rparr>)"
    using u by (simp add: upsert_event_def Let_def d)
  with st show "\<exists>i d'. upsert_event (es_id src) m v artist (fresh_uuid E n) t d = Inr (i, d') \<and>
      stage_event T d0 city m en (es_id src) artist v (performers d0) (event_genres d0) i E d'" by blast
qed

text \<open>The two loops.\<close>

lemma performer_rows_Nil: "performer_rows T i [] = []"
  by (simp add: performer_rows_def)

lemma genre_rows_Nil: "genre_rows T known i [] = []"
  by (simp add: genre_rows_def)

lemma dedup_by_snoc:
  "dedup_by key [] (xs @ [x]) = dedup_by key [] xs @ (if key x \<in> key ` set xs then [] else [x])"
  using dedup_by_keys [of key "[]" xs] by (simp add: dedup_by_append)

lemma stage_event_set:
  assumes "stage_event T d0 city m en src artist v Pf G i E d"
  shows "stage_event T d0 city m en src artist v Pf' G i E (d\<lparr>performers := Pf'\<rparr>)"
    "stage_event T d0 city m en src artist v Pf G' i E (d\<lparr>event_genres := G'\<rparr>)"
    "performers d = Pf" "event_genres d = G" "genres d = genres d0" "event_exists d i"
proof -
  obtain A I B U V Ev e where d: "d = catalogue d0 A I B U V Ev Pf G" and rest: "artist_stage T d0 en artist A"
      "venue_stored T city (em_venue m) v V"
      "others_kept venue_key v_id (city, normalize_string T (vm_name (em_venue m))) (venues d0) V"
      "find (\<lambda>r. event_key r = (src, em_source_event_id m)) Ev = Some e" "e_id e = i"
      "event_stored m src v artist e"
      "filter (\<lambda>r. event_key r \<noteq> event_key e) Ev = filter (\<lambda>r. event_key r \<noteq> event_key e) (events d0)"
      "\<forall>old. find (\<lambda>r. event_key r = event_key e) (events d0) = Some old \<longrightarrow> event_kept m artist old e"
    using assms unfolding stage_event_def by blast
  show "stage_event T d0 city m en src artist v Pf' G i E (d\<lparr>performers := Pf'\<rparr>)"
    unfolding stage_event_def d catalogue_fields
    by (intro exI [of _ A] exI [of _ I] exI [of _ B] exI [of _ U] exI [of _ V] exI [of _ Ev] exI [of _ e] conjI refl rest)
  show "stage_event T d0 city m en src artist v Pf G' i E (d\<lparr>event_genres := G'\<rparr>)"
    unfolding stage_event_def d catalogue_fields
    by (intro exI [of _ A] exI [of _ I] exI [of _ B] exI [of _ U] exI [of _ V] exI [of _ Ev] exI [of _ e] conjI refl rest)
  show "performers d = Pf" "event_genres d = G" "genres d = genres d0" by (simp_all add: d)
  show "event_exists d i" using find_in_set [OF rest(4)] rest(5) by (auto simp: d event_exists_def has_row_iff)
qed

lemma commits_delete_performers:
  "commits (stage_event T d0 city m en src artist v Pf G i) (step_db (delete_event_performers i))
     (\<lambda>_. stage_event T d0 city m en src artist v (filter (\<lambda>p. ep_event_id p \<noteq> i) Pf) G i)"
  by (rule commits_query) (auto simp: delete_event_performers_def delete_rows_def stage_event_set)

lemma commits_delete_genres:
  "commits (stage_event T d0 city m en src artist v Pf G i) (step_db (delete_event_genres i))
     (\<lambda>_. stage_event T d0 city m en src artist v Pf (filter (\<lambda>g. fst g \<noteq> i) G) i)"
  by (rule commits_query) (auto simp: delete_event_genres_def delete_rows_def stage_event_set)

lemma commits_performer_step:
  assumes D: "\<forall>p \<in> set D. ep_event_id p \<noteq> i"
  shows "commits (stage_event T d0 city m en src artist v (D @ performer_rows T i xs) G i) (performer_step T i x)
     (\<lambda>_. stage_event T d0 city m en src artist v (D @ performer_rows T i (xs @ [x])) G i)"
proof (cases "x = []")
  case True
  then show ?thesis by (simp add: performer_step_def performer_rows_def commits_skip)
next
  case False
  let ?n = "normalize_string T" and ?seen = "filter (\<lambda>p. p \<noteq> []) xs"
  have rows: "performer_rows T i (xs @ [x]) = performer_rows T i xs @
      (if ?n x \<in> ?n ` set ?seen then [] else [\<lparr>ep_event_id = i, ep_name = x, ep_normalized = ?n x\<rparr>])"
    using False dedup_by_snoc [of ?n ?seen x] by (simp add: performer_rows_def)
  have "has_row (\<lambda>p. ep_event_id p = i \<and> ep_normalized p = ?n x) (D @ performer_rows T i xs) \<longleftrightarrow>
      (\<exists>p \<in> set (dedup_by ?n [] ?seen). ?n p = ?n x)"
    using D by (simp add: has_row_iff performer_rows_def bex_Un)
  also have "\<dots> \<longleftrightarrow> ?n x \<in> set (map ?n (dedup_by ?n [] ?seen))"
    unfolding set_map image_iff by (rule bex_cong) auto
  finally have has: "has_row (\<lambda>p. ep_event_id p = i \<and> ep_normalized p = ?n x) (D @ performer_rows T i xs) \<longleftrightarrow>
      ?n x \<in> ?n ` set ?seen" by (simp only: dedup_by_keys) simp
  show ?thesis unfolding performer_step_def if_not_P [OF False]
  proof (rule commits_query)
    fix E t d assume s: "stage_event T d0 city m en src artist v (D @ performer_rows T i xs) G i E d"
    note f = stage_event_set [OF s]
    show "\<exists>a d'. insert_event_performer i x (?n x) t d = Inr (a, d') \<and>
        stage_event T d0 city m en src artist v (D @ performer_rows T i (xs @ [x])) G i E d'"
      unfolding rows insert_event_performer_def f(3) has using s f(1,6) by auto
  qed
qed

lemma commits_genre_step:
  assumes D: "\<forall>g \<in> set D. fst g \<noteq> i"
  shows "commits (stage_event T d0 city m en src artist v Pf (D @ genre_rows T (genres d0) i xs) i) (genre_step T i x)
     (\<lambda>_. stage_event T d0 city m en src artist v Pf (D @ genre_rows T (genres d0) i (xs @ [x])) i)"
proof -
  let ?s = "genre_slug T x" and ?seen = "filter (\<lambda>s. s \<in> set (genres d0)) (map (genre_slug T) xs)"
  let ?P = "stage_event T d0 city m en src artist v Pf (D @ genre_rows T (genres d0) i xs) i"
  have rows: "genre_rows T (genres d0) i (xs @ [x]) = genre_rows T (genres d0) i xs @
      (if ?s \<in> set (genres d0) \<and> ?s \<notin> set ?seen then [(i, ?s)] else [])"
    using dedup_by_snoc [of "\<lambda>s. s" ?seen ?s] by (auto simp: genre_rows_def)
  have "(i, ?s) \<in> set (D @ genre_rows T (genres d0) i xs) \<longleftrightarrow> ?s \<in> set (map (\<lambda>s. s) (dedup_by (\<lambda>s. s) [] ?seen))"
    using D by (auto simp: genre_rows_def)
  then have has: "(i, ?s) \<in> set (D @ genre_rows T (genres d0) i xs) \<longleftrightarrow> ?s \<in> set ?seen"
    by (simp only: dedup_by_keys) simp
  have "commits ?P (step_db (genre_exists ?s)) (\<lambda>known E d. ?P E d \<and> known = (?s \<in> set (genres d0)))"
    by (rule commits_query) (auto simp: genre_exists_def dest: stage_event_set(5))
  moreover have "commits (\<lambda>E d. ?P E d \<and> known = (?s \<in> set (genres d0)))
      (if \<not> known then ret (Inr ()) else step_db (insert_event_genre i ?s))
      (\<lambda>_. stage_event T d0 city m en src artist v Pf (D @ genre_rows T (genres d0) i (xs @ [x])) i)" for known
  proof (cases known)
    case False
    then show ?thesis by (auto simp: rows intro!: commits_ret)
  next
    case True
    have "commits (\<lambda>E d. ?P E d \<and> known = (?s \<in> set (genres d0))) (step_db (insert_event_genre i ?s))
        (\<lambda>_. stage_event T d0 city m en src artist v Pf (D @ genre_rows T (genres d0) i (xs @ [x])) i)"
    proof (rule commits_query)
      fix E t d assume s: "?P E d \<and> known = (?s \<in> set (genres d0))"
      note f = stage_event_set [OF conjunct1 [OF s]]
      show "\<exists>a d'. insert_event_genre i ?s t d = Inr (a, d') \<and>
          stage_event T d0 city m en src artist v Pf (D @ genre_rows T (genres d0) i (xs @ [x])) i E d'"
        unfolding rows insert_event_genre_def f(4,5) has using s True f(2,6) by auto
    qed
    then show ?thesis using True by simp
  qed
  ultimately show ?thesis unfolding genre_step_def by (rule commits_then)
qed

lemma stage_event_ingested:
  assumes "find (\<lambda>s. es_name s = em_source m) (sources d0) = Some src"
    and "stage_event T d0 city m en (es_id src) artist v
      (filter (\<lambda>p. ep_event_id p \<noteq> i) (performers d0) @ performer_rows T i (em_performers m))
      (filter (\<lambda>g. fst g \<noteq> i) (event_genres d0) @ genre_rows T (genres d0) i (em_genres m)) i E d"
  shows "ingested T city (m, en) d0 d"
  using assms unfolding stage_event_def ingested_def fst_conv snd_conv by blast

lemma commits_message:
  "commits (\<lambda>E d. d = d0 \<and> ingest_ok E d0 city (em_source m)) (handle_message T city (m, en))
     (\<lambda>_ E d. ingested T city (m, en) d0 d)"
proof -
  have src: "commits (\<lambda>E d. d = d0 \<and> ingest_ok E d0 city (em_source m))
      (step_db (get_event_source_by_name (em_source m)))
      (\<lambda>src E d. (d = d0 \<and> ingest_ok E d0 city (em_source m)) \<and>
         find (\<lambda>s. es_name s = em_source m) (sources d0) = Some src)"
  proof (rule commits_query)
    fix E t d assume s: "d = d0 \<and> ingest_ok E d0 city (em_source m)"
    then have "has_row (\<lambda>s. es_name s = em_source m) (sources d0)" using ingest_ok_keys(4) by blast
    then have "find (\<lambda>s. es_name s = em_source m) (sources d0) \<noteq> None"
      by (auto simp: find_None_iff has_row_iff)
    with s show "\<exists>a d'. get_event_source_by_name (em_source m) t d = Inr (a, d') \<and>
        (d' = d0 \<and> ingest_ok E d0 city (em_source m)) \<and> find (\<lambda>s. es_name s = em_source m) (sources d0) = Some a"
      by (auto simp: get_event_source_by_name_def one_row_def)
  qed
  have rest: "commits (\<lambda>E d. (d = d0 \<and> ingest_ok E d0 city (em_source m)) \<and>
         find (\<lambda>s. es_name s = em_source m) (sources d0) = Some src)
        (then_step (apply_enrichment T en) (\<lambda>artist.
        then_step (step_new (upsert_venue city (vm_name (em_venue m)) (normalize_string T (vm_name (em_venue m)))
                     (str_opt (vm_address (em_venue m))) (vm_lat (em_venue m)) (vm_lng (em_venue m))
                     (str_opt (vm_website (em_venue m))))) (\<lambda>venue.
        then_step (step_new (upsert_event (es_id src) m venue artist)) (\<lambda>i.
        then_step (step_db (delete_event_performers i)) (\<lambda>_.
        then_step (each_step (performer_step T i) (em_performers m)) (\<lambda>_.
        then_step (step_db (delete_event_genres i)) (\<lambda>_.
        each_step (genre_step T i) (em_genres m)))))))) (\<lambda>_ E d. ingested T city (m, en) d0 d)"
      (is "commits ?P ?m ?Q") for src
  proof (cases "find (\<lambda>s. es_name s = em_source m) (sources d0) = Some src")
    case False
    then show ?thesis by (simp add: commits_def)
  next
    case True
    then have s: "src \<in> set (sources d0)" by (auto dest: find_in_set)
    let ?D = "\<lambda>i. filter (\<lambda>p. ep_event_id p \<noteq> i) (performers d0)"
    let ?G = "\<lambda>i. filter (\<lambda>g. fst g \<noteq> i) (event_genres d0)"
    have perf: "commits (stage_event T d0 city m en (es_id src) artist v (?D i) G i)
        (each_step (performer_step T i) ps)
        (\<lambda>_. stage_event T d0 city m en (es_id src) artist v (?D i @ performer_rows T i ps) G i)" for artist v i G ps
      using commits_each [of ps "\<lambda>xs. stage_event T d0 city m en (es_id src) artist v (?D i @ performer_rows T i xs) G i"
          "performer_step T i", OF commits_performer_step]
      by (simp add: performer_rows_Nil)
    have gen: "commits (stage_event T d0 city m en (es_id src) artist v Pf (?G i) i)
        (each_step (genre_step T i) gs)
        (\<lambda>_. stage_event T d0 city m en (es_id src) artist v Pf (?G i @ genre_rows T (genres d0) i gs) i)" for artist v i Pf gs
      using commits_each [of gs "\<lambda>xs. stage_event T d0 city m en (es_id src) artist v Pf (?G i @ genre_rows T (genres d0) i xs) i"
          "genre_step T i", OF commits_genre_step]
      by (simp add: genre_rows_Nil)
    have en: "commits ?P (apply_enrichment T en) (stage_artist T d0 city (em_source m) en)"
      by (rule commits_weaken [OF commits_enrichment]) blast+
    show ?thesis
      by (rule commits_then [OF en] commits_then [OF commits_venue] commits_then [OF commits_event [OF s]]
          commits_then [OF commits_delete_performers] commits_then [OF perf] commits_then [OF commits_delete_genres]
          commits_weaken [OF gen] stage_event_ingested [OF True] | assumption)+
  qed
  show ?thesis unfolding handle_message_def prod.case by (rule commits_then [OF src rest])
qed

section \<open>Deliveries\<close>

text \<open>The message a body delivers: what the first decode that goes through answers.\<close>

definition delivers :: "enriched_msg option \<times> event_msg option \<Rightarrow> enriched_msg \<Rightarrow> bool" where
  "delivers body em =
     (case body of (Some x, _) \<Rightarrow> em = x | (None, Some m) \<Rightarrow> em = (m, None) | (None, None) \<Rightarrow> False)"

lemma handle_event_delivers: "delivers body em \<Longrightarrow> handle_event T city body = handle_message T city em"
  by (auto simp: delivers_def handle_event_def split: option.splits prod.splits)

lemma handle_one_commits:
  assumes c: "commits P (h m) Q" and p: "P (w_env w) (w_db w)"
    and run: "run_state (handle_one h m) w = (gone, w')"
  shows "gone \<Longrightarrow> \<exists>a. Q a (w_env w) (w_db w')" and "always_up w \<Longrightarrow> gone"
proof -
  obtain r w1 where r: "run_state (h m) w = (r, w1)" by fastforce
  note cm = commitsD [OF c p, unfolded r fst_conv snd_conv]
  show "\<exists>a. Q a (w_env w) (w_db w')" if gone
    using run that cm(2) by (auto simp: handle_one_def r queue_delete_def split: sum.splits)
  show gone if "always_up w"
  proof -
    have "fault_of w1 = NoFault" using that cm(1) by (simp add: always_up_def fault_of_def)
    then show ?thesis using run cm(3) [OF that] by (auto simp: handle_one_def r queue_delete_def)
  qed
qed

lemma handle_one_ingested:
  assumes "ingest_ok (w_env w) (w_db w) city (em_source m)" and "delivers body (m, en)"
    and "run_state (handle_one (handle_event T city) body) w = (gone, w')"
  shows "gone \<Longrightarrow> ingested T city (m, en) (w_db w) (w_db w')" and "always_up w \<Longrightarrow> gone"
proof -
  have "commits (\<lambda>E d. d = w_db w \<and> ingest_ok E (w_db w) city (em_source m)) (handle_event T city body)
      (\<lambda>_ E d. ingested T city (m, en) (w_db w) d)"
    unfolding handle_event_delivers [OF assms(2)] by (rule commits_message)
  note h = handle_one_commits [OF this _ assms(3)]
  show "gone \<Longrightarrow> ingested T city (m, en) (w_db w) (w_db w')" using h(1) assms(1) by simp
  show "always_up w \<Longrightarrow> gone" using h(2) assms(1) by simp
qed

text \<open>
  C23. An event message that leaves its queue is in the catalogue: its venue and its event
  are stored as the message has them (with the id, the embedding and, where the message is
  silent, the headliner and the segment of the row that was there), the event's performers and
  genres are exactly those of the message, and no other venue, event, performer or genre row
  changed. This holds whichever calls of the delivery, or of the deletion, failed or lost
  their answer; and a delivery during which nothing fails does leave the queue.
\<close>

theorem ingest_establishes:
  assumes "ingest_ok (w_env w) (w_db w) city (em_source m)" and "delivers body (m, en)"
    and "run_state (handle_one (handle_event T city) body) w = (gone, w')"
  shows "(gone \<longrightarrow> ingested T city (m, en) (w_db w) (w_db w')) \<and> (always_up w \<longrightarrow> gone)"
  using handle_one_ingested [OF assms] by blast

section \<open>Redelivery\<close>

lemma ingested_artist:
  assumes "artist_stage T d0 en artist A" and "artist_stage T (catalogue d0 A I B U V Ev Pf G) en artist' A'"
  shows "artist' = artist"
  using assms by (auto simp: artist_stage_def artist_stored_def split: option.splits)

lemma venue_matches_unique:
  "venue_matches T city m r \<Longrightarrow> venue_matches T city m r' \<Longrightarrow> v_id r = v_id r' \<Longrightarrow> r = r'"
  by (auto simp: venue_matches_def venue_key_def intro: venue_row.equality)

definition untimed :: "event_row \<Rightarrow> event_row" where
  "untimed e = e\<lparr>e_last_seen_at := 0, e_updated_at := 0\<rparr>"

lemma event_stored_again:
  assumes "event_stored m src v artist e" and "event_stored m src v artist e'" and "event_kept m artist e e'"
  shows "untimed e' = untimed e"
proof -
  have "e_headline_artist_id e' = e_headline_artist_id e"
    using assms by (cases artist) (auto simp: event_stored_def event_kept_def)
  moreover have "e_segment e' = e_segment e"
    using assms by (cases "em_segment m = []") (auto simp: event_stored_def event_kept_def)
  ultimately show ?thesis
    using assms by (auto simp: event_stored_def event_kept_def event_key_def untimed_def intro!: event_row.equality)
qed

lemma find_filter_other: "k \<noteq> k' \<Longrightarrow> find (\<lambda>r. key r = k) (filter (\<lambda>r. key r \<noteq> k') t) = find (\<lambda>r. key r = k) t"
  by (induction t) auto

lemma find_outside:
  assumes "filter (\<lambda>r. key r \<noteq> k') t = filter (\<lambda>r. key r \<noteq> k') t'" and "k \<noteq> k'"
  shows "find (\<lambda>r. key r = k) t = find (\<lambda>r. key r = k) t'"
  using find_filter_other [OF assms(2), of key t] find_filter_other [OF assms(2), of key t'] assms(1) by simp

lemma ingested_twice:
  assumes one: "ingested T city em d0 d1" and two: "ingested T city em d1 d2"
  shows "performers d2 = performers d1" "event_genres d2 = event_genres d1"
    "find (\<lambda>r. venue_key r = k) (venues d2) = find (\<lambda>r. venue_key r = k) (venues d1)"
    "map_option untimed (find (\<lambda>r. event_key r = k) (events d2)) = map_option untimed (find (\<lambda>r. event_key r = k) (events d1))"
proof -
  let ?vk = "(city, normalize_string T (vm_name (em_venue (fst em))))"
  obtain src v artist e A I B U V Ev where d1: "d1 = catalogue d0 A I B U V Ev
        (filter (\<lambda>p. ep_event_id p \<noteq> e_id e) (performers d0) @ performer_rows T (e_id e) (em_performers (fst em)))
        (filter (\<lambda>g. fst g \<noteq> e_id e) (event_genres d0) @ genre_rows T (genres d0) (e_id e) (em_genres (fst em)))"
    and s1: "find (\<lambda>s. es_name s = em_source (fst em)) (sources d0) = Some src"
    and a1: "artist_stage T d0 (snd em) artist A" and v1: "venue_stored T city (em_venue (fst em)) v V"
    and f1: "find (\<lambda>r. event_key r = (es_id src, em_source_event_id (fst em))) Ev = Some e"
    and e1: "event_stored (fst em) (es_id src) v artist e"
    using one unfolding ingested_def by blast
  obtain src' v' artist' e' A' I' B' U' V' Ev' where d2: "d2 = catalogue d1 A' I' B' U' V' Ev'
        (filter (\<lambda>p. ep_event_id p \<noteq> e_id e') (performers d1) @ performer_rows T (e_id e') (em_performers (fst em)))
        (filter (\<lambda>g. fst g \<noteq> e_id e') (event_genres d1) @ genre_rows T (genres d1) (e_id e') (em_genres (fst em)))"
    and s2: "find (\<lambda>s. es_name s = em_source (fst em)) (sources d1) = Some src'"
    and a2: "artist_stage T d1 (snd em) artist' A'" and v2: "venue_stored T city (em_venue (fst em)) v' V'"
    and o2: "others_kept venue_key v_id ?vk (venues d1) V'"
    and f2: "find (\<lambda>r. event_key r = (es_id src', em_source_event_id (fst em))) Ev' = Some e'"
    and e2: "event_stored (fst em) (es_id src') v' artist' e'"
    and fr2: "filter (\<lambda>r. event_key r \<noteq> event_key e') Ev' = filter (\<lambda>r. event_key r \<noteq> event_key e') (events d1)"
    and k2: "\<forall>old. find (\<lambda>r. event_key r = event_key e') (events d1) = Some old \<longrightarrow> event_kept (fst em) artist' old e'"
    using two unfolding ingested_def by blast
  have src: "src' = src" using s1 s2 by (simp add: d1)
  have art: "artist' = artist" using ingested_artist [OF a1] a2 unfolding d1 by blast
  obtain r r' where r: "find (\<lambda>r. venue_key r = ?vk) V = Some r" "v_id r = v" "venue_matches T city (em_venue (fst em)) r"
    and r': "find (\<lambda>r. venue_key r = ?vk) V' = Some r'" "v_id r' = v'" "venue_matches T city (em_venue (fst em)) r'"
    using v1 v2 unfolding venue_stored_def by blast
  have "v' = v" using o2 r r' by (simp add: others_kept_def id_at_def d1)
  with r r' have rr: "r' = r" by (intro venue_matches_unique) auto
  show "find (\<lambda>r. venue_key r = k) (venues d2) = find (\<lambda>r. venue_key r = k) (venues d1)"
    using find_outside [of venue_key ?vk V' V k] o2 r(1) r'(1) rr by (cases "k = ?vk") (simp_all add: others_kept_def d1 d2)
  have ke: "event_key e = (es_id src, em_source_event_id (fst em))" using e1 by (simp add: event_stored_def)
  have ke': "event_key e' = event_key e" using e2 ke by (simp add: event_stored_def src)
  have kept: "event_kept (fst em) artist e e'" using k2 f1 ke' ke art by (simp add: d1)
  have same: "untimed e' = untimed e"
    using e2 unfolding src \<open>v' = v\<close> art by (rule event_stored_again [OF e1 _ kept])
  show "map_option untimed (find (\<lambda>r. event_key r = k) (events d2)) = map_option untimed (find (\<lambda>r. event_key r = k) (events d1))"
  proof (cases "k = event_key e")
    case True
    then show ?thesis using f1 f2 same by (simp add: d1 d2 ke src)
  next
    case False
    then show ?thesis using find_outside [OF fr2, of k] by (simp add: d1 d2 ke')
  qed
  have id: "e_id e' = e_id e" using kept by (simp add: event_kept_def)
  show "performers d2 = performers d1" by (simp add: d1 d2 id performer_rows_def)
  have "fst g = e_id e" if "g \<in> set (genre_rows T (genres d0) (e_id e) (em_genres (fst em)))" for g
    using that by (auto simp: genre_rows_def)
  then show "event_genres d2 = event_genres d1" by (simp add: d1 d2 id filter_empty_conv)
qed


text \<open>A first show of a band at a new venue.\<close>

definition ingest_db :: db where
  "ingest_db =
     empty_db\<lparr>cities := [\<lparr>c_id = 1, c_slug = ''v1-city'', c_name = ''C'', c_timezone = ''UTC''\<rparr>],
              sources := [\<lparr>es_id = 3, es_name = ''tm'', es_exempt = False\<rparr>], genres := [''rock'']\<rparr>"

definition ingest_msg :: event_msg where
  "ingest_msg =
     \<lparr>em_source = ''tm'', em_source_event_id = ''x'', em_title = ''La Luz'', em_description = [], em_starts_at = day,
      em_ends_at = None, em_time_tbd = False,
      em_venue = \<lparr>vm_name = ''hall'', vm_address = [], vm_lat = None, vm_lng = None, vm_website = []\<rparr>,
      em_segment = [], em_performers = [''la luz''], em_genres = [''rock''], em_image_url = [], em_url = []\<rparr>"

definition ingest_world :: "uuid \<Rightarrow> db \<Rightarrow> unit world" where
  "ingest_world i d =
     init_world \<lparr>clock = (\<lambda>_. 0), fault_at = (\<lambda>_. NoFault), rand_bytes = (\<lambda>_ n. None), fresh_uuid = (\<lambda>_. i)\<rparr> d ()"

lemma ingest_world_ok:
  "always_up (ingest_world i d)" "w_db (ingest_world i d) = d" "delivers (Some em, p) em"
  "ingest_ok (w_env (ingest_world 5 ingest_db)) ingest_db 1 ''tm''" "em_source ingest_msg = ''tm''"
  by (simp_all add: always_up_def ingest_world_def init_world_def delivers_def ingest_ok_def ingest_db_def
      empty_db_def keyed_def ingest_msg_def)

theorem ingest_establishes_witness:
  "\<exists>w'. run_state (handle_one (handle_event plain_env 1) (Some (ingest_msg, None), None)) (ingest_world 5 ingest_db) = (True, w') \<and>
     ingested plain_env 1 (ingest_msg, None) ingest_db (w_db w')"
proof -
  obtain gone w' where run: "run_state (handle_one (handle_event plain_env 1) (Some (ingest_msg, None), None))
      (ingest_world 5 ingest_db) = (gone, w')" by fastforce
  from ingest_establishes [OF _ ingest_world_ok(3) this] show ?thesis using run ingest_world_ok by simp
qed

definition ingested_db :: db where
  "ingested_db =
     ingest_db\<lparr>
       venues := [\<lparr>v_id = 5, v_city_id = 1, v_name = ''hall'', v_normalized = ''hall'', v_address = None, v_lat = None,
                   v_lng = None, v_website = None\<rparr>],
       events := [\<lparr>e_id = 5, e_source_id = 3, e_source_event_id = ''x'', e_title = ''La Luz'', e_description = [],
                   e_starts_at = day, e_ends_at = None, e_venue_id = 5, e_image_url = None, e_url = None,
                   e_embedding = None, e_last_seen_at = 0, e_archived_at = None, e_updated_at = 0, e_time_tbd = False,
                   e_headline_artist_id = None, e_segment = None\<rparr>],
       performers := [\<lparr>ep_event_id = 5, ep_name = ''la luz'', ep_normalized = ''la luz''\<rparr>],
       event_genres := [(5, ''rock'')]\<rparr>"

lemma ingest_msg_names:
  "normalize_string plain_env ''hall'' = ''hall''" "normalize_string plain_env ''la luz'' = ''la luz''"
  "genre_slug plain_env ''rock'' = ''rock''"
  by code_simp+

lemma ingest_run:
  "\<exists>w1. run_state (handle_one (handle_event plain_env 1) (Some (ingest_msg, None), None)) (ingest_world 5 ingest_db) = (True, w1) \<and>
     w_db w1 = ingested_db"
  by (simp add: handle_one_def handle_event_def handle_message_def then_step_def step_db_def step_new_def run_query_def
      fault_of_def now_of_def fresh_of_def ingest_world_def init_world_def ingest_msg_def ingest_msg_names
      apply_enrichment_def get_event_source_by_name_def one_row_def ingest_db_def empty_db_def upsert_venue_def
      upsert_returning_def upsert_event_def new_event_def event_key_def delete_event_performers_def
      performer_step_def insert_event_performer_def event_exists_def delete_event_genres_def genre_step_def
      genre_exists_def insert_event_genre_def queue_delete_def ingested_db_def str_opt_def delete_rows_def tick_def Let_def)


end
