(* ===== verification/InterestProps.thy ===== *)
theory InterestProps
  imports IngestProps
begin

text \<open>
  The two other guarantees of the ingest side: what an interest message leaves in
  \<open>user_interests\<close>, and what the guarded upserts of the enrichment do and do not protect.
\<close>

section \<open>Steps that answer or fail\<close>

text \<open>\<open>yields P m Q\<close>: from a database in \<open>P\<close>, an answer of \<open>m\<close> that is not an error leaves \<open>Q\<close>.\<close>

definition yields :: "(db \<Rightarrow> bool) \<Rightarrow> ('l, 'e + 'a) act \<Rightarrow> ('a \<Rightarrow> db \<Rightarrow> bool) \<Rightarrow> bool" where
  "yields P m Q =
     (\<forall>w. P (w_db w) \<longrightarrow> (\<forall>a. fst (run_state m w) = Inr a \<longrightarrow> Q a (w_db (snd (run_state m w)))))"

lemma yieldsD: "yields P m Q \<Longrightarrow> P (w_db w) \<Longrightarrow> run_state m w = (Inr a, w') \<Longrightarrow> Q a (w_db w')"
  unfolding yields_def by (metis fst_conv snd_conv)

lemma yields_ret: "(\<And>d. P d \<Longrightarrow> Q a d) \<Longrightarrow> yields P (ret (Inr a)) Q"
  by (simp add: yields_def)

lemma yields_then:
  assumes "yields P m Q" and "\<And>a. yields (Q a) (f a) R"
  shows "yields P (then_step m f) R"
  unfolding yields_def
proof (intro allI impI)
  fix w :: "'a world" and b assume p: "P (w_db w)" and r: "fst (run_state (then_step m f) w) = Inr b"
  obtain x w1 where x: "run_state m w = (x, w1)" by fastforce
  with r obtain a where a: "x = Inr a" "fst (run_state (f a) w1) = Inr b"
    by (cases x) (auto simp: then_step_def)
  have "Q a (w_db w1)" using yieldsD [OF assms(1) p] x a by simp
  moreover have "run_state (then_step m f) w = run_state (f a) w1" using x a(1) by (simp add: then_step_def)
  ultimately show "R b (w_db (snd (run_state (then_step m f) w)))" using assms(2) [of a] a(2) by (simp add: yields_def)
qed

lemma yields_query:
  assumes "\<And>t d a d'. P d \<Longrightarrow> q t d = Inr (a, d') \<Longrightarrow> Q a d'"
  shows "yields P (step_db q) Q"
  using assms by (auto simp: yields_def step_db_def run_query_def split: fault.splits sum.splits prod.splits)

lemma yields_new:
  assumes "\<And>n t d a d'. P d \<Longrightarrow> f n t d = Inr (a, d') \<Longrightarrow> Q a d'"
  shows "yields P (step_new f) Q"
  using assms by (auto simp: yields_def step_new_def run_query_def split: fault.splits sum.splits prod.splits)

lemma yields_each:
  assumes "\<And>xs x ys. items = xs @ x # ys \<Longrightarrow> yields (I xs) (f x) (\<lambda>_. I (xs @ [x]))"
  shows "yields (I []) (each_step f items) (\<lambda>_. I items)"
proof -
  have "xs @ todo = items \<Longrightarrow> yields (I xs) (each_step f todo) (\<lambda>_. I items)" for xs todo
  proof (induction todo arbitrary: xs)
    case Nil
    then show ?case by (auto intro: yields_ret)
  next
    case (Cons x todo)
    have "yields (I xs) (f x) (\<lambda>_. I (xs @ [x]))" by (rule assms [of xs x todo]) (use Cons.prems in simp)
    moreover have "yields (I (xs @ [x])) (each_step f todo) (\<lambda>_. I items)" using Cons.prems by (intro Cons.IH) simp
    ultimately show ?case by (auto intro: yields_then)
  qed
  from this [of "[]" items] show ?thesis by simp
qed

lemma yields_weaken: "yields P' m Q' \<Longrightarrow> (\<And>d. P d \<Longrightarrow> P' d) \<Longrightarrow> (\<And>a d. Q' a d \<Longrightarrow> Q a d) \<Longrightarrow> yields P m Q"
  unfolding yields_def by blast

lemma yields_keeps: "keeps (\<lambda>w. J (w_db w)) m \<Longrightarrow> yields J m (\<lambda>_. J)"
  by (simp add: yields_def keeps_def)

section \<open>Upserts by key\<close>

lemma upsert_returning_row:
  "upsert_returning key rid new merge t = Some (i, t') \<Longrightarrow> t' = upsert_row key new merge t"
  by (auto simp: upsert_returning_def upsert_row_def has_row_iff find_None_iff split: option.splits if_splits
      dest: find_in_set)

lemma find_upsert_row:
  assumes "\<And>r. key (merge r) = key r"
  shows "find (\<lambda>r. key r = k) (upsert_row key new merge t) =
    (if k = key new then Some (case find (\<lambda>r. key r = k) t of None \<Rightarrow> new | Some r \<Rightarrow> merge r)
     else find (\<lambda>r. key r = k) t)"
proof (cases "has_row (\<lambda>r. key r = key new) t")
  case True
  then have "find (\<lambda>r. key r = key new) t \<noteq> None" by (auto simp: has_row_iff find_None_iff)
  with True show ?thesis
    using find_update_key [of key merge k "key new" t] assms by (auto simp: upsert_row_def)
next
  case False
  then have "find (\<lambda>r. key r = key new) t = None" by (auto simp: has_row_iff find_None_iff)
  with False show ?thesis by (auto simp: upsert_row_def find_snoc split: option.splits)
qed

lemma filter_upsert_row:
  assumes "\<And>r. key (merge r) = key r" and "\<And>r. key r = key new \<Longrightarrow> \<not> Q r"
  shows "filter Q (upsert_row key new merge t) = filter Q t"
  using assms filter_update_rows_frame [of "\<lambda>r. key r = key new" Q merge t]
  by (auto simp: upsert_row_def)

section \<open>Interest messages\<close>

definition spotify_kinds :: "string list" where
  "spotify_kinds = [''spotify_top_artist'', ''spotify_top_track_artist'', ''spotify_saved_song_artist'', ''spotify_top_genre'']"

text \<open>What is stored of a user under a kind and a name, and what a list of items asks for: its last word on the name.\<close>

definition stored_interest :: "db \<Rightarrow> uuid \<Rightarrow> string \<Rightarrow> string \<Rightarrow> (string \<times> real) option" where
  "stored_interest d u k n =
     map_option (\<lambda>r. (ui_value r, ui_weight r)) (find (\<lambda>r. interest_key r = (u, k, n)) (interests d))"

definition wanted_interest :: "text_env \<Rightarrow> (int \<Rightarrow> real) \<Rightarrow> top_item list \<Rightarrow> string \<Rightarrow> (string \<times> real) option" where
  "wanted_interest T weight items n =
     map_option (\<lambda>i. (fst i, weight (snd i))) (find (\<lambda>i. normalize_string T (fst i) = n) (rev items))"

definition not_from_spotify :: "uuid \<Rightarrow> interest_row \<Rightarrow> bool" where
  "not_from_spotify u r = (\<not> (ui_user_id r = u \<and> ui_kind r \<in> set spotify_kinds))"

definition interest_stage ::
    "interest_row list \<Rightarrow> uuid \<Rightarrow> string set \<Rightarrow> (string \<Rightarrow> string \<Rightarrow> (string \<times> real) option) \<Rightarrow> db \<Rightarrow> bool" where
  "interest_stage X u K S d =
     (keyed interest_key (interests d) \<and> filter (not_from_spotify u) (interests d) = X \<and>
      (\<forall>k \<in> K. \<forall>n. stored_interest d u k n = S k n))"

lemma insert_interest_stage:
  assumes s: "interest_stage X u K (S(k := f)) d" and k: "k \<in> set spotify_kinds"
    and q: "insert_spotify_interest u k v n x i t d = Inr ((), d')"
  shows "interest_stage X u K (S(k := f(n \<mapsto> (v, x)))) d'"
proof -
  let ?new = "\<lparr>ui_id = i, ui_user_id = u, ui_kind = k, ui_value = v, ui_normalized = n,
           ui_weight = x, ui_created_at = t, ui_updated_at = t\<rparr>"
  let ?merge = "\<lambda>r. r\<lparr>ui_value := v, ui_weight := x, ui_updated_at := t\<rparr>"
  obtain j rows where u: "upsert_returning interest_key ui_id ?new ?merge (interests d) = Some (j, rows)"
    and d': "d' = d\<lparr>interests := rows\<rparr>"
    using q by (auto simp: insert_spotify_interest_def split: if_splits option.splits)
  have mk: "interest_key (?merge r) = interest_key r" for r by (simp add: interest_key_def)
  have nk: "interest_key ?new = (u, k, n)" by (simp add: interest_key_def)
  have rows: "rows = upsert_row interest_key ?new ?merge (interests d)" by (rule upsert_returning_row [OF u])
  have keyed: "keyed interest_key rows"
    unfolding rows by (rule keyed_upsert_row) (use s mk in \<open>auto simp: interest_stage_def\<close>)
  have "filter (not_from_spotify u) rows = filter (not_from_spotify u) (interests d)"
    unfolding rows by (rule filter_upsert_row) (use mk k in \<open>auto simp: nk interest_key_def not_from_spotify_def\<close>)
  moreover have "stored_interest d' u k' n' = (if k' = k \<and> n' = n then Some (v, x) else stored_interest d u k' n')" for k' n'
    unfolding stored_interest_def d' rows by (simp add: find_upsert_row [where key = interest_key and merge = ?merge, OF mk] nk split: option.split)
  ultimately show ?thesis using s keyed by (auto simp: interest_stage_def d')
qed

lemma delete_interest_stage:
  assumes s: "interest_stage X u K S d" and k: "k \<in> set spotify_kinds"
    and q: "delete_interests_of_kind k u t d = Inr ((), d')"
  shows "interest_stage X u (insert k K) (S(k := (\<lambda>n. None))) d'"
proof -
  have d': "d' = d\<lparr>interests := delete_rows (\<lambda>r. ui_user_id r = u \<and> ui_kind r = k) (interests d)\<rparr>"
    using q by (simp add: delete_interests_of_kind_def)
  have keyed: "keyed interest_key (interests d)" using s by (simp add: interest_stage_def)
  have "filter (not_from_spotify u) (interests d') = filter (not_from_spotify u) (interests d)"
    unfolding d' using k by (auto simp: delete_rows_def not_from_spotify_def intro!: filter_cong)
  moreover have "stored_interest d' u k' n = (if k' = k then None else stored_interest d u k' n)" for k' n
    unfolding stored_interest_def d'
    using find_delete_rows [OF keyed, of "(u, k', n)" "\<lambda>r. ui_user_id r = u \<and> ui_kind r = k"]
    by (auto simp: interest_key_def split: option.splits dest: find_in_set)
  ultimately show ?thesis using s keyed_delete_rows [OF keyed] by (auto simp: interest_stage_def d')
qed

lemma yields_replace_kind:
  assumes k: "k \<in> set spotify_kinds"
  shows "yields (interest_stage X u K S) (replace_kind T u k weight items)
    (\<lambda>_. interest_stage X u (insert k K) (S(k := wanted_interest T weight items)))"
proof -
  let ?I = "\<lambda>xs. interest_stage X u (insert k K) (S(k := wanted_interest T weight xs))"
  have nil: "wanted_interest T weight [] = (\<lambda>n. None)" by (simp add: wanted_interest_def fun_eq_iff)
  have snoc: "wanted_interest T weight (xs @ [x]) =
      (wanted_interest T weight xs)(normalize_string T (fst x) \<mapsto> (fst x, weight (snd x)))" for xs x
    by (auto simp: wanted_interest_def fun_eq_iff)
  have del: "yields (interest_stage X u K S) (step_db (delete_interests_of_kind k u)) (\<lambda>_. ?I [])"
    by (rule yields_query) (use delete_interest_stage [OF _ k] in \<open>auto simp: nil\<close>)
  have ins: "yields (?I xs) (case x of (name, rank) \<Rightarrow>
      step_new (insert_spotify_interest u k name (normalize_string T name) (weight rank))) (\<lambda>_. ?I (xs @ [x]))" for xs x
    by (cases x) (auto intro!: yields_new insert_interest_stage [OF _ k] simp: snoc)
  show ?thesis unfolding replace_kind_def
    by (rule yields_then [OF del]) (rule yields_each [where I = ?I], rule ins)
qed

lemma yields_replace_interests:
  "yields (interest_stage X u {} S) (replace_interests T u m)
     (\<lambda>_. interest_stage X u (set spotify_kinds)
        (S(''spotify_top_artist'' := wanted_interest T rank_weight (it_artists m),
           ''spotify_top_track_artist'' := wanted_interest T rank_weight (it_track_artists m),
           ''spotify_saved_song_artist'' := wanted_interest T rank_weight (it_saved_artists m),
           ''spotify_top_genre'' := wanted_interest T rank_genre_weight (it_genres m))))"
proof -
  have k: "''spotify_top_artist'' \<in> set spotify_kinds" "''spotify_top_track_artist'' \<in> set spotify_kinds"
    "''spotify_saved_song_artist'' \<in> set spotify_kinds" "''spotify_top_genre'' \<in> set spotify_kinds"
    by (simp_all add: spotify_kinds_def)
  have all: "set spotify_kinds = {''spotify_top_genre'', ''spotify_saved_song_artist'', ''spotify_top_track_artist'', ''spotify_top_artist''}"
    by (auto simp: spotify_kinds_def)
  show ?thesis unfolding replace_interests_def all
    by (rule yields_then [OF yields_replace_kind [OF k(1)]] yields_then [OF yields_replace_kind [OF k(2)]]
        yields_then [OF yields_replace_kind [OF k(3)]] yields_replace_kind [OF k(4)])+
qed

section \<open>The recompute leaves the interests alone\<close>

lemma keeps_step_db:
  assumes "query_keeps J q"
  shows "keeps (\<lambda>w. J (w_db w)) (step_db q)"
  unfolding step_db_def by (intro keeps_rules keeps_db_call assms)

lemma keeps_then_step [keeps_rules]:
  "keeps I m \<Longrightarrow> (\<And>a. keeps I (f a)) \<Longrightarrow> keeps I (then_step m f)"
  unfolding then_step_def by (intro keeps_rules)

lemma keeps_each_step [keeps_rules]: "(\<And>x. keeps I (f x)) \<Longrightarrow> keeps I (each_step f xs)"
  by (induction xs) (auto intro!: keeps_rules)

lemma keeps_embed [keeps_rules]: "keeps (\<lambda>w. J (w_db w)) (embed E ts)"
  by (auto simp: keeps_def embed_def split: option.splits)

lemma keeps_match_pairs [keeps_rules]:
  "(\<And>u e. keeps I (match_pair cfg t u e)) \<Longrightarrow> keeps I (match_pairs cfg t ps)"
  by (induction ps) (auto intro!: keeps_rules)

lemma matcher_queries_keep_interests:
  "query_keeps (\<lambda>d. interests d = X) list_match_config"
  "query_keeps (\<lambda>d. interests d = X) (get_user_for_matching u)"
  "query_keeps (\<lambda>d. interests d = X) list_active_users_for_matching"
  "query_keeps (\<lambda>d. interests d = X) (list_user_interests_batch us)"
  "query_keeps (\<lambda>d. interests d = X) list_upcoming_events_for_matching"
  "query_keeps (\<lambda>d. interests d = X) (list_event_performers_batch is)"
  "query_keeps (\<lambda>d. interests d = X) (list_event_genres_batch is)"
  "query_keeps (\<lambda>d. interests d = X) (upsert_user_event_match u e s b at_time)"
  "query_keeps (\<lambda>d. interests d = X) (delete_stale_matches_for_users us t)"
  "query_keeps (\<lambda>d. interests d = X) delete_obsolete_matches"
  "query_keeps (\<lambda>d. interests d = X) (update_user_interest_embedding u v)"
  by (auto intro!: query_keepsI simp: list_match_config_def get_user_for_matching_def list_active_users_for_matching_def
      list_user_interests_batch_def list_upcoming_events_for_matching_def list_event_performers_batch_def
      list_event_genres_batch_def upsert_user_event_match_def delete_stale_matches_for_users_def
      delete_obsolete_matches_def update_user_interest_embedding_def one_row_def
      split: if_splits option.splits)

lemmas keeps_interests_calls =
  matcher_queries_keep_interests [THEN keeps_step_db] matcher_queries_keep_interests [THEN keeps_db_call]

lemma keeps_match_pair_interests: "keeps (\<lambda>w. interests (w_db w) = X) (match_pair cfg t u e)"
  unfolding match_pair_def Let_def by (intro keeps_rules keeps_interests_calls)

lemma keeps_embed_and_match: "keeps (\<lambda>w. interests (w_db w) = X) (embed_and_match T E u)"
  unfolding embed_and_match_def embed_users_def rescore_user_def load_config_def match_step_def load_users_def
    load_events_def Let_def
  by (intro keeps_rules keeps_interests_calls keeps_match_pair_interests
      keeps_embed [where J = "\<lambda>d. interests d = X"] keeps_other_calls(2) [where J = "\<lambda>d. interests d = X"])+

lemma interest_message_stored:
  assumes "keyed interest_key (interests (w_db w))" and "P (it_user_id m) = Some u"
    and "run_state (handle_one (handle_interest P T E) (Some m)) w = (True, w')"
  shows "if it_op m = ''only_embed'' then interests (w_db w') = interests (w_db w)
    else filter (not_from_spotify u) (interests (w_db w')) = filter (not_from_spotify u) (interests (w_db w)) \<and>
      stored_interest (w_db w') u ''spotify_top_artist'' = wanted_interest T rank_weight (it_artists m) \<and>
      stored_interest (w_db w') u ''spotify_top_track_artist'' = wanted_interest T rank_weight (it_track_artists m) \<and>
      stored_interest (w_db w') u ''spotify_saved_song_artist'' = wanted_interest T rank_weight (it_saved_artists m) \<and>
      stored_interest (w_db w') u ''spotify_top_genre'' = wanted_interest T rank_genre_weight (it_genres m)"
proof -
  let ?h = "handle_interest P T E (Some m) :: ('b, match_error + unit) act"
  obtain w1 where w1: "run_state ?h w = (Inr (), w1)" "w_db w' = w_db w1"
    using assms(3) by (auto simp: handle_one_def queue_delete_def split: prod.splits sum.splits)
  have emb: "yields J (embed_and_match T E u :: ('b, match_error + unit) act) (\<lambda>_. J)"
    if "\<And>d d'. J d \<Longrightarrow> interests d' = interests d \<Longrightarrow> J d'" for J
    unfolding yields_def using keepsD [OF keeps_embed_and_match] that by blast
  show ?thesis
  proof (cases "it_op m = ''only_embed''")
    case True
    have "yields (\<lambda>d. interests d = interests (w_db w)) ?h (\<lambda>_ d. interests d = interests (w_db w))"
      using True assms(2) emb [of "\<lambda>d. interests d = interests (w_db w)"]
      by (auto simp: handle_interest_def intro!: yields_then [where Q = "\<lambda>_ d. interests d = interests (w_db w)", OF yields_ret])
    from yieldsD [OF this _ w1(1)] show ?thesis using True w1(2) by simp
  next
    case False
    let ?X = "filter (not_from_spotify u) (interests (w_db w))"
    let ?Q = "interest_stage ?X u (set spotify_kinds)
        ((\<lambda>_ _. None)(''spotify_top_artist'' := wanted_interest T rank_weight (it_artists m),
           ''spotify_top_track_artist'' := wanted_interest T rank_weight (it_track_artists m),
           ''spotify_saved_song_artist'' := wanted_interest T rank_weight (it_saved_artists m),
           ''spotify_top_genre'' := wanted_interest T rank_genre_weight (it_genres m)))"
    have "yields (interest_stage ?X u {} (\<lambda>_ _. None)) ?h (\<lambda>_. ?Q)"
      using False assms(2) unfolding handle_interest_def
      by (auto intro!: yields_then [OF yields_replace_interests] emb simp: interest_stage_def stored_interest_def)
    moreover have "interest_stage ?X u {} (\<lambda>_ _. None) (w_db w)" using assms(1) by (simp add: interest_stage_def)
    ultimately have "?Q (w_db w')" using yieldsD [OF _ _ w1(1)] unfolding w1(2) by blast
    then show ?thesis using False by (simp add: interest_stage_def spotify_kinds_def fun_eq_iff)
  qed
qed

text \<open>
  C26. When an interest message leaves its queue, what \<open>user_interests\<close> holds of the user under
  the four Spotify kinds is what the message lists, each name with the weight of its last
  mention, and every other row (the user's own tags, everybody else's interests) is the row that
  was there, whatever calls failed on the way and whatever the recompute did. A message that
  only asks for the recompute changes no interest at all.
\<close>

theorem interests_replaced:
  assumes "keyed interest_key (interests (w_db w))" and "P (it_user_id m) = Some u"
    and "run_state (handle_one (handle_interest P T E) (Some m)) w = (True, w')"
  shows "if it_op m = ''only_embed'' then interests (w_db w') = interests (w_db w)
    else filter (not_from_spotify u) (interests (w_db w')) = filter (not_from_spotify u) (interests (w_db w)) \<and>
      stored_interest (w_db w') u ''spotify_top_artist'' = wanted_interest T rank_weight (it_artists m) \<and>
      stored_interest (w_db w') u ''spotify_top_track_artist'' = wanted_interest T rank_weight (it_track_artists m) \<and>
      stored_interest (w_db w') u ''spotify_saved_song_artist'' = wanted_interest T rank_weight (it_saved_artists m) \<and>
      stored_interest (w_db w') u ''spotify_top_genre'' = wanted_interest T rank_genre_weight (it_genres m)"
  using interest_message_stored [OF assms] .

text \<open>A user with a tag of their own whose list of artists is replaced.\<close>

definition tagged_db :: db where
  "tagged_db =
     empty_db\<lparr>users := [fan_row], interests :=
       [\<lparr>ui_id = 1, ui_user_id = 7, ui_kind = ''manual_tag'', ui_value = ''x'', ui_normalized = ''x'', ui_weight = 1,
         ui_created_at = 0, ui_updated_at = 0\<rparr>,
        \<lparr>ui_id = 2, ui_user_id = 7, ui_kind = ''spotify_top_artist'', ui_value = ''a'', ui_normalized = ''a'',
         ui_weight = 1, ui_created_at = 0, ui_updated_at = 0\<rparr>]\<rparr>"

definition replacing_msg :: interest_msg where
  "replacing_msg =
     \<lparr>it_user_id = ''7'', it_op = [], it_artists = [(''b'', 1)], it_track_artists = [], it_saved_artists = [], it_genres = []\<rparr>"

lemma replacing_run:
  "\<exists>w'. run_state (handle_one (handle_interest (\<lambda>_. Some 7) plain_env None) (Some replacing_msg)) (ingest_world 9 tagged_db) =
     (True, w')"
proof -
  have n: "normalize_string plain_env ''b'' = ''b''" by code_simp
  show ?thesis
    by (simp add: handle_one_def handle_interest_def replacing_msg_def replace_interests_def replace_kind_def then_step_def
        step_db_def step_new_def run_query_def fault_of_def now_of_def fresh_of_def ingest_world_def init_world_def
        delete_interests_of_kind_def insert_spotify_interest_def tagged_db_def empty_db_def n interest_kinds_def
        user_exists_def fan_row_def upsert_returning_def interest_key_def embed_and_match_def queue_delete_def tick_def)
qed

theorem interests_replaced_witness:
  "\<exists>w'. run_state (handle_one (handle_interest (\<lambda>_. Some 7) plain_env None) (Some replacing_msg)) (ingest_world 9 tagged_db) =
     (True, w') \<and> filter (not_from_spotify 7) (interests (w_db w')) = [hd (interests tagged_db)] \<and>
     stored_interest (w_db w') 7 ''spotify_top_artist'' ''b'' = Some (''b'', 1) \<and>
     stored_interest (w_db w') 7 ''spotify_top_artist'' ''a'' = None"
proof -
  obtain w' where run: "run_state (handle_one (handle_interest (\<lambda>_. Some 7) plain_env None) (Some replacing_msg))
      (ingest_world 9 tagged_db) = (True, w')" using replacing_run by blast
  have n: "normalize_string plain_env ''b'' = ''b''" by code_simp
  have k: "keyed interest_key (interests (w_db (ingest_world 9 tagged_db)))"
    by (simp add: keyed_def interest_key_def ingest_world_ok tagged_db_def)
  have w: "wanted_interest plain_env rank_weight (it_artists replacing_msg) = [''b'' \<mapsto> (''b'', 1)]"
    by (auto simp: wanted_interest_def replacing_msg_def n rank_weight_def fun_eq_iff)
  have o: "it_op replacing_msg \<noteq> ''only_embed''" by (simp add: replacing_msg_def)
  have f: "filter (not_from_spotify 7) (interests tagged_db) = [hd (interests tagged_db)]"
    by (simp add: tagged_db_def not_from_spotify_def spotify_kinds_def)
  from interests_replaced [OF k _ run, of 7] show ?thesis using run by (simp add: o w f ingest_world_ok)
qed

section \<open>A failed re-run of the enrichment\<close>

text \<open>
  When the enrichment of an artist is re-run and the photo's provider fails, the guarded
  upsert keeps the stored photo; but the handlers show a photo only while its status is
  \<open>ok\<close>, so the artist loses it until a later run succeeds. The guard protects the columns
  and not what users see.
\<close>

theorem error_rerun_hides_photo:
  assumes "find (\<lambda>i. ai_artist_id i = a) (images d) = Some r" and "ai_status r = ''ok''" and "ai_url r = Some url"
    and "upsert_artist_image a ''error'' u width height file src credit reason now d = Inr ((), d')"
  shows "\<exists>r'. find (\<lambda>i. ai_artist_id i = a) (images d') = Some r' \<and> ai_url r' = Some url \<and>
    image_json (Some r) \<noteq> None \<and> image_json (Some r') = None"
proof -
  have "has_row (\<lambda>r. ai_artist_id r = a) (images d)" using find_in_set [OF assms(1)] by (auto simp: has_row_iff)
  then show ?thesis using assms
    by (auto simp: upsert_artist_image_def upsert_section_def Let_def valid_status_def guarded_def image_json_def
        find_upsert_row)
qed

definition photo_db :: db where
  "photo_db =
     empty_db\<lparr>images := [\<lparr>ai_artist_id = 4, ai_status = ''ok'', ai_url = Some ''u'', ai_width = None, ai_height = None,
        ai_file = None, ai_source = None, ai_credit = None, ai_reason = None, ai_checked_at = 0\<rparr>]\<rparr>"

theorem error_rerun_hides_photo_witness:
  "\<exists>d' r'. upsert_artist_image 4 ''error'' None None None None None None (Some ''429'') 1 photo_db = Inr ((), d') \<and>
     find (\<lambda>i. ai_artist_id i = 4) (images d') = Some r' \<and> ai_url r' = Some ''u'' \<and> image_json (Some r') = None"
proof -
  obtain d' where q: "upsert_artist_image 4 ''error'' None None None None None None (Some ''429'') 1 photo_db = Inr ((), d')"
    by (simp add: upsert_artist_image_def upsert_section_def Let_def valid_status_def photo_db_def)
  have "find (\<lambda>i. ai_artist_id i = 4) (images photo_db) = Some (hd (images photo_db))"
    "ai_status (hd (images photo_db)) = ''ok''" "ai_url (hd (images photo_db)) = Some ''u''"
    by (simp_all add: photo_db_def)
  from error_rerun_hides_photo [OF this q] q show ?thesis by blast
qed

end
