(* ===== verification/Spotify.thy ===== *)
theory Spotify
  imports Ingest Credentials
begin

text \<open>
  The outward side of the Spotify connection: the token cipher (\<open>crypto/aesgcm.go\<close>), PKCE and
  the signed state cookie (\<open>spotify/pkce.go\<close>, \<open>spotify/oauth_state.go\<close>), the Web API client
  (\<open>spotify/client.go\<close>), the MusicBrainz client (\<open>musicbrainz/client.go\<close>) and the genre cache
  (\<open>scraper/spotify/genres.go\<close>, \<open>artist_genre_cache.sql.go\<close>).
\<close>

section \<open>What lies outside\<close>

text \<open>
  An HTTP reply is None when the exchange itself failed, else the status and what the body
  decodes to. HMAC-SHA256, the AEAD under the server's key, the JSON codec of the cookie
  payload and the two services are parameters; a service may answer differently at every step.
\<close>

type_synonym 'b http_reply = "(nat \<times> 'b option) option"

record token =
  tk_access :: string
  tk_refresh :: string
  tk_expires_in :: int
  tk_scope :: string

record payload =
  pl_state :: string
  pl_verifier :: string
  pl_expires :: int

text \<open>A page of saved tracks: the next URL, and per track its time and its artists.\<close>

type_synonym saved_page = "string \<times> (instant \<times> string list) list"

record spotify_env =
  so_sha256 :: "string \<Rightarrow> string"
  so_hmac :: "string \<Rightarrow> string \<Rightarrow> string"
  so_marshal :: "payload \<Rightarrow> string"
  so_unmarshal :: "string \<Rightarrow> payload option"
  so_seal :: "string \<Rightarrow> string \<Rightarrow> string"
  so_open :: "string \<Rightarrow> string \<Rightarrow> string option"
  so_client_id :: string
  so_redirect :: string
  so_base :: string
  so_token :: "nat \<Rightarrow> string \<Rightarrow> (string \<times> string) list \<Rightarrow> token http_reply"
  so_artists :: "nat \<Rightarrow> string \<Rightarrow> string \<Rightarrow> string list http_reply"
  so_tracks :: "nat \<Rightarrow> string \<Rightarrow> string \<Rightarrow> string list list http_reply"
  so_saved :: "nat \<Rightarrow> string \<Rightarrow> string \<Rightarrow> saved_page http_reply"

text \<open>One exchange: anything but a decodable 2xx is an error.\<close>

definition good_reply :: "'b http_reply \<Rightarrow> 'b option" where
  "good_reply r = (case r of None \<Rightarrow> None | Some (st, b) \<Rightarrow> if st div 100 \<noteq> 2 then None else b)"

definition exchange :: "(nat \<Rightarrow> 'b http_reply) \<Rightarrow> ('l, 'b option) act" where
  "exchange f = State (\<lambda>w. (good_reply (f (w_step w)), tick w))"

section \<open>The token cipher\<close>

definition nonce_size :: nat where "nonce_size = 12"

definition cipher_encrypt :: "spotify_env \<Rightarrow> string \<Rightarrow> ('l, string option) act" where
  "cipher_encrypt S plain = do {
     n \<leftarrow> read_random nonce_size;
     ret (map_option (\<lambda>nonce. nonce @ so_seal S nonce plain) n) }"

definition cipher_decrypt :: "spotify_env \<Rightarrow> string \<Rightarrow> string option" where
  "cipher_decrypt S blob =
     (if length blob < nonce_size then None
      else so_open S (take nonce_size blob) (drop nonce_size blob))"

section \<open>PKCE and the state cookie\<close>

definition verifier_bytes :: nat where "verifier_bytes = 48"

definition new_verifier :: "('l, string option) act" where
  "new_verifier = do { b \<leftarrow> read_random verifier_bytes; ret (map_option (b64_encode URLAlphabet) b) }"

definition challenge :: "spotify_env \<Rightarrow> string \<Rightarrow> string" where
  "challenge S v = b64_encode URLAlphabet (so_sha256 S v)"

definition unix_of :: "instant \<Rightarrow> int" where
  "unix_of t = t div second"

definition state_mac :: "spotify_env \<Rightarrow> string \<Rightarrow> string \<Rightarrow> string" where
  "state_mac S key body = b64_encode URLAlphabet (so_hmac S key body)"

definition seal_oauth_state ::
    "spotify_env \<Rightarrow> string \<Rightarrow> instant \<Rightarrow> string \<Rightarrow> string \<Rightarrow> instant \<Rightarrow> string" where
  "seal_oauth_state S key now st verifier ttl =
     (let body = b64_encode URLAlphabet (so_marshal S
            \<lparr>pl_state = st, pl_verifier = verifier, pl_expires = unix_of (now + ttl)\<rparr>)
      in body @ ''.'' @ state_mac S key body)"

definition open_oauth_state ::
    "spotify_env \<Rightarrow> string \<Rightarrow> instant \<Rightarrow> string \<Rightarrow> (string \<times> string) option" where
  "open_oauth_state S key now cookie =
     (case cut_byte cookie (CHR ''.'') of
        None \<Rightarrow> None
      | Some (body, sig) \<Rightarrow>
          if body = [] \<or> sig = [] then None
          else if sig \<noteq> state_mac S key body then None
          else case b64_decode URLAlphabet body of
            None \<Rightarrow> None
          | Some raw \<Rightarrow>
              (case so_unmarshal S raw of
                 None \<Rightarrow> None
               | Some p \<Rightarrow> if pl_expires p < unix_of now then None else Some (pl_state p, pl_verifier p)))"

section \<open>The Web API client\<close>

definition auth_base :: "spotify_env \<Rightarrow> string" where
  "auth_base S = (if so_base S \<noteq> [] then so_base S else ''https://accounts.spotify.com'')"

definition api_base :: "spotify_env \<Rightarrow> string" where
  "api_base S = (if so_base S \<noteq> [] then so_base S else ''https://api.spotify.com'')"

definition spotify_scopes :: string where
  "spotify_scopes = ''user-top-read user-read-recently-played user-library-read''"

text \<open>\<open>url.Values.Encode\<close> of distinct keys: sorted by key, both sides escaped.\<close>

definition encode_values :: "(string \<times> string) list \<Rightarrow> string" where
  "encode_values kvs =
     join_with (map (\<lambda>(k, v). query_escape k @ ''='' @ query_escape v)
       (sort_key (\<lambda>kv. map byte_of (fst kv)) kvs)) ''&''"

definition authorize_url :: "spotify_env \<Rightarrow> string \<Rightarrow> string \<Rightarrow> string" where
  "authorize_url S st code_challenge =
     auth_base S @ ''/authorize?'' @ encode_values
       [(''client_id'', so_client_id S), (''response_type'', ''code''), (''redirect_uri'', so_redirect S),
        (''scope'', spotify_scopes), (''state'', st), (''code_challenge'', code_challenge),
        (''code_challenge_method'', ''S256'')]"

definition token_request :: "spotify_env \<Rightarrow> (string \<times> string) list \<Rightarrow> ('l, token option) act" where
  "token_request S form = exchange (\<lambda>n. so_token S n (auth_base S @ ''/api/token'') form)"

definition exchange_code :: "spotify_env \<Rightarrow> string \<Rightarrow> string \<Rightarrow> ('l, token option) act" where
  "exchange_code S code verifier =
     token_request S [(''grant_type'', ''authorization_code''), (''code'', code), (''redirect_uri'', so_redirect S),
                      (''client_id'', so_client_id S), (''code_verifier'', verifier)]"

definition refresh_token :: "spotify_env \<Rightarrow> string \<Rightarrow> ('l, token option) act" where
  "refresh_token S rt =
     token_request S [(''grant_type'', ''refresh_token''), (''refresh_token'', rt), (''client_id'', so_client_id S)]"

definition top_limit :: "int \<Rightarrow> string" where
  "top_limit limit = itoa (nat (if limit \<le> 0 \<or> 50 < limit then 50 else limit))"

definition get_top_artists :: "spotify_env \<Rightarrow> string \<Rightarrow> int \<Rightarrow> ('l, string list option) act" where
  "get_top_artists S tok limit =
     exchange (\<lambda>n. so_artists S n (api_base S @ ''/v1/me/top/artists?time_range=long_term&limit='' @ top_limit limit) tok)"

definition get_top_tracks :: "spotify_env \<Rightarrow> string \<Rightarrow> int \<Rightarrow> ('l, string list option) act" where
  "get_top_tracks S tok limit = do {
     r \<leftarrow> exchange (\<lambda>n. so_tracks S n (api_base S @ ''/v1/me/top/tracks?time_range=long_term&limit='' @ top_limit limit) tok);
     ret (map_option concat r) }"

text \<open>The artists of a page, each with the time its track was saved.\<close>

definition page_artists :: "(instant \<times> string list) list \<Rightarrow> (string \<times> instant) list" where
  "page_artists items = concat (map (\<lambda>(t, names). map (\<lambda>n. (n, t)) names) items)"

text \<open>
  The loop of \<open>GetSavedTrackArtists\<close> follows \<open>next\<close> for as long as the service hands one out,
  so it may never end: None is that. \<open>G n url\<close> is the reply of step \<open>n\<close>.
\<close>

partial_function (option) saved_pages ::
    "(nat \<Rightarrow> string \<Rightarrow> saved_page option) \<Rightarrow> string \<Rightarrow> (string \<times> instant) list \<Rightarrow> nat \<Rightarrow>
     ((string \<times> instant) list option \<times> nat) option" where
  [code]: "saved_pages G url acc n =
     (if url = [] then Some (Some acc, n)
      else case G n url of
        None \<Rightarrow> Some (None, Suc n)
      | Some (nxt, items) \<Rightarrow> saved_pages G nxt (acc @ page_artists items) (Suc n))"

datatype 'a outcome = Hangs | Answers 'a

definition get_saved_track_artists ::
    "spotify_env \<Rightarrow> string \<Rightarrow> ('l, (string \<times> instant) list option outcome) act" where
  "get_saved_track_artists S tok =
     State (\<lambda>w. case saved_pages (\<lambda>n url. good_reply (so_saved S n url tok)) (api_base S @ ''/v1/me/tracks?limit=50'') []
                       (w_step w) of
        None \<Rightarrow> (Hangs, w)
      | Some (r, n) \<Rightarrow> (Answers r, w\<lparr>w_step := n\<rparr>))"

section \<open>MusicBrainz\<close>

type_synonym genre_count = "string \<times> int"

record mb_env =
  mb_search :: "nat \<Rightarrow> string \<Rightarrow> (string \<times> string) list http_reply"
  mb_genres :: "nat \<Rightarrow> string \<Rightarrow> genre_count list http_reply"

definition search_pool :: nat where "search_pool = 25"

definition search_path :: "string \<Rightarrow> string" where
  "search_path name =
     (let esc = replace_byte (replace_byte name (CHR 0x5C) [CHR 0x5C, CHR 0x5C]) (CHR 0x22) [CHR 0x5C, CHR 0x22]
      in ''/ws/2/artist?'' @ encode_values
           [(''query'', ''artist:'' @ [CHR 0x22] @ esc @ [CHR 0x22]), (''fmt'', ''json''), (''limit'', itoa search_pool)])"

text \<open>The id of the first hit with the very name, else of the first hit; empty when there is none.\<close>

definition best_match :: "text_env \<Rightarrow> string \<Rightarrow> (string \<times> string) list \<Rightarrow> string" where
  "best_match T name hits =
     (case hits of
        [] \<Rightarrow> []
      | h # _ \<Rightarrow>
          (case find (\<lambda>a. normalize_string T (snd a) = normalize_string T name) hits of
             Some a \<Rightarrow> fst a
           | None \<Rightarrow> fst h))"

definition search_artist :: "text_env \<Rightarrow> mb_env \<Rightarrow> string \<Rightarrow> ('l, string option) act" where
  "search_artist T M name = do {
     r \<leftarrow> exchange (\<lambda>n. mb_search M n (search_path name));
     ret (map_option (best_match T name) r) }"

definition path_escape :: "string \<Rightarrow> string" where
  "path_escape s =
     concat (map (\<lambda>c. if unreserved c \<or> byte_of c \<in> {36, 38, 43, 58, 61, 64} then [c]
                      else [CHR ''%'', hex_upper (byte_of c div 16), hex_upper (byte_of c mod 16)]) s)"

definition get_artist_genres :: "mb_env \<Rightarrow> string \<Rightarrow> ('l, genre_count list option) act" where
  "get_artist_genres M mbid =
     exchange (\<lambda>n. mb_genres M n (''/ws/2/artist/'' @ path_escape mbid @ ''?'' @
       encode_values [(''inc'', ''genres''), (''fmt'', ''json'')]))"

section \<open>The genre cache\<close>

definition get_artist_genre_cache :: "string \<Rightarrow> genre_cache_row query" where
  "get_artist_genre_cache key now d = one_row (\<lambda>r. gc_name_key r = key) (genre_cache d) d"

definition upsert_artist_genre_cache :: "string \<Rightarrow> string option \<Rightarrow> json \<Rightarrow> string \<Rightarrow> unit query" where
  "upsert_artist_genre_cache key mbid gs status now d =
     (if status \<notin> {''ok'', ''not_found''} then Inl CheckFailed
      else Inr ((), d\<lparr>genre_cache := upsert_row gc_name_key
        \<lparr>gc_name_key = key, gc_mbid = mbid, gc_genres = gs, gc_status = status, gc_resolved_at = now\<rparr>
        (\<lambda>r. r\<lparr>gc_mbid := mbid, gc_genres := gs, gc_status := status, gc_resolved_at := now\<rparr>) (genre_cache d)\<rparr>))"

definition genre_ok_ttl :: instant where "genre_ok_ttl = 90 * day"
definition genre_not_found_ttl :: instant where "genre_not_found_ttl = 14 * day"

definition cache_fresh :: "instant \<Rightarrow> genre_cache_row \<Rightarrow> bool" where
  "cache_fresh now r =
     (let age = now - gc_resolved_at r in
      if gc_status r = ''ok'' then age < genre_ok_ttl
      else if gc_status r = ''not_found'' then age < genre_not_found_ttl
      else False)"

definition genre_json :: "genre_count \<Rightarrow> json" where
  "genre_json g = JObj [(''name'', JStr (fst g)), (''count'', JNum (Fin (of_int (snd g))))]"

text \<open>Reading the blob back; a value of the wrong shape anywhere drops it all.\<close>

definition read_genre :: "json \<Rightarrow> genre_count option" where
  "read_genre j =
     (case j of
        JNull \<Rightarrow> Some ([], 0)
      | JObj fs \<Rightarrow>
          (case (json_get ''name'' j, json_get ''count'' j) of
             (JStr s, JNum (Fin x)) \<Rightarrow> if x = of_int \<lfloor>x\<rfloor> then Some (s, \<lfloor>x\<rfloor>) else None
           | (JNull, JNum (Fin x)) \<Rightarrow> if x = of_int \<lfloor>x\<rfloor> then Some ([], \<lfloor>x\<rfloor>) else None
           | (JStr s, JNull) \<Rightarrow> Some (s, 0)
           | (JNull, JNull) \<Rightarrow> Some ([], 0)
           | _ \<Rightarrow> None)
      | _ \<Rightarrow> None)"

definition decode_genres :: "json \<Rightarrow> genre_count list" where
  "decode_genres j =
     (case j of
        JArr js \<Rightarrow> if list_all (\<lambda>x. read_genre x \<noteq> None) js then List.map_filter read_genre js else []
      | _ \<Rightarrow> [])"

definition cache_genres :: "string \<Rightarrow> string option \<Rightarrow> genre_count list \<Rightarrow> string \<Rightarrow> ('l, unit) act" where
  "cache_genres key mbid gs status = do {
     _ \<leftarrow> db_call (upsert_artist_genre_cache key mbid (JArr (map genre_json gs)) status);
     ret () }"

definition resolve_and_cache :: "text_env \<Rightarrow> mb_env \<Rightarrow> string \<Rightarrow> string \<Rightarrow> ('l, genre_count list) act" where
  "resolve_and_cache T M key name = do {
     r \<leftarrow> search_artist T M name;
     case r of
       None \<Rightarrow> ret []
     | Some mbid \<Rightarrow>
         if mbid = [] then do { _ \<leftarrow> cache_genres key None [] ''not_found''; ret [] }
         else do {
           gs \<leftarrow> get_artist_genres M mbid;
           case gs of
             None \<Rightarrow> ret []
           | Some g \<Rightarrow> do { _ \<leftarrow> cache_genres key (Some mbid) g ''ok''; ret g } } }"

definition fetch_live :: "text_env \<Rightarrow> mb_env \<Rightarrow> string \<Rightarrow> ('l, genre_count list) act" where
  "fetch_live T M name = do {
     r \<leftarrow> search_artist T M name;
     case r of
       None \<Rightarrow> ret []
     | Some mbid \<Rightarrow>
         if mbid = [] then ret []
         else do { gs \<leftarrow> get_artist_genres M mbid; ret (case gs of None \<Rightarrow> [] | Some g \<Rightarrow> g) } }"

text \<open>\<open>Resolve\<close>. The resolver that only reads the cache has no client.\<close>

definition resolve_genres :: "text_env \<Rightarrow> mb_env option \<Rightarrow> string \<Rightarrow> ('l, genre_count list) act" where
  "resolve_genres T M name =
     (let key = normalize_string T name in
      if key = [] then ret []
      else do {
        row \<leftarrow> db_call (get_artist_genre_cache key);
        now \<leftarrow> time_now;
        case row of
          Inr r \<Rightarrow>
            if cache_fresh now r then ret (decode_genres (gc_genres r))
            else (case M of None \<Rightarrow> ret [] | Some mb \<Rightarrow> resolve_and_cache T mb key name)
        | Inl NoRows \<Rightarrow> (case M of None \<Rightarrow> ret [] | Some mb \<Rightarrow> resolve_and_cache T mb key name)
        | Inl _ \<Rightarrow> (case M of None \<Rightarrow> ret [] | Some mb \<Rightarrow> fetch_live T mb name) })"

end
