(* ===== verification/SpotifyHandlers.thy ===== *)
theory SpotifyHandlers
  imports Spotify UserLists
begin

text \<open>
  The user's side of interests and of the Spotify connection: the tags a user types in
  (\<open>handlers/manual_interests.go\<close>), the list of Spotify interests
  (\<open>handlers/spotify_interests.go\<close>), connecting and disconnecting (\<open>handlers/spotify.go\<close>),
  the scrape (\<open>scraper/spotify/adapter.go\<close>), and their queries (\<open>user_interests.sql.go\<close>,
  \<open>user_spotify_tokens.sql.go\<close>).
\<close>

section \<open>Interest queries\<close>

definition create_manual_interest_row :: "uuid \<Rightarrow> string \<Rightarrow> string \<Rightarrow> uuid \<Rightarrow> interest_row query" where
  "create_manual_interest_row u v normalized fresh now d =
     (if has_row (\<lambda>r. interest_key r = (u, ''manual_tag'', normalized) \<or> ui_id r = fresh) (interests d) then Inl Unique
      else if \<not> user_exists d u then Inl ForeignKey
      else let r = \<lparr>ui_id = fresh, ui_user_id = u, ui_kind = ''manual_tag'', ui_value = v, ui_normalized = normalized,
                    ui_weight = 1, ui_created_at = now, ui_updated_at = now\<rparr>
           in Inr (r, d\<lparr>interests := interests d @ [r]\<rparr>))"

definition delete_interest_by_id :: "uuid \<Rightarrow> uuid \<Rightarrow> unit query" where
  "delete_interest_by_id i u now d =
     Inr ((), d\<lparr>interests := delete_rows (\<lambda>r. ui_id r = i \<and> ui_user_id r = u) (interests d)\<rparr>)"

definition list_manual_interest_rows :: "uuid \<Rightarrow> interest_row list query" where
  "list_manual_interest_rows u now d =
     Inr (sort_key ui_created_at (filter (\<lambda>r. ui_user_id r = u \<and> ui_kind r = ''manual_tag'') (interests d)), d)"

text \<open>The database's collation of \<open>normalized_value\<close> is the key \<open>collate\<close>.\<close>

definition list_interests_by_kinds :: "(string \<Rightarrow> nat list) \<Rightarrow> uuid \<Rightarrow> string list \<Rightarrow> interest_row list query" where
  "list_interests_by_kinds collate u ks now d =
     Inr (sort_key (\<lambda>r. (- ui_weight r, collate (ui_normalized r)))
            (filter (\<lambda>r. ui_user_id r = u \<and> ui_kind r \<in> set ks) (interests d)), d)"

section \<open>Tags\<close>

definition interest_out :: "interest_row \<Rightarrow> json" where
  "interest_out r =
     JObj [(''id'', JStr (uuid_string (ui_id r))), (''value'', JStr (ui_value r)),
           (''normalized_value'', JStr (ui_normalized r)), (''weight'', JNum (Fin (ui_weight r))),
           (''created_at'', JStr (format_rfc3339 (ui_created_at r)))]"

definition list_manual_interests :: "uuid option \<Rightarrow> 'l handler" where
  "list_manual_interests uid =
     (case uid of
        None \<Rightarrow> ret no_user
      | Some u \<Rightarrow> do {
          r \<leftarrow> db_call (list_manual_interest_rows u);
          ret (case r of Inl _ \<Rightarrow> http_err 500 ''db_error'' ''could not list interests''
                       | Inr rs \<Rightarrow> write_json 200 (JObj [(''interests'', JArr (map interest_out rs))])) })"

text \<open>The message as it goes on the wire.\<close>

definition top_item_json :: "top_item \<Rightarrow> json" where
  "top_item_json i = JObj [(''name'', JStr (fst i)), (''rank'', JNum (Fin (of_int (snd i))))]"

definition omit_items :: "string \<Rightarrow> top_item list \<Rightarrow> (string \<times> json) list" where
  "omit_items k is = (if is = [] then [] else [(k, JArr (map top_item_json is))])"

definition interest_msg_json :: "interest_msg \<Rightarrow> instant \<Rightarrow> json" where
  "interest_msg_json m fetched =
     JObj ([(''user_id'', JStr (it_user_id m))] @ omit_str ''op'' (it_op m)
           @ omit_items ''spotify_top_artists'' (it_artists m)
           @ omit_items ''spotify_top_track_artists'' (it_track_artists m)
           @ omit_items ''spotify_saved_song_artists'' (it_saved_artists m)
           @ omit_items ''spotify_top_genres'' (it_genres m)
           @ [(''fetched_at'', JStr (format_rfc3339_nano fetched))])"

text \<open>\<open>publishEmbed\<close>; without a publisher, or with an empty queue URL, nothing is sent.\<close>

definition publish_embed :: "string option \<Rightarrow> uuid \<Rightarrow> ('l, unit) act" where
  "publish_embed queue u =
     (case queue of
        None \<Rightarrow> ret ()
      | Some url \<Rightarrow>
          if url = [] then ret ()
          else do {
            _ \<leftarrow> publish url (interest_msg_json
              \<lparr>it_user_id = uuid_string u, it_op = ''only_embed'', it_artists = [], it_track_artists = [],
               it_saved_artists = [], it_genres = []\<rparr> zero_time);
            ret () })"

definition create_manual_interest ::
    "text_env \<Rightarrow> string option \<Rightarrow> uuid option \<Rightarrow> string option \<Rightarrow> 'l handler" where
  "create_manual_interest T queue uid req =
     (case uid of
        None \<Rightarrow> ret no_user
      | Some u \<Rightarrow>
          (case req of
             None \<Rightarrow> ret bad_json
           | Some raw \<Rightarrow>
               (let v = trim_space raw in
                if v = [] then ret (http_err 400 ''empty_value'' ''value must not be empty'')
                else do {
                  r \<leftarrow> db_insert (create_manual_interest_row u v (to_lower T v));
                  case r of
                    Inl Unique \<Rightarrow> ret (http_err 409 ''duplicate_interest'' ''this interest already exists'')
                  | Inl _ \<Rightarrow> ret (http_err 500 ''db_error'' ''could not create interest'')
                  | Inr row \<Rightarrow> do {
                      _ \<leftarrow> publish_embed queue u;
                      ret (write_json 201 (interest_out row)) } })))"

definition delete_manual_interest ::
    "(string \<Rightarrow> uuid option) \<Rightarrow> string option \<Rightarrow> uuid option \<Rightarrow> string \<Rightarrow> 'l handler" where
  "delete_manual_interest P queue uid idstr =
     (case uid of
        None \<Rightarrow> ret no_user
      | Some u \<Rightarrow>
          (case P idstr of
             None \<Rightarrow> ret bad_id
           | Some i \<Rightarrow> do {
               r \<leftarrow> db_call (delete_interest_by_id i u);
               case r of
                 Inl _ \<Rightarrow> ret (http_err 500 ''db_error'' ''could not delete interest'')
               | Inr _ \<Rightarrow> do { _ \<leftarrow> publish_embed queue u; ret no_content } }))"

section \<open>The list of Spotify interests\<close>

definition spotify_kind_labels :: "(string \<times> string) list" where
  "spotify_kind_labels =
     [(''spotify_top_artist'', ''Top artists''),
      (''spotify_top_track_artist'', ''Artists from your top tracks''),
      (''spotify_saved_song_artist'', ''Artists from your saved songs''),
      (''spotify_top_genre'', ''Top genres'')]"

definition interest_group :: "interest_row list \<Rightarrow> string \<times> string \<Rightarrow> json option" where
  "interest_group rows k =
     (let items = filter (\<lambda>r. ui_kind r = fst k) rows in
      if items = [] then None
      else Some (JObj [(''kind'', JStr (fst k)), (''label'', JStr (snd k)),
                       (''interests'', JArr (map interest_out items))]))"

definition list_spotify_interests :: "(string \<Rightarrow> nat list) \<Rightarrow> uuid option \<Rightarrow> 'l handler" where
  "list_spotify_interests collate uid =
     (case uid of
        None \<Rightarrow> ret no_user
      | Some u \<Rightarrow> do {
          r \<leftarrow> db_call (list_interests_by_kinds collate u (map fst spotify_kind_labels));
          ret (case r of
                 Inl _ \<Rightarrow> http_err 500 ''db_error'' ''could not list spotify interests''
               | Inr rows \<Rightarrow> write_json 200
                   (JObj [(''groups'', JArr (List.map_filter (interest_group rows) spotify_kind_labels))])) })"

section \<open>Token queries\<close>

definition get_user_spotify_tokens :: "uuid \<Rightarrow> spotify_row query" where
  "get_user_spotify_tokens u now d = one_row (\<lambda>r. sp_user_id r = u) (spotify_tokens d) d"

definition list_user_spotify_tokens :: "spotify_row list query" where
  "list_user_spotify_tokens now d = Inr (sort_key sp_user_id (spotify_tokens d), d)"

definition upsert_user_spotify_tokens ::
    "uuid \<Rightarrow> string \<Rightarrow> string \<Rightarrow> instant \<Rightarrow> string \<Rightarrow> unit query" where
  "upsert_user_spotify_tokens u a r expires scope now d =
     (if \<not> has_row (\<lambda>x. sp_user_id x = u) (spotify_tokens d) \<and> \<not> user_exists d u then Inl ForeignKey
      else Inr ((), d\<lparr>spotify_tokens := upsert_row sp_user_id
        \<lparr>sp_user_id = u, sp_access_enc = a, sp_refresh_enc = r, sp_expires_at = expires, sp_scope = scope,
         sp_last_synced_at = None\<rparr>
        (\<lambda>x. x\<lparr>sp_access_enc := a, sp_refresh_enc := r, sp_expires_at := expires, sp_scope := scope\<rparr>)
        (spotify_tokens d)\<rparr>))"

definition touch_last_synced :: "uuid \<Rightarrow> unit query" where
  "touch_last_synced u now d =
     Inr ((), d\<lparr>spotify_tokens := update_rows (\<lambda>x. sp_user_id x = u) (\<lambda>x. x\<lparr>sp_last_synced_at := Some now\<rparr>)
                 (spotify_tokens d)\<rparr>)"

definition delete_user_spotify_tokens :: "uuid \<Rightarrow> unit query" where
  "delete_user_spotify_tokens u now d =
     Inr ((), d\<lparr>spotify_tokens := delete_rows (\<lambda>x. sp_user_id x = u) (spotify_tokens d)\<rparr>)"

definition delete_spotify_derived_interests :: "uuid \<Rightarrow> unit query" where
  "delete_spotify_derived_interests u now d =
     Inr ((), d\<lparr>interests := delete_rows
       (\<lambda>r. ui_user_id r = u \<and> ui_kind r \<in> {''spotify_top_artist'', ''spotify_top_track_artist'',
          ''spotify_saved_song_artist'', ''spotify_top_genre''}) (interests d)\<rparr>)"

section \<open>The scrape\<close>

text \<open>\<open>time.Duration(n) * time.Second\<close> in 64 bits.\<close>

definition seconds64 :: "int \<Rightarrow> instant" where
  "seconds64 n = sint (word_of_int (n * second) :: 64 word)"

definition store_tokens :: "uuid \<Rightarrow> token \<Rightarrow> string \<Rightarrow> string \<Rightarrow> ('l, db_error + unit) act" where
  "store_tokens u tok a r = do {
     now \<leftarrow> time_now;
     db_call (upsert_user_spotify_tokens u a r (now + seconds64 (tk_expires_in tok)) (tk_scope tok)) }"

text \<open>The refresh of an expired access token; the old refresh token stays when no new one came.\<close>

definition refresh_access :: "spotify_env \<Rightarrow> uuid \<Rightarrow> spotify_row \<Rightarrow> ('l, string option) act" where
  "refresh_access S u row =
     (case cipher_decrypt S (sp_refresh_enc row) of
        None \<Rightarrow> ret None
      | Some rt \<Rightarrow> do {
          t \<leftarrow> refresh_token S rt;
          case t of
            None \<Rightarrow> ret None
          | Some tok \<Rightarrow> do {
              a \<leftarrow> cipher_encrypt S (tk_access tok);
              case a of
                None \<Rightarrow> ret None
              | Some ae \<Rightarrow> do {
                  r \<leftarrow> (if tk_refresh tok \<noteq> [] then cipher_encrypt S (tk_refresh tok) else ret (Some (sp_refresh_enc row)));
                  case r of
                    None \<Rightarrow> ret None
                  | Some re \<Rightarrow> do {
                      stored \<leftarrow> store_tokens u tok ae re;
                      ret (case stored of Inl _ \<Rightarrow> None | Inr _ \<Rightarrow> Some (tk_access tok)) } } } })"

text \<open>The weights genres collect from the artists, in the order the genres first come up.\<close>

definition add_score :: "(string \<times> real) list \<Rightarrow> string \<Rightarrow> real \<Rightarrow> (string \<times> real) list" where
  "add_score tally g x =
     (case map_of tally g of
        None \<Rightarrow> tally @ [(g, x)]
      | Some y \<Rightarrow> map (\<lambda>p. if fst p = g then (g, y + x) else p) tally)"

definition add_genres :: "int \<Rightarrow> genre_count list \<Rightarrow> (string \<times> real) list \<Rightarrow> (string \<times> real) list" where
  "add_genres rank gs tally =
     fold (\<lambda>g t. add_score t (fst g) (rank_weight rank * of_int (snd g))) gs tally"

fun tally_genres ::
    "text_env \<Rightarrow> mb_env option \<Rightarrow> int \<Rightarrow> string list \<Rightarrow> (string \<times> real) list \<Rightarrow> ('l, (string \<times> real) list) act" where
  "tally_genres T M rank [] tally = ret tally"
| "tally_genres T M rank (a # names) tally = do {
     gs \<leftarrow> resolve_genres T M a;
     tally_genres T M (rank + 1) names (add_genres rank gs tally) }"

text \<open>Items with the ranks 1, 2, and so on.\<close>

definition ranked :: "string list \<Rightarrow> top_item list" where
  "ranked names = zip names (map int [1..<Suc (length names)])"

definition distinct_names :: "text_env \<Rightarrow> string list \<Rightarrow> string list" where
  "distinct_names T names = dedup_by (normalize_string T) [] (filter (\<lambda>n. normalize_string T n \<noteq> []) names)"

definition saved_cap :: nat where "saved_cap = 200"

definition saved_items :: "text_env \<Rightarrow> (string \<times> instant) list \<Rightarrow> top_item list" where
  "saved_items T saved = ranked (take saved_cap (distinct_names T (map fst (sort_key (\<lambda>a. - snd a) saved))))"

definition genre_items :: "(string \<times> real) list \<Rightarrow> top_item list" where
  "genre_items tally = ranked (map fst (sort_key (\<lambda>g. (- snd g, map byte_of (fst g))) tally))"

text \<open>
  The adapter writes the user's id itself: sixteen bytes into a buffer of 36 places, at a position
  that moves on past each dash. It writes what \<open>uuidString\<close> of the handlers does.
\<close>

definition write_byte :: "nat list \<Rightarrow> nat \<Rightarrow> string \<times> nat \<Rightarrow> string \<times> nat" where
  "write_byte bytes i buf =
     (case buf of (out, j) \<Rightarrow>
        let out = out[j := digit_char (bytes ! i div 16), j + 1 := digit_char (bytes ! i mod 16)]; j = j + 2
        in if i \<in> {3, 5, 7, 9} then (out[j := CHR ''-''], j + 1) else (out, j))"

definition user_id_string :: "uuid \<Rightarrow> string" where
  "user_id_string u = fst (fold (write_byte (uuid_bytes u)) [0..<16] (replicate 36 (CHR 0x00), 0))"

lemma write_bytes:
  assumes "length (concat (map piece is)) \<le> length rest"
    and piece: "\<And>i. piece i = (let b = bytes ! i in
      [digit_char (b div 16), digit_char (b mod 16)] @ (if i \<in> {3, 5, 7, 9} then ''-'' else []))"
  shows "fst (fold (write_byte bytes) is (pre @ rest, length pre)) =
    pre @ concat (map piece is) @ drop (length (concat (map piece is))) rest"
  using assms(1)
proof (induction "is" arbitrary: pre rest)
  case (Cons i "is")
  have step: "write_byte bytes i (pre @ rest, length pre) =
      ((pre @ piece i) @ drop (length (piece i)) rest, length (pre @ piece i))"
    if "length (piece i) \<le> length rest"
    using that unfolding piece write_byte_def
    by (cases rest; cases "tl rest"; cases "tl (tl rest)") (auto simp: Let_def list_update_append nth_append)
  have fits: "length (piece i) \<le> length rest"
    "length (concat (map piece is)) \<le> length (drop (length (piece i)) rest)"
    using Cons.prems by simp_all
  show ?case using Cons.IH [OF fits(2), of "pre @ piece i"] by (simp add: step [OF fits(1)] add.commute)
qed simp

lemma user_id_string_uuid [simp]: "user_id_string u = uuid_string u"
proof -
  define piece where "piece i = (let b = uuid_bytes u ! i in
      [digit_char (b div 16), digit_char (b mod 16)] @ (if i \<in> {3, 5, 7, 9} then ''-'' else []))" for i
  have s: "uuid_string u = concat (map piece [0..<16])" by (simp add: uuid_string_def piece_def [abs_def])
  then have "length (concat (map piece [0..<16])) = 36" using uuid_string_shape [of u] by simp
  then show ?thesis
    using write_bytes [of piece "[0..<16]" "replicate 36 (CHR 0x00)" "uuid_bytes u" "[]"] s
    by (simp add: user_id_string_def piece_def)
qed

definition scrape_msg ::
    "text_env \<Rightarrow> uuid \<Rightarrow> string list \<Rightarrow> string list \<Rightarrow> (string \<times> instant) list \<Rightarrow> (string \<times> real) list \<Rightarrow> interest_msg" where
  "scrape_msg T u arts tracks saved tally =
     \<lparr>it_user_id = user_id_string u, it_op = ''replace_interests_and_embed'', it_artists = ranked arts,
      it_track_artists = ranked (distinct_names T tracks), it_saved_artists = saved_items T saved,
      it_genres = genre_items tally\<rparr>"

text \<open>
  \<open>ScrapeOne\<close>: whether it returned nil, or that it never returned. Its end, from the saved
  tracks on, and its middle, with an access token in hand.
\<close>

definition scrape_report ::
    "spotify_env \<Rightarrow> text_env \<Rightarrow> mb_env option \<Rightarrow> string \<Rightarrow> uuid \<Rightarrow> string \<Rightarrow> string list \<Rightarrow> string list \<Rightarrow>
     ('l, bool outcome) act" where
  "scrape_report S T M queue u tok names tracks = do {
     saved \<leftarrow> get_saved_track_artists S tok;
     case saved of
       Hangs \<Rightarrow> ret Hangs
     | Answers sv \<Rightarrow> do {
         fetched \<leftarrow> time_now;
         tally \<leftarrow> tally_genres T M 1 names [];
         sent \<leftarrow> publish queue (interest_msg_json (scrape_msg T u names tracks
                   (case sv of None \<Rightarrow> [] | Some s \<Rightarrow> s) tally) fetched);
         if \<not> sent then ret (Answers False)
         else do {
           touched \<leftarrow> db_call (touch_last_synced u);
           ret (Answers (case touched of Inl _ \<Rightarrow> False | Inr _ \<Rightarrow> True)) } } }"

definition scrape_with ::
    "spotify_env \<Rightarrow> text_env \<Rightarrow> mb_env option \<Rightarrow> string \<Rightarrow> uuid \<Rightarrow> string \<Rightarrow> ('l, bool outcome) act" where
  "scrape_with S T M queue u tok = do {
     arts \<leftarrow> get_top_artists S tok 50;
     case arts of
       None \<Rightarrow> ret (Answers False)
     | Some names \<Rightarrow> do {
         tracks \<leftarrow> get_top_tracks S tok 50;
         case tracks of
           None \<Rightarrow> ret (Answers False)
         | Some track_names \<Rightarrow> scrape_report S T M queue u tok names track_names } }"

definition scrape_one ::
    "spotify_env \<Rightarrow> text_env \<Rightarrow> mb_env option \<Rightarrow> string \<Rightarrow> uuid \<Rightarrow> ('l, bool outcome) act" where
  "scrape_one S T M queue u = do {
     row \<leftarrow> db_call (get_user_spotify_tokens u);
     case row of
       Inl _ \<Rightarrow> ret (Answers False)
     | Inr r \<Rightarrow>
         (case cipher_decrypt S (sp_access_enc r) of
            None \<Rightarrow> ret (Answers False)
          | Some stored \<Rightarrow> do {
              now \<leftarrow> time_now;
              access \<leftarrow> (if sp_expires_at r < now + 30 * second then refresh_access S u r else ret (Some stored));
              case access of
                None \<Rightarrow> ret (Answers False)
              | Some tok \<Rightarrow> scrape_with S T M queue u tok }) }"

text \<open>\<open>ScrapeAll\<close>: the users whose scrape failed, or None when the list of users did.\<close>

fun scrape_users ::
    "spotify_env \<Rightarrow> text_env \<Rightarrow> mb_env option \<Rightarrow> string \<Rightarrow> uuid list \<Rightarrow> ('l, uuid list outcome) act" where
  "scrape_users S T M queue [] = ret (Answers [])"
| "scrape_users S T M queue (u # us) = do {
     r \<leftarrow> scrape_one S T M queue u;
     case r of
       Hangs \<Rightarrow> ret Hangs
     | Answers ok \<Rightarrow> do {
         more \<leftarrow> scrape_users S T M queue us;
         ret (case more of Hangs \<Rightarrow> Hangs | Answers es \<Rightarrow> Answers (if ok then es else u # es)) } }"

definition scrape_all ::
    "spotify_env \<Rightarrow> text_env \<Rightarrow> mb_env option \<Rightarrow> string \<Rightarrow> ('l, uuid list option outcome) act" where
  "scrape_all S T M queue = do {
     rows \<leftarrow> db_call list_user_spotify_tokens;
     case rows of
       Inl _ \<Rightarrow> ret (Answers None)
     | Inr rs \<Rightarrow> do {
         r \<leftarrow> scrape_users S T M queue (map sp_user_id rs);
         ret (case r of Hangs \<Rightarrow> Hangs | Answers es \<Rightarrow> Answers (Some es)) } }"

section \<open>Connecting\<close>

datatype oauth_cookie = KeepOAuth | SetOAuth string | ClearOAuth

definition oauth_cookie_ttl :: instant where "oauth_cookie_ttl = 10 * minute"

definition spotify_connect :: "spotify_env \<Rightarrow> string \<Rightarrow> ('l, response \<times> oauth_cookie) act" where
  "spotify_connect S key = do {
     v \<leftarrow> new_verifier;
     case v of
       None \<Rightarrow> ret (http_err 500 ''pkce_failed'' ''could not generate PKCE verifier'', KeepOAuth)
     | Some verifier \<Rightarrow> do {
         s \<leftarrow> new_verifier;
         case s of
           None \<Rightarrow> ret (http_err 500 ''state_failed'' ''could not generate state'', KeepOAuth)
         | Some st \<Rightarrow> do {
             now \<leftarrow> time_now;
             ret (write_json 200 (JObj [(''authorize_url'', JStr (authorize_url S st (challenge S verifier)))]),
                  SetOAuth (seal_oauth_state S key now st verifier oauth_cookie_ttl)) } } }"

text \<open>The answer is None when the scrape at its end never returned.\<close>

definition spotify_exchange ::
    "spotify_env \<Rightarrow> text_env \<Rightarrow> string \<Rightarrow> string \<Rightarrow> uuid option \<Rightarrow> (string \<times> string) option \<Rightarrow> string option \<Rightarrow>
     ('l, response option \<times> oauth_cookie) act" where
  "spotify_exchange S T key queue uid body cookie =
     (let stop = \<lambda>r. ret (Some r, KeepOAuth) in
      case uid of
        None \<Rightarrow> stop no_user
      | Some u \<Rightarrow>
      (case body of
        None \<Rightarrow> stop (http_err 400 ''bad_body'' ''could not parse request body'')
      | Some (code, st) \<Rightarrow>
      (case cookie of
        None \<Rightarrow> stop (http_err 400 ''no_state'' ''missing oauth state cookie'')
      | Some c \<Rightarrow>
        if c = [] then stop (http_err 400 ''no_state'' ''missing oauth state cookie'')
        else do {
          now \<leftarrow> time_now;
          case open_oauth_state S key now c of
            None \<Rightarrow> stop (http_err 400 ''bad_state'' ''oauth state is not valid'')
          | Some (expected, verifier) \<Rightarrow>
              if st \<noteq> expected then stop (http_err 400 ''state_mismatch'' ''oauth state does not match'')
              else if code = [] then stop (http_err 400 ''no_code'' ''missing oauth code'')
              else do {
                t \<leftarrow> exchange_code S code verifier;
                case t of
                  None \<Rightarrow> stop (http_err 502 ''exchange_failed'' ''could not exchange code'')
                | Some tok \<Rightarrow> do {
                    a \<leftarrow> cipher_encrypt S (tk_access tok);
                    case a of
                      None \<Rightarrow> stop (http_err 500 ''encrypt_failed'' ''could not encrypt access token'')
                    | Some ae \<Rightarrow> do {
                        r \<leftarrow> cipher_encrypt S (tk_refresh tok);
                        case r of
                          None \<Rightarrow> stop (http_err 500 ''encrypt_failed'' ''could not encrypt refresh token'')
                        | Some re \<Rightarrow> do {
                            stored \<leftarrow> store_tokens u tok ae re;
                            case stored of
                              Inl _ \<Rightarrow> stop (http_err 500 ''db_error'' ''could not persist tokens'')
                            | Inr _ \<Rightarrow> do {
                                scraped \<leftarrow> scrape_one S T None queue u;
                                ret (case scraped of
                                       Hangs \<Rightarrow> None
                                     | Answers _ \<Rightarrow> Some (write_json 200 (JObj [(''status'', JStr ''connected'')])),
                                     ClearOAuth) } } } } } })))"

definition spotify_disconnect :: "uuid option \<Rightarrow> 'l handler" where
  "spotify_disconnect uid =
     (case uid of
        None \<Rightarrow> ret no_user
      | Some u \<Rightarrow> do {
          r \<leftarrow> db_call (delete_spotify_derived_interests u);
          case r of
            Inl _ \<Rightarrow> ret (http_err 500 ''db_error'' ''could not delete interests'')
          | Inr _ \<Rightarrow> do {
              t \<leftarrow> db_call (delete_user_spotify_tokens u);
              ret (case t of Inl _ \<Rightarrow> http_err 500 ''db_error'' ''could not delete tokens''
                           | Inr _ \<Rightarrow> no_content) } })"

definition spotify_status :: "uuid option \<Rightarrow> 'l handler" where
  "spotify_status uid =
     (case uid of
        None \<Rightarrow> ret no_user
      | Some u \<Rightarrow> do {
          r \<leftarrow> db_call (get_user_spotify_tokens u);
          ret (case r of
                 Inl NoRows \<Rightarrow> write_json 200 (JObj [(''connected'', JBool False)])
               | Inl _ \<Rightarrow> http_err 500 ''db_error'' ''could not load tokens''
               | Inr _ \<Rightarrow> write_json 200 (JObj [(''connected'', JBool True)])) })"

end
