(* ===== verification/SpotifyProps.thy ===== *)
theory SpotifyProps
  imports SpotifyHandlers CalendarProps MatcherProps
begin

text \<open>
  What the Spotify side guarantees: when the walk over the saved tracks ends and what it
  returns, that an exchange needs the cookie of the very browser that started the
  connection, and that every stored token can be decrypted again.
\<close>

section \<open>The walk over the saved tracks\<close>

text \<open>
  The URL to fetch after \<open>k\<close> good replies, with the artists read so far. None when a reply
  failed or the URL ran out before.
\<close>

fun page_at ::
    "(nat \<Rightarrow> string \<Rightarrow> saved_page option) \<Rightarrow> string \<Rightarrow> (string \<times> instant) list \<Rightarrow> nat \<Rightarrow> nat \<Rightarrow>
     (string \<times> (string \<times> instant) list) option" where
  "page_at G url acc n 0 = Some (url, acc)"
| "page_at G url acc n (Suc k) =
     (if url = [] then None
      else case G n url of
        None \<Rightarrow> None
      | Some (nxt, items) \<Rightarrow> page_at G nxt (acc @ page_artists items) (Suc n) k)"

text \<open>The walk stops after \<open>k\<close> good replies: there is no next page, or fetching it fails.\<close>

definition stops_at ::
    "(nat \<Rightarrow> string \<Rightarrow> saved_page option) \<Rightarrow> string \<Rightarrow> (string \<times> instant) list \<Rightarrow> nat \<Rightarrow> nat \<Rightarrow>
     (string \<times> instant) list option \<Rightarrow> nat \<Rightarrow> bool" where
  "stops_at G url acc n k r n' =
     (case page_at G url acc n k of
        None \<Rightarrow> False
      | Some (u, xs) \<Rightarrow>
          if u = [] then r = Some xs \<and> n' = n + k
          else G (n + k) u = None \<and> r = None \<and> n' = Suc (n + k))"

lemma stops_at_Suc:
  "url \<noteq> [] \<Longrightarrow> G n url = Some (nxt, items) \<Longrightarrow>
     stops_at G url acc n (Suc k) r n' = stops_at G nxt (acc @ page_artists items) (Suc n) k r n'"
  by (auto simp: stops_at_def split: option.splits)

lemma stops_returns: "stops_at G url acc n k r n' \<Longrightarrow> saved_pages G url acc n = Some (r, n')"
proof (induction k arbitrary: url acc n)
  case 0
  then show ?case by (subst saved_pages.simps) (auto simp: stops_at_def split: if_splits)
next
  case (Suc k)
  then have url: "url \<noteq> []" by (auto simp: stops_at_def)
  with Suc.prems obtain nxt items where p: "G n url = Some (nxt, items)"
    by (auto simp: stops_at_def split: option.splits)
  then have "stops_at G nxt (acc @ page_artists items) (Suc n) k r n'"
    using Suc.prems stops_at_Suc [of url G n nxt items, OF url p] by blast
  from Suc.IH [OF this] show ?case using url p by (subst saved_pages.simps) simp
qed

lemma returns_stops:
  assumes "saved_pages G url acc n = Some (r, n')"
  shows "\<exists>k. stops_at G url acc n k r n'"
proof -
  let ?P = "\<lambda>G url acc n y. \<exists>k. stops_at G url acc n k (fst y) (snd y)"
  have "?P G url acc n (r, n')"
  proof (rule saved_pages.raw_induct [where P = ?P, OF _ assms])
    fix f G url acc n y
    assume IH: "\<And>G url acc n y. f G url acc n = Some y \<Longrightarrow> ?P G url acc n y"
      and eq: "(if url = [] then Some (Some acc, n)
        else case G n url of None \<Rightarrow> Some (None, Suc n)
             | Some (nxt, items) \<Rightarrow> f G nxt (acc @ page_artists items) (Suc n)) = Some y"
    show "?P G url acc n y"
    proof (cases "url = [] \<or> G n url = None")
      case True
      then have "stops_at G url acc n 0 (fst y) (snd y)" using eq by (auto simp: stops_at_def)
      then show ?thesis by (rule exI)
    next
      case False
      then obtain nxt items where p: "G n url = Some (nxt, items)" by auto
      then have "f G nxt (acc @ page_artists items) (Suc n) = Some y" using eq False by simp
      then obtain k where "stops_at G nxt (acc @ page_artists items) (Suc n) k (fst y) (snd y)"
        using IH by blast
      then have "stops_at G url acc n (Suc k) (fst y) (snd y)"
        using stops_at_Suc [of url G n nxt items acc] False p by blast
      then show ?thesis by (rule exI)
    qed
  qed
  then show ?thesis by simp
qed

lemma stops_unique:
  assumes "stops_at G url acc n k r n'" and "stops_at G url acc n j s m"
  shows "r = s \<and> n' = m"
  using stops_returns [OF assms(1)] stops_returns [OF assms(2)] by simp

text \<open>What the library call sees of the service, and where it starts.\<close>

definition saved_service :: "spotify_env \<Rightarrow> string \<Rightarrow> nat \<Rightarrow> string \<Rightarrow> saved_page option" where
  "saved_service S tok n url = good_reply (so_saved S n url tok)"

definition saved_start :: "spotify_env \<Rightarrow> string" where
  "saved_start S = api_base S @ ''/v1/me/tracks?limit=50''"

lemma get_saved_track_artists_alt:
  "run_state (get_saved_track_artists S tok) w =
     (case saved_pages (saved_service S tok) (saved_start S) [] (w_step w) of
        None \<Rightarrow> (Hangs, w) | Some (r, n) \<Rightarrow> (Answers r, w\<lparr>w_step := n\<rparr>))"
  by (simp add: get_saved_track_artists_def saved_service_def [abs_def] saved_start_def)


section \<open>The state cookie\<close>

text \<open>
  What is relied on of the libraries: the payload's JSON reads back and is not empty, and a MAC
  is not the empty string.
\<close>

definition cookie_laws :: "spotify_env \<Rightarrow> bool" where
  "cookie_laws S =
     ((\<forall>p. so_unmarshal S (so_marshal S p) = Some p \<and> so_marshal S p \<noteq> []) \<and> (\<forall>k b. so_hmac S k b \<noteq> []))"

lemma b64_empty: "b64_encode al s = [] \<longleftrightarrow> s = []"
proof
  assume "b64_encode al s = []"
  then have "b64_decode al [] = Some s" using b64_decode_encode [of al s] by simp
  moreover have "b64_decode al [] = Some []" using b64_decode_encode [of al "[]"] by (simp add: b64_encode_def)
  ultimately show "s = []" by simp
qed (simp add: b64_encode_def)

lemma b64_url_no_dot: "CHR ''.'' \<notin> set (b64_encode URLAlphabet s)"
proof -
  have dot: "b64_val URLAlphabet (CHR ''.'') = None" by (simp add: b64_val_def Let_def)
  have "d < 64 \<Longrightarrow> b64_char URLAlphabet d \<noteq> CHR ''.''" for d
    using b64_char_range [of d URLAlphabet] dot by auto
  moreover have "list_all (\<lambda>d. d < 64) (sextets (map byte_of s))"
    by (rule sextets_less) (simp add: list_all_iff)
  ultimately show ?thesis by (fastforce simp: b64_encode_def list_all_iff)
qed

lemma oauth_state_sealed:
  assumes "cookie_laws S"
  shows "open_oauth_state S key now (seal_oauth_state S key t st verifier ttl) =
      (if unix_of (t + ttl) < unix_of now then None else Some (st, verifier))"
proof -
  let ?p = "\<lparr>pl_state = st, pl_verifier = verifier, pl_expires = unix_of (t + ttl)\<rparr>"
  let ?body = "b64_encode URLAlphabet (so_marshal S ?p)"
  have cut: "cut_byte (?body @ ''.'' @ state_mac S key ?body) (CHR ''.'') = Some (?body, state_mac S key ?body)"
    using cut_byte_append [OF b64_url_no_dot] by simp
  have "?body \<noteq> []" and "state_mac S key ?body \<noteq> []"
    using assms by (simp_all add: b64_empty state_mac_def cookie_laws_def)
  then show ?thesis
    using assms cut by (simp add: open_oauth_state_def seal_oauth_state_def Let_def cookie_laws_def)
qed

text \<open>A cookie that opens: the MAC of the server's key over a body whose payload is live.\<close>

definition genuine :: "spotify_env \<Rightarrow> string \<Rightarrow> instant \<Rightarrow> string \<Rightarrow> payload \<Rightarrow> bool" where
  "genuine S key now cookie p =
     (\<exists>body raw. cookie = body @ ''.'' @ state_mac S key body \<and> b64_decode URLAlphabet body = Some raw \<and>
        so_unmarshal S raw = Some p \<and> unix_of now \<le> pl_expires p)"

lemma open_oauth_state_genuine:
  assumes "open_oauth_state S key now cookie = Some (st, v)"
  shows "\<exists>p. genuine S key now cookie p \<and> pl_state p = st \<and> pl_verifier p = v"
proof -
  obtain body sig raw p where "cut_byte cookie (CHR ''.'') = Some (body, sig)" "sig = state_mac S key body"
    "b64_decode URLAlphabet body = Some raw" "so_unmarshal S raw = Some p" "unix_of now \<le> pl_expires p"
    "pl_state p = st" "pl_verifier p = v"
    using assms unfolding open_oauth_state_def by (auto split: option.splits if_splits)
  then show ?thesis
    unfolding genuine_def using cut_byte_Some by (intro exI [of _ p] conjI exI [of _ body] exI [of _ raw]) auto
qed

text \<open>
  C32. A connection that starts answers the URL with a state and the challenge of a verifier,
  and a cookie that opens to exactly these two until it expires, and to nothing after.
\<close>

theorem connect_cookie_opens:
  assumes "cookie_laws S" and "run_state (spotify_connect S key) w = ((resp, SetOAuth cookie), w')"
  shows "\<exists>st verifier.
    resp = write_json 200 (JObj [(''authorize_url'', JStr (authorize_url S st (challenge S verifier)))]) \<and>
    (\<forall>now. open_oauth_state S key now cookie =
       (if unix_of (now_of w' + oauth_cookie_ttl) < unix_of now then None else Some (st, verifier)))"
proof -
  obtain st verifier where
    "resp = write_json 200 (JObj [(''authorize_url'', JStr (authorize_url S st (challenge S verifier)))])"
    "cookie = seal_oauth_state S key (now_of w') st verifier oauth_cookie_ttl"
    using assms(2) unfolding spotify_connect_def by (auto split: prod.splits option.splits)
  then show ?thesis using oauth_state_sealed [OF assms(1)] by auto
qed

text \<open>
  C33. An exchange that has any effect at all (a token request, a stored token, a scrape) is
  made by a signed-in user whose request carries a state cookie with the server's MAC over a
  live payload, and the state of the request is the one of that payload.
\<close>

theorem exchange_needs_cookie:
  assumes "run_state (spotify_exchange S T key queue uid body cookie) w = ((resp, ck), w')" and "w' \<noteq> w"
  shows "\<exists>u code st c p. uid = Some u \<and> body = Some (code, st) \<and> code \<noteq> [] \<and> cookie = Some c \<and>
    genuine S key (now_of w) c p \<and> pl_state p = st"
proof -
  have stop: "w' = w" if "run_state (ret x) w = ((resp, ck), w')" for x
    using that by simp
  obtain u where u: "uid = Some u"
    using assms by (cases uid) (auto simp: spotify_exchange_def Let_def)
  obtain code st where b: "body = Some (code, st)"
    using assms u by (cases body) (auto simp: spotify_exchange_def Let_def)
  obtain c where c: "cookie = Some c" "c \<noteq> []"
    using assms u b by (cases cookie) (auto simp: spotify_exchange_def Let_def split: if_splits)
  obtain expected v where o: "open_oauth_state S key (now_of w) c = Some (expected, v)"
    using assms u b c by (cases "open_oauth_state S key (now_of w) c") (auto simp: spotify_exchange_def Let_def)
  have "st = expected" and "code \<noteq> []"
    using assms u b c o by (auto simp: spotify_exchange_def Let_def split: if_splits)
  then show ?thesis using u b c(1) open_oauth_state_genuine [OF o] by auto
qed

section \<open>Stored tokens stay readable\<close>

definition aead_ok :: "spotify_env \<Rightarrow> bool" where
  "aead_ok S = (\<forall>nonce p. length nonce = nonce_size \<longrightarrow> so_open S nonce (so_seal S nonce p) = Some p)"

definition readable :: "spotify_env \<Rightarrow> string \<Rightarrow> bool" where
  "readable S blob = (cipher_decrypt S blob \<noteq> None)"

definition tokens_ok :: "spotify_env \<Rightarrow> db \<Rightarrow> bool" where
  "tokens_ok S d = (\<forall>r \<in> set (spotify_tokens d). readable S (sp_access_enc r) \<and> readable S (sp_refresh_enc r))"

abbreviation tokens_inv :: "spotify_env \<Rightarrow> 'l world \<Rightarrow> bool" where
  "tokens_inv S \<equiv> (\<lambda>w. tokens_ok S (w_db w))"

text \<open>A step whose answer has a property that does not depend on the world it is made in.\<close>

lemma keeps_bind_value:
  assumes "keeps I m" and "\<And>w. I w \<Longrightarrow> V (fst (run_state m w))" and "\<And>x. V x \<Longrightarrow> keeps I (f x)"
  shows "keeps I (State_Monad.bind m f)"
proof (rule keepsI)
  fix w assume I: "I w"
  obtain a w1 where m: "run_state m w = (a, w1)" by fastforce
  have "I w1" using keepsD [OF assms(1) I] m by simp
  moreover have "V a" using assms(2) [OF I] m by simp
  ultimately show "I (snd (run_state (State_Monad.bind m f) w))" using m keepsD [OF assms(3)] by simp
qed

text \<open>What comes out of the cipher goes back through it.\<close>

lemma cipher_encrypt_readable:
  assumes "aead_ok S"
  shows "\<forall>e. fst (run_state (cipher_encrypt S x) w) = Some e \<longrightarrow> readable S e"
proof (intro allI impI)
  fix e assume e: "fst (run_state (cipher_encrypt S x) w) = Some e"
  obtain r w1 where r: "run_state (read_random nonce_size) w = (r, w1)" by fastforce
  with e obtain n where n: "r = Some n" "e = n @ so_seal S n x" by (auto simp: cipher_encrypt_def)
  have "length n = nonce_size" using read_random_length r n(1) by blast
  then show "readable S e" using assms n(2) by (simp add: readable_def cipher_decrypt_def aead_ok_def)
qed

lemma keeps_world_steps:
  assumes "\<And>w. J (w_db (snd (run_state m w))) = J (w_db w)"
  shows "keeps (\<lambda>w. J (w_db w)) m"
  using assms by (auto intro: keepsI)

lemma keeps_exchange [keeps_rules]: "keeps (\<lambda>w. J (w_db w)) (exchange f)"
  by (rule keeps_world_steps) (simp add: exchange_def)

lemma keeps_saved [keeps_rules]: "keeps (\<lambda>w. J (w_db w)) (get_saved_track_artists S tok)"
  by (rule keeps_world_steps) (simp add: get_saved_track_artists_alt split: option.split)

lemma keeps_cipher [keeps_rules]: "keeps (\<lambda>w. J (w_db w)) (cipher_encrypt S x)"
  by (auto simp: cipher_encrypt_def intro!: keeps_rules)

lemma keeps_services [keeps_rules]:
  "keeps (\<lambda>w. J (w_db w)) (get_top_artists S tok n)" "keeps (\<lambda>w. J (w_db w)) (get_top_tracks S tok n)"
  "keeps (\<lambda>w. J (w_db w)) (token_request S form)" "keeps (\<lambda>w. J (w_db w)) (search_artist T M name)"
  "keeps (\<lambda>w. J (w_db w)) (get_artist_genres M mbid)"
  by (auto simp: get_top_artists_def get_top_tracks_def token_request_def search_artist_def get_artist_genres_def
      intro!: keeps_rules)

lemma keeps_resolve:
  assumes "query_keeps J (get_artist_genre_cache (normalize_string T name))"
    and "\<And>m g s. query_keeps J (upsert_artist_genre_cache (normalize_string T name) m g s)"
  shows "keeps (\<lambda>w. J (w_db w)) (resolve_genres T M name)"
  using assms
  by (auto simp: resolve_genres_def resolve_and_cache_def fetch_live_def cache_genres_def Let_def
      intro!: keeps_rules keeps_db_call split: sum.splits db_error.splits option.splits)

lemma keeps_tally:
  assumes "\<And>name. keeps I (resolve_genres T M name)"
  shows "keeps I (tally_genres T M rank names tally)"
  by (induction names arbitrary: rank tally) (auto intro!: keeps_rules assms)

lemma keeps_encrypt_bind:
  assumes "aead_ok S" and "\<And>r. (\<And>e. r = Some e \<Longrightarrow> readable S e) \<Longrightarrow> keeps (tokens_inv S) (f r)"
  shows "keeps (tokens_inv S) (State_Monad.bind (cipher_encrypt S x) f)"
  using cipher_encrypt_readable [OF assms(1)] assms(2)
  by (intro keeps_bind_value [where V = "\<lambda>r. \<forall>e. r = Some e \<longrightarrow> readable S e"] keeps_cipher) auto

lemma keeps_if_bind:
  "(b \<Longrightarrow> keeps I (State_Monad.bind m f)) \<Longrightarrow> (\<not> b \<Longrightarrow> keeps I (State_Monad.bind n f)) \<Longrightarrow>
     keeps I (State_Monad.bind (if b then m else n) f)"
  by simp

lemma keeps_ret_bind: "keeps I (f x) \<Longrightarrow> keeps I (State_Monad.bind (ret x) f)"
  by simp

lemma tokens_upsert:
  "readable S a \<Longrightarrow> readable S r \<Longrightarrow> query_keeps (tokens_ok S) (upsert_user_spotify_tokens u a r e sc)"
  by (intro query_keepsI)
    (auto simp: upsert_user_spotify_tokens_def tokens_ok_def upsert_row_def update_rows_def split: if_splits)

lemma tokens_other_queries:
  "query_keeps (tokens_ok S) (touch_last_synced u)" "query_keeps (tokens_ok S) (delete_user_spotify_tokens u)"
  "query_keeps (tokens_ok S) (delete_spotify_derived_interests u)" "query_keeps (tokens_ok S) (get_user_spotify_tokens u)"
  "query_keeps (tokens_ok S) list_user_spotify_tokens" "query_keeps (tokens_ok S) (get_artist_genre_cache k)"
  "query_keeps (tokens_ok S) (upsert_artist_genre_cache k m g st)" "query_keeps (tokens_ok S) (delete_user u)"
  by (auto simp: query_keeps_def tokens_ok_def touch_last_synced_def delete_user_spotify_tokens_def update_rows_def
      delete_spotify_derived_interests_def get_user_spotify_tokens_def list_user_spotify_tokens_def one_row_def
      get_artist_genre_cache_def upsert_artist_genre_cache_def delete_user_def delete_rows_def Let_def
      split: if_splits option.splits)

lemma keeps_store_tokens:
  "readable S a \<Longrightarrow> readable S r \<Longrightarrow> keeps (tokens_inv S) (store_tokens u tok a r)"
  by (auto simp: store_tokens_def intro!: keeps_rules keeps_db_call keeps_other_calls tokens_upsert)

lemma keeps_refresh_access:
  assumes "aead_ok S" and "readable S (sp_refresh_enc row)"
  shows "keeps (tokens_inv S) (refresh_access S u row)"
  using assms
  by (auto simp: refresh_access_def refresh_token_def
      intro!: keeps_rules keeps_if_bind keeps_ret_bind keeps_encrypt_bind keeps_store_tokens
      split: option.splits sum.splits)

lemma tokens_row:
  assumes "tokens_inv S w" and "fst (run_state (db_call (get_user_spotify_tokens u)) w) = Inr r"
  shows "readable S (sp_access_enc r) \<and> readable S (sp_refresh_enc r)"
proof -
  obtain w' where "run_query (get_user_spotify_tokens u) w = (Inr r, w')"
    using assms(2) by (metis prod.collapse run_state_calls(1))
  from run_query_Inr [OF this] have "r \<in> set (spotify_tokens (w_db w))"
    by (auto simp: get_user_spotify_tokens_def one_row_def split: option.splits dest: find_in_set)
  then show ?thesis using assms(1) by (simp add: tokens_ok_def)
qed

lemma keeps_tokens_row_bind:
  assumes "\<And>x. (\<And>r. x = Inr r \<Longrightarrow> readable S (sp_refresh_enc r)) \<Longrightarrow> keeps (tokens_inv S) (f x)"
  shows "keeps (tokens_inv S) (State_Monad.bind (db_call (get_user_spotify_tokens u)) f)"
  using tokens_row [of S _ u]
  by (intro keeps_bind_value [where V = "\<lambda>x. \<forall>r. x = Inr r \<longrightarrow> readable S (sp_refresh_enc r)"]
      keeps_db_call tokens_other_queries assms) auto

lemma keeps_scrape_one:
  assumes "aead_ok S"
  shows "keeps (tokens_inv S) (scrape_one S T M queue u)"
  unfolding scrape_one_def scrape_with_def scrape_report_def
  by (intro keeps_tokens_row_bind)
    (auto intro!: keeps_rules keeps_db_call keeps_other_calls keeps_refresh_access [OF assms] keeps_tally keeps_resolve
       tokens_other_queries split: sum.splits option.splits outcome.splits)

lemma keeps_scrape_all:
  assumes "aead_ok S"
  shows "keeps (tokens_inv S) (scrape_all S T M queue)"
proof -
  have "keeps (tokens_inv S) (scrape_users S T M queue us)" for us
    by (induction us) (auto intro!: keeps_rules keeps_scrape_one [OF assms] split: outcome.splits)
  then show ?thesis
    by (auto simp: scrape_all_def intro!: keeps_rules keeps_db_call tokens_other_queries split: sum.splits outcome.splits)
qed

lemma keeps_spotify_exchange:
  assumes "aead_ok S"
  shows "keeps (tokens_inv S) (spotify_exchange S T key queue uid body cookie)"
  using assms
  by (auto simp: spotify_exchange_def exchange_code_def Let_def
      intro!: keeps_rules keeps_other_calls keeps_encrypt_bind keeps_store_tokens keeps_scrape_one
      split: option.splits sum.splits)

lemma keeps_spotify_disconnect: "keeps (tokens_inv S) (spotify_disconnect uid)"
  by (auto simp: spotify_disconnect_def intro!: keeps_rules keeps_db_call tokens_other_queries
      split: option.splits sum.splits)

lemma keeps_tokens_delete_me: "keeps (tokens_inv S) (delete_me uid)"
  by (auto simp: delete_me_def intro!: keeps_rules keeps_db_call tokens_other_queries
      split: option.splits sum.splits)

text \<open>
  The worlds of a server from an empty token table on: the operations that touch the table, and
  anything else that leaves it alone.
\<close>

inductive tokens_reach :: "spotify_env \<Rightarrow> text_env \<Rightarrow> 'l world \<Rightarrow> bool" for S T where
  start: "spotify_tokens (w_db w) = [] \<Longrightarrow> tokens_reach S T w"
| connected: "tokens_reach S T w \<Longrightarrow> tokens_reach S T (snd (run_state (spotify_exchange S T key queue uid body cookie) w))"
| scraped: "tokens_reach S T w \<Longrightarrow> tokens_reach S T (snd (run_state (scrape_all S T M queue) w))"
| scraped_one: "tokens_reach S T w \<Longrightarrow> tokens_reach S T (snd (run_state (scrape_one S T M queue u) w))"
| disconnected: "tokens_reach S T w \<Longrightarrow> tokens_reach S T (snd (run_state (spotify_disconnect uid) w))"
| deleted: "tokens_reach S T w \<Longrightarrow> tokens_reach S T (snd (run_state (delete_me uid) w))"
| elsewhere: "tokens_reach S T w \<Longrightarrow> spotify_tokens (w_db w') = spotify_tokens (w_db w) \<Longrightarrow> tokens_reach S T w'"

text \<open>
  C30. In every reachable world, under any failures of the database, the random source and the
  service, both tokens of every stored connection can be decrypted, so a scrape never stops at
  the cipher.
\<close>

theorem stored_tokens_readable:
  assumes "aead_ok S" and "tokens_reach S T w" and "r \<in> set (spotify_tokens (w_db w))"
  shows "(\<exists>a. cipher_decrypt S (sp_access_enc r) = Some a) \<and> (\<exists>t. cipher_decrypt S (sp_refresh_enc r) = Some t)"
proof -
  have step: "tokens_inv S (snd (run_state m w))" if "keeps (tokens_inv S) m" "tokens_inv S w" for m :: "('l, 'x) act" and w
    by (rule keepsD [OF that])
  from assms(2) have "tokens_inv S w"
  proof (induction rule: tokens_reach.induct)
    case (start w)
    then show ?case by (simp add: tokens_ok_def)
  next
    case (elsewhere w w')
    then show ?case by (simp add: tokens_ok_def)
  next
    case connected
    show ?case by (rule step [OF keeps_spotify_exchange [OF assms(1)] connected.IH])
  next
    case scraped
    show ?case by (rule step [OF keeps_scrape_all [OF assms(1)] scraped.IH])
  next
    case scraped_one
    show ?case by (rule step [OF keeps_scrape_one [OF assms(1)] scraped_one.IH])
  next
    case disconnected
    show ?case by (rule step [OF keeps_spotify_disconnect disconnected.IH])
  next
    case deleted
    show ?case by (rule step [OF keeps_tokens_delete_me deleted.IH])
  qed
  then show ?thesis using assms(3) by (simp add: tokens_ok_def readable_def)
qed

section \<open>Instances\<close>

text \<open>
  A service, a payload codec and a cipher with which everything runs: the two strings of a payload
  in base 64, its time in decimal, and a cipher that only prepends its nonce.
\<close>

definition demo_marshal :: "payload \<Rightarrow> string" where
  "demo_marshal p =
     b64_encode URLAlphabet (pl_state p) @ ''.'' @ b64_encode URLAlphabet (pl_verifier p) @ ''.''
       @ (if pl_expires p < 0 then ''-'' else ''+'') @ itoa (nat \<bar>pl_expires p\<bar>)"

definition demo_unmarshal :: "string \<Rightarrow> payload option" where
  "demo_unmarshal s =
     (case cut_byte s (CHR ''.'') of
        None \<Rightarrow> None
      | Some (a, r) \<Rightarrow>
          (case cut_byte r (CHR ''.'') of
             Some (b, c # e) \<Rightarrow>
               (case (b64_decode URLAlphabet a, b64_decode URLAlphabet b, read_dec e) of
                  (Some st, Some v, Some n) \<Rightarrow>
                    Some \<lparr>pl_state = st, pl_verifier = v, pl_expires = (if c = CHR ''-'' then - int n else int n)\<rparr>
                | _ \<Rightarrow> None)
           | _ \<Rightarrow> None))"

definition demo_spotify :: spotify_env where
  "demo_spotify =
     \<lparr>so_sha256 = (\<lambda>s. s), so_hmac = (\<lambda>k b. CHR ''m'' # b), so_marshal = demo_marshal,
      so_unmarshal = demo_unmarshal, so_seal = (\<lambda>n p. p), so_open = (\<lambda>n c. Some c), so_client_id = ''id'',
      so_redirect = ''https://app/cb'', so_base = ''http://s'',
      so_token = (\<lambda>_ _ _. Some (200, Some \<lparr>tk_access = ''a'', tk_refresh = ''r'', tk_expires_in = 3600, tk_scope = []\<rparr>)),
      so_artists = (\<lambda>_ _ _. Some (200, Some [])), so_tracks = (\<lambda>_ _ _. Some (200, Some [[''ab'']])),
      so_saved = (\<lambda>_ _ _. Some (200, Some ([], [(0, [''cd''])])))\<rparr>"

lemma demo_codec: "demo_unmarshal (demo_marshal p) = Some p"
  using cut_byte_append [OF b64_url_no_dot]
  by (cases p) (simp add: demo_unmarshal_def demo_marshal_def)

lemma demo_spotify_laws: "cookie_laws demo_spotify" "aead_ok demo_spotify"
  by (simp_all add: cookie_laws_def aead_ok_def demo_spotify_def demo_codec) (simp add: demo_marshal_def)

definition spotify_world :: "unit world" where
  "spotify_world = init_world calm (empty_db\<lparr>users := [fan_row]\<rparr>) ()"

theorem connect_cookie_opens_witness:
  "\<exists>resp cookie w' st v. run_state (spotify_connect demo_spotify ''k'') spotify_world = ((resp, SetOAuth cookie), w') \<and>
     resp = write_json 200 (JObj [(''authorize_url'', JStr (authorize_url demo_spotify st (challenge demo_spotify v)))]) \<and>
     open_oauth_state demo_spotify ''k'' (now_of w') cookie = Some (st, v)"
proof -
  obtain resp cookie w' where run: "run_state (spotify_connect demo_spotify ''k'') spotify_world = ((resp, SetOAuth cookie), w')"
    by (simp add: spotify_connect_def new_verifier_def run_read_random spotify_world_def init_world_def calm_def)
  have "\<not> unix_of (now_of w' + oauth_cookie_ttl) < unix_of (now_of w')"
    by (simp add: unix_of_def oauth_cookie_ttl_def zdiv_mono1)
  with connect_cookie_opens [OF demo_spotify_laws(1) run] run show ?thesis by auto
qed

text \<open>A scrape of a fresh token against the demonstration service.\<close>

lemma demo_saved:
  "run_state (get_saved_track_artists demo_spotify tok) w = (Answers (Some [(''cd'', 0)]), w\<lparr>w_step := Suc (w_step w)\<rparr>)"
proof -
  have "stops_at (saved_service demo_spotify tok) (saved_start demo_spotify) [] n 1 (Some [(''cd'', 0)]) (Suc n)" for n
    by (simp add: stops_at_def saved_service_def saved_start_def demo_spotify_def api_base_def good_reply_def page_artists_def)
  from stops_returns [OF this] show ?thesis by (simp add: get_saved_track_artists_alt)
qed

lemma demo_service:
  "so_token demo_spotify n url f = Some (200, Some \<lparr>tk_access = ''a'', tk_refresh = ''r'', tk_expires_in = 3600, tk_scope = []\<rparr>)"
  "so_artists demo_spotify n url tok = Some (200, Some [])" "so_tracks demo_spotify n url tok = Some (200, Some [[''ab'']])"
  "so_open demo_spotify nonce c = Some c" "so_seal demo_spotify nonce c = c"
  by (simp_all add: demo_spotify_def)

lemma calm_fields: "clock calm n = 10956 * day" "fault_at calm n = NoFault" "rand_bytes calm n k = Some []"
  by (simp_all add: calm_def)

lemma demo_scrape:
  assumes "w_env w = calm" and "find (\<lambda>r. sp_user_id r = 7) (spotify_tokens (w_db w)) = Some r"
    and "nonce_size \<le> length (sp_access_enc r)" and "10956 * day + 30 * second \<le> sp_expires_at r"
  shows "\<exists>w'. run_state (scrape_one demo_spotify plain_env None ''q'' 7) w = (Answers True, w') \<and>
    map sp_user_id (spotify_tokens (w_db w')) = map sp_user_id (spotify_tokens (w_db w))"
proof -
  have later: "\<not> sp_expires_at r < 10956 * day + 30 * second" "\<not> length (sp_access_enc r) < nonce_size"
    using assms(3,4) by linarith+
  show ?thesis
    using assms(1,2) later
    by (simp add: scrape_one_def scrape_with_def scrape_report_def run_query_def now_of_def fault_of_def calm_fields
        get_user_spotify_tokens_def one_row_def cipher_decrypt_def demo_saved get_top_artists_def get_top_tracks_def
        exchange_def good_reply_def publish_def touch_last_synced_def update_rows_def demo_service comp_def)
qed

text \<open>The exchange of user 7 with a cookie of the same server.\<close>

definition demo_cookie :: string where
  "demo_cookie = seal_oauth_state demo_spotify ''k'' (10956 * day) ''st'' ''v'' oauth_cookie_ttl"

definition demo_token_row :: spotify_row where
  "demo_token_row =
     \<lparr>sp_user_id = 7, sp_access_enc = replicate nonce_size (CHR 0x00) @ ''a'',
      sp_refresh_enc = replicate nonce_size (CHR 0x00) @ ''r'', sp_expires_at = 10956 * day + hour, sp_scope = [],
      sp_last_synced_at = None\<rparr>"

definition demo_linked :: "unit world" where
  "demo_linked = spotify_world\<lparr>w_db := (w_db spotify_world)\<lparr>spotify_tokens := [demo_token_row]\<rparr>, w_step := Suc (Suc (Suc (Suc 0)))\<rparr>"

abbreviation demo_exchange :: "(response option \<times> oauth_cookie) \<times> unit world" where
  "demo_exchange \<equiv> run_state (spotify_exchange demo_spotify plain_env ''k'' ''q'' (Some 7) (Some (''c'', ''st'')) (Some demo_cookie))
     spotify_world"

lemma spotify_world_fields:
  "w_env spotify_world = calm" "now_of spotify_world = 10956 * day" "w_step spotify_world = 0"
  "w_db spotify_world = empty_db\<lparr>users := [fan_row]\<rparr>"
  by (simp_all add: spotify_world_def init_world_def calm_fields now_of_def)

lemma demo_cookie_opens: "open_oauth_state demo_spotify ''k'' (10956 * day) demo_cookie = Some (''st'', ''v'')" "demo_cookie \<noteq> []"
  using oauth_state_sealed [OF demo_spotify_laws(1), of "''k''" "10956 * day" "10956 * day" "''st''" "''v''" oauth_cookie_ttl]
  by (simp_all add: demo_cookie_def unix_of_def oauth_cookie_ttl_def seal_oauth_state_def Let_def)

lemma demo_seconds: "seconds64 3600 = hour"
  by (simp add: seconds64_def)

lemma demo_exchange_run:
  "demo_exchange =
     (case run_state (scrape_one demo_spotify plain_env None ''q'' 7) demo_linked of (x, w') \<Rightarrow>
        ((case x of Hangs \<Rightarrow> None | Answers _ \<Rightarrow> Some (write_json 200 (JObj [(''status'', JStr ''connected'')])), ClearOAuth), w'))"
  by (simp add: spotify_exchange_def Let_def exchange_code_def token_request_def exchange_def good_reply_def demo_service
        demo_cookie_opens [simplified] cipher_encrypt_def run_read_random store_tokens_def demo_seconds run_query_def fault_of_def
        calm_fields now_of_def spotify_world_fields upsert_user_spotify_tokens_def upsert_row_def user_exists_def fan_row_def
        empty_db_def demo_token_row_def nonce_size_def tick_def demo_linked_def)

lemma demo_exchange_links:
  "\<exists>resp w'. demo_exchange = ((resp, ClearOAuth), w') \<and> map sp_user_id (spotify_tokens (w_db w')) = [7]"
proof -
  have "find (\<lambda>r. sp_user_id r = 7) (spotify_tokens (w_db demo_linked)) = Some demo_token_row"
    by (simp add: demo_linked_def demo_token_row_def)
  moreover have "nonce_size \<le> length (sp_access_enc demo_token_row)" and "10956 * day + 30 * second \<le> sp_expires_at demo_token_row"
    by (simp_all add: demo_token_row_def)
  ultimately obtain w' where "run_state (scrape_one demo_spotify plain_env None ''q'' 7) demo_linked = (Answers True, w')"
    and "map sp_user_id (spotify_tokens (w_db w')) = map sp_user_id (spotify_tokens (w_db demo_linked))"
    using demo_scrape [of demo_linked demo_token_row] by (auto simp: demo_linked_def spotify_world_fields)
  then show ?thesis by (simp add: demo_exchange_run demo_linked_def demo_token_row_def)
qed

theorem exchange_needs_cookie_witness:
  "\<exists>p. genuine demo_spotify ''k'' (now_of spotify_world) demo_cookie p \<and> pl_state p = ''st''"
proof -
  obtain resp w' where run: "demo_exchange = ((resp, ClearOAuth), w')" and row: "map sp_user_id (spotify_tokens (w_db w')) = [7]"
    using demo_exchange_links by (elim exE conjE) (rule that)
  have "spotify_tokens (w_db spotify_world) = []" by (simp add: spotify_world_fields empty_db_def)
  with row have "w' \<noteq> spotify_world" by (metis list.distinct(1) list.map(1))
  from exchange_needs_cookie [OF run this] show ?thesis by (simp only: option.inject prod.inject) iprover
qed

theorem stored_tokens_readable_witness:
  "\<exists>r \<in> set (spotify_tokens (w_db (snd demo_exchange))). sp_user_id r = 7 \<and>
     (\<exists>a. cipher_decrypt demo_spotify (sp_access_enc r) = Some a) \<and> (\<exists>t. cipher_decrypt demo_spotify (sp_refresh_enc r) = Some t)"
proof -
  have "tokens_reach demo_spotify plain_env spotify_world"
    by (rule tokens_reach.start) (simp add: spotify_world_fields empty_db_def)
  then have reach: "tokens_reach demo_spotify plain_env (snd demo_exchange)" by (rule tokens_reach.connected)
  obtain resp w' where run: "demo_exchange = ((resp, ClearOAuth), w')" and row: "map sp_user_id (spotify_tokens (w_db w')) = [7]"
    using demo_exchange_links by (elim exE conjE) (rule that)
  from row obtain r where r: "r \<in> set (spotify_tokens (w_db w'))" "sp_user_id r = 7"
    by (metis list.set_intros(1) list.set_map imageE)
  have "tokens_reach demo_spotify plain_env w'" using reach unfolding run snd_conv .
  from stored_tokens_readable [OF demo_spotify_laws(2) this r(1)] r(2) have "sp_user_id r = 7 \<and>
      (\<exists>a. cipher_decrypt demo_spotify (sp_access_enc r) = Some a) \<and> (\<exists>t. cipher_decrypt demo_spotify (sp_refresh_enc r) = Some t)"
    by (intro conjI) simp_all
  then show ?thesis unfolding run snd_conv using r(1) by (rule bexI)
qed

end
