(* ===== verification/ScrapeProps.thy ===== *)
theory ScrapeProps
  imports SpotifyProps InterestProps
begin

text \<open>
  The scrape and the ingest worker together: what a scrape publishes, that the worker reads
  the message back as it was meant, and what the user's interests are once it has handled it.
\<close>

section \<open>The message on the wire\<close>

text \<open>The worker's decoder, on objects with the fields of \<open>events.InterestMessage\<close>.\<close>

definition read_top_item :: "json \<Rightarrow> top_item option" where
  "read_top_item j =
     (case (json_get ''name'' j, json_get ''rank'' j) of
        (JStr s, JNum (Fin x)) \<Rightarrow> if x = of_int \<lfloor>x\<rfloor> then Some (s, \<lfloor>x\<rfloor>) else None
      | _ \<Rightarrow> None)"

definition read_items :: "string \<Rightarrow> json \<Rightarrow> top_item list option" where
  "read_items k j =
     (case json_get k j of
        JNull \<Rightarrow> Some []
      | JArr js \<Rightarrow> if list_all (\<lambda>x. read_top_item x \<noteq> None) js then Some (List.map_filter read_top_item js) else None
      | _ \<Rightarrow> None)"

definition read_interest_msg :: "json \<Rightarrow> interest_msg option" where
  "read_interest_msg j =
     (case (json_get ''user_id'' j, json_get ''op'' j, read_items ''spotify_top_artists'' j,
            read_items ''spotify_top_track_artists'' j, read_items ''spotify_saved_song_artists'' j,
            read_items ''spotify_top_genres'' j) of
        (JStr u, op, Some a, Some t, Some s, Some g) \<Rightarrow>
          map_option (\<lambda>o'. \<lparr>it_user_id = u, it_op = o', it_artists = a, it_track_artists = t, it_saved_artists = s,
                           it_genres = g\<rparr>)
            (case op of JNull \<Rightarrow> Some [] | JStr x \<Rightarrow> Some x | _ \<Rightarrow> None)
      | _ \<Rightarrow> None)"

lemma read_top_item_json: "read_top_item (top_item_json i) = Some i"
  by (cases i) (simp add: read_top_item_def top_item_json_def)

lemma read_top_items: "List.map_filter read_top_item (map top_item_json is) = is"
  by (induction "is") (simp_all add: map_filter_simps read_top_item_json)

definition wire_items :: "top_item list \<Rightarrow> json" where
  "wire_items is = (if is = [] then JNull else JArr (map top_item_json is))"

lemma read_wire_items:
  "(case wire_items is of
      JNull \<Rightarrow> Some []
    | JArr js \<Rightarrow> if list_all (\<lambda>x. read_top_item x \<noteq> None) js then Some (List.map_filter read_top_item js) else None
    | _ \<Rightarrow> None) = Some is"
proof -
  have "list_all (\<lambda>x. read_top_item x \<noteq> None) (map top_item_json is)"
    by (simp add: list_all_iff read_top_item_json)
  then show ?thesis by (simp add: wire_items_def read_top_items)
qed

lemma msg_fields:
  "json_get ''spotify_top_artists'' (interest_msg_json m fetched) = wire_items (it_artists m)"
  "json_get ''spotify_top_track_artists'' (interest_msg_json m fetched) = wire_items (it_track_artists m)"
  "json_get ''spotify_saved_song_artists'' (interest_msg_json m fetched) = wire_items (it_saved_artists m)"
  "json_get ''spotify_top_genres'' (interest_msg_json m fetched) = wire_items (it_genres m)"
  "json_get ''user_id'' (interest_msg_json m fetched) = JStr (it_user_id m)"
  "json_get ''op'' (interest_msg_json m fetched) = (if it_op m = [] then JNull else JStr (it_op m))"
  by (simp_all add: interest_msg_json_def omit_items_def omit_str_def wire_items_def)

lemma read_interest_msg_json: "read_interest_msg (interest_msg_json m fetched) = Some m"
  by (simp add: read_interest_msg_def read_items_def msg_fields read_wire_items)

section \<open>Ranked lists\<close>

lemma length_ranked [simp]: "length (ranked ns) = length ns"
  by (simp add: ranked_def del: upt_Suc)

lemma nth_ranked: "i < length ns \<Longrightarrow> ranked ns ! i = (ns ! i, int i + 1)"
  by (simp add: ranked_def nth_upt del: upt_Suc)

text \<open>Of distinct names, each is wanted with the weight of its place, and no other is.\<close>

definition placed :: "text_env \<Rightarrow> (int \<Rightarrow> real) \<Rightarrow> string list \<Rightarrow> (string \<Rightarrow> (string \<times> real) option) \<Rightarrow> bool" where
  "placed T weight ns f =
     ((\<forall>i < length ns. f (normalize_string T (ns ! i)) = Some (ns ! i, weight (int i + 1))) \<and>
      (\<forall>n. n \<notin> normalize_string T ` set ns \<longrightarrow> f n = None))"

lemma wanted_ranked:
  assumes "distinct (map (normalize_string T) ns)"
  shows "placed T weight ns (wanted_interest T weight (ranked ns))"
proof -
  have found: "find (\<lambda>x. normalize_string T (fst x) = normalize_string T (ns ! i)) (rev (ranked ns)) = Some (ns ! i, int i + 1)"
    if i: "i < length ns" for i
  proof -
    let ?P = "\<lambda>x. normalize_string T (fst x) = normalize_string T (ns ! i)"
    have mem: "(ns ! i, int i + 1) \<in> set (ranked ns)"
      using nth_ranked [OF i] i by (metis length_ranked nth_mem)
    have "x = (ns ! i, int i + 1)" if "x \<in> set (ranked ns)" "?P x" for x
    proof -
      obtain j where j: "j < length ns" "x = (ns ! j, int j + 1)"
        using \<open>x \<in> set (ranked ns)\<close> nth_ranked by (metis in_set_conv_nth length_ranked)
      then have "map (normalize_string T) ns ! j = map (normalize_string T) ns ! i" using that(2) i by simp
      then have "j = i" using assms i j(1) nth_eq_iff_index_eq by (metis length_map)
      then show ?thesis using j(2) by simp
    qed
    moreover obtain x where "find ?P (rev (ranked ns)) = Some x"
      using mem by (cases "find ?P (rev (ranked ns))") (auto simp: find_None_iff)
    ultimately show ?thesis using find_in_set [of ?P "rev (ranked ns)"] by (metis set_rev)
  qed
  have "wanted_interest T weight (ranked ns) n = None" if "n \<notin> normalize_string T ` set ns" for n
  proof -
    have "fst x \<in> set ns" if "x \<in> set (ranked ns)" for x
      using that set_zip_leftD [of "fst x" "snd x" ns] by (simp add: ranked_def del: upt_Suc)
    then have "find (\<lambda>i. normalize_string T (fst i) = n) (rev (ranked ns)) = None"
      using that by (auto simp: find_None_iff)
    then show ?thesis by (simp add: wanted_interest_def)
  qed
  then show ?thesis using found by (simp add: placed_def wanted_interest_def)
qed

lemma distinct_names_keys: "distinct (map (normalize_string T) (distinct_names T ns))"
  by (simp add: distinct_names_def dedup_by_distinct)

section \<open>What a scrape publishes\<close>

text \<open>Steps that publish nothing.\<close>

abbreviation published_is :: "(string \<times> json) list \<Rightarrow> 'l world \<Rightarrow> bool" where
  "published_is X \<equiv> (\<lambda>w. w_published w = X)"

lemma keeps_published [keeps_rules]:
  "keeps (published_is X) (db_call q)" "keeps (published_is X) (read_random n)" "keeps (published_is X) time_now"
  "keeps (published_is X) (exchange f)" "keeps (published_is X) (get_saved_track_artists S tok)"
  by (auto intro!: keepsI simp: read_random_def time_now_def exchange_def get_saved_track_artists_alt split: option.splits)

lemma keeps_published_parts:
  "keeps (published_is X) (get_top_artists S tok n)" "keeps (published_is X) (get_top_tracks S tok n)"
  "keeps (published_is X) (cipher_encrypt S x)" "keeps (published_is X) (token_request S form)"
  "keeps (published_is X) (resolve_genres T M name)"
  by (auto simp: get_top_artists_def get_top_tracks_def cipher_encrypt_def token_request_def resolve_genres_def
      resolve_and_cache_def fetch_live_def cache_genres_def search_artist_def get_artist_genres_def Let_def
      intro!: keeps_rules split: sum.splits db_error.splits option.splits)

lemma keeps_published_refresh: "keeps (published_is X) (refresh_access S u row)"
  by (auto simp: refresh_access_def refresh_token_def store_tokens_def
      intro!: keeps_rules keeps_published_parts split: option.splits sum.splits)

text \<open>The answers of the service a scrape works from, at whatever steps it asked.\<close>

definition asked_tracks :: "spotify_env \<Rightarrow> string list \<Rightarrow> bool" where
  "asked_tracks S names =
     (\<exists>n tok pages. good_reply (so_tracks S n (api_base S @ ''/v1/me/top/tracks?time_range=long_term&limit='' @ top_limit 50) tok)
        = Some pages \<and> names = concat pages)"

definition asked_saved :: "spotify_env \<Rightarrow> (string \<times> instant) list \<Rightarrow> bool" where
  "asked_saved S saved =
     (saved = [] \<or> (\<exists>n tok k n'. stops_at (saved_service S tok) (saved_start S) [] n k (Some saved) n'))"

lemma top_tracks_asked:
  "run_state (get_top_tracks S tok 50) w = (Some names, w') \<Longrightarrow> asked_tracks S names"
  by (auto simp: get_top_tracks_def exchange_def asked_tracks_def split: prod.splits)

lemma saved_asked:
  "run_state (get_saved_track_artists S tok) w = (Answers sv, w') \<Longrightarrow>
     asked_saved S (case sv of None \<Rightarrow> [] | Some s \<Rightarrow> s)"
  using returns_stops [of "saved_service S tok" "saved_start S" "[]" "w_step w"]
  by (auto simp: get_saved_track_artists_alt asked_saved_def split: option.splits)

lemma publish_true:
  "run_state (publish q j) w = (True, w') \<Longrightarrow> w_published w' = w_published w @ [(q, j)]"
  by (auto simp: publish_def split: fault.splits)

text \<open>A step that keeps the precondition and whose answer has a property.\<close>

lemma triple_step:
  assumes "keeps I m" and "\<And>w a w'. run_state m w = (a, w') \<Longrightarrow> V a" and "\<And>a. V a \<Longrightarrow> triple I (f a) R"
  shows "triple I (State_Monad.bind m f) R"
proof (rule tripleI)
  fix w b w'' assume I: "I w" and run: "run_state (State_Monad.bind m f) w = (b, w'')"
  obtain a w' where m: "run_state m w = (a, w')" by fastforce
  with run have "run_state (f a) w' = (b, w'')" by simp
  moreover have "I w'" using keepsD [OF assms(1) I] m by simp
  ultimately show "R b w''" using tripleD [OF assms(3) [OF assms(2) [OF m]]] by blast
qed

lemma triple_plain: "keeps I m \<Longrightarrow> (\<And>a. triple I (f a) R) \<Longrightarrow> triple I (State_Monad.bind m f) R"
  by (rule triple_step [where V = "\<lambda>_. True"]) auto

lemma triple_ret: "(\<And>w. P w \<Longrightarrow> Q x w) \<Longrightarrow> triple P (ret x) Q"
  by (simp add: triple_def)

lemma triple_case_sum:
  "(\<And>e. triple P (f e) R) \<Longrightarrow> (\<And>a. triple P (g a) R) \<Longrightarrow> triple P (case x of Inl e \<Rightarrow> f e | Inr a \<Rightarrow> g a) R"
  by (cases x) auto

lemma triple_case_option:
  "triple P m R \<Longrightarrow> (\<And>a. triple P (f a) R) \<Longrightarrow> triple P (case x of None \<Rightarrow> m | Some a \<Rightarrow> f a) R"
  by (cases x) auto

definition published_scrape ::
    "spotify_env \<Rightarrow> text_env \<Rightarrow> string \<Rightarrow> uuid \<Rightarrow> (string \<times> json) list \<Rightarrow> bool outcome \<Rightarrow> 'l world \<Rightarrow> bool" where
  "published_scrape S T queue u X out w =
     (out = Answers True \<longrightarrow>
      (\<exists>arts tracks saved tally fetched. asked_tracks S tracks \<and> asked_saved S saved \<and>
         w_published w = X @ [(queue, interest_msg_json (scrape_msg T u arts tracks saved tally) fetched)]))"

lemma triple_no_answer: "triple P (ret (Answers False)) (published_scrape S T queue u X)"
  "triple P (ret Hangs) (published_scrape S T queue u X)"
  by (simp_all add: triple_def published_scrape_def)

lemma publish_stage:
  assumes "asked_tracks S tracks" and "asked_saved S saved"
  shows "triple (published_is X)
    (do { sent \<leftarrow> publish queue (interest_msg_json (scrape_msg T u arts tracks saved tally) fetched);
          if \<not> sent then ret (Answers False)
          else do { touched \<leftarrow> db_call (touch_last_synced u);
                    ret (Answers (case touched of Inl _ \<Rightarrow> False | Inr _ \<Rightarrow> True)) } })
    (published_scrape S T queue u X)"
proof (rule tripleI)
  let ?m = "interest_msg_json (scrape_msg T u arts tracks saved tally) fetched"
  fix w out w'
  assume X: "w_published w = X" and run: "run_state (do {
      sent \<leftarrow> publish queue ?m;
      if \<not> sent then ret (Answers False)
      else do { touched \<leftarrow> db_call (touch_last_synced u);
                ret (Answers (case touched of Inl _ \<Rightarrow> False | Inr _ \<Rightarrow> True)) } }) w = (out, w')"
  obtain sent w1 where sent: "run_state (publish queue ?m) w = (sent, w1)" by fastforce
  show "published_scrape S T queue u X out w'"
  proof (cases sent)
    case True
    then have "w_published w1 = X @ [(queue, ?m)]" using sent publish_true [of queue ?m w w1] X by simp
    moreover have "w' = snd (run_query (touch_last_synced u) w1)" using run sent True by (auto split: prod.splits)
    ultimately have "w_published w' = X @ [(queue, ?m)]" by simp
    then show ?thesis using assms unfolding published_scrape_def by blast
  qed (use run sent in \<open>auto simp: published_scrape_def\<close>)
qed

lemma report_publishes:
  assumes "asked_tracks S tracks"
  shows "triple (published_is X) (scrape_report S T M queue u tok names tracks) (published_scrape S T queue u X)"
  unfolding scrape_report_def
proof (rule triple_step [OF keeps_published(5), where V = "\<lambda>x. \<forall>sv. x = Answers sv \<longrightarrow> asked_saved S (case sv of None \<Rightarrow> [] | Some s \<Rightarrow> s)"])
  show "\<forall>sv. a = Answers sv \<longrightarrow> asked_saved S (case sv of None \<Rightarrow> [] | Some s \<Rightarrow> s)"
    if "run_state (get_saved_track_artists S tok) w = (a, w')" for w a w'
    using that saved_asked by blast
next
  fix x assume x: "\<forall>sv. x = Answers sv \<longrightarrow> asked_saved S (case sv of None \<Rightarrow> [] | Some s \<Rightarrow> s)"
  note stage = publish_stage [OF assms, of "case sv of None \<Rightarrow> [] | Some s \<Rightarrow> s" for sv]
  show "triple (published_is X) (case x of Hangs \<Rightarrow> ret Hangs | Answers sv \<Rightarrow> do {
      fetched \<leftarrow> time_now;
      tally \<leftarrow> tally_genres T M 1 names [];
      sent \<leftarrow> publish queue (interest_msg_json (scrape_msg T u names tracks (case sv of None \<Rightarrow> [] | Some s \<Rightarrow> s) tally) fetched);
      if \<not> sent then ret (Answers False)
      else do { touched \<leftarrow> db_call (touch_last_synced u);
                ret (Answers (case touched of Inl _ \<Rightarrow> False | Inr _ \<Rightarrow> True)) } }) (published_scrape S T queue u X)"
  proof (cases x)
    case (Answers sv)
    then have "asked_saved S (case sv of None \<Rightarrow> [] | Some s \<Rightarrow> s)" using x by blast
    then show ?thesis
      unfolding Answers outcome.case
      by (intro triple_plain [OF keeps_published(3)] triple_plain [OF keeps_tally [OF keeps_published_parts(5)]] stage)
  qed (simp add: triple_no_answer)
qed

lemma scrape_one_publishes: "triple (published_is X) (scrape_one S T M queue u) (published_scrape S T queue u X)"
proof -
  have fresh: "keeps (published_is X) (if b then refresh_access S u r else ret a)" for b r a
    by (auto intro!: keeps_rules keeps_published_refresh)
  have "triple (published_is X) (do { tracks \<leftarrow> get_top_tracks S tok 50;
      case tracks of None \<Rightarrow> ret (Answers False)
      | Some track_names \<Rightarrow> scrape_report S T M queue u tok names track_names }) (published_scrape S T queue u X)"
    for tok names
    by (rule triple_step [OF keeps_published_parts(2), where V = "\<lambda>x. \<forall>ns. x = Some ns \<longrightarrow> asked_tracks S ns"])
      (use top_tracks_asked in \<open>auto simp: triple_no_answer intro!: report_publishes split: option.splits\<close>)
  then show ?thesis
    unfolding scrape_one_def scrape_with_def
    by (intro triple_plain [OF keeps_published(1)] triple_plain [OF keeps_published(3)] triple_plain [OF fresh]
        triple_plain [OF keeps_published_parts(1)] triple_case_sum triple_case_option triple_no_answer)
qed

section \<open>From the service to the interests\<close>



end
