(* ===== verification/Ical.thy ===== *)
theory Ical
  imports Calendar StoreAuth AuthHandlers
begin

text \<open>
  The subscribable calendar: the RFC 5545 text (\<open>ical/calendar.go\<close>), the range query
  (\<open>calendar.sql.go\<close>) and the handlers of the token and of the feed (\<open>handlers/ical.go\<close>),
  with a reader of the format against which the writer is checked.
\<close>

section \<open>The text\<close>

record ical_event =
  ie_uid :: string
  ie_title :: string
  ie_starts :: instant
  ie_ends :: instant
  ie_venue :: string
  ie_address :: string
  ie_url :: string
  ie_description :: string

definition crlf :: string where "crlf = [CHR 0x0D, CHR 0x0A]"

definition ical_escape :: "string \<Rightarrow> string" where
  "ical_escape s =
     replace_byte
       (replace_byte
         (replace_byte
           (replace_byte s (CHR 0x5C) [CHR 0x5C, CHR 0x5C])
           (CHR '','') [CHR 0x5C, CHR '',''])
         (CHR '';'') [CHR 0x5C, CHR '';''])
       (CHR 0x0A) [CHR 0x5C, CHR ''n'']"

definition build_location :: "string \<Rightarrow> string \<Rightarrow> string" where
  "build_location name addr =
     (if name = [] \<and> addr = [] then []
      else if name = [] then addr
      else if addr = [] then name
      else name @ '', '' @ addr)"

text \<open>A line that is written only when its value is not empty.\<close>

definition opt_line :: "string \<Rightarrow> string \<Rightarrow> string \<Rightarrow> string list" where
  "opt_line k v out = (if v = [] then [] else [k @ out])"

definition event_lines :: "string \<Rightarrow> ical_event \<Rightarrow> string list" where
  "event_lines stamp e =
     [''BEGIN:VEVENT'', ''UID:'' @ ie_uid e, ''DTSTAMP:'' @ stamp, ''DTSTART:'' @ format_ical (ie_starts e)]
     @ (if ie_ends e \<noteq> zero_time then [''DTEND:'' @ format_ical (ie_ends e)] else [])
     @ opt_line ''SUMMARY:'' (ie_title e) (ical_escape (ie_title e))
     @ (let loc = build_location (ie_venue e) (ie_address e) in opt_line ''LOCATION:'' loc (ical_escape loc))
     @ opt_line ''URL:'' (ie_url e) (ie_url e)
     @ opt_line ''DESCRIPTION:'' (ie_description e) (ical_escape (ie_description e))
     @ [''END:VEVENT'']"

definition calendar_lines :: "string \<Rightarrow> instant \<Rightarrow> ical_event list \<Rightarrow> string list" where
  "calendar_lines name now evs =
     [''BEGIN:VCALENDAR'', ''VERSION:2.0'',
      ''PRODID:-//Here'' @ [CHR 0x27] @ ''s What'' @ [CHR 0x27] @ ''s Happening//Calendar//EN'',
      ''METHOD:PUBLISH'', ''X-PUBLISHED-TTL:PT1H'', ''NAME:'' @ ical_escape name,
      ''X-WR-CALNAME:'' @ ical_escape name]
     @ concat (map (event_lines (format_ical now)) evs) @ [''END:VCALENDAR'']"

definition format_calendar :: "string \<Rightarrow> instant \<Rightarrow> ical_event list \<Rightarrow> string" where
  "format_calendar name now evs = concat (map (\<lambda>l. l @ crlf) (calendar_lines name now evs))"

section \<open>The range query\<close>

record feed_row =
  fd_event :: event_row
  fd_venue :: venue_row
  fd_bio :: "string option"
  fd_breakdown :: json

definition feed_join :: "uuid \<Rightarrow> instant \<Rightarrow> instant \<Rightarrow> instant \<Rightarrow> db \<Rightarrow> match_row \<Rightarrow> feed_row option" where
  "feed_join u from until now d m =
     (if m_user_id m \<noteq> u then None
      else case find_event d (m_event_id m) of
        None \<Rightarrow> None
      | Some e \<Rightarrow>
          if e_archived_at e \<noteq> None \<or> e_starts_at e < from \<or> until \<le> e_starts_at e \<or> event_over_at e \<le> now then None
          else (case find_venue d (e_venue_id e) of
             None \<Rightarrow> None
           | Some v \<Rightarrow> Some \<lparr>fd_event = e, fd_venue = v,
               fd_bio = (case e_headline_artist_id e of
                           None \<Rightarrow> None
                         | Some a \<Rightarrow> Option.bind (find (\<lambda>b. ab_artist_id b = a) (bios d)) ab_bio_md),
               fd_breakdown = m_breakdown m\<rparr>))"

definition get_user_calendar_in_range :: "uuid \<Rightarrow> instant \<Rightarrow> instant \<Rightarrow> feed_row list query" where
  "get_user_calendar_in_range u from until now d =
     Inr (sort_key (\<lambda>r. e_starts_at (fd_event r)) (List.map_filter (feed_join u from until now d) (matches d)), d)"

section \<open>The handlers\<close>

definition create_ical_token :: "crypto_env \<Rightarrow> string \<Rightarrow> uuid option \<Rightarrow> 'l handler" where
  "create_ical_token C base uid =
     (case uid of
        None \<Rightarrow> ret no_user
      | Some u \<Rightarrow> do {
          raw \<leftarrow> generate_refresh;
          case raw of
            None \<Rightarrow> ret (http_err 500 ''token_failed'' ''could not generate token'')
          | Some tok \<Rightarrow> do {
              r \<leftarrow> db_call (upsert_ical_token u (hash_refresh C tok));
              ret (case r of
                     Inl _ \<Rightarrow> http_err 500 ''db_error'' ''could not persist token''
                   | Inr _ \<Rightarrow> write_json 201 (JObj [(''url'', JStr (base @ ''/ical/'' @ tok @ ''.ics''))])) } })"

definition revoke_ical_token :: "uuid option \<Rightarrow> 'l handler" where
  "revoke_ical_token uid =
     (case uid of
        None \<Rightarrow> ret no_user
      | Some u \<Rightarrow> do {
          r \<leftarrow> db_call (delete_ical_token u);
          ret (case r of Inl _ \<Rightarrow> http_err 500 ''db_error'' ''could not delete token''
                       | Inr _ \<Rightarrow> no_content) })"

definition build_ical_description :: "json option \<Rightarrow> string \<Rightarrow> string" where
  "build_ical_description breakdown bio =
     (let bits = (case parse_breakdown breakdown of (ps, gs) \<Rightarrow> ps @ gs);
          because = (if bits = [] then [] else ''Matched because: '' @ join_with bits '', '')
      in if because = [] \<and> bio = [] then []
         else if because = [] then bio
         else if bio = [] then because
         else because @ [CHR 0x0A, CHR 0x0A] @ bio)"

definition ical_event_of :: "feed_row \<Rightarrow> ical_event" where
  "ical_event_of r =
     (let e = fd_event r; v = fd_venue r in
      \<lparr>ie_uid = ''event-'' @ uuid_string (e_id e) @ ''@example.com'', ie_title = e_title e, ie_starts = e_starts_at e,
       ie_ends = (case e_ends_at e of None \<Rightarrow> zero_time | Some t \<Rightarrow> t), ie_venue = v_name v,
       ie_address = opt_str (v_address v), ie_url = opt_str (e_url e),
       ie_description = build_ical_description (Some (fd_breakdown r)) (opt_str (fd_bio r))\<rparr>)"

definition not_found_page :: response where
  "not_found_page = respond 404 (TextBody (''404 page not found'' @ [CHR 0x0A]))"

definition get_ical_feed :: "crypto_env \<Rightarrow> string \<Rightarrow> 'l handler" where
  "get_ical_feed C url_token =
     (let tok = trim_suffix url_token ''.ics'' in
      if tok = [] then ret not_found_page
      else do {
        r \<leftarrow> db_call (get_ical_token (hash_refresh C tok));
        case r of
          Inl _ \<Rightarrow> ret not_found_page
        | Inr row \<Rightarrow> do {
            _ \<leftarrow> db_call (touch_ical_token (ic_user_id row));
            now \<leftarrow> time_now;
            rows \<leftarrow> db_call (get_user_calendar_in_range (ic_user_id row) (now - 24 * hour) (now + 60 * day));
            ret (case rows of
                   Inl _ \<Rightarrow> respond 500 (TextBody (''could not load events'' @ [CHR 0x0A]))
                 | Inr rs \<Rightarrow> respond 200 (TextBody
                     (format_calendar ''Your Matched Events'' now (map ical_event_of rs)))) } })"

section \<open>A reader of the format\<close>

text \<open>Lines end in CR LF; a text value is unescaped from the left.\<close>

fun split_crlf :: "string \<Rightarrow> string list" where
  "split_crlf [] = [[]]"
| "split_crlf [c] = [[c]]"
| "split_crlf (c # c2 # r) =
     (if c = CHR 0x0D \<and> c2 = CHR 0x0A then [] # split_crlf r
      else (case split_crlf (c2 # r) of [] \<Rightarrow> [[c]] | l # ls \<Rightarrow> (c # l) # ls))"

fun ical_unescape :: "string \<Rightarrow> string" where
  "ical_unescape [] = []"
| "ical_unescape [c] = [c]"
| "ical_unescape (c # c2 # r) =
     (if c = CHR 0x5C
      then (if c2 = CHR ''n'' \<or> c2 = CHR ''N'' then CHR 0x0A else c2) # ical_unescape r
      else c # ical_unescape (c2 # r))"

record feed_item =
  fi_uid :: string
  fi_start :: string
  fi_finish :: string
  fi_summary :: string
  fi_location :: string
  fi_url :: string
  fi_description :: string

definition blank_item :: feed_item where
  "blank_item = \<lparr>fi_uid = [], fi_start = [], fi_finish = [], fi_summary = [], fi_location = [], fi_url = [],
     fi_description = []\<rparr>"

definition read_property :: "string \<Rightarrow> feed_item \<Rightarrow> feed_item" where
  "read_property l i =
     (case cut_byte l (CHR '':'') of
        None \<Rightarrow> i
      | Some (k, v) \<Rightarrow>
          if k = ''UID'' then i\<lparr>fi_uid := v\<rparr>
          else if k = ''DTSTART'' then i\<lparr>fi_start := v\<rparr>
          else if k = ''DTEND'' then i\<lparr>fi_finish := v\<rparr>
          else if k = ''SUMMARY'' then i\<lparr>fi_summary := ical_unescape v\<rparr>
          else if k = ''LOCATION'' then i\<lparr>fi_location := ical_unescape v\<rparr>
          else if k = ''URL'' then i\<lparr>fi_url := v\<rparr>
          else if k = ''DESCRIPTION'' then i\<lparr>fi_description := ical_unescape v\<rparr>
          else i)"

fun read_lines :: "string list \<Rightarrow> feed_item option \<Rightarrow> feed_item list" where
  "read_lines [] cur = []"
| "read_lines (l # ls) None = (if l = ''BEGIN:VEVENT'' then read_lines ls (Some blank_item) else read_lines ls None)"
| "read_lines (l # ls) (Some i) =
     (if l = ''END:VEVENT'' then i # read_lines ls None else read_lines ls (Some (read_property l i)))"

definition read_calendar :: "string \<Rightarrow> feed_item list" where
  "read_calendar doc = read_lines (split_crlf doc) None"

end
