(* ===== verification/IcalProps.thy ===== *)
theory IcalProps
  imports Ical CalendarProps AuthProps
begin

text \<open>
  What the subscribable calendar guarantees: the document the writer produces reads back, by an
  independent reader of the format, as the events it was made from; and a served feed lists
  exactly the user's matched events that are in range and not over.
\<close>

section \<open>Text values\<close>

definition escaped_char :: "char \<Rightarrow> string" where
  "escaped_char c =
     (if c = CHR 0x0A then [CHR 0x5C, CHR ''n'']
      else if c \<in> {CHR 0x5C, CHR '','', CHR '';''} then [CHR 0x5C, c] else [c])"

lemma replace_byte_append: "replace_byte (s @ t) c new = replace_byte s c new @ replace_byte t c new"
  by (simp add: replace_byte_def)

lemma ical_escape_simps [simp]: "ical_escape [] = []" "ical_escape (c # s) = escaped_char c @ ical_escape s"
  by (simp_all add: ical_escape_def escaped_char_def replace_byte_append)

lemma ical_unescape_escaped: "ical_unescape (escaped_char c @ t) = c # ical_unescape t"
  by (cases t) (auto simp: escaped_char_def)

lemma ical_unescape_escape [simp]: "ical_unescape (ical_escape s) = s"
  by (induction s) (simp_all add: ical_unescape_escaped)

lemma ical_escape_LF: "CHR 0x0A \<notin> set (ical_escape s)"
  by (induction s) (auto simp: escaped_char_def)

section \<open>Lines\<close>

lemma split_crlf_line: "CHR 0x0A \<notin> set l \<Longrightarrow> split_crlf (l @ crlf @ r) = l # split_crlf r"
proof (induction l)
  case Nil
  then show ?case by (simp add: crlf_def)
next
  case (Cons c l)
  then have IH: "split_crlf (l @ crlf @ r) = l # split_crlf r" by simp
  obtain c2 r2 where r2: "l @ crlf @ r = c2 # r2" "c2 \<noteq> CHR 0x0A"
    using Cons.prems by (cases l) (auto simp: crlf_def)
  then show ?case using IH by simp
qed

lemma split_crlf_doc:
  "\<forall>l \<in> set ls. CHR 0x0A \<notin> set l \<Longrightarrow> split_crlf (concat (map (\<lambda>l. l @ crlf) ls)) = ls @ [[]]"
  by (induction ls) (simp_all add: split_crlf_line)

lemma digits_LF: "CHR 0x0A \<notin> set (pad_dec w n)" "CHR 0x0A \<notin> set (itoa n)"
proof -
  show "CHR 0x0A \<notin> set (pad_dec w n)" using pad_dec_digits [of "CHR 0x0A" w n] by auto
  show "CHR 0x0A \<notin> set (itoa n)"
  proof
    assume "CHR 0x0A \<in> set (itoa n)"
    moreover have "list_all (\<lambda>c. dec_val c \<noteq> None) (itoa n)"
      using read_itoa [of n] by (auto simp: read_dec_def split: if_splits)
    ultimately show False by (auto simp: list_all_iff dec_val_def)
  qed
qed

lemma format_ical_LF: "CHR 0x0A \<notin> set (format_ical t)"
  by (auto simp: format_ical_def fmt_year_def digits_LF split: prod.splits)

lemma uuid_LF: "CHR 0x0A \<notin> set (uuid_string u)"
proof
  assume "CHR 0x0A \<in> set (uuid_string u)"
  then obtain d where d: "d < 16" "CHR 0x0A = digit_char d" using uuid_string_chars by blast
  then have "byte_of (digit_char d) = byte_of (CHR 0x0A)" by (simp only:)
  then have "byte_of (digit_char d) = 10" by simp
  moreover have "48 \<le> byte_of (digit_char d)" using d(1) by (simp add: digit_char_def)
  ultimately show False by simp
qed

definition one_line :: "ical_event \<Rightarrow> bool" where
  "one_line e = (CHR 0x0A \<notin> set (ie_uid e) \<and> CHR 0x0A \<notin> set (ie_url e))"

lemma event_lines_LF: "one_line e \<Longrightarrow> CHR 0x0A \<notin> set stamp \<Longrightarrow> l \<in> set (event_lines stamp e) \<Longrightarrow> CHR 0x0A \<notin> set l"
  by (auto simp: event_lines_def opt_line_def one_line_def Let_def ical_escape_LF format_ical_LF split: if_splits)

lemma calendar_lines_LF:
  "\<forall>e \<in> set evs. one_line e \<Longrightarrow> \<forall>l \<in> set (calendar_lines name now evs). CHR 0x0A \<notin> set l"
  by (auto simp: calendar_lines_def ical_escape_LF dest!: event_lines_LF [OF _ format_ical_LF])

section \<open>Reading an event\<close>

definition item_of :: "ical_event \<Rightarrow> feed_item" where
  "item_of e =
     \<lparr>fi_uid = ie_uid e, fi_start = format_ical (ie_starts e),
      fi_finish = (if ie_ends e = zero_time then [] else format_ical (ie_ends e)), fi_summary = ie_title e,
      fi_location = build_location (ie_venue e) (ie_address e), fi_url = ie_url e, fi_description = ie_description e\<rparr>"

lemma read_event: "read_lines (event_lines stamp e @ ls) None = item_of e # read_lines ls None"
  by (simp add: event_lines_def opt_line_def Let_def read_property_def blank_item_def item_of_def)

lemma read_events: "read_lines (concat (map (event_lines stamp) evs) @ ls) None = map item_of evs @ read_lines ls None"
  by (induction evs) (simp_all add: read_event)

lemma read_format_calendar:
  assumes "\<forall>e \<in> set evs. one_line e"
  shows "read_calendar (format_calendar name now evs) = map item_of evs"
proof -
  have "split_crlf (format_calendar name now evs) = calendar_lines name now evs @ [[]]"
    unfolding format_calendar_def by (rule split_crlf_doc) (rule calendar_lines_LF [OF assms])
  then show ?thesis
    unfolding read_calendar_def calendar_lines_def by (simp add: read_events)
qed

section \<open>The feed\<close>

text \<open>
  What a feed read at \<open>t0\<close> (by the server) and \<open>t1\<close> (by the database) is to list for a user: the
  events matched for the user, stored with their venue, from a day back to sixty days ahead, and
  neither over nor archived.
\<close>

definition due :: "db \<Rightarrow> uuid \<Rightarrow> instant \<Rightarrow> instant \<Rightarrow> event_row \<Rightarrow> bool" where
  "due d u t0 t1 e =
     (e \<in> set (events d) \<and> (\<exists>m \<in> set (matches d). m_user_id m = u \<and> m_event_id m = e_id e) \<and>
      (\<exists>v \<in> set (venues d). v_id v = e_venue_id e) \<and> t0 - 24 * hour \<le> e_starts_at e \<and>
      e_starts_at e < t0 + 60 * day \<and> showable t1 e)"

definition catalogue_ok :: "db \<Rightarrow> bool" where
  "catalogue_ok d =
     (keyed e_id (events d) \<and> keyed v_id (venues d) \<and> keyed (\<lambda>m. (m_user_id m, m_event_id m)) (matches d) \<and>
      (\<forall>e \<in> set (events d). CHR 0x0A \<notin> set (opt_str (e_url e))))"

lemma feed_join_Some:
  assumes "feed_join u (t0 - 24 * hour) (t0 + 60 * day) t1 d m = Some r" and "m \<in> set (matches d)"
  shows "due d u t0 t1 (fd_event r) \<and> fd_venue r \<in> set (venues d) \<and> v_id (fd_venue r) = e_venue_id (fd_event r) \<and>
    m_user_id m = u \<and> m_event_id m = e_id (fd_event r)"
  using assms
  by (auto simp: feed_join_def due_def showable_def find_event_def find_venue_def split: if_splits option.splits
      dest!: find_in_set)

lemma due_feed_join:
  assumes "catalogue_ok d" and "due d u t0 t1 e"
  shows "\<exists>m \<in> set (matches d). \<exists>r. feed_join u (t0 - 24 * hour) (t0 + 60 * day) t1 d m = Some r \<and> fd_event r = e"
proof -
  obtain m v where m: "m \<in> set (matches d)" "m_user_id m = u" "m_event_id m = e_id e"
    and v: "v \<in> set (venues d)" "v_id v = e_venue_id e" and e: "e \<in> set (events d)"
    using assms(2) by (auto simp: due_def)
  have "find_event d (m_event_id m) = Some e"
    unfolding find_event_def m(3) by (rule find_keyed) (use assms(1) e in \<open>auto simp: catalogue_ok_def\<close>)
  moreover have "find_venue d (e_venue_id e) = Some v"
    unfolding find_venue_def v(2) [symmetric] by (rule find_keyed) (use assms(1) v in \<open>auto simp: catalogue_ok_def\<close>)
  ultimately have "\<exists>r. feed_join u (t0 - 24 * hour) (t0 + 60 * day) t1 d m = Some r \<and> fd_event r = e"
    using assms(2) m(2) by (auto simp: feed_join_def due_def showable_def)
  then show ?thesis using m(1) by blast
qed

definition feed_of :: "db \<Rightarrow> uuid \<Rightarrow> instant \<Rightarrow> instant \<Rightarrow> feed_row list" where
  "feed_of d u t0 t1 =
     sort_key (\<lambda>r. e_starts_at (fd_event r))
       (List.map_filter (feed_join u (t0 - 24 * hour) (t0 + 60 * day) t1 d) (matches d))"

lemma feed_of_exact:
  assumes "catalogue_ok d"
  shows "fd_event ` set (feed_of d u t0 t1) = Collect (due d u t0 t1)"
    and "distinct (map (\<lambda>r. e_id (fd_event r)) (feed_of d u t0 t1))"
    and "sorted (map (\<lambda>r. e_starts_at (fd_event r)) (feed_of d u t0 t1))"
proof -
  let ?f = "feed_join u (t0 - 24 * hour) (t0 + 60 * day) t1 d"
  show "fd_event ` set (feed_of d u t0 t1) = Collect (due d u t0 t1)"
    using due_feed_join [OF assms] feed_join_Some
    by (fastforce simp: feed_of_def set_map_filter image_iff)
  have "distinct (map (\<lambda>r. e_id (fd_event r)) (List.map_filter ?f (matches d)))"
    by (rule map_filter_keyed [where k = "\<lambda>m. (m_user_id m, m_event_id m)"])
      (use assms in \<open>auto simp: catalogue_ok_def feed_join_def find_event_def split: if_splits option.splits dest!: find_in_set\<close>)
  then have "distinct (map (\<lambda>r. e_id (fd_event r)) (feed_of d u t0 t1))"
    unfolding feed_of_def distinct_map by (simp add: distinct_sort)
  then show "distinct (map (\<lambda>r. e_id (fd_event r)) (feed_of d u t0 t1))" .
  show "sorted (map (\<lambda>r. e_starts_at (fd_event r)) (feed_of d u t0 t1))"
    by (simp add: feed_of_def)
qed

lemma feed_venue:
  "r \<in> set (feed_of d u t0 t1) \<Longrightarrow> fd_venue r \<in> set (venues d) \<and> v_id (fd_venue r) = e_venue_id (fd_event r)"
proof -
  assume "r \<in> set (feed_of d u t0 t1)"
  then obtain m where "m \<in> set (matches d)" "feed_join u (t0 - 24 * hour) (t0 + 60 * day) t1 d m = Some r"
    unfolding feed_of_def set_sort set_map_filter by blast
  from feed_join_Some [OF this(2,1)] show ?thesis by blast
qed

lemma feed_events_one_line:
  assumes "catalogue_ok d" and "r \<in> set (feed_of d u t0 t1)"
  shows "one_line (ical_event_of r)"
proof -
  have "fd_event r \<in> set (events d)" using feed_of_exact(1) [OF assms(1), of u t0 t1] assms(2) by (auto simp: due_def)
  then show ?thesis using assms(1) uuid_LF by (auto simp: one_line_def ical_event_of_def Let_def catalogue_ok_def)
qed

text \<open>
  C36. A feed that is served holds the token of a user, and read by the format's rules it lists
  exactly the events that are due for that user, each once and in order of its start, with its
  title, place, link and description as stored, commas, semicolons, backslashes and line ends
  included.
\<close>

theorem ical_feed_exact:
  assumes "catalogue_ok (w_db w)" and "run_state (get_ical_feed C url) w = (resp, w')" and "r_status resp = 200"
  shows "\<exists>row t doc rs. row \<in> set (ical_tokens (w_db w)) \<and> ic_token_hash row = hash_refresh C (trim_suffix url ''.ics'') \<and>
    t = clock (w_env w) (w_step w + 2) \<and> r_body resp = TextBody doc \<and>
    read_calendar doc = map (\<lambda>r. item_of (ical_event_of r)) rs \<and>
    fd_event ` set rs = Collect (due (w_db w) (ic_user_id row) t t) \<and>
    (\<forall>r \<in> set rs. fd_venue r \<in> set (venues (w_db w)) \<and> v_id (fd_venue r) = e_venue_id (fd_event r)) \<and>
    distinct (map (\<lambda>r. e_id (fd_event r)) rs) \<and> sorted (map (\<lambda>r. e_starts_at (fd_event r)) rs)"
proof -
  let ?tok = "trim_suffix url ''.ics''"
  have tok: "?tok \<noteq> []" using assms(2,3) by (auto simp: get_ical_feed_def not_found_page_def)
  obtain row w1 where q1: "run_query (get_ical_token (hash_refresh C ?tok)) w = (Inr row, w1)"
    using assms(2,3) tok
    by (cases "fst (run_query (get_ical_token (hash_refresh C ?tok)) w)")
      (auto simp: get_ical_feed_def not_found_page_def split: prod.splits)
  obtain x w2 where q2: "run_query (touch_ical_token (ic_user_id row)) w1 = (x, w2)" by fastforce
  let ?t = "now_of w2"
  let ?q = "get_user_calendar_in_range (ic_user_id row) (?t - 24 * hour) (?t + 60 * day)"
  obtain rs w3 where q3: "run_query ?q w2 = (Inr rs, w3)"
    using assms(2,3) tok q1 q2
    by (cases "fst (run_query ?q w2)") (auto simp: get_ical_feed_def split: prod.splits)
  have doc: "r_body resp = TextBody (format_calendar ''Your Matched Events'' ?t (map ical_event_of rs))"
    using assms(2) tok q1 q2 q3 by (auto simp: get_ical_feed_def split: prod.splits)
  from run_query_Inr [OF q1] have row: "row \<in> set (ical_tokens (w_db w))" "ic_token_hash row = hash_refresh C ?tok"
    and same: "w_db w1 = w_db w" and w1': "w1 = tick (w\<lparr>w_db := w_db w1\<rparr>)"
    by (auto simp: get_ical_token_def one_row_def split: option.splits dest: find_in_set)
  have w1: "w1 = tick w" using w1' unfolding same by simp
  have w2': "w2 = snd (run_query (touch_ical_token (ic_user_id row)) w1)" using q2 by simp
  have w2: "events (w_db w2) = events (w_db w)" "venues (w_db w2) = venues (w_db w)"
    "matches (w_db w2) = matches (w_db w)" "?t = clock (w_env w) (w_step w + 2)"
    unfolding w2' by (simp_all add: run_query_def touch_ical_token_def now_of_def w1 split: fault.splits)
  have ok: "catalogue_ok (w_db w2)" using assms(1) by (simp add: catalogue_ok_def w2)
  have rs: "rs = feed_of (w_db w2) (ic_user_id row) ?t ?t"
    using run_query_Inr [OF q3, THEN conjunct1] unfolding get_user_calendar_in_range_def feed_of_def by blast
  have "read_calendar (format_calendar ''Your Matched Events'' ?t (map ical_event_of rs)) = map (\<lambda>r. item_of (ical_event_of r)) rs"
    using feed_events_one_line [OF ok] by (subst read_format_calendar) (auto simp: rs)
  moreover have "due (w_db w2) = due (w_db w)" by (simp add: due_def fun_eq_iff w2)
  ultimately show ?thesis
    using row doc w2(4) feed_of_exact [OF ok, of "ic_user_id row" ?t ?t] feed_venue [of _ "w_db w2" "ic_user_id row" ?t ?t]
    unfolding rs [symmetric] w2(2) by (intro exI conjI ballI) simp_all
qed

text \<open>The feed of a user with one event that is due.\<close>

definition feed_world :: "unit world" where
  "feed_world = init_world calm ((demo_catalogue [demo_event 2 (10957 * day)])\<lparr>ical_tokens :=
     [\<lparr>ic_user_id = 7, ic_token_hash = ''t'', ic_created_at = 0, ic_last_accessed_at = None\<rparr>]\<rparr>) ()"

lemma feed_world_due: "due (w_db feed_world) 7 (10956 * day) (10956 * day) e \<longleftrightarrow> e = demo_event 2 (10957 * day)"
  by (auto simp: due_def feed_world_def init_world_def demo_catalogue_def demo_event_def demo_match_def demo_venue_def
      empty_db_def showable_def event_over_at_def)

theorem ical_feed_exact_witness:
  "\<exists>doc. r_body (fst (run_state (get_ical_feed demo_crypto ''t.ics'') feed_world)) = TextBody doc \<and>
     map fi_summary (read_calendar doc) = [''Show''] \<and> map fi_location (read_calendar doc) = [''Neumos'']"
proof -
  let ?run = "run_state (get_ical_feed demo_crypto ''t.ics'') feed_world"
  have tok: "trim_suffix ''t.ics'' ''.ics'' = ''t''" by code_simp
  have st: "r_status (fst ?run) = 200"
    by (simp add: get_ical_feed_def tok hash_refresh_def demo_crypto_def run_query_def fault_of_def get_ical_token_def
        one_row_def touch_ical_token_def get_user_calendar_in_range_def feed_world_def init_world_def calm_def)
  have ok: "catalogue_ok (w_db feed_world)"
    by (simp add: catalogue_ok_def keyed_def feed_world_def init_world_def demo_catalogue_def demo_event_def demo_match_def
        demo_venue_def empty_db_def opt_str_def)
  obtain resp w' where run: "?run = (resp, w')" by fastforce
  obtain row t doc rs where r: "row \<in> set (ical_tokens (w_db feed_world))" "t = clock (w_env feed_world) (w_step feed_world + 2)"
      "r_body resp = TextBody doc" "read_calendar doc = map (\<lambda>r. item_of (ical_event_of r)) rs"
      "fd_event ` set rs = Collect (due (w_db feed_world) (ic_user_id row) t t)"
      "\<forall>r \<in> set rs. fd_venue r \<in> set (venues (w_db feed_world)) \<and> v_id (fd_venue r) = e_venue_id (fd_event r)"
      "distinct (map (\<lambda>r. e_id (fd_event r)) rs)"
    using ical_feed_exact [OF ok run st [unfolded run fst_conv]] by (elim exE conjE) (rule that; assumption)
  have "ic_user_id row = 7" and t: "t = 10956 * day" using r(1,2) by (simp_all add: feed_world_def init_world_def calm_def)
  then have events: "fd_event ` set rs = {demo_event 2 (10957 * day)}" using r(5) feed_world_due by auto
  have "inj_on (e_id \<circ> fd_event) (set rs)" and dist: "distinct rs" using r(7) by (simp_all add: distinct_map comp_def)
  from this(1) have "inj_on fd_event (set rs)" by (rule inj_on_imageI2)
  then have "length rs = card (fd_event ` set rs)" by (simp add: card_image distinct_card [OF dist])
  then have "length rs = 1" using events by simp
  then obtain x where x: "rs = [x]" by (cases rs) auto
  have "fd_event x = demo_event 2 (10957 * day)" "fd_venue x = demo_venue"
    using events r(6) x by (auto simp: feed_world_def init_world_def demo_catalogue_def)
  then show ?thesis
    unfolding run fst_conv r(3)
    by (intro exI [of _ doc]) (simp add: r(4) x item_of_def ical_event_of_def Let_def demo_event_def demo_venue_def build_location_def opt_str_def)
qed

end
