(* ===== verification/Search.thy ===== *)
theory Search
  imports Calendar Matcher
begin

text \<open>
  Search (\<open>handlers/search.go\<close>, \<open>handlers/fusion.go\<close>, \<open>search.sql.go\<close>): the lexical leg over
  titles, performers and venues, the semantic leg over embeddings, and their fusion by rank.
  The trigram operators of the database (over unaccented text) and its cosine distance are
  parameters.
\<close>

section \<open>The two queries\<close>

record search_env =
  se_similar :: "string \<Rightarrow> string \<Rightarrow> bool"
  se_similarity :: "string \<Rightarrow> string \<Rightarrow> real"
  se_distance :: "real list \<Rightarrow> real list \<Rightarrow> real"

record search_row =
  sr_event :: event_row
  sr_venue :: venue_row

text \<open>The three legs of \<open>candidates\<close>, each an event with its weighted similarity.\<close>

definition search_candidates :: "search_env \<Rightarrow> string \<Rightarrow> db \<Rightarrow> (uuid \<times> real) list" where
  "search_candidates S q d =
     map (\<lambda>e. (e_id e, se_similarity S (e_title e) q)) (filter (\<lambda>e. se_similar S (e_title e) q) (events d))
     @ map (\<lambda>p. (ep_event_id p, se_similarity S (ep_name p) q * 0.9))
         (filter (\<lambda>p. se_similar S (ep_name p) q) (performers d))
     @ concat (map (\<lambda>v. map (\<lambda>e. (e_id e, se_similarity S (v_name v) q * 0.6))
                          (filter (\<lambda>e. e_venue_id e = v_id v) (events d)))
         (filter (\<lambda>v. se_similar S (v_name v) q) (venues d)))"

definition scores_of :: "(uuid \<times> real) list \<Rightarrow> uuid \<Rightarrow> real list" where
  "scores_of cs i = map snd (filter (\<lambda>c. fst c = i) cs)"

definition city_row_of :: "uuid \<Rightarrow> instant \<Rightarrow> db \<Rightarrow> event_row \<Rightarrow> search_row option" where
  "city_row_of c now d e =
     (case find_venue d (e_venue_id e) of
        None \<Rightarrow> None
      | Some v \<Rightarrow> if v_city_id v = c \<and> showable now e then Some \<lparr>sr_event = e, sr_venue = v\<rparr> else None)"

definition select_search_events :: "search_env \<Rightarrow> uuid \<Rightarrow> nat \<Rightarrow> string \<Rightarrow> search_row list query" where
  "select_search_events S c limit q now d =
     (let cs = search_candidates S q d;
          hits = filter (\<lambda>e. scores_of cs (e_id e) \<noteq> []) (events d)
      in Inr (take limit
           (sort_key (\<lambda>r. (- Max (set (scores_of cs (e_id (sr_event r)))), e_starts_at (sr_event r), e_id (sr_event r)))
             (List.map_filter (city_row_of c now d) hits)), d))"

definition embedding_size :: nat where "embedding_size = 384"

text \<open>The database refuses a vector of another size.\<close>

definition select_search_semantic :: "search_env \<Rightarrow> uuid \<Rightarrow> real list \<Rightarrow> nat \<Rightarrow> search_row list query" where
  "select_search_semantic S c vec limit now d =
     (if length vec \<noteq> embedding_size then Inl Unavailable
      else Inr (take limit
           (sort_key (\<lambda>r. (se_distance S (case e_embedding (sr_event r) of None \<Rightarrow> [] | Some x \<Rightarrow> x) vec,
                           e_id (sr_event r)))
             (List.map_filter (city_row_of c now d) (filter (\<lambda>e. e_embedding e \<noteq> None) (events d)))), d))"

section \<open>Fusion\<close>

definition rrf_k :: real where "rrf_k = 60"

definition bump :: "uuid \<Rightarrow> real \<Rightarrow> (uuid \<times> real) list \<Rightarrow> (uuid \<times> real) list" where
  "bump i x es =
     (if i \<in> fst ` set es then map (\<lambda>e. if fst e = i then (i, snd e + x) else e) es else es @ [(i, x)])"

text \<open>One leg, from the given rank on; the entries stay in the order of their first appearance.\<close>

fun add_leg :: "nat \<Rightarrow> uuid list \<Rightarrow> (uuid \<times> real) list \<Rightarrow> (uuid \<times> real) list" where
  "add_leg rank [] es = es"
| "add_leg rank (i # is) es = add_leg (Suc rank) is (bump i (1 / (rrf_k + real (rank + 1))) es)"

text \<open>The sort is stable over the order of appearance, which breaks the ties; a negative limit is zero.\<close>

definition fuse_rrf :: "uuid list \<Rightarrow> uuid list \<Rightarrow> int \<Rightarrow> uuid list" where
  "fuse_rrf lexical semantic limit =
     map fst (take (nat limit) (sort_key (\<lambda>e. - snd e) (add_leg 0 semantic (add_leg 0 lexical []))))"

section \<open>The handler\<close>

definition search_result_limit :: nat where "search_result_limit = 10"
definition search_min_runes :: nat where "search_min_runes = 3"
definition search_max_runes :: nat where "search_max_runes = 100"
definition search_candidate_limit :: nat where "search_candidate_limit = 50"

definition parse_search_query :: "string \<Rightarrow> response + string" where
  "parse_search_query q =
     (let raw = trim_space q; rs = runes raw in
      if raw = [] then Inl (http_err 400 ''bad_query'' ''q is required'')
      else if length rs < search_min_runes then Inl (http_err 400 ''query_too_short'' ''q must be at least 3 characters'')
      else Inr (if search_max_runes < length rs then concat (take search_max_runes rs) else raw))"

definition search_result :: "search_row \<Rightarrow> json" where
  "search_result r =
     (let e = sr_event r in
      JObj ([(''id'', JStr (uuid_string (e_id e))), (''title'', JStr (e_title e)),
             (''starts_at'', JStr (format_rfc3339 (e_starts_at e)))]
            @ omit_str ''image_url'' (opt_str (e_image_url e)) @ omit_str ''segment'' (opt_str (e_segment e))
            @ [(''venue'', JObj [(''name'', JStr (v_name (sr_venue r)))])]))"

definition hit_id :: "search_row \<Rightarrow> uuid" where "hit_id r = e_id (sr_event r)"

text \<open>\<open>resultsFor\<close>: the rows by id, those of the lexical leg first.\<close>

definition results_for :: "uuid list \<Rightarrow> search_row list \<Rightarrow> search_row list" where
  "results_for ids rows = List.map_filter (\<lambda>i. find (\<lambda>r. hit_id r = i) rows) ids"

definition search_embed :: "embedder \<Rightarrow> string \<Rightarrow> ('l, real list list option) act" where
  "search_embed E q = State (\<lambda>w. (E (w_step w) [q], tick w))"

definition apply_semantic_leg ::
    "search_env \<Rightarrow> bool \<Rightarrow> embedder option \<Rightarrow> uuid \<Rightarrow> string \<Rightarrow> search_row list \<Rightarrow> ('l, search_row list) act" where
  "apply_semantic_leg S enabled E c q rows =
     (let lexical = map hit_id rows;
          fallback = results_for (take search_result_limit lexical) rows
      in case E of
           None \<Rightarrow> ret fallback
         | Some emb \<Rightarrow>
             if \<not> enabled then ret fallback
             else do {
               vecs \<leftarrow> search_embed emb q;
               case vecs of
                 None \<Rightarrow> ret fallback
               | Some [] \<Rightarrow> ret fallback
               | Some (v # _) \<Rightarrow>
                   if v = [] then ret fallback
                   else do {
                     sem \<leftarrow> db_call (select_search_semantic S c v search_candidate_limit);
                     ret (case sem of
                            Inl _ \<Rightarrow> fallback
                          | Inr srows \<Rightarrow>
                              results_for (fuse_rrf lexical (map hit_id srows) (int search_result_limit)) (rows @ srows)) } })"

definition search_events ::
    "(string \<Rightarrow> uuid option) \<Rightarrow> search_env \<Rightarrow> bool \<Rightarrow> embedder option \<Rightarrow> string \<Rightarrow> string \<Rightarrow> 'l handler" where
  "search_events P S enabled E city q =
     (case P city of
        None \<Rightarrow> ret (http_err 400 ''bad_city_id'' ''cityId is not a valid uuid'')
      | Some c \<Rightarrow>
          (case parse_search_query q of
             Inl resp \<Rightarrow> ret resp
           | Inr query \<Rightarrow> do {
               rows \<leftarrow> db_call (select_search_events S c
                 (if enabled then search_candidate_limit else search_result_limit) query);
               case rows of
                 Inl _ \<Rightarrow> ret (http_err 500 ''db_error'' ''could not search events'')
               | Inr rs \<Rightarrow> do {
                   results \<leftarrow> apply_semantic_leg S enabled E c query rs;
                   ret (write_json 200 (JObj [(''results'', JArr (map search_result results))])) } }))"

end
