(* ===== verification/SearchProps.thy ===== *)
theory SearchProps
  imports Search CalendarProps
begin

text \<open>
  What search guarantees: the fusion is reciprocal rank fusion as a formula over the two
  rankings, and whatever fails, an answer lists at most ten different events of the city that
  can still be attended.
\<close>

section \<open>The fusion against its formula\<close>

fun position :: "'a list \<Rightarrow> 'a \<Rightarrow> nat option" where
  "position [] x = None"
| "position (y # ys) x = (if x = y then Some 0 else map_option Suc (position ys x))"

definition rrf_part :: "nat \<Rightarrow> uuid list \<Rightarrow> uuid \<Rightarrow> real" where
  "rrf_part r ids i = (case position ids i of None \<Rightarrow> 0 | Some k \<Rightarrow> 1 / (60 + real (r + k + 1)))"

text \<open>The formula: the two reciprocal ranks of an id, ties in the order lexical, then semantic.\<close>

definition rrf_reference :: "uuid list \<Rightarrow> uuid list \<Rightarrow> int \<Rightarrow> uuid list" where
  "rrf_reference lexical semantic limit =
     take (nat limit) (sort_key (\<lambda>i. - (rrf_part 0 lexical i + rrf_part 0 semantic i))
       (lexical @ filter (\<lambda>i. i \<notin> set lexical) semantic))"

lemma position_None [simp]: "position xs x = None \<longleftrightarrow> x \<notin> set xs"
  by (induction xs) auto

lemma rrf_part_outside:
  assumes "i \<notin> set ids"
  shows "rrf_part r ids i = 0"
proof -
  have "position ids i = None" using assms by simp
  then show ?thesis by (simp add: rrf_part_def del: position_None)
qed

lemma rrf_part_Cons:
  "rrf_part r (x # ids) i = (if i = x then 1 / (rrf_k + real (r + 1)) else rrf_part (Suc r) ids i)"
  by (cases "position ids i") (simp_all add: rrf_part_def rrf_k_def del: position_None)

lemma add_leg_formula:
  "distinct ids \<Longrightarrow> distinct (map fst es) \<Longrightarrow>
     add_leg r ids es = map (\<lambda>e. (fst e, snd e + rrf_part r ids (fst e))) es
       @ map (\<lambda>i. (i, rrf_part r ids i)) (filter (\<lambda>i. i \<notin> fst ` set es) ids)"
proof (induction ids arbitrary: r es)
  case Nil
  then show ?case by (simp add: rrf_part_def)
next
  case (Cons i ids)
  let ?x = "1 / (rrf_k + real (r + 1))"
  have i: "i \<notin> set ids" "distinct ids" using Cons.prems by auto
  have tail: "map (\<lambda>j. (j, rrf_part (Suc r) ids j)) (filter (\<lambda>j. j \<notin> K) ids) =
      map (\<lambda>j. (j, rrf_part r (i # ids) j)) (filter (\<lambda>j. j \<notin> K) ids)" for K
    using i by (auto simp: rrf_part_Cons)
  show ?case
  proof (cases "i \<in> fst ` set es")
    case True
    let ?es = "map (\<lambda>e. if fst e = i then (i, snd e + ?x) else e) es"
    have keys: "map fst ?es = map fst es" by auto
    then have "set (map fst ?es) = set (map fst es)" by (rule arg_cong)
    then have set: "fst ` set ?es = fst ` set es" by (simp only: set_map)
    have "add_leg (Suc r) ids ?es = map (\<lambda>e. (fst e, snd e + rrf_part (Suc r) ids (fst e))) ?es
        @ map (\<lambda>j. (j, rrf_part (Suc r) ids j)) (filter (\<lambda>j. j \<notin> fst ` set ?es) ids)"
      by (rule Cons.IH [OF i(2)]) (unfold keys, rule Cons.prems(2))
    moreover have "map (\<lambda>e. (fst e, snd e + rrf_part (Suc r) ids (fst e))) ?es =
        map (\<lambda>e. (fst e, snd e + rrf_part r (i # ids) (fst e))) es"
      using i by (auto simp: rrf_part_Cons rrf_part_outside)
    ultimately have "add_leg (Suc r) ids ?es = map (\<lambda>e. (fst e, snd e + rrf_part r (i # ids) (fst e))) es
        @ map (\<lambda>j. (j, rrf_part r (i # ids) j)) (filter (\<lambda>j. j \<notin> fst ` set es) ids)"
      by (simp only: set tail)
    moreover have "bump i ?x es = ?es" using True by (simp add: bump_def)
    ultimately show ?thesis using True by (simp only: add_leg.simps filter.simps if_False not_not simp_thms)
  next
    case False
    have "add_leg (Suc r) ids (es @ [(i, ?x)]) =
        map (\<lambda>e. (fst e, snd e + rrf_part (Suc r) ids (fst e))) (es @ [(i, ?x)])
        @ map (\<lambda>j. (j, rrf_part (Suc r) ids j)) (filter (\<lambda>j. j \<notin> fst ` set (es @ [(i, ?x)])) ids)"
      by (rule Cons.IH [OF i(2)]) (use Cons.prems False in auto)
    moreover have "map (\<lambda>e. (fst e, snd e + rrf_part (Suc r) ids (fst e))) es =
        map (\<lambda>e. (fst e, snd e + rrf_part r (i # ids) (fst e))) es"
      using False by (auto simp: rrf_part_Cons)
    moreover have "filter (\<lambda>j. j \<notin> fst ` set (es @ [(i, ?x)])) ids = filter (\<lambda>j. j \<notin> fst ` set es) ids"
      using i by (auto intro!: filter_cong)
    ultimately show ?thesis using False i by (simp add: bump_def tail rrf_part_Cons rrf_part_outside)
  qed
qed

lemma insort_key_map: "insort_key f (g x) (map g xs) = map g (insort_key (\<lambda>y. f (g y)) x xs)"
  by (induction xs) auto

lemma sort_key_map: "sort_key f (map g xs) = map g (sort_key (\<lambda>y. f (g y)) xs)"
  by (induction xs) (simp_all add: insort_key_map)

lemma fuse_rrf_formula:
  assumes "distinct lexical" and "distinct semantic"
  shows "fuse_rrf lexical semantic limit = rrf_reference lexical semantic limit"
proof -
  let ?score = "\<lambda>i. rrf_part 0 lexical i + rrf_part 0 semantic i"
  let ?ids = "lexical @ filter (\<lambda>i. i \<notin> set lexical) semantic"
  have lex: "add_leg 0 lexical [] = map (\<lambda>i. (i, rrf_part 0 lexical i)) lexical"
    using add_leg_formula [OF assms(1), of "[]" 0] by simp
  have "add_leg 0 semantic (add_leg 0 lexical []) =
      map (\<lambda>i. (i, ?score i)) lexical
      @ map (\<lambda>i. (i, rrf_part 0 semantic i)) (filter (\<lambda>i. i \<notin> set lexical) semantic)"
    unfolding lex using add_leg_formula [OF assms(2), of "map (\<lambda>i. (i, rrf_part 0 lexical i)) lexical" 0] assms(1)
    by (simp add: comp_def image_image)
  also have "\<dots> = map (\<lambda>i. (i, ?score i)) ?ids" by (simp add: rrf_part_outside)
  finally show ?thesis
    unfolding fuse_rrf_def rrf_reference_def by (simp only: sort_key_map take_map map_map) (simp add: comp_def)
qed



section \<open>What an answer lists\<close>

text \<open>A row found in city \<open>c\<close> by a query at one of the given instants.\<close>

definition found_in :: "db \<Rightarrow> instant set \<Rightarrow> uuid \<Rightarrow> search_row \<Rightarrow> bool" where
  "found_in d T c r =
     (sr_event r \<in> set (events d) \<and> sr_venue r \<in> set (venues d) \<and> v_id (sr_venue r) = e_venue_id (sr_event r) \<and>
      v_city_id (sr_venue r) = c \<and> (\<exists>now \<in> T. showable now (sr_event r)))"

lemma find_venue_set: "find_venue d i = Some v \<Longrightarrow> v \<in> set (venues d) \<and> v_id v = i"
  by (auto simp: find_venue_def dest: find_in_set)

lemma city_row_found: "city_row_of c now d e = Some r \<Longrightarrow> e \<in> set (events d) \<Longrightarrow> found_in d {now} c r"
  by (auto simp: city_row_of_def found_in_def split: option.splits if_splits dest: find_venue_set)

lemma found_in_mono: "found_in d T c r \<Longrightarrow> T \<subseteq> T' \<Longrightarrow> found_in d T' c r"
  by (auto simp: found_in_def)

lemma distinct_map_sorted_prefix:
  "distinct (map g xs) \<Longrightarrow> distinct (map g (take n (sort_key f xs)))"
  by (metis distinct_map distinct_sort distinct_take inj_on_subset set_sort set_take_subset)

text \<open>Both queries answer a prefix of the sorted rows of a part of the table.\<close>

lemma city_rows_found:
  assumes "distinct (map e_id (events d))"
  shows "(\<forall>r \<in> set (take n (sort_key f (List.map_filter (city_row_of c now d) (filter P (events d))))). found_in d {now} c r) \<and>
    distinct (map hit_id (take n (sort_key f (List.map_filter (city_row_of c now d) (filter P (events d))))))"
proof -
  let ?rows = "List.map_filter (city_row_of c now d) (filter P (events d))"
  have id: "city_row_of c now d e = Some r \<Longrightarrow> hit_id r = e_id e" for e r
    by (auto simp: city_row_of_def hit_id_def split: option.splits if_splits)
  have "distinct (map hit_id ?rows)"
    by (rule map_filter_keyed [where k = e_id]) (use assms in \<open>auto simp: keyed_def distinct_map inj_on_def dest!: id\<close>)
  moreover have "\<forall>r \<in> set ?rows. found_in d {now} c r"
    by (auto simp: set_map_filter intro: city_row_found)
  ultimately show ?thesis by (auto dest!: in_set_takeD intro: distinct_map_sorted_prefix)
qed

lemma select_search_events_found:
  assumes ids: "distinct (map e_id (events d))" and q: "select_search_events S c n q now d = Inr (rows, d')"
  shows "d' = d \<and> (\<forall>r \<in> set rows. found_in d {now} c r) \<and> distinct (map hit_id rows)"
proof -
  have d: "d' = d" and rows: "rows = take n (sort_key (\<lambda>r. (- Max (set (scores_of (search_candidates S q d) (e_id (sr_event r)))),
        e_starts_at (sr_event r), e_id (sr_event r)))
      (List.map_filter (city_row_of c now d) (filter (\<lambda>e. scores_of (search_candidates S q d) (e_id e) \<noteq> []) (events d))))"
    using q unfolding select_search_events_def Let_def by (blast dest: sym)+
  show ?thesis unfolding rows using d city_rows_found [OF ids] by blast
qed

lemma select_search_semantic_found:
  assumes ids: "distinct (map e_id (events d))" and q: "select_search_semantic S c v n now d = Inr (rows, d')"
  shows "d' = d \<and> (\<forall>r \<in> set rows. found_in d {now} c r) \<and> distinct (map hit_id rows)"
proof -
  have d: "d' = d" and rows: "rows = take n (sort_key (\<lambda>r. (se_distance S (case e_embedding (sr_event r) of None \<Rightarrow> [] | Some x \<Rightarrow> x) v,
        e_id (sr_event r)))
      (List.map_filter (city_row_of c now d) (filter (\<lambda>e. e_embedding e \<noteq> None) (events d))))"
    using q unfolding select_search_semantic_def by (auto split: if_splits simp del: not_None_eq)
  show ?thesis unfolding rows using d city_rows_found [OF ids] by blast
qed

lemma results_for_Cons:
  "results_for (i # ids) rows =
     (case find (\<lambda>r. hit_id r = i) rows of None \<Rightarrow> [] | Some r \<Rightarrow> [r]) @ results_for ids rows"
  by (simp add: results_for_def map_filter_simps split: option.split)

lemma results_for_Nil: "results_for [] rows = []"
  by (simp add: results_for_def map_filter_simps)

lemma results_for_ids: "hit_id ` set (results_for ids rows) \<subseteq> set ids"
proof (induction ids)
  case (Cons i ids)
  have "find (\<lambda>r. hit_id r = i) rows = Some r \<Longrightarrow> hit_id r = i" for r by (auto dest: find_in_set)
  with Cons show ?case by (auto simp: results_for_Cons split: option.splits)
qed (simp add: results_for_Nil)

lemma results_for_rows: "set (results_for ids rows) \<subseteq> set rows"
  by (induction ids) (auto simp: results_for_Nil results_for_Cons split: option.splits dest!: find_in_set [OF sym])

lemma results_for_distinct: "distinct ids \<Longrightarrow> distinct (map hit_id (results_for ids rows))"
proof (induction ids)
  case (Cons i ids)
  have "find (\<lambda>r. hit_id r = i) rows = Some r \<Longrightarrow> hit_id r = i" for r by (auto dest: find_in_set)
  with Cons results_for_ids [of ids rows] show ?case by (auto simp: results_for_Cons split: option.splits)
qed (simp add: results_for_Nil)

lemma results_for_length: "length (results_for ids rows) \<le> length ids"
  by (induction ids) (auto simp: results_for_Nil results_for_Cons split: option.splits)

lemma fuse_rrf_listed:
  assumes "distinct lexical" and "distinct semantic"
  shows "distinct (fuse_rrf lexical semantic limit)" and "length (fuse_rrf lexical semantic limit) \<le> nat limit"
proof -
  let ?ids = "lexical @ filter (\<lambda>i. i \<notin> set lexical) semantic"
  have "distinct ?ids" using assms by auto
  then have "distinct (take n (sort_key f ?ids))" for n and f :: "uuid \<Rightarrow> real"
    by (intro distinct_take) (simp only: distinct_sort)
  then show "distinct (fuse_rrf lexical semantic limit)"
    unfolding fuse_rrf_formula [OF assms] rrf_reference_def by blast
  show "length (fuse_rrf lexical semantic limit) \<le> nat limit"
    unfolding fuse_rrf_formula [OF assms] rrf_reference_def by simp
qed

definition listed :: "db \<Rightarrow> instant set \<Rightarrow> uuid \<Rightarrow> search_row list \<Rightarrow> bool" where
  "listed d T c rows =
     (length rows \<le> search_result_limit \<and> distinct (map hit_id rows) \<and> (\<forall>r \<in> set rows. found_in d T c r))"

lemma results_for_listed:
  assumes "distinct ids" and "length ids \<le> search_result_limit" and "\<forall>r \<in> set rows. found_in d T c r"
  shows "listed d T c (results_for ids rows)"
  using assms results_for_distinct [of ids rows] results_for_length [of ids rows] results_for_rows [of ids rows]
  by (auto simp: listed_def)

lemma fallback_listed:
  "distinct (map hit_id rows) \<Longrightarrow> \<forall>r \<in> set rows. found_in d T c r \<Longrightarrow>
     listed d T c (results_for (take search_result_limit (map hit_id rows)) rows)"
  by (rule results_for_listed) (auto simp: distinct_take)

lemma fused_listed:
  assumes "distinct (map hit_id rows)" and "distinct (map hit_id srows)"
    and "\<forall>r \<in> set rows. found_in d T c r" and "\<forall>r \<in> set srows. found_in d T c r"
  shows "listed d T c (results_for
           (fuse_rrf (map hit_id rows) (map hit_id srows) (int search_result_limit)) (rows @ srows))"
  by (rule results_for_listed) (use fuse_rrf_listed [OF assms(1,2), of "int search_result_limit"] assms(3,4) in auto)

section \<open>The answers\<close>

abbreviation search_ticks :: "'l world \<Rightarrow> instant set" where
  "search_ticks w \<equiv> {clock (w_env w) (w_step w), clock (w_env w) (w_step w + 2)}"

definition answered :: "search_row list \<Rightarrow> response" where
  "answered rows = write_json 200 (JObj [(''results'', JArr (map search_result rows))])"

lemma semantic_leg_listed:
  assumes ids: "distinct (map e_id (events (w_db w)))" and rows: "distinct (map hit_id rows)"
    and found: "\<forall>r \<in> set rows. found_in (w_db w) T c r"
    and run: "run_state (apply_semantic_leg S enabled E c q rows) w = (results, w')"
    and later: "clock (w_env w) (Suc (w_step w)) \<in> T"
  shows "listed (w_db w) T c results \<and> w_db w' = w_db w"
proof -
  note fb = fallback_listed [OF rows found]
  let ?w = "tick w"
  have fused: ?thesis if "run_query (select_search_semantic S c v search_candidate_limit) ?w = (Inr srows, w2)"
    and "results = results_for (fuse_rrf (map hit_id rows) (map hit_id srows) (int search_result_limit)) (rows @ srows)"
    and "w' = w2" for v srows w2
  proof -
    from run_query_Inr [OF that(1)]
    have q: "select_search_semantic S c v search_candidate_limit (now_of ?w) (w_db w) = Inr (srows, w_db w2)" by simp
    note sf = select_search_semantic_found [OF ids q]
    have "\<forall>r \<in> set srows. found_in (w_db w) T c r"
      using sf later by (auto intro: found_in_mono)
    with fused_listed [OF rows _ found] sf that show ?thesis by simp
  qed
  have failed: "w_db w2 = w_db w"
    if "run_query (select_search_semantic S c v search_candidate_limit) ?w = (Inl e, w2)" for v e w2
    using run_query_db [of "select_search_semantic S c v search_candidate_limit" ?w] that
      select_search_semantic_found [OF ids] by force
  show ?thesis
    using run fb failed fused
    by (auto simp: apply_semantic_leg_def search_embed_def Let_def split: option.splits if_splits list.splits
        prod.splits sum.splits)
qed

text \<open>
  C28. Whatever fails on the way (the embedder, the semantic query, its vector), a search that
  answers 200 lists at most ten different events of the asked city, every one stored, with the
  venue it is stored with, and not over or archived when its query read the clock; and it
  changes nothing in the database.
\<close>

theorem search_results:
  assumes "distinct (map e_id (events (w_db w)))"
    and "run_state (search_events P S enabled E city q) w = (resp, w')" and "r_status resp = 200"
  shows "\<exists>c rows. P city = Some c \<and> resp = answered rows \<and> listed (w_db w) (search_ticks w) c rows \<and>
    w_db w' = w_db w"
proof -
  have no_err: "r_status (http_err n x y) = n" for n x y by (simp add: http_err_def respond_def)
  obtain c where c: "P city = Some c"
    using assms(2,3) by (auto simp: search_events_def no_err split: option.splits)
  obtain query where query: "parse_search_query q = Inr query"
    using assms(2,3) c by (auto simp: search_events_def parse_search_query_def no_err Let_def split: if_splits)
  let ?q = "select_search_events S c (if enabled then search_candidate_limit else search_result_limit) query"
  obtain rs w1 where q: "run_query ?q w = (Inr rs, w1)"
    using assms(2,3) c query
    by (cases "fst (run_query ?q w)") (auto simp: search_events_def no_err split: prod.splits)
  from run_query_Inr [OF q] have read: "?q (now_of w) (w_db w) = Inr (rs, w_db w1)"
    and w1: "w1 = tick (w\<lparr>w_db := w_db w1\<rparr>)" by blast+
  note found = select_search_events_found [OF assms(1) read]
  then have w1: "w1 = tick w" using w1 by simp
  obtain results where leg: "run_state (apply_semantic_leg S enabled E c query rs) (tick w) = (results, w')"
    and resp: "resp = answered results"
    using assms(2) c query q w1 by (auto simp: search_events_def answered_def split: prod.splits)
  have "\<forall>r \<in> set rs. found_in (w_db w) (search_ticks w) c r"
    using found by (auto intro: found_in_mono simp: now_of_def)
  then have "listed (w_db w) (search_ticks w) c results \<and> w_db w' = w_db w"
    using semantic_leg_listed [OF _ _ _ leg] assms(1) found by simp
  then show ?thesis using c resp by blast
qed

definition demo_search_env :: search_env where
  "demo_search_env = \<lparr>se_similar = (\<lambda>_ _. True), se_similarity = (\<lambda>_ _. 1), se_distance = (\<lambda>_ _. 0)\<rparr>"

definition demo_hit :: search_row where
  "demo_hit = \<lparr>sr_event = demo_event 2 (10957 * day), sr_venue = demo_venue\<rparr>"

abbreviation demo_search :: "response \<times> unit world" where
  "demo_search \<equiv> run_state (search_events (\<lambda>_. Some 3) demo_search_env False None ''3'' ''neumos'') demo_one"

lemma demo_query: "parse_search_query ''neumos'' = Inr ''neumos''" by code_simp

lemma demo_select: "select_search_events demo_search_env 3 search_result_limit ''neumos'' (now_of demo_one) (w_db demo_one)
    = Inr ([demo_hit], w_db demo_one)"
  by (simp add: select_search_events_def search_candidates_def scores_of_def Let_def map_filter_simps city_row_of_def
      find_venue_def showable_def event_over_at_def now_of_def demo_search_env_def demo_hit_def search_result_limit_def
      demo_catalogue_defs)

lemma demo_search_run: "demo_search = (answered [demo_hit], tick demo_one)"
proof -
  have "results_for (take search_result_limit (map hit_id [demo_hit])) [demo_hit] = [demo_hit]"
    by (simp add: results_for_def search_result_limit_def map_filter_simps)
  then show ?thesis
    using run_query_read [of demo_one "select_search_events demo_search_env 3 search_result_limit ''neumos''" "[demo_hit]",
        OF demo_feed_ok(4) demo_select]
    by (simp add: search_events_def demo_query apply_semantic_leg_def Let_def answered_def)
qed

theorem search_results_witness:
  "\<exists>rows. fst demo_search = answered rows \<and> listed (w_db demo_one) (search_ticks demo_one) 3 rows"
proof -
  have "distinct (map e_id (events (w_db demo_one)))" by (simp add: demo_catalogue_defs)
  moreover have "r_status (answered [demo_hit]) = 200" by (simp add: answered_def write_json_def respond_def)
  ultimately show ?thesis
    using search_results [OF _ demo_search_run] by (auto simp: demo_search_run)
qed

end
