(* ===== verification/Middleware.thy ===== *)
theory Middleware
  imports AuthHandlers Spotify
begin

text \<open>
  The middleware chain (\<open>internal/http/middleware\<close>): the client address behind the proxy
  (\<open>clientip.go\<close>, with the parts of \<open>net\<close> it uses), CORS (\<open>cors.go\<close>), the two gates
  (\<open>auth.go\<close>, \<open>confirmed.go\<close>) and the rate limits (\<open>ratelimit.go\<close>). A middleware takes the
  handler behind it as an argument; \<open>outcome\<close> lets a handler never answer.
\<close>

type_synonym 'l served = "('l, response outcome) act"

definition answer :: "response \<Rightarrow> 'l served" where
  "answer r = ret (Answers r)"

section \<open>Addresses\<close>

text \<open>\<open>net.SplitHostPort\<close>, its host or None.\<close>

definition last_index :: "string \<Rightarrow> char \<Rightarrow> nat option" where
  "last_index s c = map_option (\<lambda>i. length s - Suc i) (index_byte (rev s) c)"

definition split_host :: "string \<Rightarrow> string option" where
  "split_host s =
     (case last_index s (CHR '':'') of
        None \<Rightarrow> None
      | Some i \<Rightarrow>
          if has_prefix s ''['' then
            (case index_byte s (CHR '']'') of
               None \<Rightarrow> None
             | Some e \<Rightarrow>
                 if Suc e \<noteq> i then None
                 else if CHR ''['' \<in> set (drop 1 s) \<or> CHR '']'' \<in> set (drop (Suc e) s) then None
                 else Some (take (e - 1) (drop 1 s)))
          else if CHR '':'' \<in> set (take i s) \<or> CHR ''['' \<in> set s \<or> CHR '']'' \<in> set s then None
          else Some (take i s))"

definition host_only :: "string \<Rightarrow> string" where
  "host_only addr = (case split_host addr of None \<Rightarrow> addr | Some h \<Rightarrow> h)"

text \<open>The four fields of an IPv4 address: decimal, at most 255, no leading zero.\<close>

definition ipv4_field :: "string \<Rightarrow> bool" where
  "ipv4_field s =
     (case read_dec s of None \<Rightarrow> False | Some n \<Rightarrow> n \<le> 255 \<and> (length s = 1 \<or> \<not> has_prefix s ''0''))"

definition ipv4_ok :: "string \<Rightarrow> bool" where
  "ipv4_ok s = (let fs = split_byte s (CHR ''.'') in length fs = 4 \<and> list_all ipv4_field fs)"

definition is_hex :: "char \<Rightarrow> bool" where
  "is_hex c = (let n = byte_of c in 48 \<le> n \<and> n \<le> 57 \<or> 65 \<le> n \<and> n \<le> 70 \<or> 97 \<le> n \<and> n \<le> 102)"

text \<open>
  The loop of \<open>netip\<close>'s IPv6 parser with \<open>left\<close> groups to go and whether the \<open>::\<close> was seen.
\<close>

fun ipv6_groups :: "nat \<Rightarrow> bool \<Rightarrow> string \<Rightarrow> bool" where
  "ipv6_groups 0 ell s = (s = [] \<and> \<not> ell)"
| "ipv6_groups (Suc left) ell s =
     (let g = takeWhile is_hex s; r = dropWhile is_hex s in
      if g = [] \<or> 4 < length g then False
      else if has_prefix r ''.'' then
        (if \<not> ell \<and> Suc left \<noteq> 2 then False
         else if left = 0 then False
         else ipv4_ok s \<and> (ell \<longrightarrow> 0 < left - 1))
      else if r = [] then (if left = 0 then \<not> ell else ell)
      else if hd r \<noteq> CHR '':'' \<or> tl r = [] then False
      else let s2 = tl r in
        if has_prefix s2 '':'' then
          (if ell then False
           else if tl s2 = [] then 0 < left
           else ipv6_groups left True (tl s2))
        else ipv6_groups left ell s2)"

definition ipv6_ok :: "string \<Rightarrow> bool" where
  "ipv6_ok s =
     (if has_prefix s ''::'' then (if length s = 2 then True else ipv6_groups 8 True (drop 2 s))
      else ipv6_groups 8 False s)"

text \<open>\<open>net.ParseIP\<close>: the first dot or colon decides the family; a zone is refused.\<close>

definition valid_ip :: "string \<Rightarrow> bool" where
  "valid_ip s =
     (case find (\<lambda>c. c \<in> set ''.:%'') s of
        None \<Rightarrow> False
      | Some c \<Rightarrow>
          if c = CHR ''.'' then ipv4_ok s
          else if c = CHR '':'' then CHR ''%'' \<notin> set s \<and> ipv6_ok s
          else False)"

text \<open>\<open>resolveClientIP\<close>; the lines are the values of \<open>X-Forwarded-For\<close> in order.\<close>

definition resolve_client_ip :: "bool \<Rightarrow> string list \<Rightarrow> string \<Rightarrow> string" where
  "resolve_client_ip trust lines remote =
     (if trust \<and> lines \<noteq> []
      then let candidate = trim_space (last (split_byte (last lines) (CHR '','')))
           in if valid_ip candidate then candidate else host_only remote
      else host_only remote)"

text \<open>\<open>ClientIP\<close> reads the address the resolver left in the request.\<close>

definition client_ip :: "bool \<Rightarrow> string list \<Rightarrow> string \<Rightarrow> string" where
  "client_ip trust lines remote = host_only (resolve_client_ip trust lines remote)"

section \<open>CORS\<close>

definition cors_headers :: "string list \<Rightarrow> string \<Rightarrow> (string \<times> string) list" where
  "cors_headers allowed origin =
     (if origin \<noteq> [] \<and> origin \<in> set allowed then
        [(''Access-Control-Allow-Origin'', origin), (''Access-Control-Allow-Credentials'', ''true''),
         (''Access-Control-Allow-Methods'', ''GET, POST, PATCH, DELETE, OPTIONS''),
         (''Access-Control-Allow-Headers'', ''Authorization, Content-Type''), (''Vary'', ''Origin'')]
      else [])"

definition cors ::
    "string list \<Rightarrow> string \<Rightarrow> bool \<Rightarrow> 'l served \<Rightarrow> ('l, (string \<times> string) list \<times> response outcome) act" where
  "cors allowed origin is_options inner =
     (let hs = cors_headers allowed origin in
      if is_options then ret (hs, Answers no_content)
      else do { r \<leftarrow> inner; ret (hs, r) })"

section \<open>The two gates\<close>

definition require_auth :: "crypto_env \<Rightarrow> string \<Rightarrow> (uuid \<Rightarrow> bool \<Rightarrow> 'l served) \<Rightarrow> 'l served" where
  "require_auth C authz inner =
     (if \<not> has_prefix authz ''Bearer '' then
        answer (http_err 401 ''no_token'' ''Authorization header missing or malformed'')
      else do {
        now \<leftarrow> time_now;
        case verify_access C now (trim_prefix authz ''Bearer '') of
          None \<Rightarrow> answer (http_err 401 ''invalid_token'' ''access token is not valid'')
        | Some (u, confirmed) \<Rightarrow> inner u confirmed })"

text \<open>The claim of the context; None outside an authenticated group.\<close>

definition require_confirmed :: "bool option \<Rightarrow> 'l served \<Rightarrow> 'l served" where
  "require_confirmed claim inner =
     (if claim = Some True then inner
      else answer (http_err 403 ''confirmation_required'' ''confirm your email address to use this feature''))"

section \<open>Rate limits\<close>

definition ip_key :: "string \<Rightarrow> string" where "ip_key ip = ''ip:'' @ ip"

definition user_key :: "uuid option \<Rightarrow> string \<Rightarrow> string" where
  "user_key uid ip = (case uid of Some u \<Rightarrow> ''u:'' @ uuid_string u | None \<Rightarrow> ip_key ip)"

text \<open>\<open>retryAfterSeconds\<close>: rounded up, and at least one.\<close>

definition retry_after_seconds :: "instant \<Rightarrow> int" where
  "retry_after_seconds d = (if d \<le> 0 then 1 else max 1 (- ((- d) div second)))"

definition too_many :: "decision \<Rightarrow> response" where
  "too_many d =
     (http_err 429 ''rate_limited'' ''too many requests, please try again later'')
       \<lparr>r_retry_after := Some (retry_after_seconds (d_retry_after d))\<rparr>"

definition limit_every :: "'l limiter \<Rightarrow> string \<Rightarrow> 'l served \<Rightarrow> 'l served" where
  "limit_every L key inner = do {
     d \<leftarrow> limit_allow L key;
     if d_allowed d then do { _ \<leftarrow> limit_record L key; inner }
     else answer (too_many d) }"

definition limit_on_success :: "'l limiter \<Rightarrow> string \<Rightarrow> 'l served \<Rightarrow> 'l served" where
  "limit_on_success L key inner = do {
     d \<leftarrow> limit_allow L key;
     if d_allowed d then do {
       r \<leftarrow> inner;
       case r of
         Hangs \<Rightarrow> ret Hangs
       | Answers resp \<Rightarrow>
           if 200 \<le> r_status resp \<and> r_status resp \<le> 299 then do { _ \<leftarrow> limit_record L key; ret r }
           else ret r }
     else answer (too_many d) }"

end
