(* ===== verification/Router.thy ===== *)
theory Router
  imports Middleware UserLists SpotifyHandlers Ical Search Posters RateLimit AuthSystem
begin

text \<open>
  The server (\<open>internal/http/server.go\<close>): the routes with their gates and budgets, and the
  composition of the middleware with the handlers. A request is what \<open>chi\<close> and the JSON
  decoder make of it: the route with its parameters and its decoded body.
\<close>

section \<open>Routes\<close>

datatype route =
    Preflight
  | Healthz
  | Readyz bool                                    \<comment> \<open>whether the database answers the ping\<close>
  | IcalFeed string
  | PostSignup "(string \<times> string) option"
  | PostLogin "(string \<times> string) option"
  | PostRefresh "string option"
  | PostLogout "string option"
  | GetConfirm string
  | PostResetRequest "string option"
  | PostReset "(string \<times> string) option"
  | GetMeRoute
  | PostResend
  | DeleteMeRoute
  | GetManualInterests
  | GetSpotifyInterests
  | GetSpotifyConnect
  | GetSpotifyStatus
  | GetCalendar page_params
  | GetCityCalendar string page_params
  | GetVenues string string
  | GetSearch string string
  | GetEvent string
  | GetGoing
  | GetGoingEvents
  | GetNotInterested
  | GetManualEvents
  | PatchThreshold "f64 option"
  | PatchSetlists "bool option option"
  | PostNotInterested "string option"
  | DeleteNotInterested
  | PostGoing "string option"
  | DeleteGoing string
  | PostManualEvent "manual_request option"
  | PutManualEvent string "manual_request option"
  | DeleteManualEvent string
  | DeleteSpotify
  | DeleteIcal
  | PostManualInterest "string option"
  | DeleteManualInterest string
  | PostSpotifyExchange "(string \<times> string) option" "string option"
  | PostIcal
  | GetPosterRoute string string string
  | PostPoster "poster_request option"

text \<open>
  The gate of a route with its own limiter, if any: \<open>Public\<close> limits by address (every request,
  or only the successes), \<open>Exempt\<close> wants a token, \<open>Guarded\<close> a token of a confirmed user.
\<close>

datatype policy =
    Unlimited
  | Public string
  | PublicOnSuccess string
  | Exempt "string option"
  | Guarded "string option"

fun policy_of :: "route \<Rightarrow> policy" where
  "policy_of Preflight = Unlimited"
| "policy_of Healthz = Unlimited"
| "policy_of (Readyz _) = Public ''readyz''"
| "policy_of (IcalFeed _) = Public ''ical_feed''"
| "policy_of (PostSignup _) = PublicOnSuccess ''signup''"
| "policy_of (PostLogin _) = Public ''login''"
| "policy_of (PostRefresh _) = Public ''refresh''"
| "policy_of (PostLogout _) = Public ''logout''"
| "policy_of (GetConfirm _) = Public ''confirm''"
| "policy_of (PostResetRequest _) = Public ''password_reset_request''"
| "policy_of (PostReset _) = Public ''password_reset''"
| "policy_of GetMeRoute = Exempt None"
| "policy_of PostResend = Exempt (Some ''confirm_resend'')"
| "policy_of DeleteMeRoute = Exempt (Some ''authed_write'')"
| "policy_of (GetSearch _ _) = Guarded (Some ''search'')"
| "policy_of (PatchThreshold _) = Guarded (Some ''authed_write'')"
| "policy_of (PatchSetlists _) = Guarded (Some ''authed_write'')"
| "policy_of (PostNotInterested _) = Guarded (Some ''authed_write'')"
| "policy_of DeleteNotInterested = Guarded (Some ''authed_write'')"
| "policy_of (PostGoing _) = Guarded (Some ''authed_write'')"
| "policy_of (DeleteGoing _) = Guarded (Some ''authed_write'')"
| "policy_of (PostManualEvent _) = Guarded (Some ''authed_write'')"
| "policy_of (PutManualEvent _ _) = Guarded (Some ''authed_write'')"
| "policy_of (DeleteManualEvent _) = Guarded (Some ''authed_write'')"
| "policy_of DeleteSpotify = Guarded (Some ''authed_write'')"
| "policy_of DeleteIcal = Guarded (Some ''authed_write'')"
| "policy_of (PostManualInterest _) = Guarded (Some ''manual_interests'')"
| "policy_of (DeleteManualInterest _) = Guarded (Some ''manual_interests'')"
| "policy_of (PostSpotifyExchange _ _) = Guarded (Some ''spotify_exchange'')"
| "policy_of PostIcal = Guarded (Some ''ical_token'')"
| "policy_of (PostPoster _) = Guarded (Some ''poster_create'')"
| "policy_of _ = Guarded None"

text \<open>The arguments of \<open>NewMemory\<close> for each limiter: the burst and the window.\<close>

definition budgets :: "(string \<times> nat \<times> instant) list" where
  "budgets =
     [(''signup'', 3, hour), (''login'', 10, minute), (''refresh'', 30, minute), (''logout'', 30, minute),
      (''ical_feed'', 60, minute), (''readyz'', 30, minute), (''authed'', 120, minute), (''authed_write'', 30, minute),
      (''manual_interests'', 60, hour), (''spotify_exchange'', 10, hour), (''ical_token'', 10, hour),
      (''poster_create'', 10, hour), (''search'', 60, minute), (''confirm'', 20, hour), (''confirm_resend'', 3, hour),
      (''password_reset_request'', 10, hour), (''password_reset'', 20, hour), (''password_reset_email'', 3, hour)]"

section \<open>The server\<close>

record 'b server =
  sv_crypto :: crypto_env
  sv_auth :: auth_deps
  sv_spotify :: spotify_env
  sv_hmac_key :: string
  sv_queue :: "string option"
  sv_queue_url :: string
  sv_ical_base :: string
  sv_search :: search_env
  sv_semantic :: bool
  sv_embedder :: "embedder option"
  sv_collate :: "string \<Rightarrow> nat list"
  sv_presigner :: "string \<Rightarrow> string option"
  sv_origins :: "string list"
  sv_trust_proxy :: bool
  sv_buckets :: "'b bucket_lib"
  sv_enum :: "'b bucket list \<Rightarrow> 'b bucket list"

text \<open>The state of the limiters: one memory per endpoint. Each limiter acts on its own.\<close>

type_synonym 'b budgets_state = "string \<Rightarrow> 'b memory"

definition budget_config :: "string \<Rightarrow> memory_config" where
  "budget_config ep =
     (case map_of budgets ep of
        None \<Rightarrow> new_memory_config 0 0
      | Some (n, window) \<Rightarrow> new_memory_config n window)"

definition limiter_at :: "'b server \<Rightarrow> string \<Rightarrow> 'b budgets_state limiter" where
  "limiter_at S ep =
     \<lparr>l_allow = (\<lambda>now key st. case mem_allow (sv_buckets S) (budget_config ep) (sv_enum S) now key (st ep) of
        (d, m) \<Rightarrow> (d, st(ep := m))),
      l_record = (\<lambda>now key st. st(ep := mem_record (sv_buckets S) (budget_config ep) (sv_enum S) now key (st ep)))\<rparr>"

definition reset_deps_of :: "'b server \<Rightarrow> 'b budgets_state reset_deps" where
  "reset_deps_of S =
     \<lparr>rd_sender = cf_sender (ad_conf (sv_auth S)), rd_app_base = cf_app_base (ad_conf (sv_auth S)),
      rd_limiter = Some (limiter_at S ''password_reset_email'')\<rparr>"

definition healthz :: "'l handler" where
  "healthz = ret (write_json 200 (JObj [(''status'', JStr ''ok'')]))"

definition readyz :: "bool \<Rightarrow> 'l handler" where
  "readyz up =
     ret (if \<not> up then write_json 503 (JObj [(''status'', JStr ''db-unreachable'')])
          else write_json 200 (JObj [(''status'', JStr ''ready'')]))"

definition plainly :: "'l handler \<Rightarrow> 'l served" where
  "plainly h = do { r \<leftarrow> h; ret (Answers r) }"

definition first_of :: "('l, response \<times> 'x) act \<Rightarrow> 'l served" where
  "first_of h = do { r \<leftarrow> h; ret (Answers (fst r)) }"

text \<open>The handler of a route, given the user of the request context.\<close>

fun handler_of :: "'b server \<Rightarrow> uuid option \<Rightarrow> route \<Rightarrow> 'b budgets_state served" where
  "handler_of S uid Preflight = answer (respond 405 NoBody)"
| "handler_of S uid Healthz = plainly healthz"
| "handler_of S uid (Readyz up) = plainly (readyz up)"
| "handler_of S uid (IcalFeed tok) = plainly (get_ical_feed (sv_crypto S) tok)"
| "handler_of S uid (PostSignup b) = plainly (signup (sv_crypto S) (sv_auth S) b)"
| "handler_of S uid (PostLogin b) = plainly (login (sv_crypto S) (sv_auth S) b)"
| "handler_of S uid (PostRefresh c) = plainly (refresh (sv_crypto S) (sv_auth S) c)"
| "handler_of S uid (PostLogout c) = plainly (logout (sv_crypto S) c)"
| "handler_of S uid (GetConfirm t) = plainly (confirm_email (sv_crypto S) (ad_conf (sv_auth S)) t)"
| "handler_of S uid (PostResetRequest e) = plainly (request_password_reset (sv_crypto S) (reset_deps_of S) e)"
| "handler_of S uid (PostReset b) = plainly (reset_password (sv_crypto S) (reset_deps_of S) b)"
| "handler_of S uid GetMeRoute = plainly (get_me uid)"
| "handler_of S uid PostResend = plainly (resend_confirmation (sv_crypto S) (ad_conf (sv_auth S)) uid)"
| "handler_of S uid DeleteMeRoute = plainly (delete_me uid)"
| "handler_of S uid GetManualInterests = plainly (list_manual_interests uid)"
| "handler_of S uid GetSpotifyInterests = plainly (list_spotify_interests (sv_collate S) uid)"
| "handler_of S uid GetSpotifyConnect = first_of (spotify_connect (sv_spotify S) (sv_hmac_key S))"
| "handler_of S uid GetSpotifyStatus = plainly (spotify_status uid)"
| "handler_of S uid (GetCalendar pp) = plainly (get_my_calendar (parse_uuid (sv_crypto S)) uid pp)"
| "handler_of S uid (GetCityCalendar c pp) = plainly (get_city_calendar (parse_uuid (sv_crypto S)) c pp)"
| "handler_of S uid (GetVenues c seg) = plainly (list_city_venues (parse_uuid (sv_crypto S)) (sv_collate S) c seg)"
| "handler_of S uid (GetSearch c q) =
     plainly (search_events (parse_uuid (sv_crypto S)) (sv_search S) (sv_semantic S) (sv_embedder S) c q)"
| "handler_of S uid (GetEvent i) = plainly (get_event_by_id_for_user (parse_uuid (sv_crypto S)) uid i)"
| "handler_of S uid GetGoing = plainly (list_going uid)"
| "handler_of S uid GetGoingEvents = plainly (list_going_events uid)"
| "handler_of S uid GetNotInterested = plainly (list_not_interested uid)"
| "handler_of S uid GetManualEvents = plainly (list_manual_events uid)"
| "handler_of S uid (PatchThreshold th) = first_of (update_match_threshold uid th)"
| "handler_of S uid (PatchSetlists b) = plainly (update_show_setlists uid b)"
| "handler_of S uid (PostNotInterested e) = plainly (add_not_interested (parse_uuid (sv_crypto S)) uid e)"
| "handler_of S uid DeleteNotInterested = plainly (reset_not_interested uid)"
| "handler_of S uid (PostGoing e) = plainly (add_going (parse_uuid (sv_crypto S)) uid e)"
| "handler_of S uid (DeleteGoing e) = plainly (reset_going (parse_uuid (sv_crypto S)) uid e)"
| "handler_of S uid (PostManualEvent m) = plainly (create_manual_event uid m)"
| "handler_of S uid (PutManualEvent i m) = plainly (update_manual_event (parse_uuid (sv_crypto S)) uid i m)"
| "handler_of S uid (DeleteManualEvent i) = plainly (delete_manual_event (parse_uuid (sv_crypto S)) uid i)"
| "handler_of S uid DeleteSpotify = plainly (spotify_disconnect uid)"
| "handler_of S uid DeleteIcal = plainly (revoke_ical_token uid)"
| "handler_of S uid (PostManualInterest v) =
     plainly (create_manual_interest (cr_text (sv_crypto S)) (sv_queue S) uid v)"
| "handler_of S uid (DeleteManualInterest i) =
     plainly (delete_manual_interest (parse_uuid (sv_crypto S)) (sv_queue S) uid i)"
| "handler_of S uid (PostSpotifyExchange b c) = do {
     r \<leftarrow> spotify_exchange (sv_spotify S) (cr_text (sv_crypto S)) (sv_hmac_key S) (sv_queue_url S) uid b c;
     ret (case fst r of None \<Rightarrow> Hangs | Some resp \<Rightarrow> Answers resp) }"
| "handler_of S uid PostIcal = plainly (create_ical_token (sv_crypto S) (sv_ical_base S) uid)"
| "handler_of S uid (GetPosterRoute p v d) = plainly (get_poster (sv_crypto S) (sv_presigner S) uid p v d)"
| "handler_of S uid (PostPoster b) = first_of (create_poster (sv_crypto S) uid b)"

section \<open>The chain\<close>

record request =
  rq_remote :: string
  rq_forwarded :: "string list"
  rq_origin :: string
  rq_authorization :: string
  rq_route :: route

definition optional_limit :: "'b server \<Rightarrow> string option \<Rightarrow> string \<Rightarrow> 'b budgets_state served \<Rightarrow> 'b budgets_state served" where
  "optional_limit S ep key inner = (case ep of None \<Rightarrow> inner | Some e \<Rightarrow> limit_every (limiter_at S e) key inner)"

definition routed :: "'b server \<Rightarrow> request \<Rightarrow> 'b budgets_state served" where
  "routed S rq =
     (let ip = client_ip (sv_trust_proxy S) (rq_forwarded rq) (rq_remote rq);
          rt = rq_route rq;
          authed = (\<lambda>u inner. limit_every (limiter_at S ''authed'') (user_key (Some u) ip) inner)
      in case policy_of rt of
           Unlimited \<Rightarrow> handler_of S None rt
         | Public ep \<Rightarrow> limit_every (limiter_at S ep) (ip_key ip) (handler_of S None rt)
         | PublicOnSuccess ep \<Rightarrow> limit_on_success (limiter_at S ep) (ip_key ip) (handler_of S None rt)
         | Exempt ep \<Rightarrow>
             require_auth (sv_crypto S) (rq_authorization rq) (\<lambda>u claim.
               authed u (optional_limit S ep (user_key (Some u) ip) (handler_of S (Some u) rt)))
         | Guarded ep \<Rightarrow>
             require_auth (sv_crypto S) (rq_authorization rq) (\<lambda>u claim.
               authed u (require_confirmed (Some claim)
                 (optional_limit S ep (user_key (Some u) ip) (handler_of S (Some u) rt)))))"

text \<open>The whole: the headers CORS adds, and the answer. Without configured origins there is no CORS.\<close>

definition serve :: "'b server \<Rightarrow> request \<Rightarrow> ('b budgets_state, (string \<times> string) list \<times> response outcome) act" where
  "serve S rq =
     (if sv_origins S \<noteq> [] then cors (sv_origins S) (rq_origin rq) (rq_route rq = Preflight) (routed S rq)
      else do { r \<leftarrow> routed S rq; ret ([], r) })"

definition trust_proxy_warning :: "'b server \<Rightarrow> string" where
  "trust_proxy_warning S =
     (if sv_trust_proxy S then []
      else ''WARNING: TRUST_PROXY is not set'' @ em_dash @ ''rate limiting will key on RemoteAddr. '' @
        ''This is correct for direct connections but WRONG behind a proxy/ALB, where all '' @
        ''clients share one address and the rate limits apply site-wide. Set TRUST_PROXY=true '' @
        ''when running behind the load balancer.'')"

end
