(* ===== verification/ServerProps.thy ===== *)
theory ServerProps
  imports Router AuthProps SpotifyProps SearchProps
begin

text \<open>
  What the chain in front of the handlers guarantees: the address a budget is charged to
  cannot be chosen by the client behind a proxy, and a guarded handler runs only for the user
  of a valid token that carries the confirmed claim.
\<close>

section \<open>Addresses\<close>

definition colons :: "string \<Rightarrow> nat" where
  "colons s = length (filter (\<lambda>c. c = CHR '':'') s)"

lemma colons_simps [simp]:
  "colons [] = 0" "colons (c # s) = (if c = CHR '':'' then Suc (colons s) else colons s)"
  "colons (s @ t) = colons s + colons t"
  by (simp_all add: colons_def)

lemma colons_zero: "CHR '':'' \<notin> set s \<Longrightarrow> colons s = 0"
  by (auto simp: colons_def filter_empty_conv)

definition address_char :: "char \<Rightarrow> bool" where
  "address_char c = (is_hex c \<or> c \<in> {CHR ''.'', CHR '':''})"

lemma split_byte_chars:
  "set s \<subseteq> {c} \<union> \<Union> (set ` set (split_byte s c))"
proof (induction s)
  case (Cons x s)
  then show ?case by (cases "split_byte s c") (auto split: if_splits)
qed simp

lemma ipv4_chars:
  assumes "ipv4_ok s"
  shows "\<forall>c \<in> set s. address_char c \<and> c \<noteq> CHR '':''"
proof
  fix c assume "c \<in> set s"
  then consider "c = CHR ''.''" | f where "f \<in> set (split_byte s (CHR ''.''))" "c \<in> set f"
    using split_byte_chars [of s "CHR ''.''"] by blast
  then show "address_char c \<and> c \<noteq> CHR '':''"
  proof cases
    case 2
    have "ipv4_field f" using assms 2(1) by (auto simp: ipv4_ok_def Let_def list_all_iff)
    then have "dec_val c \<noteq> None"
      using 2(2) by (auto simp: ipv4_field_def read_dec_def list_all_iff split: option.splits if_splits)
    then have "48 \<le> byte_of c \<and> byte_of c \<le> 57" by (simp add: dec_val_def split: if_splits)
    then show ?thesis by (auto simp: address_char_def is_hex_def Let_def)
  qed (simp add: address_char_def)
qed

lemma hex_run:
  "set (takeWhile is_hex s) \<subseteq> Collect is_hex" "s = takeWhile is_hex s @ dropWhile is_hex s"
  by (auto dest: set_takeWhileD)

lemma hex_run_all: "\<forall>c \<in> set (dropWhile is_hex s). address_char c \<Longrightarrow> \<forall>c \<in> set s. address_char c"
  by (metis UnE address_char_def hex_run(2) set_append set_takeWhileD)

lemma colons_run: "colons (dropWhile is_hex s) \<le> colons s"
  by (metis colons_simps(3) hex_run(2) le_add2)

text \<open>What one turn of the IPv6 loop can find after its run of hex digits.\<close>

lemma ipv6_groups_cases:
  assumes "ipv6_groups (Suc left) ell s"
  obtains (stop) "dropWhile is_hex s = []" "ell \<or> left = 0"
  | (dotted) "ipv4_ok s" "ell \<or> left = 1"
  | (ellipsis) t where "dropWhile is_hex s = CHR '':'' # CHR '':'' # t" "\<not> ell" "t = [] \<or> ipv6_groups left True t"
  | (group) t where "dropWhile is_hex s = CHR '':'' # t" "ipv6_groups left ell t"
proof (cases "dropWhile is_hex s")
  case Nil
  then show thesis using assms stop by (auto simp: Let_def has_prefix_def simp del: dropWhile_eq_Nil_conv split: if_splits)
next
  case (Cons c r)
  show thesis
  proof (cases "has_prefix (dropWhile is_hex s) ''.''")
    case True
    then show thesis using assms dotted by (auto simp: Let_def split: if_splits)
  next
    case False
    then have c: "c = CHR '':''" "r \<noteq> []" and r: "if has_prefix r '':'' then
          (if ell then False else if tl r = [] then 0 < left else ipv6_groups left True (tl r))
        else ipv6_groups left ell r"
      using assms Cons by (auto simp: Let_def split: if_splits)
    show thesis
    proof (cases "has_prefix r '':''")
      case True
      then obtain t where "r = CHR '':'' # t" by (cases r) (auto simp: has_prefix_def)
      then show thesis using ellipsis r True c Cons by (auto split: if_splits)
    next
      case False
      then show thesis using group r c Cons by auto
    qed
  qed
qed

lemma ipv6_groups_chars: "ipv6_groups n ell s \<Longrightarrow> \<forall>c \<in> set s. address_char c"
proof (induction n arbitrary: ell s)
  case (Suc left)
  have colon: "address_char (CHR '':'')" by (simp add: address_char_def)
  from Suc.prems show ?case
  proof (cases rule: ipv6_groups_cases)
    case dotted
    then show ?thesis using ipv4_chars by blast
  next
    case (ellipsis t)
    then have "\<forall>c \<in> set t. address_char c" using Suc.IH [of True t] by auto
    then have "\<forall>c \<in> set (dropWhile is_hex s). address_char c" unfolding ellipsis(1) using colon by simp
    then show ?thesis by (rule hex_run_all)
  next
    case (group t)
    have "\<forall>c \<in> set (dropWhile is_hex s). address_char c" unfolding group(1) using Suc.IH [OF group(2)] colon by simp
    then show ?thesis by (rule hex_run_all)
  next
    case stop
    have "\<forall>c \<in> set (dropWhile is_hex s). address_char c" unfolding stop(1) by simp
    then show ?thesis by (rule hex_run_all)
  qed
qed simp

lemma ipv6_groups_colons: "ipv6_groups n False s \<Longrightarrow> min 2 (n - 2) \<le> colons s"
proof (induction n arbitrary: s)
  case (Suc left)
  from Suc.prems show ?case
  proof (cases rule: ipv6_groups_cases)
    case (ellipsis t)
    then show ?thesis using colons_run [of s] by simp
  next
    case (group t)
    then show ?thesis using Suc.IH [of t] colons_run [of s] by simp
  qed auto
qed simp

lemma valid_ip_chars:
  assumes "valid_ip s"
  shows "\<forall>c \<in> set s. address_char c" and "colons s = 0 \<or> 2 \<le> colons s"
proof -
  have "ipv4_ok s \<or> ipv6_ok s" using assms by (auto simp: valid_ip_def split: option.splits if_splits)
  then have "(\<forall>c \<in> set s. address_char c) \<and> (colons s = 0 \<or> 2 \<le> colons s)"
  proof
    assume "ipv4_ok s"
    then show ?thesis using ipv4_chars colons_zero by blast
  next
    assume v6: "ipv6_ok s"
    show ?thesis
    proof (cases "has_prefix s ''::''")
      case True
      then obtain t where s: "s = CHR '':'' # CHR '':'' # t" by (auto simp: has_prefix_iff)
      then have "t = [] \<or> ipv6_groups 8 True t" using v6 True by (auto simp: ipv6_ok_def numeral_2_eq_2 split: if_splits)
      then show ?thesis using s ipv6_groups_chars [of 8 True t] by (auto simp: address_char_def)
    next
      case False
      then have "ipv6_groups 8 False s" using v6 by (simp add: ipv6_ok_def)
      then show ?thesis using ipv6_groups_chars ipv6_groups_colons [of 8 s] by simp
    qed
  qed
  then show "\<forall>c \<in> set s. address_char c" and "colons s = 0 \<or> 2 \<le> colons s" by blast+
qed

lemma index_byte_cut: "index_byte s c = Some i \<Longrightarrow> s = take i s @ c # drop (Suc i) s \<and> c \<notin> set (take i s)"
  by (induction s arbitrary: i) (auto split: if_splits)

lemma index_byte_None: "index_byte s c = None \<longleftrightarrow> c \<notin> set s"
  by (induction s) auto

lemma last_index_cut:
  assumes "last_index s c = Some i"
  shows "\<exists>a b. s = a @ c # b \<and> take i s = a \<and> c \<notin> set b"
proof -
  obtain k where k: "index_byte (rev s) c = Some k" "i = length s - Suc k"
    using assms by (auto simp: last_index_def)
  let ?b = "rev (take k (rev s))" and ?a = "rev (drop (Suc k) (rev s))"
  have cut: "rev s = take k (rev s) @ c # drop (Suc k) (rev s)" "c \<notin> set (take k (rev s))"
    using index_byte_cut [OF k(1)] by blast+
  have s: "s = ?a @ c # ?b" using arg_cong [where f = rev, OF cut(1)] by simp
  have "length ?a = i" using k(2) by simp
  then have "take i s = ?a" by (metis append_eq_conv_conj s)
  then show ?thesis using s cut(2) by (metis set_rev)
qed

lemma host_only_ip:
  assumes "valid_ip s"
  shows "host_only s = s"
proof (cases "last_index s (CHR '':'')")
  case None
  then show ?thesis by (simp add: host_only_def split_host_def)
next
  case (Some i)
  then obtain a b where ab: "s = a @ CHR '':'' # b" "take i s = a" "CHR '':'' \<notin> set b"
    using last_index_cut by blast
  have "2 \<le> colons s" using valid_ip_chars(2) [OF assms] ab(1) by simp
  then have "CHR '':'' \<in> set a" using ab colons_zero [of a] colons_zero [of b] by auto
  moreover have "\<not> has_prefix s ''[''"
    using valid_ip_chars(1) [OF assms] by (cases s) (auto simp: has_prefix_def address_char_def is_hex_def)
  ultimately show ?thesis using Some ab(2) by (simp add: host_only_def split_host_def)
qed

text \<open>The space a proxy writes after the comma goes away, the address stays.\<close>

lemma valid_ip_trim:
  assumes "valid_ip s"
  shows "trim_space (CHR '' '' # s) = s" and "CHR '','' \<notin> set s"
proof -
  have plain: "\<forall>c \<in> set s. byte_of c < 128 \<and> byte_of c \<notin> {9, 10, 11, 12, 13, 32}"
    using valid_ip_chars(1) [OF assms] by (auto simp: address_char_def is_hex_def Let_def)
  have "find (\<lambda>w. w \<noteq> [] \<and> has_prefix (CHR '' '' # s) w) space_runes = Some '' ''"
    by (simp add: space_runes_def has_prefix_def)
  then have "trim_left (CHR '' '' # s) = trim_left s"
    by (simp add: trim_left_def strip_all.simps [of space_runes "CHR '' '' # s"])
  then show "trim_space (CHR '' '' # s) = s"
    using trim_space_plain [OF plain] by (simp add: trim_space_def)
  show "CHR '','' \<notin> set s"
    using valid_ip_chars(1) [OF assms] by (auto simp: address_char_def is_hex_def)
qed

lemma client_ip_appended:
  assumes "valid_ip ip"
  shows "client_ip True (spoofed @ [claimed @ '', '' @ ip]) remote = ip"
proof -
  have "last (split_byte (claimed @ CHR '','' # CHR '' '' # ip) (CHR '','')) = CHR '' '' # ip"
    by (rule last_split_byte) (use valid_ip_trim(2) [OF assms] in simp)
  then show ?thesis
    using valid_ip_trim(1) [OF assms] host_only_ip [OF assms] assms
    by (simp add: client_ip_def resolve_client_ip_def)
qed


section \<open>Guarded routes\<close>

text \<open>Two worlds that differ in the state of the limiters only.\<close>

definition only_limits :: "'l world \<Rightarrow> 'l world \<Rightarrow> bool" where
  "only_limits w w' = (w' = w\<lparr>w_limits := w_limits w'\<rparr>)"

lemma only_limits_refl [simp]: "only_limits w w"
  by (simp add: only_limits_def)

lemma only_limits_trans: "only_limits w v \<Longrightarrow> only_limits v x \<Longrightarrow> only_limits w x"
  by (simp add: only_limits_def) (metis world.surjective world.update_convs(7))

text \<open>A limiter either lets the handler run, after spending, or answers 429 itself.\<close>

lemma limit_every_cases:
  assumes "run_state (limit_every L key inner) w = (out, w')"
  obtains (passed) w0 where "only_limits w w0" "run_state inner w0 = (out, w')"
  | (refused) r where "out = Answers r" "r_status r = 429" "only_limits w w'"
proof (cases "d_allowed (fst (l_allow L (now_of w) key (w_limits w)))")
  case True
  let ?w0 = "snd (run_state (limit_record L key) (snd (run_state (limit_allow L key) w)))"
  have "only_limits w ?w0"
    by (simp add: only_limits_def limit_record_def limit_allow_def Let_def case_prod_unfold)
  moreover have "run_state inner ?w0 = (out, w')"
    using assms True by (simp add: limit_every_def limit_record_def limit_allow_def Let_def case_prod_unfold)
  ultimately show thesis by (rule passed)
next
  case False
  have "out = Answers (too_many (fst (l_allow L (now_of w) key (w_limits w))))" and "only_limits w w'"
    using assms False
    by (auto simp: limit_every_def limit_allow_def answer_def Let_def case_prod_unfold only_limits_def)
  then show thesis by (intro refused) (auto simp: too_many_def)
qed

definition bearer :: "'b server \<Rightarrow> request \<Rightarrow> instant \<Rightarrow> uuid \<Rightarrow> bool \<Rightarrow> bool" where
  "bearer S rq now u confirmed =
     (has_prefix (rq_authorization rq) ''Bearer '' \<and>
      verify_access (sv_crypto S) now (trim_prefix (rq_authorization rq) ''Bearer '') = Some (u, confirmed))"

definition turned_away :: "response outcome \<Rightarrow> bool" where
  "turned_away out = (\<exists>r. out = Answers r \<and> r_status r \<in> {401, 403, 429})"

lemma require_auth_cases:
  assumes "run_state (require_auth (sv_crypto S) (rq_authorization rq) inner) w = (out, w')"
  obtains (passed) u claim where "bearer S rq (now_of w) u claim" "run_state (inner u claim) w = (out, w')"
  | (refused) "turned_away out" "w' = w"
  using assms
  by (auto simp: require_auth_def bearer_def answer_def turned_away_def split: if_splits option.splits prod.splits)

lemma optional_limit_cases:
  assumes "run_state (optional_limit S ep key inner) w = (out, w')"
  obtains (passed) w0 where "only_limits w w0" "run_state inner w0 = (out, w')"
  | (refused) "turned_away out" "only_limits w w'"
proof (cases ep)
  case None
  then show thesis using assms passed [of w] by (simp add: optional_limit_def)
next
  case (Some e)
  then have "run_state (limit_every (limiter_at S e) key inner) w = (out, w')"
    using assms by (simp add: optional_limit_def)
  then show thesis
    by (cases rule: limit_every_cases) (use passed refused in \<open>auto simp: turned_away_def\<close>)
qed

lemma serve_routed:
  assumes "run_state (serve S rq) w = ((hs, out), w')" and "rq_route rq \<noteq> Preflight"
  shows "run_state (routed S rq) w = (out, w')"
  using assms by (auto simp: serve_def cors_def Let_def split: if_splits prod.splits)

lemma guarded_route_cases:
  assumes "policy_of (rq_route rq) = Guarded ep" and "run_state (serve S rq) w = ((hs, out), w')"
  shows "turned_away out \<and> only_limits w w' \<or>
    (\<exists>u w0. bearer S rq (now_of w) u True \<and> only_limits w w0 \<and>
       run_state (handler_of S (Some u) (rq_route rq)) w0 = (out, w'))"
proof -
  have "rq_route rq \<noteq> Preflight" using assms(1) by auto
  note run = serve_routed [OF assms(2) this]
  let ?ip = "client_ip (sv_trust_proxy S) (rq_forwarded rq) (rq_remote rq)"
  let ?h = "\<lambda>u. optional_limit S ep (user_key (Some u) ?ip) (handler_of S (Some u) (rq_route rq))"
  from run have "run_state (require_auth (sv_crypto S) (rq_authorization rq)
      (\<lambda>u claim. limit_every (limiter_at S ''authed'') (user_key (Some u) ?ip) (require_confirmed (Some claim) (?h u)))) w
      = (out, w')"
    using assms(1) by (simp add: routed_def Let_def)
  then show ?thesis
  proof (cases rule: require_auth_cases)
    case (passed u claim)
    from passed(2) show ?thesis
    proof (cases rule: limit_every_cases)
      case (passed w1)
      show ?thesis
      proof (cases claim)
        case True
        then have "run_state (?h u) w1 = (out, w')" using passed(2) by (simp add: require_confirmed_def)
        then show ?thesis
          using only_limits_trans [OF passed(1)] \<open>bearer S rq (now_of w) u claim\<close> True
          by (cases rule: optional_limit_cases) auto
      next
        case False
        then show ?thesis using passed by (auto simp: require_confirmed_def answer_def turned_away_def)
      qed
    qed (auto simp: turned_away_def)
  qed simp
qed

lemma exempt_route_cases:
  assumes "policy_of (rq_route rq) = Exempt ep" and "run_state (serve S rq) w = ((hs, out), w')"
  shows "turned_away out \<and> only_limits w w' \<or>
    (\<exists>u claim w0. bearer S rq (now_of w) u claim \<and> only_limits w w0 \<and>
       run_state (handler_of S (Some u) (rq_route rq)) w0 = (out, w'))"
proof -
  have "rq_route rq \<noteq> Preflight" using assms(1) by auto
  note run = serve_routed [OF assms(2) this]
  let ?ip = "client_ip (sv_trust_proxy S) (rq_forwarded rq) (rq_remote rq)"
  let ?h = "\<lambda>u. optional_limit S ep (user_key (Some u) ?ip) (handler_of S (Some u) (rq_route rq))"
  from run have "run_state (require_auth (sv_crypto S) (rq_authorization rq)
      (\<lambda>u claim. limit_every (limiter_at S ''authed'') (user_key (Some u) ?ip) (?h u))) w = (out, w')"
    using assms(1) by (simp add: routed_def Let_def)
  then show ?thesis
  proof (cases rule: require_auth_cases)
    case (passed u claim)
    from passed(2) show ?thesis
    proof (cases rule: limit_every_cases)
      case (passed w1)
      from passed(2) show ?thesis
        using only_limits_trans [OF passed(1)] \<open>bearer S rq (now_of w) u claim\<close>
        by (cases rule: optional_limit_cases) auto
    qed (auto simp: turned_away_def)
  qed simp
qed

text \<open>
  C34. A request to a guarded route is either turned away with 401, 403 or 429, with nothing
  changed but the budgets, or its handler runs, for the user of a token that verifies at the
  time of the request and carries the confirmed claim, on a world that differs in the budgets
  only.
\<close>

theorem guarded_routes:
  assumes "policy_of (rq_route rq) = Guarded ep" and "run_state (serve S rq) w = ((hs, out), w')"
  shows "turned_away out \<and> only_limits w w' \<or>
    (\<exists>u w0. bearer S rq (now_of w) u True \<and> only_limits w w0 \<and>
       run_state (handler_of S (Some u) (rq_route rq)) w0 = (out, w'))"
  by (rule guarded_route_cases [OF assms])

section \<open>An instance\<close>

definition demo_server :: "(real \<times> nat \<times> real \<times> instant) server" where
  "demo_server =
     \<lparr>sv_crypto = demo_crypto\<lparr>jwt_parse := (\<lambda>_ t. if t = ''tok'' then
          Some \<lparr>cl_confirmed = True, cl_subject = uuid_string 7, cl_issued = 0, cl_expires = 0\<rparr> else None)\<rparr>,
      sv_auth = demo_auth, sv_spotify = demo_spotify, sv_hmac_key = ''k'', sv_queue = None, sv_queue_url = ''q'',
      sv_ical_base = ''https://api'', sv_search = demo_search_env, sv_semantic = False, sv_embedder = None,
      sv_collate = map byte_of, sv_presigner = (\<lambda>k. None), sv_origins = [], sv_trust_proxy = True,
      sv_buckets = plain_bucket, sv_enum = (\<lambda>bs. bs)\<rparr>"

definition demo_request :: "string \<Rightarrow> route \<Rightarrow> request" where
  "demo_request authz rt =
     \<lparr>rq_remote = ''10.0.0.9:4711'', rq_forwarded = [''1.2.3.4'', ''6.6.6.6, 203.0.113.7''], rq_origin = [],
      rq_authorization = authz, rq_route = rt\<rparr>"

definition server_world :: "(real \<times> nat \<times> real \<times> instant) budgets_state world" where
  "server_world = init_world calm (empty_db\<lparr>users := [fan_row]\<rparr>) (\<lambda>_. \<lparr>mem_buckets = [], mem_last_sweep = 0\<rparr>)"


theorem guarded_routes_witness:
  "turned_away (snd (fst (run_state (serve demo_server (demo_request ''Bearer bad'' GetGoing)) server_world))) \<and>
   only_limits server_world (snd (run_state (serve demo_server (demo_request ''Bearer bad'' GetGoing)) server_world))"
proof -
  let ?rq = "demo_request ''Bearer bad'' GetGoing"
  obtain hs out w' where run: "run_state (serve demo_server ?rq) server_world = ((hs, out), w')" by (metis prod.collapse)
  have "policy_of (rq_route ?rq) = Guarded None" by (simp add: demo_request_def)
  moreover have "\<not> bearer demo_server ?rq now u claim" for now u claim
    by (simp add: bearer_def demo_server_def demo_request_def verify_access_def trim_prefix_def has_prefix_def)
  ultimately show ?thesis using guarded_routes [OF _ run] run by simp
qed

end
