(* ===== verification/Ticketmaster.thy ===== *)
theory Ticketmaster
  imports Spotify
begin

text \<open>
  The event scraper (\<open>scraper/ticketmaster/adapter.go\<close>) and the runner that publishes what it
  finds (\<open>scraper/runner.go\<close>): the walk over the pages of the Discovery API, the translation
  of one listed event into an event message, and the cycle of one fetch and its publishes.
\<close>

section \<open>What lies outside\<close>

text \<open>
  A location is the offset east of UTC that is in force at an instant. The host's time zone
  database, \<open>strconv.ParseFloat\<close>, the order in which \<open>range\<close> visits a map and the resolution of
  a reference against the base URL (\<open>url.Parse\<close> of both, \<open>ResolveReference\<close>: what comes before
  the query, the query, and the fragment with its mark) are parameters, as are the replies.
\<close>

type_synonym location = "instant \<Rightarrow> instant"

record classification =
  cl_primary :: bool
  cl_segment :: string
  cl_genre :: string
  cl_subgenre :: string

record tm_venue =
  tv_name :: string
  tv_line1 :: string
  tv_latitude :: string
  tv_longitude :: string
  tv_timezone :: string
  tv_url :: string

record tm_event =
  te_id :: string
  te_name :: string
  te_url :: string
  te_info :: string
  te_images :: "string list"
  te_start_time :: string
  te_start_date :: string
  te_end_time :: string
  te_end_date :: string
  te_timezone :: string
  te_classes :: "classification list"
  te_venues :: "tm_venue list"
  te_attractions :: "string list"

text \<open>A decoded page: the next link and the events.\<close>

type_synonym tm_page = "string \<times> tm_event list"

record tm_env =
  tm_base :: string
  tm_key :: string
  tm_city :: string
  tm_reply :: "nat \<Rightarrow> string \<Rightarrow> tm_page http_reply"
  tm_location :: "string \<Rightarrow> location option"
  tm_parse_float :: "string \<Rightarrow> f64 option"
  tm_order :: "string list \<Rightarrow> string list"
  tm_resolve :: "string \<Rightarrow> string \<Rightarrow> (string \<times> string \<times> string) option"

definition page_size :: nat where "page_size = 200"

definition paging_depth :: nat where "paging_depth = 1000"

definition max_pages :: nat where "max_pages = paging_depth div page_size + 1"

definition sort_order :: string where "sort_order = ''date,asc''"

text \<open>\<open>New\<close>: an empty base URL is the production one.\<close>

definition base_url :: "tm_env \<Rightarrow> string" where
  "base_url S = (if tm_base S = [] then ''https://app.ticketmaster.com'' else tm_base S)"

section \<open>Dates in a zone\<close>

text \<open>
  \<open>time.Date\<close> in a location, for a wall-clock time given as if it were UTC: the offset at that
  instant is tried first, and where it is not zero the one in force at the result is used.
\<close>

definition local_to_utc :: "location \<Rightarrow> instant \<Rightarrow> instant" where
  "local_to_utc loc wall =
     (if loc wall = 0 then wall else wall - loc (wall - loc wall))"

definition parse_date_in :: "location \<Rightarrow> string \<Rightarrow> instant option" where
  "parse_date_in loc s = map_option (local_to_utc loc) (parse_date_only s)"

definition date_in :: "location \<Rightarrow> instant \<Rightarrow> date" where
  "date_in loc t = date_of (t + loc t)"

definition utc :: location where "utc = (\<lambda>_. 0)"

text \<open>\<open>location\<close>: the first zone the event or its venue names that the host knows.\<close>

definition event_location :: "tm_env \<Rightarrow> tm_event \<Rightarrow> location" where
  "event_location S e =
     (let candidates = te_timezone e # (case te_venues e of [] \<Rightarrow> [] | v # _ \<Rightarrow> [tv_timezone v])
      in case List.map_filter (tm_location S) (filter (\<lambda>n. n \<noteq> []) candidates) of
           [] \<Rightarrow> utc
         | loc # _ \<Rightarrow> loc)"

definition ends_at :: "tm_env \<Rightarrow> tm_event \<Rightarrow> instant option" where
  "ends_at S e =
     (case parse_rfc3339 (te_end_time e) of
        Some t \<Rightarrow> Some t
      | None \<Rightarrow>
          (case parse_date_in (event_location S e) (te_end_date e) of
             None \<Rightarrow> None
           | Some d \<Rightarrow>
               Some (local_to_utc (event_location S e) (instant_of (date_in (event_location S e) d) 23 59 59 0))))"

section \<open>One event\<close>

definition event_segment :: "text_env \<Rightarrow> tm_event \<Rightarrow> string" where
  "event_segment T e =
     (case te_classes e of
        [] \<Rightarrow> []
      | c # cs \<Rightarrow>
          normalize_segment T (cl_segment (case find cl_primary (c # cs) of None \<Rightarrow> c | Some p \<Rightarrow> p)))"

text \<open>The genres form a set, which is then listed in the order the runtime visits it.\<close>

definition event_tags :: "text_env \<Rightarrow> tm_event \<Rightarrow> string list" where
  "event_tags T e =
     remdups (filter (\<lambda>g. g \<noteq> [])
       (concat (map (\<lambda>c. [normalize_genre T (cl_genre c), normalize_genre T (cl_subgenre c)]) (te_classes e))))"

text \<open>
  A message as the scraper builds it: \<open>ParseFloat\<close> also reads \<open>NaN\<close> and \<open>Inf\<close>, so the venue's
  coordinates are floats beside the message. A time is its instant; the zone it came with,
  which the wire keeps as the offset it is printed with, is not modelled.
\<close>

record scraped =
  sc_msg :: event_msg
  sc_lat :: "f64 option"
  sc_lng :: "f64 option"

definition coordinate :: "tm_env \<Rightarrow> string \<Rightarrow> f64 option" where
  "coordinate S s = (if s = [] then None else tm_parse_float S s)"

text \<open>The start and whether only its date is known.\<close>

definition starts_at :: "tm_env \<Rightarrow> tm_event \<Rightarrow> (instant \<times> bool) option" where
  "starts_at S e =
     (case parse_rfc3339 (te_start_time e) of
        Some t \<Rightarrow> Some (t, False)
      | None \<Rightarrow> map_option (\<lambda>d. (d, True)) (parse_date_in (event_location S e) (te_start_date e)))"

definition to_message :: "text_env \<Rightarrow> tm_env \<Rightarrow> tm_event \<Rightarrow> scraped option" where
  "to_message T S e =
     (if te_id e = [] \<or> te_name e = [] then None
      else case starts_at S e of
        None \<Rightarrow> None
      | Some (start, tbd) \<Rightarrow>
          (case te_venues e of
             [] \<Rightarrow> None
           | v # _ \<Rightarrow> Some
               \<lparr>sc_msg =
                  \<lparr>em_source = ''ticketmaster'', em_source_event_id = te_id e, em_title = te_name e,
                   em_description = te_info e, em_starts_at = start, em_ends_at = ends_at S e, em_time_tbd = tbd,
                   em_venue = \<lparr>vm_name = tv_name v, vm_address = tv_line1 v,
                               vm_lat = map_option f64_val (coordinate S (tv_latitude v)),
                               vm_lng = map_option f64_val (coordinate S (tv_longitude v)), vm_website = tv_url v\<rparr>,
                   em_segment = event_segment T e, em_performers = filter (\<lambda>n. n \<noteq> []) (te_attractions e),
                   em_genres = tm_order S (event_tags T e),
                   em_image_url = (case te_images e of [] \<Rightarrow> [] | u # _ \<Rightarrow> u), em_url = te_url e\<rparr>,
                sc_lat = coordinate S (tv_latitude v), sc_lng = coordinate S (tv_longitude v)\<rparr>))"

section \<open>The pages\<close>

text \<open>\<open>uriTemplateVars.ReplaceAllString(href, "")\<close>: every \<open>{...}\<close> is cut out.\<close>

function strip_templates :: "string \<Rightarrow> string" where
  "strip_templates [] = []"
| "strip_templates (c # s) =
     (if c = CHR 0x7B \<and> CHR 0x7D \<in> set s
      then strip_templates (drop 1 (dropWhile (\<lambda>x. x \<noteq> CHR 0x7D) s))
      else c # strip_templates s)"
  by pat_completeness auto
termination
  by (relation "measure length") (auto simp: less_Suc_eq_le intro: order.trans [OF diff_le_self length_dropWhile_le])

text \<open>\<open>url.Values\<close> as the list of its pairs in order; \<open>Set\<close> drops the old values of the key.\<close>

definition set_value :: "string \<Rightarrow> string \<Rightarrow> (string \<times> string) list \<Rightarrow> (string \<times> string) list" where
  "set_value k v kvs = filter (\<lambda>p. fst p \<noteq> k) kvs @ [(k, v)]"

fun hex_val :: "char \<Rightarrow> nat option" where
  "hex_val c =
     (let n = byte_of c in
      if 48 \<le> n \<and> n \<le> 57 then Some (n - 48)
      else if 65 \<le> n \<and> n \<le> 70 then Some (n - 55)
      else if 97 \<le> n \<and> n \<le> 102 then Some (n - 87)
      else None)"

text \<open>\<open>url.unescape\<close>; None is an invalid escape. A query also reads a plus as a space.\<close>

function unescape :: "(char \<Rightarrow> char) \<Rightarrow> string \<Rightarrow> string option" where
  "unescape plain s =
     (case s of
        [] \<Rightarrow> Some []
      | c # r \<Rightarrow>
          if c = CHR ''%'' then
            (case r of
               a # b # r' \<Rightarrow>
                 (case (hex_val a, hex_val b) of
                    (Some x, Some y) \<Rightarrow> map_option ((#) (byte (16 * x + y))) (unescape plain r')
                  | _ \<Rightarrow> None)
             | _ \<Rightarrow> None)
          else map_option ((#) (plain c)) (unescape plain r))"
  by pat_completeness auto
termination by (relation "measure (\<lambda>(p, s). length s)") auto

declare unescape.simps [simp del]

definition query_unescape :: "string \<Rightarrow> string option" where
  "query_unescape = unescape (\<lambda>c. if c = CHR ''+'' then CHR '' '' else c)"

text \<open>\<open>URL.Query\<close>: the pairs that parse; a piece with a semicolon or a bad escape is dropped.\<close>

definition parse_pair :: "string \<Rightarrow> (string \<times> string) option" where
  "parse_pair piece =
     (if piece = [] \<or> CHR '';'' \<in> set piece then None
      else let (k, v) = (case cut_byte piece (CHR ''='') of None \<Rightarrow> (piece, []) | Some kv \<Rightarrow> kv) in
        (case (query_unescape k, query_unescape v) of (Some a, Some b) \<Rightarrow> Some (a, b) | _ \<Rightarrow> None))"

definition parse_query :: "string \<Rightarrow> (string \<times> string) list" where
  "parse_query q = List.map_filter parse_pair (split_byte q (CHR ''&''))"

definition next_page_url :: "tm_env \<Rightarrow> string \<Rightarrow> string" where
  "next_page_url S href =
     (if href = [] then []
      else case tm_resolve S (base_url S) (strip_templates href) of
        None \<Rightarrow> []
      | Some (front, query, fragment) \<Rightarrow>
          front @ ''?'' @ encode_values (set_value ''sort'' sort_order (set_value ''apikey'' (tm_key S) (parse_query query)))
            @ fragment)"

text \<open>\<open>fetchPage\<close>: anything but a decodable 200 is an error.\<close>

definition page_reply :: "tm_page http_reply \<Rightarrow> tm_page option" where
  "page_reply r = (case r of None \<Rightarrow> None | Some (st, b) \<Rightarrow> if st \<noteq> 200 then None else b)"

definition fetch_page :: "tm_env \<Rightarrow> string \<Rightarrow> ('l, tm_page option) act" where
  "fetch_page S endpoint = State (\<lambda>w. (page_reply (tm_reply S (w_step w) endpoint), tick w))"

text \<open>The events of a page join the result unless they were seen already.\<close>

fun add_events :: "text_env \<Rightarrow> tm_env \<Rightarrow> tm_event list \<Rightarrow> string list \<Rightarrow> scraped list \<Rightarrow> string list \<times> scraped list" where
  "add_events T S [] seen out = (seen, out)"
| "add_events T S (e # es) seen out =
     (case to_message T S e of
        None \<Rightarrow> add_events T S es seen out
      | Some m \<Rightarrow>
          if em_source_event_id (sc_msg m) \<in> set seen then add_events T S es seen out
          else add_events T S es (em_source_event_id (sc_msg m) # seen) (out @ [m]))"

text \<open>The loop of \<open>Fetch\<close>, with the pages it may still ask for.\<close>

fun fetch_pages ::
    "text_env \<Rightarrow> tm_env \<Rightarrow> nat \<Rightarrow> string \<Rightarrow> string list \<Rightarrow> scraped list \<Rightarrow> ('l, scraped list option) act" where
  "fetch_pages T S 0 endpoint seen out = ret (Some out)"
| "fetch_pages T S (Suc k) endpoint seen out =
     (if endpoint = [] then ret (Some out)
      else do {
        r \<leftarrow> fetch_page S endpoint;
        case r of
          None \<Rightarrow> ret None
        | Some (href, es) \<Rightarrow>
            (let (seen', out') = add_events T S es seen out
             in fetch_pages T S k (next_page_url S href) seen' out') })"

definition first_url :: "tm_env \<Rightarrow> instant \<Rightarrow> string" where
  "first_url S now =
     base_url S @ ''/discovery/v2/events.json?'' @ encode_values
       [(''apikey'', tm_key S), (''city'', tm_city S), (''size'', itoa page_size), (''sort'', sort_order),
        (''startDateTime'', format_rfc3339 now)]"

definition fetch_events :: "text_env \<Rightarrow> tm_env \<Rightarrow> ('l, scraped list option) act" where
  "fetch_events T S = do { now \<leftarrow> time_now; fetch_pages T S max_pages (first_url S now) [] [] }"

section \<open>The runner\<close>

text \<open>The message on the wire.\<close>

definition omit_f64 :: "string \<Rightarrow> f64 option \<Rightarrow> (string \<times> json) list" where
  "omit_f64 k v = (case v of None \<Rightarrow> [] | Some x \<Rightarrow> [(k, JNum x)])"

definition omit_strs :: "string \<Rightarrow> string list \<Rightarrow> (string \<times> json) list" where
  "omit_strs k ss = (if ss = [] then [] else [(k, JArr (map JStr ss))])"

definition scraped_json :: "scraped \<Rightarrow> json" where
  "scraped_json s =
     (let m = sc_msg s; v = em_venue m in
      JObj ([(''source_id'', JStr (em_source m)), (''source_event_id'', JStr (em_source_event_id m)),
             (''title'', JStr (em_title m))]
            @ omit_str ''description'' (em_description m)
            @ [(''starts_at'', JStr (format_rfc3339_nano (em_starts_at m)))]
            @ (case em_ends_at m of None \<Rightarrow> [] | Some t \<Rightarrow> [(''ends_at'', JStr (format_rfc3339_nano t))])
            @ (if em_time_tbd m then [(''time_tbd'', JBool True)] else [])
            @ [(''venue'', JObj ([(''name'', JStr (vm_name v))] @ omit_str ''address'' (vm_address v)
                 @ omit_f64 ''lat'' (sc_lat s) @ omit_f64 ''lng'' (sc_lng s) @ omit_str ''website_url'' (vm_website v)))]
            @ omit_str ''segment'' (em_segment m) @ omit_strs ''performers'' (em_performers m)
            @ omit_strs ''genres'' (em_genres m) @ omit_str ''image_url'' (em_image_url m) @ omit_str ''url'' (em_url m)))"

fun publish_all :: "string \<Rightarrow> scraped list \<Rightarrow> ('l, bool) act" where
  "publish_all queue [] = ret True"
| "publish_all queue (m # ms) =
     (if \<not> encodable (scraped_json m) then ret False
      else do {
        sent \<leftarrow> publish queue (scraped_json m);
        if sent then publish_all queue ms else ret False })"

text \<open>\<open>Runner.Run\<close> over this adapter: whether it returned nil.\<close>

definition run_scraper :: "text_env \<Rightarrow> tm_env \<Rightarrow> string \<Rightarrow> ('l, bool) act" where
  "run_scraper T S queue = do {
     r \<leftarrow> fetch_events T S;
     case r of None \<Rightarrow> ret False | Some ms \<Rightarrow> publish_all queue ms }"

end
