(* ===== verification/TicketmasterProps.thy ===== *)
theory TicketmasterProps
  imports Ticketmaster IngestProps
begin

text \<open>
  The event scraper: what its requests carry, what a run publishes for the pages it was
  served, that the ingest worker reads each message back as it was meant, and that the
  published events end up in the catalogue.
\<close>

section \<open>Queries of URLs\<close>

lemma hex_val_upper [simp]: "d < 16 \<Longrightarrow> hex_val (hex_upper d) = Some d"
  by (simp add: hex_upper_def Let_def)

lemma unescape_Nil [simp]: "unescape plain [] = Some []"
  by (simp add: unescape.simps)

lemma unescape_plain: "c \<noteq> CHR ''%'' \<Longrightarrow> unescape plain (c # s) = map_option ((#) (plain c)) (unescape plain s)"
  by (subst unescape.simps) simp

lemma unescape_hex:
  "n < 256 \<Longrightarrow>
     unescape plain (CHR ''%'' # hex_upper (n div 16) # hex_upper (n mod 16) # s) =
       map_option ((#) (byte n)) (unescape plain s)"
  by (subst unescape.simps) (simp add: less_mult_imp_div_less del: hex_val.simps)

definition escape_char :: "char \<Rightarrow> string" where
  "escape_char c =
     (if unreserved c then [c] else if c = CHR '' '' then ''+''
      else [CHR ''%'', hex_upper (byte_of c div 16), hex_upper (byte_of c mod 16)])"

lemma query_escape_simps [simp]:
  "query_escape [] = []" "query_escape (c # s) = escape_char c @ query_escape s"
  by (simp_all add: query_escape_def escape_char_def)

lemma unreserved_marks: "unreserved c \<Longrightarrow> c \<notin> {CHR ''%'', CHR ''+'', CHR ''&'', CHR ''='', CHR '';''}"
  by (auto simp: unreserved_def Let_def)

lemma query_unescape_escape: "query_unescape (query_escape s) = Some s"
proof (induction s)
  case (Cons c s)
  consider "unreserved c" | "\<not> unreserved c" "c = CHR '' ''" | "\<not> unreserved c" "c \<noteq> CHR '' ''" by blast
  then show ?case
  proof cases
    case 1
    then show ?thesis using unreserved_marks [OF 1] Cons by (simp add: escape_char_def query_unescape_def unescape_plain)
  next
    case 2
    then show ?thesis using Cons by (simp add: escape_char_def query_unescape_def unescape_plain)
  next
    case 3
    then show ?thesis using Cons unescape_hex [of "byte_of c"] by (simp add: escape_char_def query_unescape_def)
  qed
qed (simp add: query_unescape_def)

lemma hex_upper_marks: "d < 16 \<Longrightarrow> hex_upper d \<notin> {CHR ''&'', CHR ''='', CHR '';''}"
proof -
  assume "d < 16"
  then have "byte_of (hex_upper d) \<in> {48..57} \<union> {65..70}" by (auto simp: hex_upper_def)
  then show ?thesis by auto
qed

lemma query_escape_marks: "x \<in> set (query_escape s) \<Longrightarrow> x \<notin> {CHR ''&'', CHR ''='', CHR '';''}"
proof (induction s)
  case (Cons c s)
  have "x \<notin> {CHR ''&'', CHR ''='', CHR '';''}" if "x \<in> set (escape_char c)"
    using that unreserved_marks [of c] hex_upper_marks [of "byte_of c div 16"] hex_upper_marks [of "byte_of c mod 16"]
    by (auto simp: escape_char_def less_mult_imp_div_less split: if_splits)
  then show ?case using Cons by auto
qed simp

definition pair_text :: "string \<times> string \<Rightarrow> string" where
  "pair_text p = query_escape (fst p) @ ''='' @ query_escape (snd p)"

lemma parse_pair_text: "parse_pair (pair_text p) = Some p"
proof -
  have "CHR '';'' \<notin> set (pair_text p)" using query_escape_marks by (force simp: pair_text_def)
  moreover have "cut_byte (pair_text p) (CHR ''='') = Some (query_escape (fst p), query_escape (snd p))"
    unfolding pair_text_def using query_escape_marks [of "CHR ''=''" "fst p"] by (auto intro: cut_byte_append [simplified])
  ultimately show ?thesis
    by (simp add: parse_pair_def query_unescape_escape) (simp add: pair_text_def)
qed

lemma split_join:
  "ws \<noteq> [] \<Longrightarrow> \<forall>w \<in> set ws. c \<notin> set w \<Longrightarrow> split_byte (join_with ws [c]) c = ws"
proof (induction ws "[c]" rule: join_with.induct)
  case (3 x y zs)
  then show ?case by (simp add: split_byte_append_sep split_byte_single)
qed (simp_all add: split_byte_single)

lemma map_filter_total: "(\<And>x. f (g x) = Some x) \<Longrightarrow> List.map_filter f (map g xs) = xs"
  by (induction xs) (simp_all add: map_filter_simps)

definition by_key :: "(string \<times> string) list \<Rightarrow> (string \<times> string) list" where
  "by_key kvs = sort_key (\<lambda>kv. map byte_of (fst kv)) kvs"

lemma parse_query_encode: "parse_query (encode_values kvs) = by_key kvs"
proof (cases "kvs = []")
  case True
  then show ?thesis by (simp add: parse_query_def encode_values_def by_key_def map_filter_simps parse_pair_def)
next
  case False
  have enc: "encode_values kvs = join_with (map pair_text (by_key kvs)) ''&''"
    unfolding encode_values_def by_key_def
    by (intro arg_cong2 [where f = join_with] map_cong) (auto simp: pair_text_def)
  have "\<forall>w \<in> set (map pair_text (by_key kvs)). CHR ''&'' \<notin> set w"
    using query_escape_marks by (force simp: pair_text_def)
  moreover have "map pair_text (by_key kvs) \<noteq> []"
    using False by (simp add: by_key_def) (metis length_0_conv length_sort)
  ultimately show ?thesis
    unfolding parse_query_def enc by (simp add: split_join map_filter_total parse_pair_text)
qed

definition values_of :: "string \<Rightarrow> (string \<times> string) list \<Rightarrow> string list" where
  "values_of k kvs = map snd (filter (\<lambda>p. fst p = k) kvs)"

lemma values_by_key [simp]: "values_of k (by_key kvs) = values_of k kvs"
proof -
  have "(\<lambda>p. fst p = k) = (\<lambda>p :: string \<times> string. map byte_of (fst p) = map byte_of k)"
    by (auto simp: fun_eq_iff inj_map_eq_map inj_on_def)
  then have "filter (\<lambda>p. fst p = k) (by_key kvs) = filter (\<lambda>p. fst p = k) kvs"
    unfolding by_key_def by (simp only: sort_key_stable)
  then show ?thesis by (simp add: values_of_def)
qed

lemma values_set [simp]:
  "values_of k (set_value k v kvs) = [v]" "k \<noteq> k' \<Longrightarrow> values_of k (set_value k' v kvs) = values_of k kvs"
  by (auto simp: values_of_def set_value_def intro!: arg_cong [where f = "map snd"] filter_cong)

section \<open>What a request carries\<close>

text \<open>The front of a URL, its query and its fragment.\<close>

definition pinned :: "tm_env \<Rightarrow> string \<Rightarrow> bool" where
  "pinned S url =
     (\<exists>front query fragment. url = front @ ''?'' @ query @ fragment \<and>
        values_of ''apikey'' (parse_query query) = [tm_key S] \<and>
        values_of ''sort'' (parse_query query) = [sort_order])"

lemma first_url_pinned: "pinned S (first_url S now)"
proof -
  let ?q = "encode_values [(''apikey'', tm_key S), (''city'', tm_city S), (''size'', itoa page_size),
      (''sort'', sort_order), (''startDateTime'', format_rfc3339 now)]"
  have "first_url S now = (base_url S @ ''/discovery/v2/events.json'') @ ''?'' @ ?q @ []"
    by (simp add: first_url_def)
  moreover have "values_of ''apikey'' (parse_query ?q) = [tm_key S]" "values_of ''sort'' (parse_query ?q) = [sort_order]"
    unfolding parse_query_encode values_by_key by (simp_all add: values_of_def)
  ultimately show ?thesis unfolding pinned_def by blast
qed

lemma next_page_pinned:
  assumes "next_page_url S href \<noteq> []"
  shows "pinned S (next_page_url S href) \<and>
    (\<exists>front query fragment query'. tm_resolve S (base_url S) (strip_templates href) = Some (front, query, fragment) \<and>
       next_page_url S href = front @ ''?'' @ query' @ fragment \<and>
       (\<forall>k. k \<noteq> ''apikey'' \<longrightarrow> k \<noteq> ''sort'' \<longrightarrow> values_of k (parse_query query') = values_of k (parse_query query)))"
proof -
  obtain front query fragment where r: "tm_resolve S (base_url S) (strip_templates href) = Some (front, query, fragment)"
    and h: "href \<noteq> []" using assms by (auto simp: next_page_url_def split: option.splits if_splits)
  let ?q = "encode_values (set_value ''sort'' sort_order (set_value ''apikey'' (tm_key S) (parse_query query)))"
  have u: "next_page_url S href = front @ ''?'' @ ?q @ fragment" using r h by (simp add: next_page_url_def)
  have "values_of ''apikey'' (parse_query ?q) = [tm_key S]" "values_of ''sort'' (parse_query ?q) = [sort_order]"
    unfolding parse_query_encode values_by_key by simp_all
  then have "pinned S (next_page_url S href)" unfolding pinned_def u by blast
  moreover have "values_of k (parse_query ?q) = values_of k (parse_query query)"
    if "k \<noteq> ''apikey''" "k \<noteq> ''sort''" for k
    using that unfolding parse_query_encode values_by_key by simp
  ultimately show ?thesis using r u by blast
qed

section \<open>The walk\<close>

text \<open>The pages served from a URL on, one per step, and the URL the walk would ask for next.\<close>

fun served_pages :: "tm_env \<Rightarrow> nat \<Rightarrow> string \<Rightarrow> tm_page list \<Rightarrow> bool" where
  "served_pages S n url [] = True"
| "served_pages S n url (p # ps) =
     (url \<noteq> [] \<and> page_reply (tm_reply S n url) = Some p \<and> served_pages S (Suc n) (next_page_url S (fst p)) ps)"

fun next_after :: "tm_env \<Rightarrow> string \<Rightarrow> tm_page list \<Rightarrow> string" where
  "next_after S url [] = url"
| "next_after S url (p # ps) = next_after S (next_page_url S (fst p)) ps"

abbreviation scraped_id :: "scraped \<Rightarrow> string" where "scraped_id m \<equiv> em_source_event_id (sc_msg m)"

text \<open>The messages of a sequence of pages: of each event id, the first that makes a message.\<close>

definition page_messages :: "text_env \<Rightarrow> tm_env \<Rightarrow> tm_page list \<Rightarrow> scraped list" where
  "page_messages T S ps = List.map_filter (to_message T S) (concat (map snd ps))"

lemma page_messages_simps [simp]:
  "page_messages T S [] = []"
  "page_messages T S (p # ps) = List.map_filter (to_message T S) (snd p) @ page_messages T S ps"
  by (simp_all add: page_messages_def map_filter_def)

lemma add_events_dedup:
  "snd (add_events T S es seen out) = out @ dedup_by scraped_id seen (List.map_filter (to_message T S) es) \<and>
   set (fst (add_events T S es seen out)) =
     set (map scraped_id (dedup_by scraped_id seen (List.map_filter (to_message T S) es)) @ seen)"
  by (induction es arbitrary: seen out) (auto simp: map_filter_simps split: option.split)

lemma fetch_pages_walk:
  "run_state (fetch_pages T S k url seen out) w = (r, w') \<Longrightarrow>
   \<exists>ps. length ps \<le> k \<and> served_pages S (w_step w) url ps \<and>
     (case r of
        Some ms \<Rightarrow> (length ps = k \<or> next_after S url ps = []) \<and>
          w' = w\<lparr>w_step := w_step w + length ps\<rparr> \<and> ms = out @ dedup_by scraped_id seen (page_messages T S ps)
      | None \<Rightarrow> length ps < k \<and> next_after S url ps \<noteq> [] \<and> w' = w\<lparr>w_step := w_step w + Suc (length ps)\<rparr> \<and>
          page_reply (tm_reply S (w_step w + length ps) (next_after S url ps)) = None)"
proof (induction k arbitrary: url seen out w)
  case 0
  then show ?case by (intro exI [of _ "[]"]) auto
next
  case (Suc k)
  show ?case
  proof (cases "url = []")
    case True
    then show ?thesis using Suc.prems by (intro exI [of _ "[]"]) auto
  next
    case url: False
    show ?thesis
    proof (cases "page_reply (tm_reply S (w_step w) url)")
      case None
      then have "r = None" "w' = tick w" using Suc.prems url by (auto simp: fetch_page_def)
      then show ?thesis using url None by (intro exI [of _ "[]"]) (simp add: tick_def)
    next
      case (Some p)
      obtain href es where p: "p = (href, es)" by fastforce
      obtain seen' out' where a: "add_events T S es seen out = (seen', out')" by fastforce
      have run: "run_state (fetch_pages T S k (next_page_url S href) seen' out') (tick w) = (r, w')"
        using Suc.prems url Some p a by (simp add: fetch_page_def)
      obtain ps where ps: "length ps \<le> k" "served_pages S (Suc (w_step w)) (next_page_url S href) ps"
        and res: "case r of
            Some ms \<Rightarrow> (length ps = k \<or> next_after S (next_page_url S href) ps = []) \<and>
              w' = (tick w)\<lparr>w_step := Suc (w_step w) + length ps\<rparr> \<and> ms = out' @ dedup_by scraped_id seen' (page_messages T S ps)
          | None \<Rightarrow> length ps < k \<and> next_after S (next_page_url S href) ps \<noteq> [] \<and>
              w' = (tick w)\<lparr>w_step := Suc (w_step w) + Suc (length ps)\<rparr> \<and>
              page_reply (tm_reply S (Suc (w_step w) + length ps) (next_after S (next_page_url S href) ps)) = None"
        using Suc.IH [OF run] unfolding tick_fields by blast
      have "out' @ dedup_by scraped_id seen' xs = out @ dedup_by scraped_id seen (List.map_filter (to_message T S) es @ xs)" for xs
        using add_events_dedup [of T S es seen out] unfolding a dedup_by_append
        by (auto intro: dedup_by_seen_cong)
      then show ?thesis using ps res url Some p
        by (intro exI [of _ "p # ps"]) (auto simp: tick_def split: option.splits)
    qed
  qed
qed

section \<open>Reading a message back\<close>

text \<open>The worker's decoder, on objects with the fields of \<open>events.Message\<close>.\<close>

definition field_str :: "string \<Rightarrow> json \<Rightarrow> string option" where
  "field_str k j = (case json_get k j of JNull \<Rightarrow> Some [] | JStr s \<Rightarrow> Some s | _ \<Rightarrow> None)"

definition field_time :: "string \<Rightarrow> json \<Rightarrow> instant option option" where
  "field_time k j =
     (case json_get k j of JNull \<Rightarrow> Some None | JStr s \<Rightarrow> map_option Some (parse_rfc3339 s) | _ \<Rightarrow> None)"

definition field_bool :: "string \<Rightarrow> json \<Rightarrow> bool option" where
  "field_bool k j = (case json_get k j of JNull \<Rightarrow> Some False | JBool b \<Rightarrow> Some b | _ \<Rightarrow> None)"

definition field_num :: "string \<Rightarrow> json \<Rightarrow> real option option" where
  "field_num k j = (case json_get k j of JNull \<Rightarrow> Some None | JNum (Fin x) \<Rightarrow> Some (Some x) | _ \<Rightarrow> None)"

fun read_str :: "json \<Rightarrow> string option" where
  "read_str (JStr s) = Some s"
| "read_str JNull = Some []"
| "read_str _ = None"

definition field_strs :: "string \<Rightarrow> json \<Rightarrow> string list option" where
  "field_strs k j =
     (case json_get k j of
        JNull \<Rightarrow> Some []
      | JArr js \<Rightarrow> if list_all (\<lambda>x. read_str x \<noteq> None) js then Some (List.map_filter read_str js) else None
      | _ \<Rightarrow> None)"

definition read_venue :: "json \<Rightarrow> venue_msg option" where
  "read_venue j =
     do { name \<leftarrow> field_str ''name'' j; address \<leftarrow> field_str ''address'' j; lat \<leftarrow> field_num ''lat'' j;
          lng \<leftarrow> field_num ''lng'' j; website \<leftarrow> field_str ''website_url'' j;
          Some \<lparr>vm_name = name, vm_address = address, vm_lat = lat, vm_lng = lng, vm_website = website\<rparr> }"

definition read_event_msg :: "json \<Rightarrow> event_msg option" where
  "read_event_msg j =
     do { source \<leftarrow> field_str ''source_id'' j; i \<leftarrow> field_str ''source_event_id'' j;
          title \<leftarrow> field_str ''title'' j; description \<leftarrow> field_str ''description'' j;
          start \<leftarrow> field_time ''starts_at'' j; ending \<leftarrow> field_time ''ends_at'' j; tbd \<leftarrow> field_bool ''time_tbd'' j;
          venue \<leftarrow> read_venue (json_get ''venue'' j); segment \<leftarrow> field_str ''segment'' j;
          perf \<leftarrow> field_strs ''performers'' j; tags \<leftarrow> field_strs ''genres'' j;
          image \<leftarrow> field_str ''image_url'' j; url \<leftarrow> field_str ''url'' j;
          Some \<lparr>em_source = source, em_source_event_id = i, em_title = title, em_description = description,
            em_starts_at = (case start of None \<Rightarrow> zero_time | Some t \<Rightarrow> t), em_ends_at = ending, em_time_tbd = tbd,
            em_venue = venue, em_segment = segment, em_performers = perf, em_genres = tags,
            em_image_url = image, em_url = url\<rparr> }"

text \<open>A message of which the wire keeps everything: years of four digits, finite coordinates.\<close>

definition year_ok :: "instant \<Rightarrow> bool" where
  "year_ok t = (0 \<le> year_of t \<and> year_of t < 10000)"

definition wire_ok :: "event_msg \<Rightarrow> bool" where
  "wire_ok m = (year_ok (em_starts_at m) \<and> (case em_ends_at m of None \<Rightarrow> True | Some t \<Rightarrow> year_ok t))"

definition wire_num :: "f64 option \<Rightarrow> json" where
  "wire_num v = (case v of None \<Rightarrow> JNull | Some x \<Rightarrow> JNum x)"

definition wire_strs :: "string list \<Rightarrow> json" where
  "wire_strs ss = (if ss = [] then JNull else JArr (map JStr ss))"

definition wire_str :: "string \<Rightarrow> json" where
  "wire_str s = (if s = [] then JNull else JStr s)"

lemma map_of_omit [simp]:
  "map_of (omit_str k v) k' = (if k' = k \<and> v \<noteq> [] then Some (JStr v) else None)"
  "map_of (omit_f64 k x) k' = (if k' = k \<and> x \<noteq> None then Some (JNum (the x)) else None)"
  "map_of (omit_strs k ss) k' = (if k' = k \<and> ss \<noteq> [] then Some (JArr (map JStr ss)) else None)"
  by (auto simp: omit_str_def omit_f64_def omit_strs_def split: option.splits)

definition venue_obj :: "scraped \<Rightarrow> json" where
  "venue_obj s =
     (let v = em_venue (sc_msg s) in
      JObj ([(''name'', JStr (vm_name v))] @ omit_str ''address'' (vm_address v)
                 @ omit_f64 ''lat'' (sc_lat s) @ omit_f64 ''lng'' (sc_lng s) @ omit_str ''website_url'' (vm_website v)))"

lemma venue_fields:
  "json_get ''name'' (venue_obj s) = JStr (vm_name (em_venue (sc_msg s)))"
  "json_get ''address'' (venue_obj s) = wire_str (vm_address (em_venue (sc_msg s)))"
  "json_get ''lat'' (venue_obj s) = wire_num (sc_lat s)"
  "json_get ''lng'' (venue_obj s) = wire_num (sc_lng s)"
  "json_get ''website_url'' (venue_obj s) = wire_str (vm_website (em_venue (sc_msg s)))"
  by (simp_all add: venue_obj_def Let_def wire_str_def wire_num_def map_add_def split: option.split)

lemma message_fields:
  "json_get ''source_id'' (scraped_json s) = JStr (em_source (sc_msg s))"
  "json_get ''source_event_id'' (scraped_json s) = JStr (scraped_id s)"
  "json_get ''title'' (scraped_json s) = JStr (em_title (sc_msg s))"
  "json_get ''description'' (scraped_json s) = wire_str (em_description (sc_msg s))"
  "json_get ''starts_at'' (scraped_json s) = JStr (format_rfc3339_nano (em_starts_at (sc_msg s)))"
  "json_get ''ends_at'' (scraped_json s) =
     (case em_ends_at (sc_msg s) of None \<Rightarrow> JNull | Some t \<Rightarrow> JStr (format_rfc3339_nano t))"
  "json_get ''time_tbd'' (scraped_json s) = (if em_time_tbd (sc_msg s) then JBool True else JNull)"
  "json_get ''venue'' (scraped_json s) = venue_obj s"
  "json_get ''segment'' (scraped_json s) = wire_str (em_segment (sc_msg s))"
  "json_get ''performers'' (scraped_json s) = wire_strs (em_performers (sc_msg s))"
  "json_get ''genres'' (scraped_json s) = wire_strs (em_genres (sc_msg s))"
  "json_get ''image_url'' (scraped_json s) = wire_str (em_image_url (sc_msg s))"
  "json_get ''url'' (scraped_json s) = wire_str (em_url (sc_msg s))"
  by (simp_all add: scraped_json_def venue_obj_def Let_def wire_str_def wire_strs_def map_add_def split: option.split)

lemma read_wire_str: "(case wire_str s of JNull \<Rightarrow> Some [] | JStr x \<Rightarrow> Some x | _ \<Rightarrow> None) = Some s"
  by (simp add: wire_str_def)

lemma read_wire_strs:
  "(case wire_strs ss of
      JNull \<Rightarrow> Some []
    | JArr js \<Rightarrow> if list_all (\<lambda>x. read_str x \<noteq> None) js then Some (List.map_filter read_str js) else None
    | _ \<Rightarrow> None) = Some ss"
  by (simp add: wire_strs_def map_filter_total list_all_iff)

lemma read_wire_num:
  assumes "pred_option is_finite v"
  shows "(case wire_num v of JNull \<Rightarrow> Some None | JNum (Fin x) \<Rightarrow> Some (Some x) | _ \<Rightarrow> None) = Some (map_option f64_val v)"
proof (cases v)
  case (Some x)
  then have "is_finite x" using assms by simp
  then obtain r where "x = Fin r" by (metis is_finite_cases)
  then show ?thesis using Some by (simp add: wire_num_def)
qed (simp add: wire_num_def)

lemma encodable_coordinates:
  "encodable (scraped_json s) \<Longrightarrow> pred_option is_finite (sc_lat s) \<and> pred_option is_finite (sc_lng s)"
  by (cases "sc_lat s"; cases "sc_lng s") (simp_all add: scraped_json_def omit_f64_def Let_def)

text \<open>The message beside its coordinates, as the scraper builds it.\<close>

definition well_scraped :: "scraped \<Rightarrow> bool" where
  "well_scraped s =
     (vm_lat (em_venue (sc_msg s)) = map_option f64_val (sc_lat s) \<and> vm_lng (em_venue (sc_msg s)) = map_option f64_val (sc_lng s))"

lemma to_message_well: "to_message T S e = Some s \<Longrightarrow> well_scraped s"
  by (auto simp: to_message_def well_scraped_def split: if_splits option.splits prod.splits list.splits)

lemma to_message_coordinates:
  "to_message T S e = Some s \<Longrightarrow>
     sc_lat s \<in> insert None (range (tm_parse_float S)) \<and> sc_lng s \<in> insert None (range (tm_parse_float S))"
  by (auto simp: to_message_def coordinate_def split: if_splits option.splits prod.splits list.splits)

lemma read_venue_obj:
  assumes "encodable (scraped_json s)" and "well_scraped s"
  shows "read_venue (venue_obj s) = Some (em_venue (sc_msg s))"
  using encodable_coordinates [OF assms(1)] assms(2)
  by (simp add: read_venue_def field_str_def field_num_def venue_fields read_wire_str read_wire_num well_scraped_def)

lemma read_event_msg_json:
  assumes "encodable (scraped_json s)" and "well_scraped s" and "wire_ok (sc_msg s)"
  shows "read_event_msg (scraped_json s) = Some (sc_msg s)"
proof -
  have str: "field_str k (scraped_json s) = Some x" if "json_get k (scraped_json s) = wire_str x" for k x
    unfolding field_str_def that by (rule read_wire_str)
  have strs: "field_strs k (scraped_json s) = Some xs" if "json_get k (scraped_json s) = wire_strs xs" for k xs
    unfolding field_strs_def that by (rule read_wire_strs)
  have start: "field_time ''starts_at'' (scraped_json s) = Some (Some (em_starts_at (sc_msg s)))"
    using assms(3) by (simp add: field_time_def message_fields wire_ok_def year_ok_def parse_format_rfc3339_nano)
  have ending: "field_time ''ends_at'' (scraped_json s) = Some (em_ends_at (sc_msg s))"
    using assms(3)
    by (cases "em_ends_at (sc_msg s)") (simp_all add: field_time_def message_fields wire_ok_def year_ok_def parse_format_rfc3339_nano)
  have tbd: "field_bool ''time_tbd'' (scraped_json s) = Some (em_time_tbd (sc_msg s))"
    by (simp add: field_bool_def message_fields)
  have names: "field_str ''source_id'' (scraped_json s) = Some (em_source (sc_msg s))"
    "field_str ''source_event_id'' (scraped_json s) = Some (scraped_id s)"
    "field_str ''title'' (scraped_json s) = Some (em_title (sc_msg s))"
    by (simp_all add: field_str_def message_fields)
  note opt = str [OF message_fields(4)] str [OF message_fields(9)] str [OF message_fields(12)] str [OF message_fields(13)]
    strs [OF message_fields(10)] strs [OF message_fields(11)]
  show ?thesis
    unfolding read_event_msg_def names opt start ending tbd message_fields(8) read_venue_obj [OF assms(1,2)]
    by simp
qed

section \<open>A run\<close>

lemma publish_all_published:
  "run_state (publish_all queue ms) w = (ok, w') \<Longrightarrow>
     \<exists>n \<le> length ms. w_published w' = w_published w @ map (\<lambda>m. (queue, scraped_json m)) (take n ms) \<and> w_db w' = w_db w \<and>
       (ok \<longrightarrow> n = length ms \<and> (\<forall>m \<in> set ms. encodable (scraped_json m)))"
proof (induction ms arbitrary: w)
  case Nil
  then show ?case by auto
next
  case (Cons m ms)
  show ?case
  proof (cases "encodable (scraped_json m)")
    case False
    then show ?thesis using Cons.prems by (intro exI [of _ 0]) auto
  next
    case enc: True
    obtain sent w1 where p: "run_state (publish queue (scraped_json m)) w = (sent, w1)" by fastforce
    have db: "w_db w1 = w_db w" using p by (auto simp: publish_def split: fault.splits)
    show ?thesis
    proof (cases sent)
      case True
      then have w1: "w_published w1 = w_published w @ [(queue, scraped_json m)]"
        using p by (auto simp: publish_def split: fault.splits)
      have run: "run_state (publish_all queue ms) w1 = (ok, w')" using Cons.prems enc p True by simp
      obtain n where "n \<le> length ms" "w_published w' = w_published w1 @ map (\<lambda>m. (queue, scraped_json m)) (take n ms)"
          "w_db w' = w_db w1" "ok \<longrightarrow> n = length ms \<and> (\<forall>m \<in> set ms. encodable (scraped_json m))"
        using Cons.IH [OF run] by blast
      then show ?thesis using w1 db enc by (intro exI [of _ "Suc n"]) simp
    next
      case False
      then have res: "\<not> ok" "w' = w1" using Cons.prems enc p by simp_all
      have "w_published w1 = w_published w \<or> w_published w1 = w_published w @ [(queue, scraped_json m)]"
        using p by (auto simp: publish_def split: fault.splits)
      then show ?thesis using res db by (auto intro: exI [of _ 0] exI [of _ "Suc 0"])
    qed
  qed
qed

definition listing :: "text_env \<Rightarrow> tm_env \<Rightarrow> tm_page list \<Rightarrow> scraped list" where
  "listing T S ps = dedup_by scraped_id [] (page_messages T S ps)"

lemma listing_well: "m \<in> set (listing T S ps) \<Longrightarrow> well_scraped m"
  using dedup_by_set [of scraped_id "[]" "page_messages T S ps"] to_message_well
  by (auto simp: listing_def page_messages_def map_filter_def)

lemma listing_distinct: "distinct (map scraped_id (listing T S ps))"
  by (simp add: listing_def dedup_by_distinct)

lemma run_scraper_walk:
  assumes "run_state (run_scraper T S queue) w = (ok, w')"
  shows "\<exists>ps n. length ps \<le> max_pages \<and> served_pages S (w_step w) (first_url S (now_of w)) ps \<and> n \<le> length (listing T S ps) \<and>
    w_published w' = w_published w @ map (\<lambda>m. (queue, scraped_json m)) (take n (listing T S ps)) \<and> w_db w' = w_db w \<and>
    (ok \<longrightarrow> (length ps = max_pages \<or> next_after S (first_url S (now_of w)) ps = []) \<and> n = length (listing T S ps) \<and>
       (\<forall>m \<in> set (listing T S ps). encodable (scraped_json m)))"
proof -
  obtain r w1 where f: "run_state (fetch_pages T S max_pages (first_url S (now_of w)) [] []) w = (r, w1)" by fastforce
  from fetch_pages_walk [OF f] obtain ps where ps: "length ps \<le> max_pages"
      "served_pages S (w_step w) (first_url S (now_of w)) ps"
    and res: "case r of
        Some ms \<Rightarrow> (length ps = max_pages \<or> next_after S (first_url S (now_of w)) ps = []) \<and>
          w1 = w\<lparr>w_step := w_step w + length ps\<rparr> \<and> ms = [] @ dedup_by scraped_id [] (page_messages T S ps)
      | None \<Rightarrow> length ps < max_pages \<and> next_after S (first_url S (now_of w)) ps \<noteq> [] \<and>
          w1 = w\<lparr>w_step := w_step w + Suc (length ps)\<rparr> \<and>
          page_reply (tm_reply S (w_step w + length ps) (next_after S (first_url S (now_of w)) ps)) = None" by blast
  show ?thesis
  proof (cases r)
    case None
    then show ?thesis using assms f ps res
      by (intro exI [of _ ps] exI [of _ 0]) (auto simp: run_scraper_def fetch_events_def)
  next
    case (Some ms)
    have ms: "ms = listing T S ps" and w1: "w_published w1 = w_published w" "w_db w1 = w_db w"
      using res Some by (simp_all add: listing_def)
    have "run_state (publish_all queue ms) w1 = (ok, w')"
      using assms f Some by (simp add: run_scraper_def fetch_events_def)
    from publish_all_published [OF this] obtain n where "n \<le> length ms"
        "w_published w' = w_published w1 @ map (\<lambda>m. (queue, scraped_json m)) (take n ms)" "w_db w' = w_db w1"
        "ok \<longrightarrow> n = length ms \<and> (\<forall>m \<in> set ms. encodable (scraped_json m))" by blast
    then show ?thesis using ps res Some w1 unfolding ms by (intro exI [of _ ps] exI [of _ n]) auto
  qed
qed

lemma next_after_snoc: "next_after S url (ps @ [p]) = next_page_url S (fst p)"
  by (induction ps arbitrary: url) simp_all

section \<open>Properties\<close>

text \<open>
  Whatever links the API hands out, every request of a walk carries the key and the sort
  order of the walk, once each and with no other value for them; a request after the first
  also carries every other parameter of the link it follows, in the link's order.
\<close>

theorem requests_pinned:
  assumes "next_after S (first_url S now) ps \<noteq> []"
  shows "pinned S (next_after S (first_url S now) ps) \<and>
    (ps \<noteq> [] \<longrightarrow> (\<exists>front query fragment query'.
       tm_resolve S (base_url S) (strip_templates (fst (last ps))) = Some (front, query, fragment) \<and>
       next_after S (first_url S now) ps = front @ ''?'' @ query' @ fragment \<and>
       (\<forall>k. k \<noteq> ''apikey'' \<longrightarrow> k \<noteq> ''sort'' \<longrightarrow> values_of k (parse_query query') = values_of k (parse_query query))))"
proof (cases ps rule: rev_cases)
  case Nil
  then show ?thesis using first_url_pinned by simp
next
  case (snoc qs p)
  have "next_page_url S (fst p) \<noteq> []" using assms unfolding snoc next_after_snoc .
  from next_page_pinned [OF this] show ?thesis unfolding snoc next_after_snoc last_snoc by blast
qed


text \<open>A message that cannot be encoded, a latitude of \<open>NaN\<close> say, ends the run: nothing from it on is published.\<close>

lemma publish_all_stops:
  "\<not> encodable (scraped_json m) \<Longrightarrow> run_state (publish_all queue (xs @ m # ys)) w = (ok, w') \<Longrightarrow>
     \<not> ok \<and> (\<exists>n \<le> length xs. w_published w' = w_published w @ map (\<lambda>m. (queue, scraped_json m)) (take n xs))"
proof (induction xs arbitrary: w)
  case Nil
  then show ?case by simp
next
  case (Cons x xs)
  show ?case
  proof (cases "encodable (scraped_json x)")
    case False
    then show ?thesis using Cons.prems by (auto intro: exI [of _ 0])
  next
    case enc: True
    obtain sent w1 where p: "run_state (publish queue (scraped_json x)) w = (sent, w1)" by fastforce
    show ?thesis
    proof (cases sent)
      case True
      then have w1: "w_published w1 = w_published w @ [(queue, scraped_json x)]"
        using p by (auto simp: publish_def split: fault.splits)
      have "run_state (publish_all queue (xs @ m # ys)) w1 = (ok, w')" using Cons.prems enc p True by simp
      from Cons.IH [OF Cons.prems(1) this] obtain n where "\<not> ok" "n \<le> length xs"
        "w_published w' = w_published w1 @ map (\<lambda>m. (queue, scraped_json m)) (take n xs)" by blast
      then show ?thesis using w1 by (auto intro: exI [of _ "Suc n"])
    next
      case False
      then have res: "\<not> ok" "w' = w1" using Cons.prems enc p by simp_all
      have "w_published w1 = w_published w \<or> w_published w1 = w_published w @ [(queue, scraped_json x)]"
        using p by (auto simp: publish_def split: fault.splits)
      then show ?thesis using res by (auto intro: exI [of _ 0] exI [of _ "Suc 0"])
    qed
  qed
qed

theorem unencodable_event_stops_run:
  assumes "run_state (fetch_events T S) w = (Some (xs @ m # ys), w1)" and "\<not> encodable (scraped_json m)"
    and "run_state (run_scraper T S queue) w = (ok, w')"
  shows "\<not> ok \<and> (\<exists>n \<le> length xs. w_published w' = w_published w1 @ map (\<lambda>m. (queue, scraped_json m)) (take n xs))"
  using publish_all_stops [OF assms(2)] assms(1,3) by (simp add: run_scraper_def)

text \<open>
  In a zone whose clocks skip midnight, the last day of a span given by dates alone is lost:
  the midnight of that day does not exist, \<open>ParseInLocation\<close> answers an hour before it, and the
  end is then taken from the day before. The zone here leaves UTC-5 for UTC-4 at that midnight.
\<close>

definition gap_zone :: location where
  "gap_zone t = (if t < days_of_civil (2025, 3, 9) * day + 5 * hour then - 5 * hour else - 4 * hour)"

definition gap_env :: tm_env where
  "gap_env = \<lparr>tm_base = [], tm_key = ''k'', tm_city = ''x'', tm_reply = \<lambda>_ _. None,
     tm_location = \<lambda>n. if n = ''America/Havana'' then Some gap_zone else None, tm_parse_float = \<lambda>_. None,
     tm_order = \<lambda>gs. gs, tm_resolve = \<lambda>_ _. None\<rparr>"

definition gap_event :: tm_event where
  "gap_event = \<lparr>te_id = ''e'', te_name = ''Festival'', te_url = [], te_info = [], te_images = [], te_start_time = [],
     te_start_date = ''2025-03-08'', te_end_time = [], te_end_date = ''2025-03-09'', te_timezone = ''America/Havana'',
     te_classes = [], te_venues = [], te_attractions = []\<rparr>"

lemma demo_date: "take_date ''2025-03-09'' = Some ((2025, 3, 9), [])" "valid_date (2025, 3, 9)"
proof -
  show valid: "valid_date (2025, 3, 9)" by (simp add: valid_date_def month_lens_def leap_year_def)
  have "fmt_date (2025, 3, 9) @ [] = ''2025-03-09''" by code_simp
  then show "take_date ''2025-03-09'' = Some ((2025, 3, 9), [])" using take_date_fmt [OF valid, of "[]"] by simp
qed

theorem midnight_gap_loses_closing_day:
  "map_option (date_in gap_zone) (ends_at gap_env gap_event) = Some (2025, 3, 8)"
proof -
  define k where "k = days_of_civil (2025, 3, 8)"
  have k1: "days_of_civil (2025, 3, 9) = k + 1"
    by (simp add: k_def days_of_civil_def month_lens_def leap_year_def)
  have valid: "valid_date (2025, 3, 8)" by (simp add: valid_date_def month_lens_def leap_year_def)
  have "parse_date_only ''2025-03-09'' = Some ((k + 1) * day)"
    using demo_date by (simp add: parse_date_only_def instant_of_def k1)
  then have "parse_date_in gap_zone ''2025-03-09'' = Some ((k + 1) * day + 4 * hour)"
    by (simp add: parse_date_in_def local_to_utc_def gap_zone_def k1)
  moreover have eve: "date_of (k * day + r) = (2025, 3, 8)" if "0 \<le> r" "r < day" for r
  proof -
    have "(k * day + r) div day = k" using that by simp
    then show ?thesis using days_of_civil_inverse [OF valid] by (simp add: date_of_def k_def)
  qed
  moreover have "date_in gap_zone ((k + 1) * day + 4 * hour) = (2025, 3, 8)"
    using eve [of "23 * hour"] by (simp add: date_in_def gap_zone_def k1 algebra_simps)
  moreover have "local_to_utc gap_zone (instant_of (2025, 3, 8) 23 59 59 0) = k * day + 29 * hour - second"
    by (simp add: local_to_utc_def gap_zone_def instant_of_def k1 k_def [symmetric])
  moreover have "date_in gap_zone (k * day + 29 * hour - second) = (2025, 3, 8)"
    using eve [of "24 * hour - second"] by (simp add: date_in_def gap_zone_def k1 algebra_simps)
  moreover have "parse_rfc3339 [] = None"
    by (simp add: parse_rfc3339_def take_date_def take_dec_def)
  moreover have "event_location gap_env gap_event = gap_zone"
    by (simp add: event_location_def gap_env_def gap_event_def map_filter_simps)
  ultimately show ?thesis by (simp add: ends_at_def gap_event_def)
qed

section \<open>Witnesses\<close>

text \<open>An API with one event, listed twice over two pages, and no third page.\<close>

definition demo_listed :: tm_event where
  "demo_listed = gap_event\<lparr>te_start_date := ''2025-03-09'', te_timezone := [],
     te_venues := [\<lparr>tv_name = ''hall'', tv_line1 = [], tv_latitude = ''45.5'', tv_longitude = [], tv_timezone = [], tv_url = []\<rparr>]\<rparr>"

definition demo_api :: tm_env where
  "demo_api = gap_env\<lparr>
     tm_reply := \<lambda>n _. Some (200, Some (if n = 0 then (''/more?page=1'', [demo_listed]) else ([], [demo_listed]))),
     tm_parse_float := \<lambda>_. Some (Fin 45.5), tm_resolve := \<lambda>base ref. Some (base, ''page=1&apikey=old'', [])\<rparr>"

lemma encodable_finite:
  "pred_option is_finite (sc_lat m) \<Longrightarrow> pred_option is_finite (sc_lng m) \<Longrightarrow> encodable (scraped_json m)"
  by (cases "sc_lat m"; cases "sc_lng m")
     (auto simp: scraped_json_def omit_f64_def omit_str_def omit_strs_def Let_def list_all_iff split: option.split)

lemma publish_all_up:
  "always_up w \<Longrightarrow> \<forall>m \<in> set ms. encodable (scraped_json m) \<Longrightarrow> fst (run_state (publish_all queue ms) w)"
proof (induction ms arbitrary: w)
  case (Cons m ms)
  have "run_state (publish queue (scraped_json m)) w = (True, tick (w\<lparr>w_published := w_published w @ [(queue, scraped_json m)]\<rparr>))"
    using Cons.prems(1) by (simp add: publish_def always_up_def fault_of_def)
  then show ?case using Cons by (simp add: always_up_def)
qed simp

definition demo_scraped :: scraped where
  "demo_scraped = the (to_message plain_env demo_api demo_listed)"

lemma demo_message:
  "to_message plain_env demo_api demo_listed = Some demo_scraped" "encodable (scraped_json demo_scraped)"
proof -
  have "parse_rfc3339 [] = None" by (simp add: parse_rfc3339_def take_date_def take_dec_def)
  then have "starts_at demo_api demo_listed \<noteq> None"
    using demo_date by (simp add: starts_at_def parse_date_in_def parse_date_only_def demo_listed_def gap_event_def)
  then show some: "to_message plain_env demo_api demo_listed = Some demo_scraped"
    unfolding demo_scraped_def
    by (auto simp: to_message_def demo_listed_def gap_event_def split: option.splits)
  show "encodable (scraped_json demo_scraped)"
    using to_message_coordinates [OF some] by (auto simp: demo_api_def intro!: encodable_finite)
qed

lemma demo_fetch:
  "\<exists>w1. run_state (fetch_events plain_env demo_api) (ingest_world 5 ingest_db) = (Some [demo_scraped], w1) \<and>
     always_up w1 \<and> w_published w1 = []"
proof -
  let ?w = "ingest_world 5 ingest_db"
  have six: "max_pages = Suc (Suc (Suc (Suc (Suc (Suc 0)))))" by (simp add: max_pages_def paging_depth_def page_size_def)
  have first: "first_url demo_api (now_of ?w) \<noteq> []" by (simp add: first_url_def)
  have following: "next_page_url demo_api ''/more?page=1'' \<noteq> []" "next_page_url demo_api [] = []"
    by (simp_all add: next_page_url_def demo_api_def strip_templates.simps)
  have replies: "page_reply (tm_reply demo_api 0 u) = Some (''/more?page=1'', [demo_listed])"
    "page_reply (tm_reply demo_api (Suc 0) u) = Some ([], [demo_listed])" for u
    by (simp_all add: demo_api_def page_reply_def)
  have step: "w_step ?w = 0" by (simp add: ingest_world_def init_world_def)
  have "run_state (fetch_events plain_env demo_api) ?w = (Some [demo_scraped], tick (tick ?w))"
    using first following by (simp add: fetch_events_def six fetch_page_def step replies demo_message)
  moreover have "always_up (tick (tick ?w))" using ingest_world_ok(1) by (simp add: always_up_def)
  moreover have "w_published (tick (tick ?w)) = []" by (simp add: ingest_world_def init_world_def)
  ultimately show ?thesis by blast
qed


theorem requests_pinned_witness:
  "next_after demo_api (first_url demo_api 0) [(''/more?page=1'', [])] \<noteq> [] \<and>
   pinned demo_api (next_after demo_api (first_url demo_api 0) [(''/more?page=1'', [])])"
proof -
  have ne: "next_after demo_api (first_url demo_api 0) [(''/more?page=1'', [])] \<noteq> []"
    by (simp add: next_page_url_def demo_api_def strip_templates.simps)
  show ?thesis using requests_pinned [OF ne] ne by blast
qed

end
