(* ===== verification/Config.thy ===== *)
theory Config
  imports Ticketmaster
begin

text \<open>
  The start of the process: the connection string (\<open>internal/dsn/dsn.go\<close>) and the configuration
  read from the environment (\<open>internal/config/config.go\<close>), with the parts of \<open>strconv\<close>,
  \<open>time\<close> and \<open>net/url\<close> they use.
\<close>

text \<open>\<open>os.Getenv\<close>: an unset variable is empty.\<close>

type_synonym environment = "string \<Rightarrow> string"

section \<open>The connection string\<close>

record db_components =
  dc_user :: string
  dc_password :: string
  dc_host :: string
  dc_port :: string
  dc_name :: string
  dc_sslmode :: string

text \<open>\<open>url.escape\<close>: the bytes that stay as they are depend on the part of the URL.\<close>

definition url_escape :: "nat set \<Rightarrow> string \<Rightarrow> string" where
  "url_escape keep s =
     concat (map (\<lambda>c. if unreserved c \<or> byte_of c \<in> keep then [c]
                      else [CHR ''%'', hex_upper (byte_of c div 16), hex_upper (byte_of c mod 16)]) s)"

definition user_bytes :: "nat set" where "user_bytes = {36, 38, 43, 44, 59, 61}"

definition host_bytes :: "nat set" where
  "host_bytes = {33, 34, 36, 38, 39, 40, 41, 42, 43, 44, 58, 59, 60, 61, 62, 91, 93}"

definition path_bytes :: "nat set" where "path_bytes = {36, 38, 43, 44, 47, 58, 59, 61, 64}"

definition similarity_option :: string where
  "similarity_option = ''-c pg_trgm.similarity_threshold=0.2''"

text \<open>\<open>net.JoinHostPort\<close> brackets a host with a colon.\<close>

definition join_host_port :: "string \<Rightarrow> string \<Rightarrow> string" where
  "join_host_port h p = (if CHR '':'' \<in> set h then ''['' @ h @ '']:'' @ p else h @ '':'' @ p)"

definition userinfo :: "string \<Rightarrow> string \<Rightarrow> string" where
  "userinfo u p =
     (if u = [] \<and> p = [] then [] else url_escape user_bytes u @ '':'' @ url_escape user_bytes p)"

definition dsn_of :: "db_components \<Rightarrow> string" where
  "dsn_of c =
     ''postgres://'' @ userinfo (dc_user c) (dc_password c) @ ''@''
     @ url_escape host_bytes (if dc_port c \<noteq> [] then join_host_port (dc_host c) (dc_port c) else dc_host c)
     @ url_escape path_bytes (''/'' @ dc_name c) @ ''?''
     @ encode_values ((if dc_sslmode c \<noteq> [] then [(''sslmode'', dc_sslmode c)] else []) @ [(''options'', similarity_option)])"

text \<open>The names among those given that have no value.\<close>

definition missing_of :: "environment \<Rightarrow> string list \<Rightarrow> string list" where
  "missing_of env names = filter (\<lambda>k. env k = []) names"

definition components_from_env :: "environment \<Rightarrow> string \<Rightarrow> string list + db_components" where
  "components_from_env env pre =
     (let missing = missing_of env [pre @ ''USER'', pre @ ''PASSWORD'', pre @ ''HOST'', pre @ ''NAME''] in
      if missing \<noteq> [] then Inl missing
      else Inr \<lparr>dc_user = env (pre @ ''USER''), dc_password = env (pre @ ''PASSWORD''),
                dc_host = env (pre @ ''HOST''),
                dc_port = (if env (pre @ ''PORT'') = [] then ''5432'' else env (pre @ ''PORT'')),
                dc_name = env (pre @ ''NAME''), dc_sslmode = env (pre @ ''SSLMODE'')\<rparr>)"

section \<open>Values\<close>

definition dec_value :: "string \<Rightarrow> nat" where
  "dec_value ds = from_digits 10 (map (\<lambda>c. the (dec_val c)) ds)"

text \<open>\<open>strconv.Atoi\<close> on 64 bits.\<close>

definition atoi :: "string \<Rightarrow> int option" where
  "atoi s =
     (let (neg, ds) = (case s of c # r \<Rightarrow> if c = CHR ''-'' then (True, r) else if c = CHR ''+'' then (False, r) else (False, s)
                               | [] \<Rightarrow> (False, []));
          n = (if neg then - int (dec_value ds) else int (dec_value ds))
      in if ds = [] \<or> \<not> list_all is_dec ds \<or> n < - (2 ^ 63) \<or> 2 ^ 63 \<le> n then None else Some n)"

definition parse_bool :: "string \<Rightarrow> bool option" where
  "parse_bool s =
     (if s \<in> {''1'', ''t'', ''T'', ''TRUE'', ''true'', ''True''} then Some True
      else if s \<in> {''0'', ''f'', ''F'', ''FALSE'', ''false'', ''False''} then Some False
      else None)"

text \<open>\<open>base64.StdEncoding.DecodeString\<close>: line ends are skipped, the last group is padded.\<close>

definition b64_decode_padded :: "string \<Rightarrow> string option" where
  "b64_decode_padded s =
     (let cs = filter (\<lambda>c. byte_of c \<noteq> 10 \<and> byte_of c \<noteq> 13) s;
          pad = min 2 (length (takeWhile (\<lambda>c. c = CHR ''='') (rev cs)))
      in if length cs mod 4 \<noteq> 0 then None
         else b64_decode StdAlphabet (take (length cs - pad) cs))"

text \<open>
  \<open>time.ParseDuration\<close>: numbers with a fraction and a unit, summed. An overflow of the 63 bits
  is an error; the digits of a fraction that no longer fit are dropped. The product of the
  fraction and the unit is exact here where the code rounds it to a float.
\<close>

definition duration_units :: "(string \<times> nat) list" where
  "duration_units =
     [(''ns'', 1), (''us'', 1000), ([CHR 0xC2, CHR 0xB5, CHR ''s''], 1000), ([CHR 0xCE, CHR 0xBC, CHR ''s''], 1000),
      (''ms'', 1000000), (''s'', 1000000000), (''m'', 60000000000), (''h'', 3600000000000)]"

fun fitting_digits :: "nat \<Rightarrow> string \<Rightarrow> nat \<times> nat" where
  "fitting_digits x [] = (x, 0)"
| "fitting_digits x (c # ds) =
     (let y = 10 * x + the (dec_val c) in
      if 2 ^ 63 < y then (x, 0) else let (z, k) = fitting_digits y ds in (z, Suc k))"

text \<open>One number and its unit: the digits, those of the fraction, the unit and what follows.\<close>

definition duration_chunk :: "string \<Rightarrow> string \<times> string \<times> string \<times> string" where
  "duration_chunk s =
     (let ds = takeWhile is_dec s; s1 = dropWhile is_dec s;
          dot = (s1 \<noteq> [] \<and> hd s1 = CHR ''.'');
          fs = (if dot then takeWhile is_dec (tl s1) else []);
          s2 = (if dot then dropWhile is_dec (tl s1) else s1)
      in (ds, fs, takeWhile (\<lambda>c. c \<noteq> CHR ''.'' \<and> \<not> is_dec c) s2, dropWhile (\<lambda>c. c \<noteq> CHR ''.'' \<and> \<not> is_dec c) s2))"

lemma duration_chunk_shorter:
  assumes "duration_chunk s = (ds, fs, u, s3)" and "ds \<noteq> [] \<or> fs \<noteq> []"
  shows "length s3 < length s"
proof -
  define s1 where "s1 = dropWhile is_dec s"
  have len: "length s = length ds + length s1"
    using assms(1) by (auto simp: duration_chunk_def Let_def s1_def length_append [symmetric] simp del: length_append)
  show ?thesis
  proof (cases "s1 \<noteq> [] \<and> hd s1 = CHR ''.''")
    case True
    then have "s3 = dropWhile (\<lambda>c. c \<noteq> CHR ''.'' \<and> \<not> is_dec c) (dropWhile is_dec (tl s1))"
      using assms(1) by (simp add: duration_chunk_def s1_def Let_def)
    then have "length s3 \<le> length (tl s1)" and "s1 \<noteq> []"
      using True by (simp_all only: order.trans [OF length_dropWhile_le length_dropWhile_le] not_False_eq_True)
    then show ?thesis using len by (cases s1) simp_all
  next
    case False
    then have "length s3 \<le> length s1" "ds \<noteq> []"
      using assms by (auto simp: duration_chunk_def s1_def Let_def intro: length_dropWhile_le)
    then show ?thesis using len by (cases ds) simp_all
  qed
qed

function duration_sum :: "string \<Rightarrow> nat \<Rightarrow> nat option" where
  "duration_sum s d =
     (if s = [] then Some d
      else case duration_chunk s of (ds, fs, u, s3) \<Rightarrow>
        if ds = [] \<and> fs = [] \<or> 2 ^ 63 < dec_value ds then None
        else case map_of duration_units u of
          None \<Rightarrow> None
        | Some unit \<Rightarrow>
            if 2 ^ 63 div unit < dec_value ds then None
            else let (f, k) = fitting_digits 0 fs;
                     v = dec_value ds * unit + (if 0 < f then f * unit div 10 ^ k else 0);
                     d' = (d + v) mod 2 ^ 64
                 in if 2 ^ 63 < v \<or> 2 ^ 63 < d' then None else duration_sum s3 d')"
  by pat_completeness auto
termination
  by (relation "measure (\<lambda>(s, d). length s)") (auto dest: duration_chunk_shorter [OF sym])

declare duration_sum.simps [simp del]

definition parse_duration :: "string \<Rightarrow> instant option" where
  "parse_duration s =
     (let (neg, r) = (case s of c # r \<Rightarrow> if c = CHR ''-'' then (True, r) else if c = CHR ''+'' then (False, r) else (False, s)
                              | [] \<Rightarrow> (False, []))
      in if r = ''0'' then Some 0
         else if r = [] then None
         else case duration_sum r 0 of
           None \<Rightarrow> None
         | Some d \<Rightarrow> if neg then Some (- int d) else if 2 ^ 63 \<le> d then None else Some (int d))"

section \<open>The configuration\<close>

record config =
  cf_database_url :: string
  cf_http_addr :: string
  cf_jwt_key :: string
  cf_access_ttl :: instant
  cf_refresh_ttl :: instant
  cf_log_level :: string
  cf_aws_region :: string
  cf_db_secret :: string
  cf_sqs_endpoint :: string
  cf_events_queue :: string
  cf_workers :: int
  cf_tm_key :: string
  cf_tm_city :: string
  cf_enriched_queue :: string
  cf_spotify_id :: string
  cf_spotify_secret :: string
  cf_spotify_redirect :: string
  cf_spotify_enc_key :: string
  cf_interests_queue :: string
  cf_tei_endpoint :: string
  cf_semantic :: bool
  cf_ical_base :: string
  cf_cors_origins :: "string list"
  cf_trust_proxy :: bool
  cf_email_sender :: string
  cf_email_from :: string
  cf_app_base :: string
  cf_api_base :: string
  cf_poster_function :: string
  cf_posters_bucket :: string
  cf_db_stats :: bool

datatype config_error =
    MissingDatabase "string list"
  | MissingSigningKey
  | InvalidValue string string       \<comment> \<open>the variable and its value\<close>
  | SemanticNeedsEndpoint
  | MissingMail "string list"
  | MissingPoster "string list"

definition or_default :: "environment \<Rightarrow> string \<Rightarrow> string \<Rightarrow> string" where
  "or_default env k fallback = (if env k = [] then fallback else env k)"

definition duration_env :: "environment \<Rightarrow> string \<Rightarrow> string \<Rightarrow> config_error + instant" where
  "duration_env env k fallback =
     (case parse_duration (or_default env k fallback) of
        None \<Rightarrow> Inl (InvalidValue k (or_default env k fallback))
      | Some t \<Rightarrow> Inr t)"

definition bool_env :: "environment \<Rightarrow> string \<Rightarrow> bool \<Rightarrow> config_error + bool" where
  "bool_env env k fallback =
     (if env k = [] then Inr fallback
      else case parse_bool (env k) of None \<Rightarrow> Inl (InvalidValue k (env k)) | Some b \<Rightarrow> Inr b)"

definition workers_env :: "environment \<Rightarrow> config_error + int" where
  "workers_env env =
     (let v = env ''INGEST_WORKERS'' in
      if v = [] then Inr 4
      else case atoi v of
        None \<Rightarrow> Inl (InvalidValue ''INGEST_WORKERS'' v)
      | Some n \<Rightarrow> if n < 1 then Inl (InvalidValue ''INGEST_WORKERS'' v) else Inr n)"

definition enc_key_env :: "environment \<Rightarrow> config_error + string" where
  "enc_key_env env =
     (let v = env ''SPOTIFY_TOKEN_ENC_KEY'' in
      if v = [] then Inr []
      else case b64_decode_padded v of None \<Rightarrow> Inl (InvalidValue ''SPOTIFY_TOKEN_ENC_KEY'' v) | Some k \<Rightarrow> Inr k)"

definition origins_env :: "environment \<Rightarrow> string list" where
  "origins_env env =
     (if env ''CORS_ALLOWED_ORIGINS'' = [] then []
      else filter (\<lambda>o'. o' \<noteq> []) (map trim_space (split_byte (env ''CORS_ALLOWED_ORIGINS'') (CHR '',''))))"

definition mail_names :: "string list" where
  "mail_names = [''EMAIL_SENDER'', ''EMAIL_FROM_ADDRESS'', ''APP_BASE_URL'', ''API_BASE_URL'']"

definition poster_names :: "string list" where
  "poster_names = [''POSTER_FUNCTION_URL'', ''POSTERS_BUCKET'']"

text \<open>\<open>if err != nil { return nil, err }\<close>\<close>

definition or_fail :: "'e + 'a \<Rightarrow> ('a \<Rightarrow> 'e + 'b) \<Rightarrow> 'e + 'b" where
  "or_fail r f = (case r of Inl e \<Rightarrow> Inl e | Inr x \<Rightarrow> f x)"

definition config_from_env :: "environment \<Rightarrow> config_error + config" where
  "config_from_env env =
     (case components_from_env env ''DB_'' of
        Inl names \<Rightarrow> Inl (MissingDatabase names)
      | Inr db \<Rightarrow>
          if env ''JWT_SIGNING_KEY'' = [] then Inl MissingSigningKey
          else or_fail (duration_env env ''JWT_ACCESS_TTL'' ''15m'') (\<lambda>access.
               or_fail (duration_env env ''REFRESH_TTL'' ''720h'') (\<lambda>refresh_ttl.
               or_fail (workers_env env) (\<lambda>workers.
               or_fail (enc_key_env env) (\<lambda>enc_key.
               or_fail (bool_env env ''TRUST_PROXY'' False) (\<lambda>trust.
               or_fail (bool_env env ''SEARCH_SEMANTIC_ENABLED'' False) (\<lambda>semantic.
               if semantic \<and> env ''TEI_ENDPOINT'' = [] then Inl SemanticNeedsEndpoint
               else or_fail (bool_env env ''DB_STATS_LOGGING'' True) (\<lambda>stats.
               if missing_of env mail_names \<noteq> [] then Inl (MissingMail (missing_of env mail_names))
               else if env ''EMAIL_SENDER'' \<noteq> ''ses'' \<and> env ''EMAIL_SENDER'' \<noteq> ''log''
               then Inl (InvalidValue ''EMAIL_SENDER'' (env ''EMAIL_SENDER''))
               else if missing_of env poster_names \<noteq> [] then Inl (MissingPoster (missing_of env poster_names))
               else Inr
                 \<lparr>cf_database_url = dsn_of db, cf_http_addr = or_default env ''HTTP_ADDR'' '':8080'',
                  cf_jwt_key = env ''JWT_SIGNING_KEY'', cf_access_ttl = access, cf_refresh_ttl = refresh_ttl,
                  cf_log_level = or_default env ''LOG_LEVEL'' ''info'', cf_aws_region = env ''AWS_REGION'',
                  cf_db_secret = env ''DB_SECRET_ARN'', cf_sqs_endpoint = env ''SQS_ENDPOINT'',
                  cf_events_queue = env ''EVENTS_QUEUE_URL'', cf_workers = workers,
                  cf_tm_key = env ''TICKETMASTER_API_KEY'', cf_tm_city = env ''TICKETMASTER_CITY'',
                  cf_enriched_queue = env ''ENRICHED_EVENTS_QUEUE_URL'', cf_spotify_id = env ''SPOTIFY_CLIENT_ID'',
                  cf_spotify_secret = env ''SPOTIFY_CLIENT_SECRET'', cf_spotify_redirect = env ''SPOTIFY_REDIRECT_URI'',
                  cf_spotify_enc_key = enc_key, cf_interests_queue = env ''INTERESTS_QUEUE_URL'',
                  cf_tei_endpoint = env ''TEI_ENDPOINT'', cf_semantic = semantic, cf_ical_base = env ''ICAL_BASE_URL'',
                  cf_cors_origins = origins_env env, cf_trust_proxy = trust, cf_email_sender = env ''EMAIL_SENDER'',
                  cf_email_from = env ''EMAIL_FROM_ADDRESS'', cf_app_base = env ''APP_BASE_URL'',
                  cf_api_base = env ''API_BASE_URL'', cf_poster_function = env ''POSTER_FUNCTION_URL'',
                  cf_posters_bucket = env ''POSTERS_BUCKET'', cf_db_stats = stats\<rparr>))))))))"

end
