(* ===== verification/ConfigProps.thy ===== *)
theory ConfigProps
  imports Config TicketmasterProps
begin

text \<open>
  What the configuration guarantees to the server that starts with it: the required settings
  are there and well formed, and the connection string carries the credentials as given.
\<close>

section \<open>Credentials in the connection string\<close>

text \<open>
  How \<open>net/url\<close> reads the credentials of a URL: the authority ends at the first of \<open>/ ? #\<close>,
  the user information at its last \<open>@\<close>, the user at its first colon.
\<close>

definition before_last :: "char \<Rightarrow> string \<Rightarrow> string option" where
  "before_last c s =
     (if c \<in> set s then Some (rev (drop 1 (dropWhile (\<lambda>x. x \<noteq> c) (rev s)))) else None)"

definition read_credentials :: "string \<Rightarrow> (string \<times> string) option" where
  "read_credentials url =
     do { info \<leftarrow> before_last (CHR ''@'')
            (takeWhile (\<lambda>c. c \<notin> {CHR ''/'', CHR ''?'', CHR ''#''}) (trim_prefix url ''postgres://''));
          (u, p) \<leftarrow> cut_byte info (CHR '':'');
          user \<leftarrow> unescape (\<lambda>c. c) u; password \<leftarrow> unescape (\<lambda>c. c) p;
          Some (user, password) }"

definition escape_byte :: "nat set \<Rightarrow> char \<Rightarrow> string" where
  "escape_byte keep c =
     (if unreserved c \<or> byte_of c \<in> keep then [c]
      else [CHR ''%'', hex_upper (byte_of c div 16), hex_upper (byte_of c mod 16)])"

lemma url_escape_simps [simp]:
  "url_escape keep [] = []" "url_escape keep (c # s) = escape_byte keep c @ url_escape keep s"
  by (simp_all add: url_escape_def escape_byte_def)

lemma unescape_url_escape:
  assumes "37 \<notin> keep"
  shows "unescape (\<lambda>c. c) (url_escape keep s) = Some s"
proof (induction s)
  case (Cons c s)
  have "c \<noteq> CHR ''%''" if "unreserved c \<or> byte_of c \<in> keep"
    using that assms unreserved_marks [of c] by auto
  then show ?case
    using Cons unescape_hex [of "byte_of c"] by (simp add: escape_byte_def unescape_plain)
qed simp

lemma url_escape_bytes:
  "x \<in> set (url_escape keep s) \<Longrightarrow> unreserved x \<or> byte_of x \<in> insert 37 keep"
proof (induction s)
  case (Cons c s)
  have "unreserved x \<or> byte_of x \<in> insert 37 keep" if "x \<in> set (escape_byte keep c)"
  proof -
    have "unreserved (hex_upper d)" if "d < 16" for d
      using that by (auto simp: hex_upper_def unreserved_def Let_def)
    then show ?thesis using that by (auto simp: escape_byte_def less_mult_imp_div_less split: if_splits)
  qed
  then show ?case using Cons by auto
qed simp

lemma before_last_append:
  assumes "c \<notin> set t"
  shows "before_last c (s @ c # t) = Some s"
proof -
  have "dropWhile (\<lambda>x. x \<noteq> c) (rev t @ c # rev s) = c # rev s"
    using assms by (subst dropWhile_append2) auto
  then show ?thesis by (simp add: before_last_def)
qed

lemma read_credentials_dsn:
  assumes "dc_user c \<noteq> [] \<or> dc_password c \<noteq> []"
  shows "read_credentials (dsn_of c) = Some (dc_user c, dc_password c)"
proof -
  let ?u = "url_escape user_bytes (dc_user c)" and ?p = "url_escape user_bytes (dc_password c)"
  define host where "host = url_escape host_bytes (if dc_port c \<noteq> [] then join_host_port (dc_host c) (dc_port c) else dc_host c)"
  define q where "q = encode_values ((if dc_sslmode c \<noteq> [] then [(''sslmode'', dc_sslmode c)] else []) @ [(''options'', similarity_option)])"
  have stop: "x \<notin> {CHR ''/'', CHR ''?'', CHR ''#'', CHR ''@''}" if "x \<in> set host \<or> x \<in> set ?u \<or> x \<in> set ?p" for x
    using that unfolding host_def
    by (auto dest!: url_escape_bytes simp: user_bytes_def host_bytes_def unreserved_def Let_def)
  have colon: "CHR '':'' \<notin> set ?u"
    by (auto dest!: url_escape_bytes simp: user_bytes_def unreserved_def Let_def)
  have "trim_prefix (dsn_of c) ''postgres://'' =
      (?u @ '':'' @ ?p @ ''@'' @ host) @ CHR ''/'' # url_escape path_bytes (dc_name c) @ ''?'' @ q"
    using assms trim_prefix_append [of "''postgres://''"]
    by (simp add: dsn_of_def userinfo_def host_def q_def escape_byte_def path_bytes_def)
  then have "takeWhile (\<lambda>c. c \<notin> {CHR ''/'', CHR ''?'', CHR ''#''}) (trim_prefix (dsn_of c) ''postgres://'')
      = ?u @ '':'' @ ?p @ ''@'' @ host"
    using stop by (simp only:) (subst takeWhile_append2; auto)
  moreover have "before_last (CHR ''@'') ((?u @ '':'' @ ?p) @ CHR ''@'' # host) = Some (?u @ '':'' @ ?p)"
    by (rule before_last_append) (use stop in blast)
  moreover have "cut_byte (?u @ CHR '':'' # ?p) (CHR '':'') = Some (?u, ?p)"
    by (rule cut_byte_append [OF colon])
  moreover have "37 \<notin> user_bytes" by (simp add: user_bytes_def)
  ultimately show ?thesis
    by (simp add: read_credentials_def unescape_url_escape)
qed

section \<open>What a configuration guarantees\<close>

lemma or_fail_Inr: "or_fail r f = Inr y \<longleftrightarrow> (\<exists>x. r = Inr x \<and> f x = Inr y)"
  by (simp add: or_fail_def split: sum.split)

lemma missing_none: "missing_of env names = [] \<longleftrightarrow> (\<forall>k \<in> set names. env k \<noteq> [])"
  by (simp add: missing_of_def filter_empty_conv)

lemma duration_sum_bound: "\<not> 2 ^ 63 < d \<Longrightarrow> duration_sum s d = Some r \<Longrightarrow> r \<le> 2 ^ 63"
proof (induction s arbitrary: d rule: measure_induct_rule [where f = length])
  case (less s)
  show ?case
  proof (cases "s = []")
    case True
    then show ?thesis using less.prems by (simp add: duration_sum.simps)
  next
    case False
    obtain ds fs u s3 where c: "duration_chunk s = (ds, fs, u, s3)" by (cases "duration_chunk s")
    obtain f k where fk: "fitting_digits 0 fs = (f, k)" by fastforce
    note IH = less.IH [OF duration_chunk_shorter [OF c], simplified]
    from less.prems(2) False show ?thesis
      by (subst (asm) duration_sum.simps) (auto simp: c fk Let_def split: if_splits option.splits intro: IH)
  qed
qed

lemma parse_duration_range: "parse_duration s = Some t \<Longrightarrow> - (2 ^ 63) \<le> t \<and> t < 2 ^ 63"
  by (auto simp: parse_duration_def Let_def split: list.splits if_splits option.splits dest!: duration_sum_bound [rotated])

lemma duration_env_range: "duration_env env k d = Inr t \<Longrightarrow> - (2 ^ 63) \<le> t \<and> t < 2 ^ 63"
  by (auto simp: duration_env_def split: option.splits dest: parse_duration_range)

lemma atoi_range: "atoi s = Some n \<Longrightarrow> n < 2 ^ 63"
  by (auto simp: atoi_def Let_def split: if_splits list.splits)

lemma workers_env_range: "workers_env env = Inr n \<Longrightarrow> 1 \<le> n \<and> n < 2 ^ 63"
  by (auto simp: workers_env_def Let_def split: if_splits option.splits dest: atoi_range)

lemma components_ok:
  "components_from_env env pre = Inr c \<Longrightarrow>
     dc_user c = env (pre @ ''USER'') \<and> dc_password c = env (pre @ ''PASSWORD'') \<and> dc_user c \<noteq> [] \<and> dc_port c \<noteq> []"
  by (auto simp: components_from_env_def Let_def missing_none split: if_splits)

lemma split_byte_sep: "w \<in> set (split_byte s c) \<Longrightarrow> c \<notin> set w"
  by (induction s arbitrary: w) (auto split: if_splits list.splits)

text \<open>
  A configuration the server can start with: the key and the mail and poster settings are there,
  the sender is a known one, the worker count is positive, the durations fit 64 bits, semantic
  search has an endpoint, and the allowed origins are non-empty, trimmed and free of commas.
\<close>

definition config_ok :: "config \<Rightarrow> bool" where
  "config_ok c =
     (cf_jwt_key c \<noteq> [] \<and> cf_http_addr c \<noteq> [] \<and> cf_log_level c \<noteq> [] \<and> 1 \<le> cf_workers c \<and> cf_workers c < 2 ^ 63 \<and>
      - (2 ^ 63) \<le> cf_access_ttl c \<and> cf_access_ttl c < 2 ^ 63 \<and> - (2 ^ 63) \<le> cf_refresh_ttl c \<and> cf_refresh_ttl c < 2 ^ 63 \<and>
      (cf_semantic c \<longrightarrow> cf_tei_endpoint c \<noteq> []) \<and>
      cf_email_sender c \<in> {''ses'', ''log''} \<and> cf_email_from c \<noteq> [] \<and> cf_app_base c \<noteq> [] \<and> cf_api_base c \<noteq> [] \<and>
      cf_poster_function c \<noteq> [] \<and> cf_posters_bucket c \<noteq> [] \<and>
      (\<forall>o' \<in> set (cf_cors_origins c). o' \<noteq> [] \<and> trim_space o' = o' \<and> CHR '','' \<notin> set o'))"

lemma origins_ok: "o' \<in> set (origins_env env) \<Longrightarrow> o' \<noteq> [] \<and> trim_space o' = o' \<and> CHR '','' \<notin> set o'"
  using trim_space_set by (fastforce simp: origins_env_def dest: split_byte_sep split: if_splits)

lemma loaded_config:
  assumes "config_from_env env = Inr c"
  shows "config_ok c \<and> read_credentials (cf_database_url c) = Some (env ''DB_USER'', env ''DB_PASSWORD'')"
proof -
  obtain db access refresh_ttl workers enc_key trust semantic stats where
      db: "components_from_env env ''DB_'' = Inr db"
    and parts: "duration_env env ''JWT_ACCESS_TTL'' ''15m'' = Inr access" "duration_env env ''REFRESH_TTL'' ''720h'' = Inr refresh_ttl"
      "workers_env env = Inr workers"
    and present: "missing_of env mail_names = []" "missing_of env poster_names = []" "env ''JWT_SIGNING_KEY'' \<noteq> []"
    and checks: "\<not> (semantic \<and> env ''TEI_ENDPOINT'' = [])" "env ''EMAIL_SENDER'' = ''ses'' \<or> env ''EMAIL_SENDER'' = ''log''"
    and fields: "cf_database_url c = dsn_of db" "cf_jwt_key c = env ''JWT_SIGNING_KEY''" "cf_access_ttl c = access"
      "cf_refresh_ttl c = refresh_ttl" "cf_workers c = workers" "cf_semantic c = semantic" "cf_tei_endpoint c = env ''TEI_ENDPOINT''"
      "cf_email_sender c = env ''EMAIL_SENDER''" "cf_email_from c = env ''EMAIL_FROM_ADDRESS''" "cf_app_base c = env ''APP_BASE_URL''"
      "cf_api_base c = env ''API_BASE_URL''" "cf_poster_function c = env ''POSTER_FUNCTION_URL''"
      "cf_posters_bucket c = env ''POSTERS_BUCKET''" "cf_cors_origins c = origins_env env"
      "cf_http_addr c = or_default env ''HTTP_ADDR'' '':8080''" "cf_log_level c = or_default env ''LOG_LEVEL'' ''info''"
    using assms unfolding config_from_env_def by (auto simp: or_fail_Inr split: sum.splits if_splits)
  have "config_ok c"
    using parts present checks unfolding config_ok_def fields
    by (auto simp: missing_none mail_names_def poster_names_def or_default_def origins_ok
        dest!: duration_env_range workers_env_range)
  moreover have "dc_user db = env ''DB_USER''" "dc_password db = env ''DB_PASSWORD''" "dc_user db \<noteq> []"
    using components_ok [OF db, simplified] by blast+
  ultimately show ?thesis using read_credentials_dsn [of db] by (simp add: fields)
qed

text \<open>
  C38. Every configuration that \<open>Load\<close> returns is well formed, whatever the environment holds,
  and its connection string carries the user and the password exactly as they were given.
\<close>

theorem loaded_config_ok:
  assumes "config_from_env env = Inr c"
  shows "config_ok c \<and> read_credentials (cf_database_url c) = Some (env ''DB_USER'', env ''DB_PASSWORD'')"
  by (rule loaded_config [OF assms])

definition demo_settings :: environment where
  "demo_settings k =
     (case map_of [(''DB_USER'', ''app''), (''DB_PASSWORD'', ''a@b/c''), (''DB_HOST'', ''db''), (''DB_NAME'', ''hwh''),
        (''JWT_SIGNING_KEY'', ''key''), (''EMAIL_SENDER'', ''log''), (''EMAIL_FROM_ADDRESS'', ''a@x''),
        (''APP_BASE_URL'', ''http://app''), (''API_BASE_URL'', ''http://api''), (''POSTER_FUNCTION_URL'', ''http://p''),
        (''POSTERS_BUCKET'', ''posters'')] k of None \<Rightarrow> [] | Some v \<Rightarrow> v)"

lemma default_durations: "parse_duration ''15m'' = Some (15 * minute)" "parse_duration ''720h'' = Some (720 * hour)"
  by (simp_all add: parse_duration_def duration_sum.simps duration_chunk_def is_dec_def dec_val_def dec_value_def
      from_digits_def duration_units_def)

theorem loaded_config_ok_witness:
  "\<exists>c. config_from_env demo_settings = Inr c \<and> config_ok c \<and> read_credentials (cf_database_url c) = Some (''app'', ''a@b/c'')"
proof -
  have get: "demo_settings ''DB_USER'' = ''app''" "demo_settings ''DB_PASSWORD'' = ''a@b/c''" by (simp_all add: demo_settings_def)
  have "components_from_env demo_settings ''DB_'' \<in> range Inr"
    by (simp add: components_from_env_def missing_of_def demo_settings_def)
  moreover have "duration_env demo_settings ''JWT_ACCESS_TTL'' ''15m'' = Inr (15 * minute)"
    "duration_env demo_settings ''REFRESH_TTL'' ''720h'' = Inr (720 * hour)"
    by (simp_all only: duration_env_def or_default_def) (simp_all add: demo_settings_def default_durations [simplified])
  moreover have "workers_env demo_settings = Inr 4" "enc_key_env demo_settings = Inr []"
    by (simp_all add: workers_env_def enc_key_env_def demo_settings_def)
  moreover have "bool_env demo_settings ''TRUST_PROXY'' False = Inr False" "bool_env demo_settings ''SEARCH_SEMANTIC_ENABLED'' False = Inr False"
    "bool_env demo_settings ''DB_STATS_LOGGING'' True = Inr True"
    by (simp_all add: bool_env_def demo_settings_def)
  moreover have "missing_of demo_settings mail_names = []" "missing_of demo_settings poster_names = []"
    "demo_settings ''JWT_SIGNING_KEY'' = ''key''" "demo_settings ''EMAIL_SENDER'' = ''log''"
    by (simp_all add: missing_of_def mail_names_def poster_names_def demo_settings_def)
  ultimately obtain c where "config_from_env demo_settings = Inr c"
    by (auto simp: config_from_env_def or_fail_def)
  then show ?thesis using loaded_config_ok [of demo_settings c] get by simp
qed

end
