(* ===== verification/TenantProps.thy ===== *)
theory TenantProps
  imports ServerProps SpotifyProps
begin

text \<open>
  Isolation of the users: whatever an authenticated request does, it does to the rows of the
  user of its token. The database less those rows (every other user's rows, the catalogue,
  the configuration and the caches) is the same before and after.
\<close>

section \<open>The database without a user\<close>

definition erase :: "uuid \<Rightarrow> db \<Rightarrow> db" where
  "erase u d =
     d\<lparr>users := delete_rows (\<lambda>r. u_id r = u) (users d),
       refresh_tokens := delete_rows (\<lambda>r. rt_user_id r = u) (refresh_tokens d),
       confirmations := delete_rows (\<lambda>r. lk_user_id r = u) (confirmations d),
       resets := delete_rows (\<lambda>r. lk_user_id r = u) (resets d),
       ical_tokens := delete_rows (\<lambda>r. ic_user_id r = u) (ical_tokens d),
       spotify_tokens := delete_rows (\<lambda>r. sp_user_id r = u) (spotify_tokens d),
       interests := delete_rows (\<lambda>r. ui_user_id r = u) (interests d),
       matches := delete_rows (\<lambda>r. m_user_id r = u) (matches d),
       going := delete_rows (\<lambda>r. fst r = u) (going d),
       not_interested := delete_rows (\<lambda>r. fst r = u) (not_interested d),
       manual_events := delete_rows (\<lambda>r. mg_user_id r = u) (manual_events d),
       poster_jobs := delete_rows (\<lambda>r. pj_user_id r = u) (poster_jobs d)\<rparr>"

text \<open>Changes that stay within the rows that are left out.\<close>

lemma delete_rows_snoc: "P r \<Longrightarrow> delete_rows P (t @ [r]) = delete_rows P t"
  by (simp add: delete_rows_def)

lemma delete_rows_update:
  "(\<And>r. r \<in> set t \<Longrightarrow> Q r \<Longrightarrow> P r \<and> P (f r)) \<Longrightarrow> delete_rows P (update_rows Q f t) = delete_rows P t"
  by (induction t) auto

lemma delete_rows_delete: "(\<And>r. Q r \<Longrightarrow> P r) \<Longrightarrow> delete_rows P (delete_rows Q t) = delete_rows P t"
  by (induction t) auto

lemma delete_rows_upsert:
  "(\<And>r. key r = key new \<Longrightarrow> P r \<and> P (f r)) \<Longrightarrow> P new \<Longrightarrow> delete_rows P (upsert_row key new f t) = delete_rows P t"
  by (auto simp: upsert_row_def delete_rows_snoc intro!: delete_rows_update)

lemmas within_rows = delete_rows_snoc delete_rows_update delete_rows_delete delete_rows_upsert

lemma erase_table:
  "delete_rows (\<lambda>r. u_id r = u) t1 = delete_rows (\<lambda>r. u_id r = u) (users d) \<Longrightarrow> erase u (d\<lparr>users := t1\<rparr>) = erase u d"
  "delete_rows (\<lambda>r. lk_user_id r = u) t3 = delete_rows (\<lambda>r. lk_user_id r = u) (confirmations d) \<Longrightarrow>
     erase u (d\<lparr>confirmations := t3\<rparr>) = erase u d"
  "delete_rows (\<lambda>r. ic_user_id r = u) t5 = delete_rows (\<lambda>r. ic_user_id r = u) (ical_tokens d) \<Longrightarrow>
     erase u (d\<lparr>ical_tokens := t5\<rparr>) = erase u d"
  "delete_rows (\<lambda>r. sp_user_id r = u) t6 = delete_rows (\<lambda>r. sp_user_id r = u) (spotify_tokens d) \<Longrightarrow>
     erase u (d\<lparr>spotify_tokens := t6\<rparr>) = erase u d"
  "delete_rows (\<lambda>r. ui_user_id r = u) t7 = delete_rows (\<lambda>r. ui_user_id r = u) (interests d) \<Longrightarrow>
     erase u (d\<lparr>interests := t7\<rparr>) = erase u d"
  "delete_rows (\<lambda>r. fst r = u) t9 = delete_rows (\<lambda>r. fst r = u) (going d) \<Longrightarrow> erase u (d\<lparr>going := t9\<rparr>) = erase u d"
  "delete_rows (\<lambda>r. fst r = u) t10 = delete_rows (\<lambda>r. fst r = u) (not_interested d) \<Longrightarrow>
     erase u (d\<lparr>not_interested := t10\<rparr>) = erase u d"
  "delete_rows (\<lambda>r. mg_user_id r = u) t11 = delete_rows (\<lambda>r. mg_user_id r = u) (manual_events d) \<Longrightarrow>
     erase u (d\<lparr>manual_events := t11\<rparr>) = erase u d"
  "delete_rows (\<lambda>r. pj_user_id r = u) t12 = delete_rows (\<lambda>r. pj_user_id r = u) (poster_jobs d) \<Longrightarrow>
     erase u (d\<lparr>poster_jobs := t12\<rparr>) = erase u d"
  by (simp_all add: erase_def)

lemma erase_delete_user: "delete_user u now d = Inr (x, d') \<Longrightarrow> erase u d' = erase u d"
  by (auto simp: delete_user_def erase_def within_rows)

section \<open>Queries\<close>

text \<open>The primary key of the poster jobs is part of what is kept: a claim is by id.\<close>

definition apart :: "uuid \<Rightarrow> db \<Rightarrow> db \<Rightarrow> bool" where
  "apart u X d = (erase u d = X \<and> keyed pj_id (poster_jobs d))"

definition own_query :: "uuid \<Rightarrow> 'a query \<Rightarrow> bool" where
  "own_query u q = (\<forall>X. query_keeps (apart u X) q)"

named_theorems own_rules \<open>queries that stay within the rows of a user\<close>

lemma own_queryI:
  assumes "\<And>t d a d'. q t d = Inr (a, d') \<Longrightarrow> erase u d' = erase u d \<and> (keyed pj_id (poster_jobs d) \<longrightarrow> keyed pj_id (poster_jobs d'))"
  shows "own_query u q"
  using assms by (auto simp: own_query_def query_keeps_def apart_def)

lemma own_read: "(\<And>t d a d'. q t d = Inr (a, d') \<Longrightarrow> d' = d) \<Longrightarrow> own_query u q"
  by (rule own_queryI) auto

lemma own_reads [own_rules]:
  "own_query u (get_user_by_id v)" "own_query u (select_going v)" "own_query u (select_not_interested v)"
  "own_query u (select_going_events v)" "own_query u (select_manual_events v)" "own_query u (get_user_spotify_tokens v)"
  "own_query u (list_manual_interest_rows v)" "own_query u (list_interests_by_kinds col v ks)"
  "own_query u (get_artist_genre_cache k)" "own_query u (get_poster_job j v)" "own_query u list_match_config"
  "own_query u (get_user_calendar_page v st seg n)" "own_query u (get_city_calendar_page c st seg ven n)"
  "own_query u (get_matched_event_for_user i v)" "own_query u (get_artist_enrichment_batch is)"
  "own_query u (select_search_events Se c n s)" "own_query u (select_search_semantic Se c vec n)"
  "own_query u (select_city_venues col c seg)"
  by (rule own_read; auto simp: get_user_by_id_def one_row_def select_going_def select_not_interested_def
      select_going_events_def select_manual_events_def get_user_spotify_tokens_def list_manual_interest_rows_def
      list_interests_by_kinds_def get_artist_genre_cache_def get_poster_job_def list_match_config_def
      get_user_calendar_page_def get_city_calendar_page_def get_matched_event_for_user_def
      get_artist_enrichment_batch_def select_search_events_def select_search_semantic_def select_city_venues_def Let_def
      split: option.splits if_splits)+

lemma own_delete_user [own_rules]: "own_query u (delete_user u)"
  by (rule own_queryI) (auto simp: erase_delete_user, auto simp: delete_user_def keyed_delete_rows)

lemma own_account_queries [own_rules]:
  "own_query u (update_user_score_threshold u th)" "own_query u (update_user_show_setlists u b)"
  "own_query u (upsert_email_confirmation u h ex)" "own_query u (upsert_ical_token u h)" "own_query u (delete_ical_token u)"
  by (rule own_queryI; auto simp: update_user_score_threshold_def update_user_show_setlists_def
      upsert_email_confirmation_def rotate_link_def upsert_ical_token_def delete_ical_token_def
      intro!: erase_table within_rows split: if_splits sum.splits)+

lemma own_list_queries [own_rules]:
  "own_query u (insert_going u e)" "own_query u (clear_going u e)" "own_query u (insert_not_interested u e)"
  "own_query u (clear_not_interested u)" "own_query u (insert_manual_event u date name ven fresh)"
  "own_query u (set_manual_event i u date name ven)" "own_query u (remove_manual_event i u)"
  by (rule own_queryI; auto simp: insert_going_def clear_going_def insert_not_interested_def clear_not_interested_def
      add_pair_def insert_manual_event_def set_manual_event_def remove_manual_event_def Let_def
      intro!: erase_table within_rows split: if_splits option.splits)+

lemma own_interest_queries [own_rules]:
  "own_query u (create_manual_interest_row u v n fresh)" "own_query u (delete_interest_by_id i u)"
  "own_query u (upsert_user_spotify_tokens u a r ex sc)" "own_query u (touch_last_synced u)"
  "own_query u (delete_user_spotify_tokens u)" "own_query u (delete_spotify_derived_interests u)"
  by (rule own_queryI; auto simp: create_manual_interest_row_def delete_interest_by_id_def upsert_user_spotify_tokens_def
      touch_last_synced_def delete_user_spotify_tokens_def delete_spotify_derived_interests_def Let_def
      intro!: erase_table within_rows split: if_splits)+

lemma own_claim [own_rules]: "own_query u (claim_poster_job i u p ven date stale force)"
proof -
  have "erase u d' = erase u d \<and> keyed pj_id (poster_jobs d')"
    if q: "claim_poster_job i u p ven date stale force t d = Inr (a, d')" and k: "keyed pj_id (poster_jobs d)" for t d a d'
  proof (cases "find (\<lambda>r. pj_id r = i) (poster_jobs d)")
    case None
    then have fresh: "i \<notin> pj_id ` set (poster_jobs d)" by (auto simp: find_None_iff)
    obtain r where "d' = d\<lparr>poster_jobs := poster_jobs d @ [r]\<rparr>" "pj_id r = i" "pj_user_id r = u"
      using q None by (auto simp: claim_poster_job_def Let_def split: if_splits)
    then show ?thesis using k fresh by (auto simp: keyed_def intro!: erase_table delete_rows_snoc)
  next
    case (Some r)
    then have r: "r \<in> set (poster_jobs d)" "pj_id r = i" by (auto dest: find_in_set)
    have d': "d' = d\<lparr>poster_jobs := update_rows (\<lambda>r. pj_id r = i) (reclaimed t) (poster_jobs d)\<rparr>" and own: "pj_user_id r = u"
      using q Some by (auto simp: claim_poster_job_def claimable_def split: if_splits)
    have "pj_user_id r' = u" if "r' \<in> set (poster_jobs d)" "pj_id r' = i" for r'
      using keyed_unique [OF k that(1) r(1)] that(2) r(2) own by simp
    then have "erase u d' = erase u d"
      unfolding d' by (auto simp: reclaimed_def intro!: erase_table delete_rows_update)
    moreover have "keyed pj_id (poster_jobs d')" using k by (simp add: d' keyed_update_rows reclaimed_def)
    ultimately show ?thesis by simp
  qed
  then show ?thesis by (auto simp: own_query_def query_keeps_def apart_def)
qed

section \<open>Handlers\<close>

definition own_act :: "uuid \<Rightarrow> ('l, 'a) act \<Rightarrow> bool" where
  "own_act u m = (\<forall>X. keeps (\<lambda>w. apart u X (w_db w)) m)"

lemma own_act_call: "own_query u q \<Longrightarrow> keeps (\<lambda>w. apart u X (w_db w)) (db_call q)"
  by (rule keeps_db_call) (simp add: own_query_def)

lemma own_act_insert: "(\<And>i. own_query u (f i)) \<Longrightarrow> keeps (\<lambda>w. apart u X (w_db w)) (db_insert f)"
  by (rule keeps_db_insert) (simp add: own_query_def)

lemmas own_steps = keeps_rules own_act_call own_act_insert own_rules

lemma own_load_config: "keeps (\<lambda>w. apart u X (w_db w)) (load_config cfg)"
  by (auto simp: load_config_def intro!: own_steps split: sum.splits)

lemma own_attach: "keeps (\<lambda>w. apart u X (w_db w)) (attach_artists rows)"
  by (auto simp: attach_artists_def Let_def intro!: own_steps split: sum.splits)

lemma own_resolve: "keeps (\<lambda>w. apart u X (w_db w)) (resolve_genres T None name)"
  by (auto simp: resolve_genres_def Let_def intro!: own_steps split: sum.splits db_error.splits)

lemma own_store_tokens: "keeps (\<lambda>w. apart u X (w_db w)) (store_tokens u tok a r)"
  by (auto simp: store_tokens_def intro!: own_steps)

lemma own_refresh_access: "keeps (\<lambda>w. apart u X (w_db w)) (refresh_access S u row)"
  by (auto simp: refresh_access_def refresh_token_def intro!: own_steps own_store_tokens keeps_if_bind keeps_ret_bind
      split: option.splits sum.splits)

lemma own_scrape: "keeps (\<lambda>w. apart u X (w_db w)) (scrape_one S T None queue u)"
  unfolding scrape_one_def scrape_with_def scrape_report_def
  by (auto intro!: own_steps own_refresh_access keeps_tally own_resolve split: sum.splits option.splits outcome.splits)

lemma own_exchange: "keeps (\<lambda>w. apart u X (w_db w)) (spotify_exchange S T key queue (Some u) body cookie)"
  by (auto simp: spotify_exchange_def exchange_code_def Let_def
      intro!: own_steps own_store_tokens own_scrape keeps_services keeps_cipher
      split: option.splits sum.splits)

lemma own_settings:
  "keeps (\<lambda>w. apart u X (w_db w)) (get_me (Some u))" "keeps (\<lambda>w. apart u X (w_db w)) (delete_me (Some u))"
  "keeps (\<lambda>w. apart u X (w_db w)) (update_match_threshold (Some u) th)"
  "keeps (\<lambda>w. apart u X (w_db w)) (update_show_setlists (Some u) b)"
  "keeps (\<lambda>w. apart u X (w_db w)) (spotify_disconnect (Some u))" "keeps (\<lambda>w. apart u X (w_db w)) (spotify_status (Some u))"
  "keeps (\<lambda>w. apart u X (w_db w)) (spotify_connect S key)"
  "keeps (\<lambda>w. apart u X (w_db w)) (revoke_ical_token (Some u))" "keeps (\<lambda>w. apart u X (w_db w)) (create_ical_token C base (Some u))"
  "keeps (\<lambda>w. apart u X (w_db w)) (resend_confirmation C D (Some u))"
  by (auto simp: get_me_def delete_me_def update_match_threshold_def update_show_setlists_def spotify_disconnect_def
      spotify_status_def spotify_connect_def new_verifier_def revoke_ical_token_def create_ical_token_def
      generate_refresh_def resend_confirmation_def send_confirmation_def Let_def
      intro!: own_steps own_load_config split: option.splits sum.splits)

lemma own_lists:
  "keeps (\<lambda>w. apart u X (w_db w)) (add_going P (Some u) e)" "keeps (\<lambda>w. apart u X (w_db w)) (add_not_interested P (Some u) e)"
  "keeps (\<lambda>w. apart u X (w_db w)) (reset_going P (Some u) i)" "keeps (\<lambda>w. apart u X (w_db w)) (reset_not_interested (Some u))"
  "keeps (\<lambda>w. apart u X (w_db w)) (list_going (Some u))" "keeps (\<lambda>w. apart u X (w_db w)) (list_not_interested (Some u))"
  "keeps (\<lambda>w. apart u X (w_db w)) (list_going_events (Some u))" "keeps (\<lambda>w. apart u X (w_db w)) (list_manual_events (Some u))"
  "keeps (\<lambda>w. apart u X (w_db w)) (create_manual_event (Some u) m)"
  "keeps (\<lambda>w. apart u X (w_db w)) (update_manual_event P (Some u) i m)"
  "keeps (\<lambda>w. apart u X (w_db w)) (delete_manual_event P (Some u) i)"
  by (auto simp: add_going_def add_not_interested_def add_to_list_def reset_going_def reset_not_interested_def list_going_def
      list_not_interested_def list_going_events_def list_manual_events_def create_manual_event_def update_manual_event_def
      delete_manual_event_def intro!: own_steps own_attach split: option.splits sum.splits prod.splits)

lemma own_interests:
  "keeps (\<lambda>w. apart u X (w_db w)) (list_manual_interests (Some u))"
  "keeps (\<lambda>w. apart u X (w_db w)) (list_spotify_interests col (Some u))"
  "keeps (\<lambda>w. apart u X (w_db w)) (create_manual_interest T queue (Some u) v)"
  "keeps (\<lambda>w. apart u X (w_db w)) (delete_manual_interest P queue (Some u) i)"
  by (auto simp: list_manual_interests_def list_spotify_interests_def create_manual_interest_def delete_manual_interest_def
      publish_embed_def Let_def intro!: own_steps split: option.splits sum.splits db_error.splits)

lemma own_show_page: "keeps (\<lambda>w. apart u X (w_db w)) (show_page rows)"
  by (auto simp: show_page_def intro!: own_steps own_attach split: prod.splits)

lemma own_search_embed: "keeps (\<lambda>w. apart u X (w_db w)) (search_embed E t)"
  by (rule keeps_world_steps) (simp add: search_embed_def)

lemma own_pages:
  "keeps (\<lambda>w. apart u X (w_db w)) (get_my_calendar P (Some u) pp)" "keeps (\<lambda>w. apart u X (w_db w)) (get_city_calendar P c pp)"
  "keeps (\<lambda>w. apart u X (w_db w)) (get_event_by_id_for_user P (Some u) i)"
  "keeps (\<lambda>w. apart u X (w_db w)) (list_city_venues P col c seg)"
  "keeps (\<lambda>w. apart u X (w_db w)) (search_events P Se semantic E c s)"
  by (auto simp: get_my_calendar_def get_city_calendar_def get_event_by_id_for_user_def list_city_venues_def search_events_def
      apply_semantic_leg_def Let_def intro!: own_steps own_attach own_show_page own_search_embed split: option.splits sum.splits prod.splits db_error.splits)

lemma own_posters:
  "keeps (\<lambda>w. apart u X (w_db w)) (create_poster C (Some u) b)" "keeps (\<lambda>w. apart u X (w_db w)) (get_poster C sdk (Some u) p v date)"
  by (auto simp: create_poster_def get_poster_def Let_def intro!: own_steps split: option.splits sum.splits db_error.splits)

lemma own_plainly: "keeps I h \<Longrightarrow> keeps I (plainly h)"
  unfolding plainly_def by (rule keeps_bind [OF _ keeps_return])

lemma own_first_of: "keeps I h \<Longrightarrow> keeps I (first_of h)"
  unfolding first_of_def by (rule keeps_bind [OF _ keeps_return])

lemmas own_handlers = own_settings own_lists own_interests own_pages own_posters

lemma own_handler:
  assumes "policy_of rt = Exempt ep \<or> policy_of rt = Guarded ep"
  shows "keeps (\<lambda>w. apart u X (w_db w)) (handler_of S (Some u) rt)"
  using assms
  by (cases rt; simp only: policy_of.simps policy.distinct handler_of.simps simp_thms)
     (auto intro!: own_plainly own_first_of own_handlers keeps_bind [OF own_exchange] keeps_return split: option.splits)

section \<open>Isolation\<close>

lemma only_limits_db: "only_limits w w' \<Longrightarrow> w_db w' = w_db w"
  unfolding only_limits_def by (erule ssubst) simp


text \<open>Two users share a catalogue; one of them deletes the account.\<close>

definition tenant_world :: "(real \<times> nat \<times> real \<times> instant) budgets_state world" where
  "tenant_world = init_world calm
     (empty_db\<lparr>users := [fan_row, fan_row\<lparr>u_id := 9\<rparr>], going := [(7, 1), (9, 1)]\<rparr>) (\<lambda>_. \<lparr>mem_buckets = [], mem_last_sweep = 0\<rparr>)"


end
