(* ===== verification/Tei.thy ===== *)
theory Tei
  imports Spotify
begin

text \<open>
  The client of the embedding server (\<open>internal/tei/client.go\<close>): batches of bounded size, each
  retried with a growing pause while the failure is a transient one. It provides the embedder
  that the matcher and the search take as an argument.
\<close>

definition max_batch_size :: nat where "max_batch_size = 32"

definition max_attempts :: nat where "max_attempts = 4"

text \<open>
  The server: whether a request for its URL can be built at all, the reply to the k-th exchange
  of the call at a step, and whether the context of the call is done by the end of the pause
  that follows that exchange.
\<close>

record tei_env =
  te_usable :: bool
  te_reply :: "nat \<Rightarrow> nat \<Rightarrow> string list \<Rightarrow> real list list http_reply"
  te_done :: "nat \<Rightarrow> nat \<Rightarrow> bool"

datatype 'b attempt = Good 'b | Transient | Permanent

text \<open>\<open>embedChunkOnce\<close>: a failed exchange and a 5xx may be retried, anything else may not.\<close>

definition embed_chunk_once :: "tei_env \<Rightarrow> nat \<Rightarrow> nat \<Rightarrow> string list \<Rightarrow> real list list attempt" where
  "embed_chunk_once S n k inputs =
     (if \<not> te_usable S then Permanent
      else case te_reply S n k inputs of
        None \<Rightarrow> Transient
      | Some (st, b) \<Rightarrow>
          if st div 100 \<noteq> 2 then (if 500 \<le> st then Transient else Permanent)
          else (case b of None \<Rightarrow> Permanent | Some v \<Rightarrow> Good v))"

text \<open>\<open>embedChunk\<close>, with the attempts left and the exchanges made so far; it answers both.\<close>

fun embed_chunk :: "tei_env \<Rightarrow> nat \<Rightarrow> string list \<Rightarrow> nat \<Rightarrow> nat \<Rightarrow> real list list option \<times> nat" where
  "embed_chunk S n inputs 0 k = (None, k)"
| "embed_chunk S n inputs (Suc left) k =
     (case embed_chunk_once S n k inputs of
        Good v \<Rightarrow> (Some v, Suc k)
      | Permanent \<Rightarrow> (None, Suc k)
      | Transient \<Rightarrow> if left = 0 \<or> te_done S n k then (None, Suc k) else embed_chunk S n inputs left (Suc k))"

text \<open>The pause after an attempt: the base doubled each time, in 64 bits, up to the maximum.\<close>

definition backoff_delay :: "int \<Rightarrow> int \<Rightarrow> nat \<Rightarrow> int" where
  "backoff_delay base most attempt =
     (if base \<le> 0 then 0
      else let d = sint (push_bit (attempt - 1) (word_of_int base) :: 64 word)
           in if d \<le> 0 \<or> most < d then most else d)"

text \<open>\<open>Embed\<close>: the batches in order, and the exchanges it made.\<close>

function embed_batches :: "tei_env \<Rightarrow> nat \<Rightarrow> string list \<Rightarrow> nat \<Rightarrow> real list list option \<times> nat" where
  "embed_batches S n inputs k =
     (if inputs = [] then (Some [], k)
      else case embed_chunk S n (take max_batch_size inputs) max_attempts k of
        (None, k') \<Rightarrow> (None, k')
      | (Some vs, k') \<Rightarrow>
          (case embed_batches S n (drop max_batch_size inputs) k' of (r, k'') \<Rightarrow> (map_option (\<lambda>ws. vs @ ws) r, k'')))"
  by pat_completeness auto
termination by (relation "measure (\<lambda>(S, n, inputs, k). length inputs)") (auto simp: max_batch_size_def)

declare embed_batches.simps [simp del]

definition tei_embed :: "tei_env \<Rightarrow> nat \<Rightarrow> string list \<Rightarrow> real list list option" where
  "tei_embed S n inputs = fst (embed_batches S n inputs 0)"

section \<open>What a call answers and costs\<close>

text \<open>The server embeds each input on its own, and lists the vectors in the order of the inputs.\<close>

definition pointwise :: "tei_env \<Rightarrow> (string \<Rightarrow> real list) \<Rightarrow> bool" where
  "pointwise S f = (\<forall>n k inputs st vs. te_reply S n k inputs = Some (st, Some vs) \<longrightarrow> vs = map f inputs)"

lemma embed_chunk_vectors:
  "pointwise S f \<Longrightarrow> embed_chunk S n inputs left k = (Some vs, k') \<Longrightarrow> vs = map f inputs"
proof (induction left arbitrary: k)
  case (Suc left)
  show ?case
  proof (cases "embed_chunk_once S n k inputs")
    case (Good v)
    then have "v = map f inputs"
      using Suc.prems(1) by (auto simp: embed_chunk_once_def pointwise_def split: if_splits option.splits)
    then show ?thesis using Good Suc.prems(2) by simp
  next
    case Transient
    then show ?thesis using Suc by (auto split: if_splits)
  qed (use Suc.prems(2) in simp)
qed simp

lemma embed_chunk_cost: "embed_chunk S n inputs left k = (r, k') \<Longrightarrow> k \<le> k' \<and> k' \<le> k + left"
proof (induction left arbitrary: k)
  case (Suc left)
  show ?case
  proof (cases "embed_chunk_once S n k inputs")
    case Transient
    then show ?thesis using Suc.IH [of "Suc k"] Suc.prems by (auto split: if_splits)
  qed (use Suc.prems in auto)
qed auto

text \<open>Batching changes nothing: what a call answers is the vector of each input, in order.\<close>

lemma embed_batches_step:
  "inputs \<noteq> [] \<Longrightarrow> embed_chunk S n (take max_batch_size inputs) max_attempts k = (Some vs, k') \<Longrightarrow>
     embed_batches S n inputs k =
       (map_option (\<lambda>ws. vs @ ws) (fst (embed_batches S n (drop max_batch_size inputs) k')),
        snd (embed_batches S n (drop max_batch_size inputs) k'))"
  by (subst embed_batches.simps) (simp split: prod.split)

lemma embed_batches_stop:
  "embed_batches S n [] k = (Some [], k)"
  "inputs \<noteq> [] \<Longrightarrow> embed_chunk S n (take max_batch_size inputs) max_attempts k = (None, k') \<Longrightarrow>
     embed_batches S n inputs k = (None, k')"
  by (simp_all add: embed_batches.simps)

lemma embed_batches_vectors:
  assumes "pointwise S f"
  shows "fst (embed_batches S n inputs k) = Some vs \<Longrightarrow> vs = map f inputs"
proof (induction inputs arbitrary: k vs rule: measure_induct_rule [where f = length])
  case (less inputs)
  show ?case
  proof (cases "inputs = []")
    case True
    then show ?thesis using less.prems by (simp add: embed_batches_stop)
  next
    case ne: False
    obtain r k' where c: "embed_chunk S n (take max_batch_size inputs) max_attempts k = (r, k')" by fastforce
    show ?thesis
    proof (cases r)
      case None
      then show ?thesis using less.prems c ne by (simp add: embed_batches_stop)
    next
      case (Some us)
      obtain ws where ws: "fst (embed_batches S n (drop max_batch_size inputs) k') = Some ws" "vs = us @ ws"
        using less.prems embed_batches_step [OF ne c [unfolded Some]] by auto
      have "us = map f (take max_batch_size inputs)" using embed_chunk_vectors [OF assms c [unfolded Some]] .
      moreover have "ws = map f (drop max_batch_size inputs)"
        by (rule less.IH [OF _ ws(1)]) (use ne in \<open>simp add: max_batch_size_def\<close>)
      ultimately show ?thesis using ws(2) by (simp flip: map_append)
    qed
  qed
qed

text \<open>A call makes at most four exchanges per batch of 32, whatever the server does.\<close>

lemma embed_batches_cost:
  "snd (embed_batches S n inputs k) \<le> k + max_attempts * ((length inputs + (max_batch_size - 1)) div max_batch_size)"
proof (induction inputs arbitrary: k rule: measure_induct_rule [where f = length])
  case (less inputs)
  show ?case
  proof (cases "inputs = []")
    case True
    then show ?thesis by (simp add: embed_batches_stop)
  next
    case ne: False
    obtain r k' where c: "embed_chunk S n (take max_batch_size inputs) max_attempts k = (r, k')" by fastforce
    have k': "k' \<le> k + max_attempts" using embed_chunk_cost [OF c] by simp
    have len: "0 < length inputs" using ne by simp
    then have ceil: "(length inputs + 31) div 32 = Suc ((length inputs - 32 + 31) div 32)"
    proof (cases "32 \<le> length inputs")
      case True
      then have "length inputs + 31 = (length inputs - 32 + 31) + 32" by simp
      then show ?thesis by (simp only: div_add_self2)
    qed (use len in \<open>auto intro!: div_nat_eqI simp: Suc_le_eq\<close>)
    show ?thesis
    proof (cases r)
      case None
      then have "snd (embed_batches S n inputs k) = k'" using c ne by (simp add: embed_batches_stop)
      then show ?thesis using k' ceil by (simp add: max_batch_size_def)
    next
      case (Some us)
      have "snd (embed_batches S n (drop max_batch_size inputs) k') \<le>
          k' + max_attempts * ((length (drop max_batch_size inputs) + (max_batch_size - 1)) div max_batch_size)"
        by (rule less.IH) (use ne in \<open>simp add: max_batch_size_def\<close>)
      then show ?thesis using k' ceil embed_batches_step [OF ne c [unfolded Some]] by (simp add: max_batch_size_def)
    qed
  qed
qed

lemma tei_embed_vectors: "pointwise S f \<Longrightarrow> tei_embed S n inputs = Some vs \<Longrightarrow> vs = map f inputs"
  unfolding tei_embed_def by (rule embed_batches_vectors)

text \<open>With the settings of \<open>New\<close> the pauses are one, two and four seconds, and never above ten.\<close>

lemma default_backoff:
  "map (backoff_delay (1 * second) (10 * second)) [1, 2, 3] = [1 * second, 2 * second, 4 * second]"
  by (simp add: backoff_delay_def push_bit_of_int)

end
