(* ===== verification/Backends.thy ===== *)
theory Backends
  imports World
begin

text \<open>
  What the process stands on: the connection pool and the password it connects with
  (\<open>internal/db/db.go\<close>, \<open>internal/secrets/dbpassword.go\<close>), the migrations
  (\<open>internal/migrate/migrate.go\<close>), and the two senders of mail (\<open>internal/email/log.go\<close>,
  \<open>internal/email/ses.go\<close>). A call into a client library is one step that may fail.
\<close>

text \<open>One step of a client library: true when it succeeds.\<close>

definition set_up :: "('l, bool) act" where
  "set_up = State (\<lambda>w. (fault_of w = NoFault, tick w))"

section \<open>The password of the database\<close>

text \<open>
  The secret store answers a value at every step, or no value; \<open>sx_decode\<close> reads the
  password field of its JSON, empty when the field is absent, None when it is no such document.
\<close>

record secret_env =
  sx_value :: "nat \<Rightarrow> string option"
  sx_decode :: "string \<Rightarrow> string option"

definition parse_db_password :: "secret_env \<Rightarrow> string \<Rightarrow> string option" where
  "parse_db_password X raw =
     (case sx_decode X raw of None \<Rightarrow> None | Some pw \<Rightarrow> if pw = [] then None else Some pw)"

definition db_password :: "secret_env \<Rightarrow> ('l, string option) act" where
  "db_password X =
     State (\<lambda>w. (if fault_of w \<noteq> NoFault then None
                else case sx_value X (w_step w) of None \<Rightarrow> None | Some raw \<Rightarrow> parse_db_password X raw, tick w))"

section \<open>The connection pool\<close>

record pool_config =
  pc_password :: string      \<comment> \<open>of the connection string\<close>
  pc_max_conns :: nat
  pc_min_conns :: nat
  pc_min_idle_conns :: nat
  pc_max_lifetime :: instant
  pc_lifetime_jitter :: instant
  pc_ping_timeout :: instant
  pc_provider :: "secret_env option"

definition pool_config_of :: "string \<Rightarrow> secret_env option \<Rightarrow> pool_config" where
  "pool_config_of password provider =
     \<lparr>pc_password = password, pc_max_conns = 10, pc_min_conns = 1, pc_min_idle_conns = 1,
      pc_max_lifetime = 45 * minute, pc_lifetime_jitter = 5 * minute, pc_ping_timeout = second,
      pc_provider = provider\<rparr>"

text \<open>\<open>BeforeConnect\<close>: the password a new connection is opened with.\<close>

definition connect_password :: "pool_config \<Rightarrow> ('l, string option) act" where
  "connect_password pc =
     (case pc_provider pc of None \<Rightarrow> ret (Some (pc_password pc)) | Some X \<Rightarrow> db_password X)"

text \<open>
  \<open>parse\<close> is the driver's parser of connection strings, which answers the password. The ping
  opens the first connection.
\<close>

definition new_pool ::
    "(string \<Rightarrow> string option) \<Rightarrow> string \<Rightarrow> secret_env option \<Rightarrow> ('l, pool_config option) act" where
  "new_pool parse dsn provider =
     (case parse dsn of
        None \<Rightarrow> ret None
      | Some password \<Rightarrow> do {
          created \<leftarrow> set_up;
          if \<not> created then ret None
          else do {
            pw \<leftarrow> connect_password (pool_config_of password provider);
            case pw of
              None \<Rightarrow> ret None
            | Some _ \<Rightarrow> do {
                pinged \<leftarrow> set_up;
                ret (if pinged then Some (pool_config_of password provider) else None) } } })"

text \<open>Setting up touches no table.\<close>

lemma keeps_set_up [keeps_rules]:
  "keeps (\<lambda>w. J (w_db w)) set_up" "keeps (\<lambda>w. J (w_db w)) (db_password X)"
  by (simp_all add: keeps_def set_up_def db_password_def)

lemma keeps_pool [keeps_rules]:
  "keeps (\<lambda>w. J (w_db w)) (connect_password pc)" "keeps (\<lambda>w. J (w_db w)) (new_pool parse dsn provider)"
  unfolding connect_password_def new_pool_def by (intro keeps_rules)+

text \<open>
  With a provider the password of every new connection is the one the store holds at that step,
  so a rotated password is picked up; the one of the connection string is never used.
\<close>

lemma rotated_password_used:
  assumes "fault_of w = NoFault" and "sx_value X (w_step w) = Some raw" and "parse_db_password X raw = Some pw"
  shows "fst (run_state (connect_password (pool_config_of old (Some X))) w) = Some pw"
  using assms by (simp add: connect_password_def pool_config_of_def db_password_def)

lemma new_pool_open:
  "fst (run_state (new_pool parse dsn provider) w) = Some pc \<Longrightarrow>
     pc_provider pc = provider \<and> parse dsn = Some (pc_password pc) \<and> pc_min_conns pc \<le> pc_max_conns pc"
  by (auto simp: new_pool_def pool_config_of_def split: option.splits prod.splits if_splits)

section \<open>Migrations\<close>

datatype migrated = Applied | NoChange | Failed

text \<open>\<open>Up\<close>: a schema that is current is no error.\<close>

definition migrate_up :: "(nat \<Rightarrow> migrated) \<Rightarrow> ('l, bool) act" where
  "migrate_up run = do {
     opened \<leftarrow> set_up;
     if \<not> opened then ret False
     else do {
       started \<leftarrow> set_up;
       if \<not> started then ret False
       else State (\<lambda>w. (run (w_step w) \<noteq> Failed, tick w)) } }"

section \<open>Senders of mail\<close>

text \<open>The sender for development writes the plain text to the server's log.\<close>

definition newline :: string where "newline = [CHR 0x0A]"

definition log_text :: "mail \<Rightarrow> string" where
  "log_text m =
     newline @ ''=== EMAIL (not sent '' @ map byte [0xE2, 0x80, 0x94] @ '' EMAIL_SENDER=log) ==='' @ newline @
     ''To:      '' @ mail_to m @ newline @ ''Subject: '' @ mail_subject m @ newline @ newline @
     mail_text m @ newline @ ''==========================================='' @ newline @ newline"

record ses_input =
  si_from :: string
  si_to :: "string list"
  si_subject :: string
  si_html :: string
  si_text :: string

definition build_input :: "string \<Rightarrow> mail \<Rightarrow> ses_input" where
  "build_input sender m =
     \<lparr>si_from = sender, si_to = [mail_to m], si_subject = mail_subject m, si_html = mail_html m, si_text = mail_text m\<rparr>"

text \<open>
  \<open>mail.Address.String\<close>: the name between quotes, the address between angle brackets, its local
  part quoted unless it is made of atoms with single dots between them.
\<close>

definition vchar :: "char \<Rightarrow> bool" where
  "vchar c = (0x21 \<le> byte_of c \<and> byte_of c \<noteq> 0x7F)"

definition atext :: "char \<Rightarrow> bool" where
  "atext c = (vchar c \<and> c \<notin> set ''.()<>[]:;@,'' \<union> {CHR 0x5C, CHR 0x22})"

definition quote_string :: "string \<Rightarrow> string" where
  "quote_string s =
     [CHR 0x22] @
     concat (map (\<lambda>c. if c = CHR 0x20 \<or> c = CHR 0x09 then [c]
                      else if c = CHR 0x5C \<or> c = CHR 0x22 then [CHR 0x5C, c]
                      else if vchar c then [c] else []) s) @
     [CHR 0x22]"

definition plain_local :: "string \<Rightarrow> bool" where
  "plain_local s =
     (\<forall>i < length s. atext (s ! i) \<or>
        (s ! i = CHR ''.'' \<and> 0 < i \<and> s ! (i - 1) \<noteq> CHR ''.'' \<and> i < length s - 1 \<and> s ! (i + 1) \<noteq> CHR ''.''))"

definition address_string :: "string \<Rightarrow> string \<Rightarrow> string" where
  "address_string name address =
     (let tail = takeWhile (\<lambda>c. c \<noteq> CHR ''@'') (rev address);
          has_at = CHR ''@'' \<in> set address;
          domain = (if has_at then rev tail else []);
          local_part = (if has_at then take (length address - length tail - 1) address else address)
      in quote_string name @ '' <'' @ (if plain_local local_part then local_part else quote_string local_part) @
         ''@'' @ domain @ ''>'')"

text \<open>\<open>NewSESSender\<close> refuses an empty sender.\<close>

definition new_ses_sender :: "string \<Rightarrow> ('l, string option) act" where
  "new_ses_sender sender =
     (if sender = [] then ret None else do { ok \<leftarrow> set_up; ret (if ok then Some sender else None) })"

lemma keeps_ses [keeps_rules]: "keeps (\<lambda>w. J (w_db w)) (new_ses_sender sender)"
  unfolding new_ses_sender_def by (intro keeps_rules)

lemma address_of_plain:
  "plain_local l \<Longrightarrow> CHR ''@'' \<notin> set host \<Longrightarrow>
     address_string name (l @ ''@'' @ host) = quote_string name @ '' <'' @ l @ ''@'' @ host @ ''>''"
  by (simp add: address_string_def Let_def takeWhile_append)

text \<open>The link of a message that went to the log can be read there.\<close>

lemma log_text_has: "\<exists>a b. log_text m = a @ mail_text m @ b"
  unfolding log_text_def by (metis append.assoc)

end
