(* ===== verification/Telemetry.thy ===== *)
theory Telemetry
  imports Float64 GoTime "HOL-Library.Word" "HOL-Library.Signed_Division"
begin

unbundle bit_operations_syntax

text \<open>
  Metrics (\<open>internal/observability/emf.go\<close>) and the sampler of the connection pool
  (\<open>internal/db/stats.go\<close>). A metric is one line of JSON in the embedded metric format: the
  directive names its dimensions and metrics, and the values stand beside it under those names.
  The pool's counters are 64-bit words that only grow; the sampler reports what they gained.
\<close>

section \<open>The embedded metric format\<close>

definition namespace :: string where "namespace = ''HeresWhatsHappening/api''"
definition metric_rejections :: string where "metric_rejections = ''RateLimitRejections''"
definition dimension_endpoint :: string where "dimension_endpoint = ''endpoint''"
definition dimension_service :: string where "dimension_service = ''service''"

definition jint :: "int \<Rightarrow> json" where
  "jint n = JNum (Fin (of_int n))"

text \<open>The metadata: the time in milliseconds, one dimension and the metrics with their units.\<close>

definition emf_metadata :: "instant \<Rightarrow> string \<Rightarrow> (string \<times> string) list \<Rightarrow> json" where
  "emf_metadata now dimension metrics =
     JObj [(''Timestamp'', jint (now div 1000000)),
           (''CloudWatchMetrics'', JArr [JObj
              [(''Namespace'', JStr namespace),
               (''Dimensions'', JArr [JArr [JStr dimension]]),
               (''Metrics'', JArr (map (\<lambda>(n, u). JObj [(''Name'', JStr n), (''Unit'', JStr u)]) metrics))]])]"

text \<open>The fields of a map are written in the order of their names.\<close>

definition rate_limit_rejection :: "instant \<Rightarrow> string \<Rightarrow> string \<Rightarrow> json" where
  "rate_limit_rejection now endpoint ip =
     JObj [(metric_rejections, jint 1),
           (''_aws'', emf_metadata now dimension_endpoint [(metric_rejections, ''Count'')]),
           (dimension_endpoint, JStr endpoint), (''ip'', JStr ip)]"

record pool_sample =
  ps_in_use :: "32 word"
  ps_idle :: "32 word"
  ps_total :: "32 word"
  ps_max :: "32 word"
  ps_acquires :: "64 word"
  ps_waits :: "64 word"
  ps_canceled :: "64 word"
  ps_wait :: "64 word"      \<comment> \<open>nanoseconds\<close>

definition pool_metrics :: "(string \<times> string) list" where
  "pool_metrics =
     [(''DBPoolInUseConns'', ''Count''), (''DBPoolIdleConns'', ''Count''), (''DBPoolTotalConns'', ''Count''),
      (''DBPoolMaxConns'', ''Count''), (''DBPoolAcquires'', ''Count''), (''DBPoolWaits'', ''Count''),
      (''DBPoolCanceledAcquires'', ''Count''), (''DBPoolWaitMillis'', ''Milliseconds'')]"

definition pool_stats :: "instant \<Rightarrow> string \<Rightarrow> pool_sample \<Rightarrow> json" where
  "pool_stats now service s =
     JObj [(''DBPoolAcquires'', jint (sint (ps_acquires s))),
           (''DBPoolCanceledAcquires'', jint (sint (ps_canceled s))),
           (''DBPoolIdleConns'', jint (sint (ps_idle s))),
           (''DBPoolInUseConns'', jint (sint (ps_in_use s))),
           (''DBPoolMaxConns'', jint (sint (ps_max s))),
           (''DBPoolTotalConns'', jint (sint (ps_total s))),
           (''DBPoolWaitMillis'', jint (sint (ps_wait s) sdiv 1000000)),
           (''DBPoolWaits'', jint (sint (ps_waits s))),
           (''_aws'', emf_metadata now dimension_service pool_metrics),
           (dimension_service, JStr service)]"

text \<open>What CloudWatch asks of a line: every metric declared has a number, every dimension a text.\<close>

definition emf_line_ok :: "string \<Rightarrow> (string \<times> string) list \<Rightarrow> json \<Rightarrow> bool" where
  "emf_line_ok dimension metrics line =
     (case line of
        JObj fs \<Rightarrow>
          distinct (map fst fs) \<and> encodable line \<and>
          (\<exists>now. map_of fs ''_aws'' = Some (emf_metadata now dimension metrics)) \<and>
          (\<exists>v. map_of fs dimension = Some (JStr v)) \<and>
          (\<forall>m \<in> fst ` set metrics. \<exists>n. map_of fs m = Some (jint n))
      | _ \<Rightarrow> False)"

lemma encodable_jint [simp]: "encodable (jint n)"
  by (simp add: jint_def)

lemma emf_lines_ok:
  "emf_line_ok dimension_endpoint [(metric_rejections, ''Count'')] (rate_limit_rejection now endpoint ip)"
  "emf_line_ok dimension_service pool_metrics (pool_stats now service s)"
  by (auto simp: emf_line_ok_def rate_limit_rejection_def pool_stats_def emf_metadata_def pool_metrics_def
      metric_rejections_def dimension_endpoint_def dimension_service_def namespace_def)

section \<open>The sampler\<close>

text \<open>What the pool reports: gauges, and counters since it was created.\<close>

record pool_stat =
  st_acquired :: "32 word"
  st_idle :: "32 word"
  st_total :: "32 word"
  st_max :: "32 word"
  st_acquires :: "64 word"
  st_empty_acquires :: "64 word"
  st_canceled :: "64 word"
  st_empty_wait :: "64 word"

record counters =
  ct_acquires :: "64 word"
  ct_waits :: "64 word"
  ct_canceled :: "64 word"
  ct_wait :: "64 word"

definition counters_of :: "pool_stat \<Rightarrow> counters" where
  "counters_of st =
     \<lparr>ct_acquires = st_acquires st, ct_waits = st_empty_acquires st, ct_canceled = st_canceled st,
      ct_wait = st_empty_wait st\<rparr>"

definition new_sampler :: counters where
  "new_sampler = \<lparr>ct_acquires = 0, ct_waits = 0, ct_canceled = 0, ct_wait = 0\<rparr>"

definition take_sample :: "pool_stat \<Rightarrow> counters \<Rightarrow> pool_sample \<times> counters" where
  "take_sample st prev =
     (let cur = counters_of st in
      (\<lparr>ps_in_use = st_acquired st, ps_idle = st_idle st, ps_total = st_total st, ps_max = st_max st,
        ps_acquires = ct_acquires cur - ct_acquires prev, ps_waits = ct_waits cur - ct_waits prev,
        ps_canceled = ct_canceled cur - ct_canceled prev, ps_wait = ct_wait cur - ct_wait prev\<rparr>, cur))"

text \<open>
  \<open>Run\<close>: at every wake-up, a tick or the cancellation, it samples; after the cancellation it
  returns. The answer is what it emitted, and whether it returned.
\<close>

datatype wake = TickAt pool_stat | DoneAt pool_stat

fun run_sampler :: "counters \<Rightarrow> wake list \<Rightarrow> pool_sample list \<times> bool" where
  "run_sampler prev [] = ([], False)"
| "run_sampler prev (DoneAt st # ws) = ([fst (take_sample st prev)], True)"
| "run_sampler prev (TickAt st # ws) =
     (let (s, cur) = take_sample st prev; (ss, returned) = run_sampler cur ws in (s # ss, returned))"

fun stat_of :: "wake \<Rightarrow> pool_stat" where
  "stat_of (TickAt st) = st"
| "stat_of (DoneAt st) = st"

definition is_done :: "wake \<Rightarrow> bool" where
  "is_done x = (case x of TickAt st \<Rightarrow> False | DoneAt st \<Rightarrow> True)"

text \<open>The wake-ups the loop lives to see.\<close>

definition seen :: "wake list \<Rightarrow> wake list" where
  "seen ws = takeWhile (\<lambda>x. \<not> is_done x) ws @ take 1 (dropWhile (\<lambda>x. \<not> is_done x) ws)"

lemma seen_simps [simp]:
  "seen [] = []" "seen (TickAt st # ws) = TickAt st # seen ws" "seen (DoneAt st # ws) = [DoneAt st]"
  by (simp_all add: seen_def is_done_def)

text \<open>
  The samples add up to the last reading, counter by counter, so the first sample reports what
  happened before it and no acquire is counted twice or lost; one sample is emitted at each
  wake-up, the last one at the cancellation, after which the loop has returned.
\<close>

lemma samples_telescope:
  fixes prev :: counters
  shows "length (fst (run_sampler prev ws)) = length (seen ws) \<and>
    snd (run_sampler prev ws) = list_ex is_done ws \<and>
    (ws \<noteq> [] \<longrightarrow>
      ct_acquires prev + sum_list (map ps_acquires (fst (run_sampler prev ws))) = st_acquires (stat_of (last (seen ws))) \<and>
      ct_waits prev + sum_list (map ps_waits (fst (run_sampler prev ws))) = st_empty_acquires (stat_of (last (seen ws))) \<and>
      ct_canceled prev + sum_list (map ps_canceled (fst (run_sampler prev ws))) = st_canceled (stat_of (last (seen ws))) \<and>
      ct_wait prev + sum_list (map ps_wait (fst (run_sampler prev ws))) = st_empty_wait (stat_of (last (seen ws))))"
proof (induction prev ws rule: run_sampler.induct)
  case (3 prev st ws)
  obtain s cur where sc: "take_sample st prev = (s, cur)" by fastforce
  obtain ss b where rs: "run_sampler cur ws = (ss, b)" by fastforce
  have s: "ps_acquires s = ct_acquires cur - ct_acquires prev" "ps_waits s = ct_waits cur - ct_waits prev"
    "ps_canceled s = ct_canceled cur - ct_canceled prev" "ps_wait s = ct_wait cur - ct_wait prev" "cur = counters_of st"
    using sc by (auto simp: take_sample_def Let_def)
  have ne: "ws \<noteq> [] \<Longrightarrow> seen ws \<noteq> []" by (cases ws; cases "hd ws") auto
  show ?case
  proof (cases "ws = []")
    case True
    then show ?thesis using sc rs s by (simp add: counters_of_def is_done_def)
  next
    case False
    note IH = "3.IH" [OF sc [symmetric] refl]
    have t: "ct_acquires prev + (ps_acquires s + x) = ct_acquires cur + x" "ct_waits prev + (ps_waits s + x) = ct_waits cur + x"
      "ct_canceled prev + (ps_canceled s + x) = ct_canceled cur + x" "ct_wait prev + (ps_wait s + x) = ct_wait cur + x" for x
      by (simp_all add: s(1-4))
    show ?thesis using IH False ne rs sc by (simp add: is_done_def t)
  qed
qed (simp_all add: is_done_def take_sample_def counters_of_def Let_def)

text \<open>A counter that has not shrunk and is below the sign bit reports a delta that is not negative.\<close>

lemma delta_not_negative:
  assumes "st_acquires old \<le> st_acquires new" and "unat (st_acquires new) < 2 ^ 63"
  shows "0 \<le> sint (ps_acquires (fst (take_sample new (counters_of old))))"
proof -
  let ?d = "st_acquires new - st_acquires old"
  have "unat ?d = unat (st_acquires new) - unat (st_acquires old)" using assms(1) by (rule unat_sub)
  then have "unat ?d < 2 ^ 63" using assms(2) by simp
  then have "int (unat ?d) < int (2 ^ 63)" by (simp only: of_nat_less_iff)
  then have "uint ?d < 2 ^ 63" by simp
  moreover have "- (2 ^ 63) \<le> uint ?d" by (rule order_trans [of _ 0]) simp_all
  ultimately have "sint ?d = uint ?d" by (simp add: sint_uint signed_take_bit_int_eq_self)
  then show ?thesis by (simp add: take_sample_def counters_of_def Let_def)
qed

end
