(* ===== verification/Commands.thy ===== *)
theory Commands
  imports ConfigProps Tei SpotifyHandlers Backends Telemetry
begin

text \<open>
  The program itself (\<open>cmd/app/main.go\<close>): the subcommands, the checks each makes before it starts,
  and the one-shot runs of the scrapers and of the match job. Setting up a client of the queue, of the mail service or of the cloud
  account is one step, which may fail; deadlines and signals show as calls that fail. The sampler
  of the pool (\<open>run_sampler\<close>) runs beside a command and changes nothing the command reads.
\<close>

section \<open>What the program is given\<close>

record app_deps =
  ap_text :: text_env
  ap_tm :: tm_env
  ap_spotify :: spotify_env
  ap_mb :: mb_env
  ap_tei :: tei_env
  ap_parse_dsn :: "string \<Rightarrow> string option"   \<comment> \<open>the driver's parser of connection strings\<close>
  ap_secret :: "string \<Rightarrow> secret_env"         \<comment> \<open>the secret under a resource name\<close>
  ap_migrate :: "nat \<Rightarrow> migrated"

datatype ended =
    Exited nat                  \<comment> \<open>the exit status\<close>
  | Stuck                       \<comment> \<open>it never ends\<close>
  | Listening config uuid bool bool  \<comment> \<open>the server runs: its city, and which consumers do\<close>

definition exit_of :: "bool \<Rightarrow> ended" where
  "exit_of ok = Exited (if ok then 0 else 1)"

text \<open>Where the configuration names a secret, its password is fetched for every connection.\<close>

definition open_pool :: "app_deps \<Rightarrow> config \<Rightarrow> ('l, pool_config option) act" where
  "open_pool A cfg =
     (if cf_db_secret cfg = [] then new_pool (ap_parse_dsn A) (cf_database_url cfg) None
      else do {
        client \<leftarrow> set_up;
        if \<not> client then ret None
        else new_pool (ap_parse_dsn A) (cf_database_url cfg) (Some (ap_secret A (cf_db_secret cfg))) })"

definition starts_sampler :: "config \<Rightarrow> bool" where
  "starts_sampler cfg = cf_db_stats cfg"

section \<open>The flag of the event scraper\<close>

text \<open>
  The \<open>flag\<close> package on a set with the one string flag \<open>source\<close>, which exits on an error
  (status 2) and on a request for help (status 0). Parsing ends at the first argument that is
  no flag.
\<close>

fun parse_source :: "string \<Rightarrow> string list \<Rightarrow> nat + string" where
  "parse_source cur [] = Inr cur"
| "parse_source cur (a # as) =
     (if length a < 2 \<or> hd a \<noteq> CHR ''-'' \<or> a = ''--'' then Inr cur
      else let name = drop (if a ! 1 = CHR ''-'' then 2 else 1) a in
        if hd name = CHR ''-'' \<or> hd name = CHR ''='' then Inl 2
        else case cut_byte name (CHR ''='') of
          Some (n, v) \<Rightarrow> if n = ''source'' then parse_source v as else if n \<in> {''help'', ''h''} then Inl 0 else Inl 2
        | None \<Rightarrow>
            if name = ''source'' then (case as of [] \<Rightarrow> Inl 2 | v # as' \<Rightarrow> parse_source v as')
            else if name \<in> {''help'', ''h''} then Inl 0 else Inl 2)"

section \<open>The one-shot commands\<close>

definition run_ticketmaster_scrape :: "app_deps \<Rightarrow> config \<Rightarrow> ('l, bool) act" where
  "run_ticketmaster_scrape A cfg =
     (if cf_tm_key cfg = [] \<or> cf_tm_city cfg = [] then ret False
      else run_scraper (ap_text A) ((ap_tm A)\<lparr>tm_base := [], tm_key := cf_tm_key cfg, tm_city := cf_tm_city cfg\<rparr>)
             (cf_events_queue cfg))"

definition scrape_events :: "app_deps \<Rightarrow> environment \<Rightarrow> string list \<Rightarrow> ('l, ended) act" where
  "scrape_events A env args =
     (case parse_source [] args of
        Inl code \<Rightarrow> ret (Exited code)
      | Inr source \<Rightarrow>
          if source = [] then ret (Exited 1)
          else (case config_from_env env of
            Inl _ \<Rightarrow> ret (Exited 1)
          | Inr cfg \<Rightarrow> do {
              queue \<leftarrow> set_up;
              if \<not> queue then ret (Exited 1)
              else if source = ''ticketmaster'' then do { ok \<leftarrow> run_ticketmaster_scrape A cfg; ret (exit_of ok) }
              else ret (Exited 1) }))"

text \<open>\<open>crypto.NewCipher\<close> wants a key of 32 bytes.\<close>

definition cipher_key_ok :: "string \<Rightarrow> bool" where
  "cipher_key_ok k = (length k = 32)"

definition scrape_spotify :: "app_deps \<Rightarrow> environment \<Rightarrow> ('l, ended) act" where
  "scrape_spotify A env =
     (case config_from_env env of
        Inl _ \<Rightarrow> ret (Exited 1)
      | Inr cfg \<Rightarrow> do {
          pool \<leftarrow> open_pool A cfg;
          if pool = None then ret (Exited 1)
          else do {
            queue \<leftarrow> set_up;
            if \<not> queue then ret (Exited 1)
            else if \<not> cipher_key_ok (cf_spotify_enc_key cfg) then ret (Exited 1)
            else do {
              r \<leftarrow> scrape_all (ap_spotify A) (ap_text A) (Some (ap_mb A)) (cf_interests_queue cfg);
              ret (case r of
                     Hangs \<Rightarrow> Stuck
                   | Answers None \<Rightarrow> Exited 1
                   | Answers (Some failed) \<Rightarrow> exit_of (failed = [])) } } })"

definition run_match :: "app_deps \<Rightarrow> environment \<Rightarrow> ('l, ended) act" where
  "run_match A env =
     (case config_from_env env of
        Inl _ \<Rightarrow> ret (Exited 1)
      | Inr cfg \<Rightarrow>
          if cf_tei_endpoint cfg = [] then ret (Exited 1)
          else do {
            pool \<leftarrow> open_pool A cfg;
            if pool = None then ret (Exited 1)
            else do {
              r \<leftarrow> match_job (ap_text A) (tei_embed (ap_tei A)) match_defaults;
              ret (exit_of (\<not> isl r)) } })"

definition run_migrate :: "app_deps \<Rightarrow> environment \<Rightarrow> ('l, ended) act" where
  "run_migrate A env =
     (case components_from_env env ''DB_'' of
        Inl _ \<Rightarrow> ret (Exited 1)
      | Inr c \<Rightarrow> do { ok \<leftarrow> migrate_up (ap_migrate A); ret (exit_of ok) })"

section \<open>The server\<close>

definition sender_address :: "config \<Rightarrow> string" where
  "sender_address cfg =
     address_string (''Here'' @ [CHR 0x27] @ ''s What'' @ [CHR 0x27] @ ''s Happening'') (cf_email_from cfg)"

text \<open>
  \<open>Run\<close> returns at the first of these: the context is cancelled and the shutdown went through
  or ran out of time, the listener failed, or a consumer returned.
\<close>

datatype stop = Signalled bool | ListenFailed | ConsumerReturned

definition run_server :: "stop \<Rightarrow> ended" where
  "run_server s = exit_of (case s of Signalled ok \<Rightarrow> ok | ListenFailed \<Rightarrow> False | ConsumerReturned \<Rightarrow> True)"

text \<open>\<open>serve\<close> up to the point where it listens; the sender is set up only where it is SES.\<close>

definition serve_start :: "app_deps \<Rightarrow> environment \<Rightarrow> ('l, ended) act" where
  "serve_start A env =
     (case config_from_env env of
        Inl _ \<Rightarrow> ret (Exited 1)
      | Inr cfg \<Rightarrow> do {
          pool \<leftarrow> open_pool A cfg;
          if pool = None then ret (Exited 1)
          else do {
            city \<leftarrow> db_call get_default_city;
            case city of
              Inl _ \<Rightarrow> ret (Exited 1)
            | Inr c \<Rightarrow> do {
                queue \<leftarrow> (if cf_events_queue cfg \<noteq> [] \<or> cf_enriched_queue cfg \<noteq> [] \<or> cf_interests_queue cfg \<noteq> []
                          then set_up else ret True);
                if \<not> queue then ret (Exited 1)
                else if cf_spotify_enc_key cfg \<noteq> [] \<and> \<not> cipher_key_ok (cf_spotify_enc_key cfg) then ret (Exited 1)
                else do {
                  mailer \<leftarrow> (if cf_email_sender cfg = ''ses'' then new_ses_sender (sender_address cfg)
                             else ret (Some []));
                  if mailer = None then ret (Exited 1)
                  else do {
                    cloud \<leftarrow> set_up;
                    ret (if \<not> cloud then Exited 1
                         else Listening cfg (c_id c) (cf_enriched_queue cfg \<noteq> [])
                                (cf_interests_queue cfg \<noteq> [] \<and> cf_spotify_enc_key cfg \<noteq> [])) } } } } })"

section \<open>The program\<close>

definition scrape_command :: "app_deps \<Rightarrow> environment \<Rightarrow> string list \<Rightarrow> ('l, ended) act" where
  "scrape_command A env args =
     (case args of
        [] \<Rightarrow> ret (Exited 1)
      | target # rest \<Rightarrow>
          if target = ''events'' then scrape_events A env rest
          else if target = ''spotify'' then scrape_spotify A env
          else ret (Exited 1))"

definition app_main :: "app_deps \<Rightarrow> environment \<Rightarrow> string list \<Rightarrow> ('l, ended) act" where
  "app_main A env args =
     (case args of
        [] \<Rightarrow> ret (Exited 2)
      | cmd # rest \<Rightarrow>
          if cmd = ''serve'' then serve_start A env
          else if cmd = ''scrape'' then scrape_command A env rest
          else if cmd = ''match'' then run_match A env
          else if cmd = ''migrate'' then run_migrate A env
          else ret (Exited 2))"

section \<open>What a start guarantees\<close>

text \<open>A configuration that is refused touches nothing, and the process exits with a failure.\<close>

lemma refused_config_exits:
  assumes "config_from_env env = Inl e" and "args \<noteq> [] \<Longrightarrow> hd args \<noteq> ''migrate''"
    and "run_state (app_main A env args) w = (r, w')"
  shows "w' = w \<and> (\<exists>code. r = Exited code \<and> (code = 0 \<longrightarrow> take 2 args = [''scrape'', ''events'']))"
proof (cases args)
  case Nil
  then have "r = Exited 2 \<and> w' = w" using assms(3) by (simp add: app_main_def)
  then show ?thesis by simp
next
  case (Cons cmd rest)
  then show ?thesis using assms
    by (cases rest)
       (auto simp: app_main_def serve_start_def scrape_command_def scrape_events_def scrape_spotify_def run_match_def
         split: if_splits sum.splits)
qed

text \<open>A server that listens has a well-formed configuration and a city that the database has.\<close>

lemma serve_listens:
  assumes "run_state (serve_start A env) w = (Listening cfg city events_on interests_on, w')"
  shows "config_from_env env = Inr cfg \<and> config_ok cfg \<and> city \<in> c_id ` set (cities (w_db w)) \<and> w_db w' = w_db w \<and>
    (interests_on \<longrightarrow> cipher_key_ok (cf_spotify_enc_key cfg))"
proof -
  obtain cfg0 where cfg: "config_from_env env = Inr cfg0" using assms by (auto simp: serve_start_def split: sum.splits)
  obtain pool w0 where p: "run_state (open_pool A cfg0) w = (pool, w0)" by fastforce
  have frame0: "w_db w0 = w_db w"
  proof -
    have "keeps (\<lambda>x. w_db x = w_db w) (open_pool A cfg0)" unfolding open_pool_def by (intro keeps_rules)
    from keepsD [OF this, of w] p show ?thesis by simp
  qed
  obtain city0 w1 where q: "run_query get_default_city w0 = (city0, w1)" by fastforce
  have frame: "w_db w1 = w_db w"
    using run_query_db [of get_default_city w0] q frame0 by (auto simp: get_default_city_def one_row_def split: option.splits)
  obtain c where c: "city0 = Inr c" and pool: "pool \<noteq> None"
    using assms q cfg p by (cases city0) (auto simp: serve_start_def split: if_splits)
  have "c \<in> set (cities (w_db w))"
    using run_query_Inr [of get_default_city w0 c w1] q c frame0
    by (auto simp: get_default_city_def one_row_def split: option.splits dest: find_in_set)
  moreover have "cfg = cfg0 \<and> city = c_id c \<and> w_db w' = w_db w1 \<and> (interests_on \<longrightarrow> cipher_key_ok (cf_spotify_enc_key cfg))"
    using assms q cfg c p pool by (auto simp: serve_start_def set_up_def new_ses_sender_def split: if_splits)
  moreover have "config_ok cfg0" using loaded_config [OF cfg] by simp
  ultimately show ?thesis using cfg frame by auto
qed

end
