(* ===== verification/Consumer.thy ===== *)
theory Consumer
  imports Ingest "HOL-Library.Signed_Division"
begin

text \<open>
  The queue and the workers that drain it (\<open>internal/queue/sqs.go\<close>,
  \<open>internal/ingest/consumer.go\<close>). A queue is the list of its messages, each under its receipt.
  A receive answers some of them and removes none; only a delete does. Which messages a receive
  sees is up to the service, so every round of a worker carries that choice.
\<close>

section \<open>The client of the queue\<close>

text \<open>\<open>Receive\<close> waits whole seconds, at most twenty.\<close>

definition receive_wait :: "instant \<Rightarrow> int" where
  "receive_wait wait = (let s = sint (word_of_int (wait sdiv second) :: 32 word) in if 20 < s then 20 else s)"

type_synonym 'm messages = "(nat \<times> 'm) list"

definition visible :: "nat list \<Rightarrow> 'm messages \<Rightarrow> 'm messages" where
  "visible vis q = List.map_filter (\<lambda>i. map_option (Pair i) (map_of q i)) (remdups vis)"

text \<open>\<open>Receive\<close>: None is its error.\<close>

definition queue_receive :: "nat \<Rightarrow> nat list \<Rightarrow> 'm messages \<Rightarrow> ('l, 'm messages option) act" where
  "queue_receive n vis q =
     State (\<lambda>w. (if fault_of w = NoFault then Some (take n (visible vis q)) else None, tick w))"

section \<open>The consumer\<close>

record consumer =
  cn_handle_timeout :: instant
  cn_workers :: nat
  cn_name :: string

definition handle_timeout :: instant where
  "handle_timeout = 25 * second"

definition new_consumer :: "int \<Rightarrow> string \<Rightarrow> consumer" where
  "new_consumer workers name =
     \<lparr>cn_handle_timeout = handle_timeout, cn_workers = nat (if workers < 1 then 1 else workers),
      cn_name = (if name = [] then ''ingest'' else name)\<rparr>"

text \<open>
  A round of \<open>workerLoop\<close>: the context is found cancelled, before the receive or by it, or the
  receive is answered from the messages it sees.
\<close>

datatype round = Cancelled | Poll "nat list"

text \<open>
  The loop over the rounds of a worker; it answers the messages that are still in the queue, and
  whether the worker returned. A receive that fails is tried again.
\<close>

definition still_queued :: "'m messages \<Rightarrow> 'm messages \<Rightarrow> 'm messages \<Rightarrow> 'm messages" where
  "still_queued batch left q = filter (\<lambda>m. m \<notin> set batch \<or> m \<in> set left) q"

fun worker_loop ::
    "('m \<Rightarrow> ('l, match_error + unit) act) \<Rightarrow> 'm messages \<Rightarrow> round list \<Rightarrow> ('l, 'm messages \<times> bool) act" where
  "worker_loop h q [] = ret (q, False)"
| "worker_loop h q (Cancelled # rs) = ret (q, True)"
| "worker_loop h q (Poll vis # rs) = do {
     got \<leftarrow> queue_receive 10 vis q;
     case got of
       None \<Rightarrow> worker_loop h q rs
     | Some batch \<Rightarrow> do {
         left \<leftarrow> handle_batch (\<lambda>m. h (snd m)) batch;
         worker_loop h (still_queued batch left q) rs } }"

end
