(* ===== verification/ConsumerProps.thy ===== *)
theory ConsumerProps
  imports Consumer IngestProps InterestProps AuthProps
begin

text \<open>
  No event message is lost between the queue and the catalogue. The ids a run takes from the
  outside are the ones of its own steps (\<open>local_ids\<close>), so what holds of one delivery in a fresh
  outside holds of every delivery of a long run; \<open>catalogue_ready\<close> is the invariant the run
  keeps, and the messages of other events leave a stored event alone.
\<close>

section \<open>A run reads the ids of its own steps\<close>

definition with_fresh :: "(nat \<Rightarrow> uuid) \<Rightarrow> 'l world \<Rightarrow> 'l world" where
  "with_fresh f w = w\<lparr>w_env := (w_env w)\<lparr>fresh_uuid := f\<rparr>\<rparr>"

definition local_ids :: "('l, 'a) act \<Rightarrow> bool" where
  "local_ids m =
     (\<forall>w. w_step w \<le> w_step (snd (run_state m w)) \<and> w_env (snd (run_state m w)) = w_env w \<and>
        (\<forall>f. (\<forall>k \<ge> w_step w. k < w_step (snd (run_state m w)) \<longrightarrow> f k = fresh_uuid (w_env w) k) \<longrightarrow>
           run_state m (with_fresh f w) = (fst (run_state m w), with_fresh f (snd (run_state m w)))))"

named_theorems ids_rules \<open>programs that read the ids of their own steps\<close>

lemma with_fresh_fields [simp]:
  "w_step (with_fresh f w) = w_step w" "w_db (with_fresh f w) = w_db w" "now_of (with_fresh f w) = now_of w"
  "fault_of (with_fresh f w) = fault_of w" "fresh_of (with_fresh f w) = f (w_step w)"
  "fresh_uuid (w_env (with_fresh f w)) = f" "tick (with_fresh f w) = with_fresh f (tick w)"
  "always_up (with_fresh f w) = always_up w"
  "(with_fresh f w)\<lparr>w_db := d\<rparr> = with_fresh f (w\<lparr>w_db := d\<rparr>)"
  by (simp_all add: with_fresh_def now_of_def fault_of_def fresh_of_def tick_def always_up_def)

lemma run_query_with_fresh: "run_query q (with_fresh f w) = (fst (run_query q w), with_fresh f (snd (run_query q w)))"
  by (simp add: run_query_def split: fault.splits sum.splits prod.splits)

lemma local_idsD:
  assumes "local_ids m" and "run_state m w = (a, w')"
  shows "w_step w \<le> w_step w'" "w_env w' = w_env w"
    "(\<And>k. w_step w \<le> k \<Longrightarrow> k < w_step w' \<Longrightarrow> f k = fresh_uuid (w_env w) k) \<Longrightarrow>
       run_state m (with_fresh f w) = (a, with_fresh f w')"
  using assms(1) [unfolded local_ids_def, rule_format, of w] assms(2) by auto

lemma local_idsI:
  assumes "\<And>w a w'. run_state m w = (a, w') \<Longrightarrow> w_step w \<le> w_step w' \<and> w_env w' = w_env w"
    and "\<And>w a w' f. run_state m w = (a, w') \<Longrightarrow> (\<And>k. w_step w \<le> k \<Longrightarrow> k < w_step w' \<Longrightarrow> f k = fresh_uuid (w_env w) k) \<Longrightarrow>
       run_state m (with_fresh f w) = (a, with_fresh f w')"
  shows "local_ids m"
  unfolding local_ids_def using assms by (metis prod.collapse)

lemma ids_return [ids_rules]: "local_ids (ret x)"
  by (simp add: local_ids_def)

lemma ids_bind [ids_rules]:
  assumes m: "local_ids m" and f: "\<And>x. local_ids (f x)"
  shows "local_ids (State_Monad.bind m f)"
proof (rule local_idsI)
  fix w :: "'a world" and b w' assume "run_state (State_Monad.bind m f) w = (b, w')"
  then obtain a w1 where r: "run_state m w = (a, w1)" "run_state (f a) w1 = (b, w')" by (auto split: prod.splits)
  note one = local_idsD [OF m r(1)] and two = local_idsD [OF f r(2)]
  show "w_step w \<le> w_step w' \<and> w_env w' = w_env w" using one(1,2) two(1,2) by simp
  fix g assume g: "\<And>k. w_step w \<le> k \<Longrightarrow> k < w_step w' \<Longrightarrow> g k = fresh_uuid (w_env w) k"
  have "run_state m (with_fresh g w) = (a, with_fresh g w1)" by (rule one(3)) (use g two(1) in simp)
  moreover have "run_state (f a) (with_fresh g w1) = (b, with_fresh g w')" by (rule two(3)) (use g one(1,2) in simp)
  ultimately show "run_state (State_Monad.bind m f) (with_fresh g w) = (b, with_fresh g w')" by simp
qed

lemma ids_calls [ids_rules]: "local_ids (db_call q)" "local_ids (db_insert f)"
  by (simp_all add: local_ids_def run_query_with_fresh) (simp add: fresh_of_def)

lemma ids_delete [ids_rules]: "local_ids queue_delete"
  by (simp add: local_ids_def queue_delete_def)

lemma ids_receive [ids_rules]: "local_ids (queue_receive n vis q)"
  by (simp add: local_ids_def queue_receive_def)

lemma ids_cases [ids_rules]:
  "(b \<Longrightarrow> local_ids m) \<Longrightarrow> (\<not> b \<Longrightarrow> local_ids n) \<Longrightarrow> local_ids (if b then m else n)"
  "(\<And>e. x = Inl e \<Longrightarrow> local_ids (g e)) \<Longrightarrow> (\<And>a. x = Inr a \<Longrightarrow> local_ids (h a)) \<Longrightarrow>
     local_ids (case x of Inl e \<Rightarrow> g e | Inr a \<Rightarrow> h a)"
  by (auto split: sum.splits)

lemma ids_option [ids_rules]:
  "(y = None \<Longrightarrow> local_ids m) \<Longrightarrow> (\<And>a. y = Some a \<Longrightarrow> local_ids (k a)) \<Longrightarrow>
     local_ids (case y of None \<Rightarrow> m | Some a \<Rightarrow> k a)"
  by (cases y) auto

lemma ids_prod [ids_rules]: "(\<And>a b. x = (a, b) \<Longrightarrow> local_ids (f a b)) \<Longrightarrow> local_ids (case x of (a, b) \<Rightarrow> f a b)"
  by (cases x) auto

lemma ids_steps [ids_rules]:
  "local_ids (step_db q)" "local_ids (step_new f)"
  "local_ids m \<Longrightarrow> (\<And>a. local_ids (g a)) \<Longrightarrow> local_ids (then_step m g)"
  unfolding step_db_def step_new_def then_step_def by (intro ids_rules; assumption?)+

lemma ids_each [ids_rules]: "(\<And>x. local_ids (f x)) \<Longrightarrow> local_ids (each_step f xs)"
  by (induction xs) (auto intro!: ids_rules)

lemma ids_enrichment [ids_rules]:
  "local_ids (image_step a i)" "local_ids (bio_step a b)" "local_ids (tour_step a t)" "local_ids (apply_enrichment T en)"
proof -
  show i: "local_ids (image_step a i)" for a i unfolding image_step_def by (intro ids_rules)
  show b: "local_ids (bio_step a b)" for a b unfolding bio_step_def by (intro ids_rules)
  show t: "local_ids (tour_step a t)" for a t unfolding tour_step_def by (intro ids_rules)
  show "local_ids (apply_enrichment T en)" unfolding apply_enrichment_def by (intro ids_rules i b t)
qed

lemma ids_handle_event [ids_rules]: "local_ids (handle_event T city body)"
  unfolding handle_event_def handle_message_def performer_step_def genre_step_def
  by (intro ids_rules)

lemma ids_handle_one [ids_rules]: "local_ids (h m) \<Longrightarrow> local_ids (handle_one h m)"
  unfolding handle_one_def by (intro ids_rules)


section \<open>What a delivery does to the keys and ids of the catalogue\<close>

definition ids_in :: "db \<Rightarrow> uuid set" where
  "ids_in d = a_id ` set (artists d) \<union> v_id ` set (venues d) \<union> e_id ` set (events d)"

text \<open>At most the given ids are new; keys stay unique and a venue keeps its id.\<close>

definition grows :: "uuid set \<Rightarrow> db \<Rightarrow> db \<Rightarrow> bool" where
  "grows I d d' =
     (sources d' = sources d \<and> cities d' = cities d \<and> ids_in d' \<subseteq> ids_in d \<union> I \<and>
      (keyed a_name_key (artists d) \<longrightarrow> keyed a_name_key (artists d')) \<and>
      (keyed venue_key (venues d) \<longrightarrow> keyed venue_key (venues d')) \<and>
      (keyed event_key (events d) \<longrightarrow> keyed event_key (events d')) \<and>
      (\<forall>k i. id_at venue_key v_id k (venues d) = Some i \<longrightarrow> id_at venue_key v_id k (venues d') = Some i))"

lemma growsD:
  assumes "grows I d d'"
  shows "ids_in d' \<subseteq> ids_in d \<union> I" "sources d' = sources d" "cities d' = cities d"
    "keyed a_name_key (artists d) \<Longrightarrow> keyed a_name_key (artists d')"
    "keyed venue_key (venues d) \<Longrightarrow> keyed venue_key (venues d')"
    "keyed event_key (events d) \<Longrightarrow> keyed event_key (events d')"
    "id_at venue_key v_id k (venues d) = Some i \<Longrightarrow> id_at venue_key v_id k (venues d') = Some i"
  using assms unfolding grows_def by blast+

definition query_grows :: "uuid set \<Rightarrow> 'a query \<Rightarrow> bool" where
  "query_grows I q = (\<forall>t d a d'. q t d = Inr (a, d') \<longrightarrow> grows I d d')"

lemma upsert_returning_grows:
  assumes "upsert_returning key rid new merge t = Some (i, t')"
    and "\<And>r. key (merge r) = key r" and "\<And>r. rid (merge r) = rid r"
  shows "keyed key t \<Longrightarrow> keyed key t'" and "rid ` set t' \<subseteq> insert (rid new) (rid ` set t)"
    and "id_at key rid k t = Some j \<Longrightarrow> id_at key rid k t' = Some j"
proof -
  note row = upsert_returning_row [OF assms(1)]
  show "keyed key t \<Longrightarrow> keyed key t'" unfolding row by (rule keyed_upsert_row) (simp_all add: assms(2))
  show "rid ` set t' \<subseteq> insert (rid new) (rid ` set t)"
    using assms(1,3) by (auto simp: upsert_returning_def update_rows_def split: option.splits if_splits)
  show "id_at key rid k t = Some j \<Longrightarrow> id_at key rid k t' = Some j"
    unfolding row id_at_def by (auto simp: find_upsert_row assms(2,3) split: option.splits)
qed

lemma grows_same:
  "artists d' = artists d \<Longrightarrow> venues d' = venues d \<Longrightarrow> events d' = events d \<Longrightarrow> sources d' = sources d \<Longrightarrow>
     cities d' = cities d \<Longrightarrow> grows I d d'"
  by (simp add: grows_def ids_in_def)

lemma venue_key_eta: "(\<lambda>v. (v_city_id v, v_normalized v)) = venue_key"
  by (simp add: fun_eq_iff venue_key_def)

lemma query_grows_artist: "query_grows {u} (upsert_artist k disp mbid dis ty co yr st u)"
  unfolding query_grows_def
proof (intro allI impI)
  fix t d a d' assume "upsert_artist k disp mbid dis ty co yr st u t d = Inr (a, d')"
  then obtain new merge A where up: "upsert_returning a_name_key a_id new merge (artists d) = Some (a, A)"
    and d': "d' = d\<lparr>artists := A\<rparr>" and n: "a_id new = u"
    and m: "\<And>r. a_name_key (merge r) = a_name_key r" "\<And>r. a_id (merge r) = a_id r"
    unfolding upsert_artist_def by (auto split: if_splits option.splits)
  note g = upsert_returning_grows [OF up, OF m]
  show "grows {u} d d'" using g(1,2) unfolding grows_def ids_in_def d' n
    by (simp del: split_paired_All) blast
qed

lemma query_grows_venue: "query_grows {u} (upsert_venue city name normalized address lat lng website u)"
  unfolding query_grows_def
proof (intro allI impI)
  fix t d a d' assume "upsert_venue city name normalized address lat lng website u t d = Inr (a, d')"
  then obtain new merge V where up: "upsert_returning venue_key v_id new merge (venues d) = Some (a, V)"
    and d': "d' = d\<lparr>venues := V\<rparr>" and n: "v_id new = u"
    and m: "\<And>r. venue_key (merge r) = venue_key r" "\<And>r. v_id (merge r) = v_id r"
    unfolding upsert_venue_def venue_key_eta by (auto simp: venue_key_def split: if_splits option.splits)
  note g = upsert_returning_grows [OF up, OF m]
  have "v_id ` set V \<subseteq> insert u (v_id ` set (venues d))" using g(2) n by simp
  moreover have "\<forall>k i. id_at venue_key v_id k (venues d) = Some i \<longrightarrow> id_at venue_key v_id k V = Some i" using g(3) by blast
  ultimately show "grows {u} d d'" using g(1) unfolding grows_def ids_in_def d'
    by (simp del: split_paired_All) blast
qed

lemma upsert_event_row:
  assumes "upsert_event src m venue headline u t d = Inr (i, d')"
  obtains Ev where "upsert_returning event_key e_id (new_event src m venue headline u t)
      (merge_event (new_event src m venue headline u t)) (events d) = Some (i, Ev)" "d' = d\<lparr>events := Ev\<rparr>"
  using assms unfolding upsert_event_def Let_def by (auto split: if_splits option.splits)

lemma merge_event_ids: "event_key (merge_event n r) = event_key r" "e_id (merge_event n r) = e_id r"
  "e_id (new_event src m venue headline u t) = u"
  "event_key (new_event src m venue headline u t) = (src, em_source_event_id m)"
  by (simp_all add: merge_event_def event_key_def new_event_def)

lemma query_grows_event: "query_grows {u} (upsert_event src m venue headline u)"
  unfolding query_grows_def
proof (intro allI impI)
  fix t d a d' assume "upsert_event src m venue headline u t d = Inr (a, d')"
  then obtain Ev where up: "upsert_returning event_key e_id (new_event src m venue headline u t)
      (merge_event (new_event src m venue headline u t)) (events d) = Some (a, Ev)" and d': "d' = d\<lparr>events := Ev\<rparr>"
    by (rule upsert_event_row)
  note g = upsert_returning_grows [OF up, OF merge_event_ids(1,2)]
  show "grows {u} d d'" using g(1,2) unfolding grows_def ids_in_def d' merge_event_ids
    by (simp del: split_paired_All) blast
qed

lemma query_grows_others:
  "query_grows I (get_event_source_by_name s)" "query_grows I (genre_exists s)"
  "query_grows I (upsert_artist_image a st url w h file source credit reason)"
  "query_grows I (upsert_artist_bio a st md srcs model reason)"
  "query_grows I (upsert_artist_tour_snapshot a st tn songs date v c url blurb model reason)"
  "query_grows I (delete_event_performers i)" "query_grows I (insert_event_performer i p nn)"
  "query_grows I (delete_event_genres i)" "query_grows I (insert_event_genre i g)"
  by (auto simp: query_grows_def get_event_source_by_name_def one_row_def genre_exists_def upsert_artist_image_def
      upsert_artist_bio_def upsert_artist_tour_snapshot_def delete_event_performers_def insert_event_performer_def
      delete_event_genres_def insert_event_genre_def upsert_section_def Let_def
      split: if_splits option.splits intro!: grows_same)

section \<open>The invariant of a run of the event consumer\<close>

text \<open>
  Until the horizon: the keys of the catalogue are unique, its sources and cities are the ones
  given, and no id the outside will hand out is taken or handed out twice.
\<close>

definition catalogue_ready :: "nat \<Rightarrow> source_row list \<Rightarrow> city_row list \<Rightarrow> 'l world \<Rightarrow> bool" where
  "catalogue_ready H S C w =
     (w_step w \<le> H \<longrightarrow>
        keyed a_name_key (artists (w_db w)) \<and> keyed venue_key (venues (w_db w)) \<and>
        keyed event_key (events (w_db w)) \<and> sources (w_db w) = S \<and> cities (w_db w) = C \<and>
        inj_on (fresh_uuid (w_env w)) {w_step w..<H} \<and>
        fresh_uuid (w_env w) ` {w_step w..<H} \<inter> ids_in (w_db w) = {})"

lemma disjoint_grown: "x \<notin> A \<Longrightarrow> B \<inter> D = {} \<Longrightarrow> A \<subseteq> B \<Longrightarrow> D' \<subseteq> insert x D \<Longrightarrow> A \<inter> D' = {}"
  by blast

lemma ready_tick:
  assumes "catalogue_ready H S C w" and "w_env w' = w_env w" and "w_step w' = Suc (w_step w)"
    and "grows {fresh_of w} (w_db w) (w_db w')"
  shows "catalogue_ready H S C w'"
proof (cases "w_step w' \<le> H")
  case True
  have split: "{w_step w..<H} = insert (w_step w) {w_step w'..<H}" using True assms(3) by auto
  have out: "fresh_uuid (w_env w) (w_step w) \<notin> fresh_uuid (w_env w) ` {w_step w'..<H}"
    using assms(1,3) True by (auto simp: catalogue_ready_def split inj_on_insert)
  moreover have "fresh_uuid (w_env w) ` {w_step w..<H} \<inter> ids_in (w_db w) = {}"
    using assms(1,3) True by (simp add: catalogue_ready_def)
  moreover have "fresh_uuid (w_env w) ` {w_step w'..<H} \<subseteq> fresh_uuid (w_env w) ` {w_step w..<H}" unfolding split by blast
  moreover have "ids_in (w_db w') \<subseteq> insert (fresh_uuid (w_env w) (w_step w)) (ids_in (w_db w))"
    using growsD(1) [OF assms(4)] by (simp add: fresh_of_def)
  ultimately have "fresh_uuid (w_env w) ` {w_step w'..<H} \<inter> ids_in (w_db w') = {}"
    by (rule disjoint_grown)
  then show ?thesis using assms(1-3) growsD(2-6) [OF assms(4)] True by (simp add: catalogue_ready_def split)
qed (simp add: catalogue_ready_def)

lemma grows_refl: "grows I d d"
  by (rule grows_same) simp_all

lemma grows_mono: "grows I d d' \<Longrightarrow> I \<subseteq> I' \<Longrightarrow> grows I' d d'"
  by (auto simp: grows_def)

lemma ready_query:
  assumes "query_grows {fresh_of w} q" and "catalogue_ready H S C w"
  shows "catalogue_ready H S C (snd (run_query q w))"
  using run_query_db [of q w] assms(1)
  by (intro ready_tick [OF assms(2)]) (auto simp: query_grows_def grows_refl dest: sym)

lemma keeps_ready_calls:
  "(\<And>I. query_grows I q) \<Longrightarrow> keeps (catalogue_ready H S C) (step_db q)"
  "(\<And>u. query_grows {u} (f u)) \<Longrightarrow> keeps (catalogue_ready H S C) (step_new f)"
  unfolding step_db_def step_new_def
  by (intro keeps_rules; simp add: keeps_def ready_query)+

lemma keeps_ready_queue:
  "keeps (catalogue_ready H S C) queue_delete" "keeps (catalogue_ready H S C) (queue_receive n vis q)"
  by (auto simp: keeps_def queue_delete_def queue_receive_def grows_refl intro: ready_tick)

lemmas ready_rules = keeps_rules keeps_ready_calls(1) [OF query_grows_others(1)] keeps_ready_calls(1) [OF query_grows_others(2)]
  keeps_ready_calls(1) [OF query_grows_others(3)] keeps_ready_calls(1) [OF query_grows_others(4)]
  keeps_ready_calls(1) [OF query_grows_others(5)] keeps_ready_calls(1) [OF query_grows_others(6)]
  keeps_ready_calls(1) [OF query_grows_others(7)] keeps_ready_calls(1) [OF query_grows_others(8)]
  keeps_ready_calls(1) [OF query_grows_others(9)] keeps_ready_calls(2) [OF query_grows_artist]
  keeps_ready_calls(2) [OF query_grows_venue] keeps_ready_calls(2) [OF query_grows_event]

lemma ready_handle_event: "keeps (catalogue_ready H S C) (handle_event T city body)"
  unfolding handle_event_def handle_message_def apply_enrichment_def image_step_def bio_step_def tour_step_def
    performer_step_def genre_step_def
  by (intro ready_rules)

lemma ready_handle_one: "keeps (catalogue_ready H S C) (h m) \<Longrightarrow> keeps (catalogue_ready H S C) (handle_one h m)"
  unfolding handle_one_def by (intro keeps_rules keeps_ready_queue)


section \<open>One delivery of a long run\<close>

lemma ready_ingest_ok:
  assumes "catalogue_ready H S C w" and "w_step w < H"
    and "has_row (\<lambda>s. es_name s = source) S" and "has_row (\<lambda>c. c_id c = city) C"
  defines "f \<equiv> \<lambda>k. fresh_uuid (w_env w) (if w_step w \<le> k \<and> k < H then k else w_step w)"
  shows "ingest_ok (w_env (with_fresh f w)) (w_db w) city source"
proof -
  have "f n \<in> fresh_uuid (w_env w) ` {w_step w..<H}" for n using assms(2) by (auto simp: f_def)
  then have "f n \<notin> ids_in (w_db w)" for n using assms(1,2) by (auto simp: catalogue_ready_def)
  then show ?thesis using assms(1-4) by (auto simp: ingest_ok_def catalogue_ready_def ids_in_def)
qed

lemma delivery_in_run:
  assumes ready: "catalogue_ready H S C w" and run: "run_state (handle_one (handle_event T city) body) w = (gone, w')"
    and H: "w_step w' < H"
    and src: "\<And>em. delivers body em \<Longrightarrow> has_row (\<lambda>s. es_name s = em_source (fst em)) S"
    and city: "has_row (\<lambda>c. c_id c = city) C"
  shows "gone \<Longrightarrow> delivers body em \<Longrightarrow> ingested T city em (w_db w) (w_db w')" and "always_up w \<Longrightarrow> gone"
proof -
  have "local_ids (handle_one (handle_event T city) body)" by (intro ids_handle_one ids_handle_event)
  note l = local_idsD [OF this run]
  let ?f = "\<lambda>k. fresh_uuid (w_env w) (if w_step w \<le> k \<and> k < H then k else w_step w)"
  have "w_step w < H" using l(1) H by simp
  note ok = ready_ingest_ok [OF ready this _ city]
  have run': "run_state (handle_one (handle_event T city) body) (with_fresh ?f w) = (gone, with_fresh ?f w')"
    by (rule l(3)) (use H in simp)
  have d: "(gone \<longrightarrow> ingested T city em (w_db w) (w_db w')) \<and> (always_up w \<longrightarrow> gone)" if "delivers body em" for em
    using handle_one_ingested [of "with_fresh ?f w" city "fst em" body "snd em" T gone "with_fresh ?f w'"]
      ok [OF src [OF that]] that run' by simp
  show "gone \<Longrightarrow> delivers body em \<Longrightarrow> ingested T city em (w_db w) (w_db w')" using d by blast
  show gone if "always_up w"
  proof (cases body)
    case (Pair x y)
    then show ?thesis using d [of "case x of Some em \<Rightarrow> em | None \<Rightarrow> (the y, None)"] that run
      by (cases x; cases y)
        (auto simp: delivers_def handle_one_def handle_event_def queue_delete_def always_up_def fault_of_def)
  qed
qed

section \<open>What a delivery leaves alone\<close>

text \<open>The event of a message is in the catalogue as the message has it, at its venue.\<close>

definition in_catalogue :: "text_env \<Rightarrow> uuid \<Rightarrow> enriched_msg \<Rightarrow> db \<Rightarrow> bool" where
  "in_catalogue T city em d =
     (\<exists>src v artist e. find (\<lambda>s. es_name s = em_source (fst em)) (sources d) = Some src \<and>
        find (\<lambda>r. event_key r = (es_id src, em_source_event_id (fst em))) (events d) = Some e \<and>
        id_at venue_key v_id (city, normalize_string T (vm_name (em_venue (fst em)))) (venues d) = Some v \<and>
        event_stored (fst em) (es_id src) v artist e)"

lemma ingested_in_catalogue: "ingested T city em d0 d \<Longrightarrow> in_catalogue T city em d"
  unfolding ingested_def in_catalogue_def venue_stored_def id_at_def
  by (elim exE conjE) (intro exI conjI; simp)

lemma grows_in_catalogue:
  assumes "in_catalogue T city em d" and g: "grows I d d'"
    and f: "\<And>k. snd k = em_source_event_id (fst em) \<Longrightarrow>
      find (\<lambda>r. event_key r = k) (events d') = find (\<lambda>r. event_key r = k) (events d)"
  shows "in_catalogue T city em d'"
  using assms(1) growsD(2,7) [OF g] f unfolding in_catalogue_def by (elim exE conjE) (intro exI conjI; simp)

definition other_event :: "event_msg \<Rightarrow> enriched_msg \<Rightarrow> bool" where
  "other_event m em = (em_source_event_id (fst em) \<noteq> em_source_event_id m)"

lemma keeps_in_catalogue_calls:
  assumes "\<And>I. query_grows I q" and "\<And>t d a d'. q t d = Inr (a, d') \<Longrightarrow> events d' = events d"
  shows "keeps (\<lambda>w. in_catalogue T city em (w_db w)) (step_db q)"
  by (rule keeps_step_db, rule query_keepsI)
    (metis assms grows_in_catalogue query_grows_def)

lemma keeps_in_catalogue_new:
  assumes "\<And>u. query_grows {u} (f u)"
    and "\<And>u t d a d' k. f u t d = Inr (a, d') \<Longrightarrow> snd k = em_source_event_id (fst em) \<Longrightarrow>
      find (\<lambda>r. event_key r = k) (events d') = find (\<lambda>r. event_key r = k) (events d)"
  shows "keeps (\<lambda>w. in_catalogue T city em (w_db w)) (step_new f)"
  unfolding step_new_def
  by (intro keeps_rules keeps_db_insert query_keepsI) (metis assms grows_in_catalogue query_grows_def)

lemma upsert_event_elsewhere:
  assumes "upsert_event src m venue headline u t d = Inr (i, d')" and "snd k \<noteq> em_source_event_id m"
  shows "find (\<lambda>r. event_key r = k) (events d') = find (\<lambda>r. event_key r = k) (events d)"
proof -
  obtain Ev where up: "upsert_returning event_key e_id (new_event src m venue headline u t)
      (merge_event (new_event src m venue headline u t)) (events d) = Some (i, Ev)" and d': "d' = d\<lparr>events := Ev\<rparr>"
    using assms(1) by (rule upsert_event_row)
  have "k \<noteq> (src, em_source_event_id m)" using assms(2) by auto
  then show ?thesis by (simp add: d' upsert_returning_row [OF up] find_upsert_row merge_event_ids)
qed

lemma in_catalogue_rules:
  "keeps (\<lambda>w. in_catalogue T city em (w_db w)) (apply_enrichment T' en)"
  "keeps (\<lambda>w. in_catalogue T city em (w_db w)) (performer_step T' i p)"
  "keeps (\<lambda>w. in_catalogue T city em (w_db w)) (genre_step T' i g)"
  "keeps (\<lambda>w. in_catalogue T city em (w_db w)) (step_db (get_event_source_by_name s))"
  "keeps (\<lambda>w. in_catalogue T city em (w_db w)) (step_db (delete_event_performers i))"
  "keeps (\<lambda>w. in_catalogue T city em (w_db w)) (step_db (delete_event_genres i))"
  "keeps (\<lambda>w. in_catalogue T city em (w_db w)) (step_new (upsert_venue city' name normalized address lat lng website))"
  "other_event m em \<Longrightarrow> keeps (\<lambda>w. in_catalogue T city em (w_db w)) (step_new (upsert_event src m venue headline))"
  unfolding apply_enrichment_def image_step_def bio_step_def tour_step_def performer_step_def genre_step_def
  by (intro keeps_rules keeps_in_catalogue_calls keeps_in_catalogue_new query_grows_others query_grows_artist
        query_grows_venue query_grows_event;
      auto simp: get_event_source_by_name_def one_row_def genre_exists_def upsert_artist_image_def other_event_def
        upsert_artist_bio_def upsert_artist_tour_snapshot_def delete_event_performers_def insert_event_performer_def
        delete_event_genres_def insert_event_genre_def upsert_section_def upsert_artist_def upsert_venue_def Let_def
        upsert_event_elsewhere split: if_splits option.splits)+

lemma in_catalogue_handle_event:
  assumes "\<And>em'. delivers body em' \<Longrightarrow> other_event (fst em') em"
  shows "keeps (\<lambda>w. in_catalogue T city em (w_db w)) (handle_event T' city' body)"
proof -
  have "keeps (\<lambda>w. in_catalogue T city em (w_db w)) (handle_message T' city' (m, en))" if "other_event m em" for m en
    unfolding handle_message_def prod.case by (intro keeps_rules in_catalogue_rules that)
  then show ?thesis using assms unfolding handle_event_def delivers_def
    by (auto intro!: keeps_rules split: option.splits prod.splits)
qed

lemma in_catalogue_handle_one:
  assumes "\<And>em'. delivers body em' \<Longrightarrow> other_event (fst em') em"
    and "in_catalogue T city em (w_db w)" and "run_state (handle_one (handle_event T' city') body) w = (gone, w')"
  shows "in_catalogue T city em (w_db w')"
proof -
  have "keeps (\<lambda>w. in_catalogue T city em (w_db w)) (handle_one (handle_event T' city') body)"
    unfolding handle_one_def
    by (intro keeps_rules in_catalogue_handle_event assms(1)) (auto simp: keeps_def queue_delete_def)
  from keepsD [OF this, of w] assms(2,3) show ?thesis by simp
qed


section \<open>The contract of a message handler\<close>

text \<open>The lists a receive shows and leaves.\<close>

lemma visible_map:
  "visible vis q = map (\<lambda>i. (i, the (map_of q i))) (filter (\<lambda>i. map_of q i \<noteq> None) (remdups vis))"
proof -
  have "List.map_filter (\<lambda>i. map_option (Pair i) (g i)) vs = map (\<lambda>i. (i, the (g i))) (filter (\<lambda>i. g i \<noteq> None) vs)"
    for g :: "nat \<Rightarrow> 'a option" and vs
    by (induction vs) (auto simp: map_filter_simps split: option.splits)
  then show ?thesis by (simp add: visible_def)
qed

lemma visible_props:
  assumes "distinct (map fst q)"
  shows "distinct (visible vis q)" "set (visible vis q) = {m \<in> set q. fst m \<in> set vis}"
proof -
  show "distinct (visible vis q)" unfolding visible_map by (simp add: distinct_map inj_on_def)
  show "set (visible vis q) = {m \<in> set q. fst m \<in> set vis}"
    using assms unfolding visible_map by (auto simp: map_of_eq_Some_iff intro!: image_eqI)
qed

text \<open>A round that shows every message of the queue.\<close>

definition shows_all :: "'m messages \<Rightarrow> round \<Rightarrow> bool" where
  "shows_all q r = (case r of Cancelled \<Rightarrow> False | Poll vis \<Rightarrow> fst ` set q \<subseteq> set vis)"

lemma shows_all_subset: "shows_all q r \<Longrightarrow> set q1 \<subseteq> set q \<Longrightarrow> shows_all q1 r"
  unfolding shows_all_def by (cases r) (auto dest: image_mono [where f = fst])

lemma still_queued_subset: "set (still_queued batch left q) \<subseteq> set q"
  by (auto simp: still_queued_def)

lemma still_queued_distinct: "distinct (map fst q) \<Longrightarrow> distinct (map fst (still_queued batch left q))"
  unfolding still_queued_def by (rule distinct_map_filter)

lemma run_receive:
  "run_state (queue_receive n vis q) w = (if fault_of w = NoFault then Some (take n (visible vis q)) else None, tick w)"
  by (simp add: queue_receive_def)

lemma length_still_queued:
  assumes "distinct (map fst q)" and "fst ` set q \<subseteq> set vis"
  shows "length (still_queued (take n (visible vis q)) [] q) = length q - n"
proof -
  let ?b = "take n (visible vis q)"
  have d: "distinct q" "distinct ?b" using assms(1) visible_props(1) [OF assms(1)] by (auto simp: distinct_map)
  have all: "set (visible vis q) = set q" using visible_props(2) [OF assms(1), of vis] assms(2) by auto
  then have "length (visible vis q) = length q"
    using visible_props(1) [OF assms(1), of vis] d(1) by (metis distinct_card)
  then have "card (set ?b) = min (length q) n" using d(2) by (simp add: distinct_card)
  moreover have "set ?b \<subseteq> set q" using all set_take_subset [of n "visible vis q"] by simp
  moreover have "set (still_queued ?b [] q) = set q - set ?b" by (auto simp: still_queued_def)
  ultimately have "card (set (still_queued ?b [] q)) = length q - min (length q) n"
    using d(1) by (simp add: card_Diff_subset distinct_card)
  moreover have "distinct (still_queued ?b [] q)" using d(1) by (simp add: still_queued_def)
  ultimately show ?thesis by (simp add: distinct_card)
qed

text \<open>Messages that do not disturb each other.\<close>

definition pairwise_apart :: "('m \<Rightarrow> 'm \<Rightarrow> bool) \<Rightarrow> (nat \<times> 'm) set \<Rightarrow> bool" where
  "pairwise_apart apart U = (\<forall>x \<in> U. \<forall>y \<in> U. x \<noteq> y \<longrightarrow> apart (snd x) (snd y))"

text \<open>
  \<open>MessageHandler\<close>, as the consumer relies on it: in a world that is \<open>ready\<close> (up to a horizon of
  steps) a delivery of an accepted message that leaves the queue has \<open>landed\<close>; a delivery keeps
  the world ready, and leaves alone what landed of the messages it is \<open>apart\<close> from.
\<close>

locale message_handler =
  fixes h :: "'m \<Rightarrow> ('l, match_error + unit) act"
    and ready :: "nat \<Rightarrow> 'l world \<Rightarrow> bool"
    and accepted :: "'m \<Rightarrow> bool"
    and landed :: "'m \<Rightarrow> db \<Rightarrow> bool"
    and apart :: "'m \<Rightarrow> 'm \<Rightarrow> bool"
  assumes forward: "run_state (h m) w = (r, w') \<Longrightarrow> w_step w \<le> w_step w' \<and> w_env w' = w_env w"
    and ready_kept: "keeps (ready H) (h m)"
    and ready_step: "ready H w \<Longrightarrow> ready H (tick w)"
    and delivered: "ready H w \<Longrightarrow> accepted m \<Longrightarrow> run_state (handle_one h m) w = (True, w') \<Longrightarrow> w_step w' < H \<Longrightarrow>
      landed m (w_db w')"
    and undisturbed: "apart m m' \<Longrightarrow> landed m (w_db w) \<Longrightarrow> run_state (h m') w = (r, w') \<Longrightarrow> landed m (w_db w')"
begin

lemma one_cases:
  assumes "run_state (handle_one h m) w = (gone, w')"
  obtains r w1 where "run_state (h m) w = (r, w1)" "w' = w1 \<or> w' = tick w1"
  using assms by (auto simp: handle_one_def queue_delete_def split: prod.splits sum.splits)

lemma one_forward:
  assumes "run_state (handle_one h m) w = (gone, w')"
  shows "w_step w \<le> w_step w'" "w_env w' = w_env w"
  using assms by (rule one_cases; use forward in force)+

lemma one_ready:
  assumes "run_state (handle_one h m) w = (gone, w')" and "ready H w"
  shows "ready H w'"
  using assms(1)
proof (rule one_cases)
  fix r w1 assume r: "run_state (h m) w = (r, w1)" "w' = w1 \<or> w' = tick w1"
  then have "ready H w1" using keepsD [OF ready_kept [of H m] assms(2)] by simp
  then show ?thesis using r(2) ready_step by blast
qed

lemma one_undisturbed:
  assumes "run_state (handle_one h m') w = (gone, w')" and "apart m m'" and "landed m (w_db w)"
  shows "landed m (w_db w')"
  using assms(1) by (rule one_cases) (use undisturbed [OF assms(2,3)] in auto)

lemma batch_forward:
  assumes "run_state (handle_batch (\<lambda>m. h (snd m)) ms) w = (left, w')"
  shows "w_step w \<le> w_step w' \<and> w_env w' = w_env w"
  using assms
proof (induction ms arbitrary: w left)
  case (Cons m ms)
  obtain gone w1 where one: "run_state (handle_one (\<lambda>m. h (snd m)) m) w = (gone, w1)" by fastforce
  then obtain rest where two: "run_state (handle_batch (\<lambda>m. h (snd m)) ms) w1 = (rest, w')"
    using Cons.prems by (auto split: prod.splits)
  have "run_state (handle_one h (snd m)) w = (gone, w1)" using one by (simp add: handle_one_def)
  from one_forward [OF this] Cons.IH [OF two] show ?case by simp
qed simp

lemma batch_lands:
  assumes "pairwise_apart apart U" and "\<forall>x \<in> U. accepted (snd x)"
    and "set ms \<subseteq> U" and "distinct ms" and "ready H w" and "w_step w' < H"
    and "run_state (handle_batch (\<lambda>m. h (snd m)) ms) w = (left, w')"
  shows "ready H w' \<and> set left \<subseteq> set ms \<and>
    (\<forall>x \<in> U - set ms. landed (snd x) (w_db w) \<longrightarrow> landed (snd x) (w_db w')) \<and>
    (\<forall>x \<in> set ms - set left. landed (snd x) (w_db w'))"
  using assms(3-7)
proof (induction ms arbitrary: w left)
  case (Cons m ms)
  obtain gone w1 where one: "run_state (handle_one (\<lambda>m. h (snd m)) m) w = (gone, w1)" by fastforce
  obtain rest where two: "run_state (handle_batch (\<lambda>m. h (snd m)) ms) w1 = (rest, w')"
    and left: "left = (if gone then rest else m # rest)"
    using Cons.prems(5) one by (auto split: prod.splits)
  have one': "run_state (handle_one h (snd m)) w = (gone, w1)" using one by (simp add: handle_one_def)
  have mU: "m \<in> U" and msU: "set ms \<subseteq> U" and m: "m \<notin> set ms" and dist: "distinct ms" using Cons.prems by auto
  have "w_step w1 < H" using batch_forward [OF two] Cons.prems(4) by simp
  then have "gone \<Longrightarrow> landed (snd m) (w_db w1)"
    using delivered [OF Cons.prems(3), of "snd m" w1] assms(2) mU one' by auto
  moreover have "landed (snd x) (w_db w1)" if "x \<in> U" "x \<noteq> m" "landed (snd x) (w_db w)" for x
    using one_undisturbed [OF one' _ that(3)] assms(1) that(1,2) mU by (simp add: pairwise_apart_def)
  ultimately show ?case
    using Cons.IH [OF msU dist one_ready [OF one' Cons.prems(3)] Cons.prems(4) two] mU m unfolding left by auto
qed simp

lemma worker_forward:
  assumes "run_state (worker_loop h q rs) w = ((q', stopped), w')"
  shows "w_step w \<le> w_step w' \<and> w_env w' = w_env w"
  using assms
proof (induction rs arbitrary: q w)
  case (Cons r rs)
  show ?case
  proof (cases r)
    case (Poll vis)
    show ?thesis
    proof (cases "fault_of w = NoFault")
      case True
      obtain left w1 where batch:
        "run_state (handle_batch (\<lambda>m. h (snd m)) (take 10 (visible vis q))) (tick w) = (left, w1)" by fastforce
      then have "run_state (worker_loop h (still_queued (take 10 (visible vis q)) left q) rs) w1 = ((q', stopped), w')"
        using Cons.prems Poll True by (simp add: run_receive)
      from Cons.IH [OF this] batch_forward [OF batch] show ?thesis by simp
    next
      case False
      then have "run_state (worker_loop h q rs) (tick w) = ((q', stopped), w')"
        using Cons.prems Poll by (simp add: run_receive)
      from Cons.IH [OF this] show ?thesis by simp
    qed
  qed (use Cons.prems in simp)
qed simp

text \<open>A worker leaves every message in the queue or landed, and what had landed stays.\<close>

lemma worker_lands:
  assumes "pairwise_apart apart U" and "\<forall>x \<in> U. accepted (snd x)"
    and "set q \<subseteq> U" and "distinct (map fst q)" and "ready H w" and "w_step w' < H"
    and "run_state (worker_loop h q rs) w = ((q', stopped), w')"
  shows "set q' \<subseteq> set q \<and>
    (\<forall>x \<in> U - set q'. x \<in> set q \<or> landed (snd x) (w_db w) \<longrightarrow> landed (snd x) (w_db w'))"
  using assms(3-7)
proof (induction rs arbitrary: q w)
  case (Cons r rs)
  show ?case
  proof (cases r)
    case Cancelled
    then show ?thesis using Cons.prems(5) by auto
  next
    case (Poll vis)
    have tick: "ready H (tick w)" using ready_step Cons.prems(3) .
    show ?thesis
    proof (cases "fault_of w = NoFault")
      case False
      then have "run_state (worker_loop h q rs) (tick w) = ((q', stopped), w')"
        using Cons.prems(5) Poll by (simp add: run_receive)
      from Cons.IH [OF Cons.prems(1,2) tick Cons.prems(4) this] show ?thesis by simp
    next
      case True
      let ?b = "take 10 (visible vis q)"
      obtain left w1 where batch: "run_state (handle_batch (\<lambda>m. h (snd m)) ?b) (tick w) = (left, w1)" by fastforce
      define q1 where "q1 = still_queued ?b left q"
      have rest: "run_state (worker_loop h q1 rs) w1 = ((q', stopped), w')"
        using Cons.prems(5) Poll True batch by (simp add: run_receive q1_def)
      have b: "set ?b \<subseteq> set q" "distinct ?b"
        using visible_props [OF Cons.prems(2), of vis] set_take_subset [of 10 "visible vis q"] by auto
      have bU: "set ?b \<subseteq> U" using b(1) Cons.prems(1) by blast
      have step: "w_step w1 < H" using worker_forward [OF rest] Cons.prems(4) by simp
      note B = batch_lands [OF assms(1,2) bU b(2) tick step batch]
      have q1: "set q1 \<subseteq> set q" "distinct (map fst q1)"
        unfolding q1_def by (rule still_queued_subset, rule still_queued_distinct [OF Cons.prems(2)])
      have sub: "set q1 \<subseteq> U" using q1(1) Cons.prems(1) by blast
      note IH = Cons.IH [OF sub q1(2) conjunct1 [OF B] Cons.prems(4) rest]
      have "landed (snd x) (w_db w')" if "x \<in> U - set q'" "x \<in> set q \<or> landed (snd x) (w_db w)" for x
      proof (cases "x \<in> set q1")
        case False
        then have "landed (snd x) (w_db w1)"
          using that B b(1) by (cases "x \<in> set ?b") (auto simp: q1_def still_queued_def)
        then show ?thesis using IH that(1) by blast
      qed (use IH that in blast)
      moreover have "set q' \<subseteq> set q" using IH q1(1) by blast
      ultimately show ?thesis by blast
    qed
  qed
qed auto

end

text \<open>A handler whose deliveries go through when nothing fails: its worker drains the queue.\<close>

locale draining_handler = message_handler +
  assumes goes: "always_up w \<Longrightarrow> ready H w \<Longrightarrow> accepted m \<Longrightarrow> run_state (handle_one h m) w = (gone, w') \<Longrightarrow>
      w_step w' < H \<Longrightarrow> gone"
begin

lemma batch_drains:
  assumes "\<forall>m \<in> set ms. accepted (snd m)" and "ready H w" and "always_up w" and "w_step w' < H"
    and "run_state (handle_batch (\<lambda>m. h (snd m)) ms) w = (left, w')"
  shows "left = [] \<and> ready H w'"
  using assms
proof (induction ms arbitrary: w left)
  case (Cons m ms)
  obtain gone w1 where one: "run_state (handle_one (\<lambda>m. h (snd m)) m) w = (gone, w1)" by fastforce
  obtain rest where two: "run_state (handle_batch (\<lambda>m. h (snd m)) ms) w1 = (rest, w')"
    and left: "left = (if gone then rest else m # rest)"
    using Cons.prems(5) one by (auto split: prod.splits)
  have one': "run_state (handle_one h (snd m)) w = (gone, w1)" using one by (simp add: handle_one_def)
  have "always_up w1" using one_forward(2) [OF one'] Cons.prems(3) by (simp add: always_up_def)
  moreover have "w_step w1 < H" using batch_forward [OF two] Cons.prems(4) by simp
  then have gone using goes [OF Cons.prems(3,2) _ one'] Cons.prems(1) by simp
  ultimately show ?case
    using Cons.IH [OF _ one_ready [OF one' Cons.prems(2)] _ Cons.prems(4) two] Cons.prems(1) left by simp
qed simp

lemma worker_drains:
  assumes "\<forall>x \<in> set q. accepted (snd x)" and "distinct (map fst q)" and "ready H w" and "w_step w' < H"
    and "run_state (worker_loop h q rs) w = ((q', stopped), w')"
    and "always_up w" and "\<forall>r \<in> set rs. shows_all q r" and "length q \<le> 10 * length rs"
  shows "q' = []"
  using assms
proof (induction rs arbitrary: q w)
  case (Cons r rs)
  obtain vis where Poll: "r = Poll vis" "fst ` set q \<subseteq> set vis"
    using Cons.prems(7) by (cases r) (auto simp: shows_all_def)
  have up: "fault_of w = NoFault" "always_up (tick w)" using Cons.prems(6) by (simp_all add: always_up_def fault_of_def)
  let ?b = "take 10 (visible vis q)"
  obtain left w1 where batch: "run_state (handle_batch (\<lambda>m. h (snd m)) ?b) (tick w) = (left, w1)" by fastforce
  let ?q1 = "still_queued ?b left q"
  have rest: "run_state (worker_loop h ?q1 rs) w1 = ((q', stopped), w')"
    using Cons.prems(5) Poll up batch by (simp add: run_receive)
  have sub: "set ?b \<subseteq> set q"
    using visible_props(2) [OF Cons.prems(2), of vis] set_take_subset [of 10 "visible vis q"] by auto
  have "w_step w1 < H" using worker_forward [OF rest] Cons.prems(4) by simp
  from batch_drains [OF _ ready_step [OF Cons.prems(3)] up(2) this batch] sub Cons.prems(1)
  have B: "left = []" "ready H w1" by auto
  have up1: "always_up w1" using batch_forward [OF batch] up(2) by (simp add: always_up_def)
  have "length ?q1 \<le> 10 * length rs"
    unfolding B(1) using length_still_queued [OF Cons.prems(2) Poll(2)] Cons.prems(8) by simp
  moreover have "\<forall>s \<in> set rs. shows_all ?q1 s"
    using Cons.prems(7) by (auto intro: shows_all_subset [OF _ still_queued_subset])
  moreover have "\<forall>x \<in> set ?q1. accepted (snd x)" using Cons.prems(1) still_queued_subset by blast
  ultimately show ?case
    using Cons.IH [OF _ still_queued_distinct [OF Cons.prems(2)] B(2) Cons.prems(4) rest up1] by blast
qed simp

end

section \<open>The event consumer\<close>

type_synonym event_body = "enriched_msg option \<times> event_msg option"

text \<open>Each event has one message.\<close>

definition one_message_each :: "('i \<times> event_body) set \<Rightarrow> bool" where
  "one_message_each U =
     (\<forall>x \<in> U. \<forall>y \<in> U. \<forall>em em'. x \<noteq> y \<longrightarrow> delivers (snd x) em \<longrightarrow> delivers (snd y) em' \<longrightarrow> other_event (fst em) em')"

definition sources_known :: "source_row list \<Rightarrow> ('i \<times> event_body) set \<Rightarrow> bool" where
  "sources_known S U =
     (\<forall>x \<in> U. \<forall>em. delivers (snd x) em \<longrightarrow> has_row (\<lambda>s. es_name s = em_source (fst em)) S)"

definition event_accepted :: "source_row list \<Rightarrow> city_row list \<Rightarrow> uuid \<Rightarrow> event_body \<Rightarrow> bool" where
  "event_accepted S C city body =
     (has_row (\<lambda>c. c_id c = city) C \<and> (\<forall>em. delivers body em \<longrightarrow> has_row (\<lambda>s. es_name s = em_source (fst em)) S))"

definition event_landed :: "text_env \<Rightarrow> uuid \<Rightarrow> event_body \<Rightarrow> db \<Rightarrow> bool" where
  "event_landed T city body d = (\<forall>em. delivers body em \<longrightarrow> in_catalogue T city em d)"

definition event_apart :: "event_body \<Rightarrow> event_body \<Rightarrow> bool" where
  "event_apart x y = (\<forall>em em'. delivers x em \<longrightarrow> delivers y em' \<longrightarrow> other_event (fst em) em')"

lemma events_accepted:
  assumes "sources_known S U" and "has_row (\<lambda>c. c_id c = city) C"
  shows "\<forall>x \<in> U. event_accepted S C city (snd x)"
  using assms unfolding sources_known_def event_accepted_def by blast

lemma one_message_apart: "one_message_each U \<Longrightarrow> pairwise_apart event_apart U"
  unfolding one_message_each_def pairwise_apart_def event_apart_def by blast

lemma event_undisturbed:
  assumes "event_apart body body'" and "event_landed T city body (w_db w)"
    and "run_state (handle_event T' city' body') w = (r, w')"
  shows "event_landed T city body (w_db w')"
  unfolding event_landed_def
proof (intro allI impI)
  fix em assume em: "delivers body em"
  have "other_event (fst em') em" if "delivers body' em'" for em'
    using assms(1) [unfolded event_apart_def, rule_format, OF em that] by (simp add: other_event_def)
  then have "keeps (\<lambda>w. in_catalogue T city em (w_db w)) (handle_event T' city' body')"
    by (rule in_catalogue_handle_event)
  moreover have "in_catalogue T city em (w_db w)" using assms(2) [unfolded event_landed_def, rule_format, OF em] .
  ultimately show "in_catalogue T city em (w_db w')" using keepsD assms(3) by (metis snd_conv)
qed

interpretation event_queue: draining_handler "handle_event T city" "\<lambda>H. catalogue_ready H S C"
  "event_accepted S C city" "event_landed T city" event_apart
proof (unfold_locales, goal_cases)
  case (1 m w r w')
  then show ?case using local_idsD(1,2) [OF ids_handle_event] by blast
next
  case (2 H m)
  show ?case by (rule ready_handle_event)
next
  case (3 H w)
  then show ?case by (rule ready_tick) (simp_all add: tick_def grows_refl)
next
  case (4 H w m w')
  then show ?case using delivery_in_run(1) [OF 4(1,3,4)]
    unfolding event_landed_def event_accepted_def by (blast intro: ingested_in_catalogue)
next
  case (5 m m' w r w')
  then show ?case by (rule event_undisturbed)
next
  case (6 w H m gone w')
  then show ?case using delivery_in_run(2) [OF 6(2,4,5)] unfolding event_accepted_def by blast
qed


section \<open>The property\<close>

text \<open>
  C24. No event message is lost. A worker that drains a queue of messages of different events,
  whatever the receives answer and whichever calls fail or lose their answer, leaves every
  message either in the queue or in the catalogue, with its event stored as the message has it,
  at its venue; and when nothing fails and every round shows the messages that are left, a tenth
  as many rounds as messages empty the queue. The ids are distinct up to a horizon the run ends
  before.
\<close>

theorem no_event_lost:
  assumes "one_message_each (set q)" and "sources_known S (set q)" and "has_row (\<lambda>c. c_id c = city) C"
    and "distinct (map fst q)" and "catalogue_ready H S C w" and "w_step w' < H"
    and "run_state (worker_loop (handle_event T city) q rounds) w = ((q', stopped), w')"
  shows "set q' \<subseteq> set q \<and>
    (\<forall>(i, body) \<in> set q. (i, body) \<notin> set q' \<longrightarrow> (\<forall>em. delivers body em \<longrightarrow> in_catalogue T city em (w_db w'))) \<and>
    (always_up w \<and> (\<forall>r \<in> set rounds. shows_all q r) \<and> length q \<le> 10 * length rounds \<longrightarrow> q' = [])"
proof -
  note ok = events_accepted [OF assms(2,3)]
  note run = event_queue.worker_lands [OF one_message_apart [OF assms(1)] ok order_refl assms(4-7)]
    event_queue.worker_drains [OF ok assms(4-7)]
  show ?thesis using run by (auto simp: event_landed_def)
qed

definition queue_world :: "unit world" where
  "queue_world = init_world demo_outside ingest_db ()"

definition demo_queue :: "(enriched_msg option \<times> event_msg option) messages" where
  "demo_queue = [(1, (Some (ingest_msg, None), None)), (2, (None, None))]"

lemma queue_world_ready:
  "catalogue_ready 1000 (sources ingest_db) (cities ingest_db) queue_world" "always_up queue_world"
  "one_message_each (set demo_queue)" "sources_known (sources ingest_db) (set demo_queue)"
  "distinct (map fst demo_queue)" "shows_all demo_queue (Poll [2, 1])"
  using demo_ids
  by (auto simp: catalogue_ready_def queue_world_def init_world_def ids_in_def ingest_db_def empty_db_def keyed_def
      distinct_ids_def lessThan_atLeast0 always_up_def demo_outside_def one_message_each_def sources_known_def
      demo_queue_def delivers_def ingest_msg_def shows_all_def)

lemma queue_world_run:
  "w_step (snd (run_state (worker_loop (handle_event plain_env 1) demo_queue [Poll [2, 1]]) queue_world)) < 1000"
  by (simp add: demo_queue_def run_receive visible_def map_filter_simps
      handle_one_def handle_event_def handle_message_def then_step_def step_db_def step_new_def run_query_def
      fault_of_def now_of_def fresh_of_def queue_world_def init_world_def ingest_msg_def ingest_msg_names
      apply_enrichment_def get_event_source_by_name_def one_row_def ingest_db_def empty_db_def upsert_venue_def
      upsert_returning_def upsert_event_def new_event_def event_key_def delete_event_performers_def
      performer_step_def insert_event_performer_def event_exists_def delete_event_genres_def genre_step_def
      genre_exists_def insert_event_genre_def queue_delete_def str_opt_def delete_rows_def tick_def Let_def
      demo_outside_def)

theorem no_event_lost_witness:
  "\<exists>q' stopped w'. run_state (worker_loop (handle_event plain_env 1) demo_queue [Poll [2, 1]]) queue_world = ((q', stopped), w') \<and>
     q' = [] \<and> in_catalogue plain_env 1 (ingest_msg, None) (w_db w')"
proof -
  obtain q' stopped w' where
    run: "run_state (worker_loop (handle_event plain_env 1) demo_queue [Poll [2, 1]]) queue_world = ((q', stopped), w')"
    by (metis prod.exhaust)
  have "w_step w' < 1000" using queue_world_run unfolding run snd_conv .
  from no_event_lost [OF queue_world_ready(3,4) _ queue_world_ready(5,1) this run] queue_world_ready(2,6)
  show ?thesis using run by (auto simp: ingest_db_def demo_queue_def delivers_def)
qed

end
