(* ===== verification/InterestQueue.thy ===== *)
theory InterestQueue
  imports ConsumerProps
begin

text \<open>
  The second queue: the interest consumer meets the contract of a message handler, so its worker
  loop loses no message either. What a message asked for has landed when the interests of its
  user are the ones it lists; the messages of other users leave them alone, also when they fail
  half way.
\<close>

section \<open>What a delivery does to the interests\<close>

lemma keeps_clock:
  "keeps (\<lambda>w. w_env w = X \<and> n \<le> w_step w) (db_call q)"
  "keeps (\<lambda>w. w_env w = X \<and> n \<le> w_step w) (db_insert f)"
  "keeps (\<lambda>w. w_env w = X \<and> n \<le> w_step w) time_now"
  "keeps (\<lambda>w. w_env w = X \<and> n \<le> w_step w) (embed E ts)"
  by (auto simp: keeps_def run_query_def time_now_def embed_def split: fault.splits sum.splits option.splits prod.splits)

lemma keeps_clock_steps:
  "keeps (\<lambda>w. w_env w = X \<and> n \<le> w_step w) (step_db q)"
  "keeps (\<lambda>w. w_env w = X \<and> n \<le> w_step w) (step_new f)"
  unfolding step_db_def step_new_def by (intro keeps_rules keeps_clock)+

lemma keeps_clock_pair: "keeps (\<lambda>w. w_env w = X \<and> n \<le> w_step w) (match_pair cfg t u e)"
  unfolding match_pair_def Let_def by (intro keeps_rules keeps_clock_steps)

lemma interest_forward:
  assumes "run_state (handle_interest P T E body) w = (r, w')"
  shows "w_step w \<le> w_step w' \<and> w_env w' = w_env w"
proof -
  have "keeps (\<lambda>w'. w_env w' = w_env w \<and> w_step w \<le> w_step w') (handle_interest P T E body)"
    unfolding handle_interest_def replace_interests_def replace_kind_def embed_and_match_def embed_users_def
      rescore_user_def load_config_def match_step_def load_users_def load_events_def Let_def
    by (intro keeps_rules keeps_clock keeps_clock_steps keeps_clock_pair)
  from keepsD [OF this, of w] assms show ?thesis by simp
qed

lemma keeps_recomputed:
  assumes "\<And>d d'. J d \<Longrightarrow> interests d' = interests d \<Longrightarrow> J d'"
  shows "keeps (\<lambda>w. J (w_db w)) (embed_and_match T E u)"
  unfolding keeps_def using keepsD [OF keeps_embed_and_match] assms by blast

lemma keeps_handle_interest:
  assumes recompute: "\<And>d d'. J d \<Longrightarrow> interests d' = interests d \<Longrightarrow> J d'"
    and delete: "\<And>u k. P (it_user_id m) = Some u \<Longrightarrow> query_keeps J (delete_interests_of_kind k u)"
    and insert: "\<And>u k v n x i. P (it_user_id m) = Some u \<Longrightarrow> query_keeps J (insert_spotify_interest u k v n x i)"
  shows "keeps (\<lambda>w. J (w_db w)) (handle_interest P T E (Some m))"
  unfolding handle_interest_def option.case replace_interests_def replace_kind_def step_new_def
  by (intro keeps_rules keeps_recomputed [OF recompute] keeps_step_db keeps_db_insert delete insert)

lemma insert_spotify_interest_rows:
  assumes "insert_spotify_interest u k v n x i t d = Inr ((), d')"
  obtains new merge where "interests d' = upsert_row interest_key new merge (interests d)"
    "ui_user_id new = u" "\<And>r. interest_key (merge r) = interest_key r" "interest_key new = (u, k, n)"
  using assms that unfolding insert_spotify_interest_def
  by (auto simp: interest_key_def dest!: upsert_returning_row split: if_splits option.splits)

definition keyed_interests :: "nat \<Rightarrow> 'l world \<Rightarrow> bool" where
  "keyed_interests H w = keyed interest_key (interests (w_db w))"

lemma interest_keys_kept: "keeps (keyed_interests H) (handle_interest P T E body)"
proof (cases body)
  case (Some m)
  have "query_keeps (\<lambda>d. keyed interest_key (interests d)) (insert_spotify_interest u k v n x i)" for u k v n x i
    by (rule query_keepsI) (auto elim!: insert_spotify_interest_rows intro!: keyed_upsert_row)
  moreover have "query_keeps (\<lambda>d. keyed interest_key (interests d)) (delete_interests_of_kind k u)" for k u
    by (rule query_keepsI) (auto simp: delete_interests_of_kind_def intro: keyed_delete_rows)
  ultimately show ?thesis unfolding keyed_interests_def Some by (intro keeps_handle_interest) auto
qed (simp add: handle_interest_def keeps_rules)

definition interests_of :: "uuid \<Rightarrow> db \<Rightarrow> interest_row list" where
  "interests_of v d = filter (\<lambda>r. ui_user_id r = v) (interests d)"

lemma interests_of_others:
  assumes "P (it_user_id m) \<noteq> Some v"
  shows "keeps (\<lambda>w. interests_of v (w_db w) = X) (handle_interest P T E (Some m))"
proof (rule keeps_handle_interest)
  fix u assume u: "P (it_user_id m) = Some u"
  show "query_keeps (\<lambda>d. interests_of v d = X) (delete_interests_of_kind k u)" for k
    using assms u by (intro query_keepsI)
      (auto simp: delete_interests_of_kind_def interests_of_def delete_rows_def intro: filter_cong)
  show "query_keeps (\<lambda>d. interests_of v d = X) (insert_spotify_interest u k vl n x i)" for k vl n x i
  proof (rule query_keepsI)
    fix t d a d' assume X: "interests_of v d = X" and q: "insert_spotify_interest u k vl n x i t d = Inr (a, d')"
    obtain new merge where up: "interests d' = upsert_row interest_key new merge (interests d)"
      "ui_user_id new = u" "\<And>r. interest_key (merge r) = interest_key r" "interest_key new = (u, k, n)"
      using q by (auto elim: insert_spotify_interest_rows)
    have "filter (\<lambda>r. ui_user_id r = v) (interests d') = filter (\<lambda>r. ui_user_id r = v) (interests d)"
      unfolding up(1)
      by (rule filter_upsert_row) (use up assms u in \<open>auto simp: interest_key_def\<close>)
    then show "interests_of v d' = X" using X by (simp add: interests_of_def)
  qed
qed (simp add: interests_of_def)

lemma stored_interest_of:
  assumes "interests_of v d' = interests_of v d"
  shows "stored_interest d' v = stored_interest d v"
proof -
  have "find (\<lambda>r. interest_key r = (v, k, n)) rs = find (\<lambda>r. interest_key r = (v, k, n)) (filter (\<lambda>r. ui_user_id r = v) rs)"
    for k n rs
    by (induction rs) (auto simp: interest_key_def)
  from this [of _ _ "interests d'"] this [of _ _ "interests d"] show ?thesis
    using assms by (simp add: stored_interest_def interests_of_def fun_eq_iff)
qed

section \<open>The interest consumer\<close>

definition interest_landed :: "(string \<Rightarrow> uuid option) \<Rightarrow> text_env \<Rightarrow> interest_msg option \<Rightarrow> db \<Rightarrow> bool" where
  "interest_landed P T body d =
     (\<forall>m u. body = Some m \<longrightarrow> P (it_user_id m) = Some u \<longrightarrow> it_op m \<noteq> ''only_embed'' \<longrightarrow>
        stored_interest d u ''spotify_top_artist'' = wanted_interest T rank_weight (it_artists m) \<and>
        stored_interest d u ''spotify_top_track_artist'' = wanted_interest T rank_weight (it_track_artists m) \<and>
        stored_interest d u ''spotify_saved_song_artist'' = wanted_interest T rank_weight (it_saved_artists m) \<and>
        stored_interest d u ''spotify_top_genre'' = wanted_interest T rank_genre_weight (it_genres m))"

definition interest_apart :: "(string \<Rightarrow> uuid option) \<Rightarrow> interest_msg option \<Rightarrow> interest_msg option \<Rightarrow> bool" where
  "interest_apart P x y =
     (\<forall>m m' u. x = Some m \<longrightarrow> y = Some m' \<longrightarrow> P (it_user_id m) = Some u \<longrightarrow> P (it_user_id m') \<noteq> Some u)"

lemma interest_undisturbed:
  assumes apart: "interest_apart P body body'" and landed: "interest_landed P T body (w_db w)"
    and run: "run_state (handle_interest P T' E body') w = (r, w')"
  shows "interest_landed P T body (w_db w')"
  unfolding interest_landed_def
proof (intro allI impI)
  fix m u assume m: "body = Some m" "P (it_user_id m) = Some u" "it_op m \<noteq> ''only_embed''"
  have "interests_of u (w_db w') = interests_of u (w_db w)"
  proof (cases body')
    case None
    then show ?thesis using run by (simp add: handle_interest_def)
  next
    case (Some m')
    then have "P (it_user_id m') \<noteq> Some u" using apart m(1,2) by (simp add: interest_apart_def)
    then have "keeps (\<lambda>w'. interests_of u (w_db w') = interests_of u (w_db w)) (handle_interest P T' E (Some m'))"
      by (rule interests_of_others)
    from keepsD [OF this, of w] run Some show ?thesis by simp
  qed
  then have "stored_interest (w_db w') u = stored_interest (w_db w) u" by (rule stored_interest_of)
  then show "stored_interest (w_db w') u ''spotify_top_artist'' = wanted_interest T rank_weight (it_artists m) \<and>
        stored_interest (w_db w') u ''spotify_top_track_artist'' = wanted_interest T rank_weight (it_track_artists m) \<and>
        stored_interest (w_db w') u ''spotify_saved_song_artist'' = wanted_interest T rank_weight (it_saved_artists m) \<and>
        stored_interest (w_db w') u ''spotify_top_genre'' = wanted_interest T rank_genre_weight (it_genres m)"
    using landed [unfolded interest_landed_def, rule_format, OF m] by simp
qed

interpretation interest_queue: message_handler "handle_interest P T E" keyed_interests "\<lambda>_. True"
  "interest_landed P T" "interest_apart P"
proof (unfold_locales, goal_cases)
  case (1 m w r w')
  then show ?case by (rule interest_forward)
next
  case (2 H m)
  show ?case by (rule interest_keys_kept)
next
  case (3 H w)
  then show ?case by (simp add: keyed_interests_def tick_def)
next
  case (4 H w body w')
  show ?case
    unfolding interest_landed_def
  proof (intro allI impI)
    fix m u assume m: "body = Some m" "P (it_user_id m) = Some u" "it_op m \<noteq> ''only_embed''"
    from 4(3) have "run_state (handle_one (handle_interest P T E) (Some m)) w = (True, w')" by (simp add: m(1))
    from interest_message_stored [OF _ m(2) this] 4(1) m(3)
    show "stored_interest (w_db w') u ''spotify_top_artist'' = wanted_interest T rank_weight (it_artists m) \<and>
        stored_interest (w_db w') u ''spotify_top_track_artist'' = wanted_interest T rank_weight (it_track_artists m) \<and>
        stored_interest (w_db w') u ''spotify_saved_song_artist'' = wanted_interest T rank_weight (it_saved_artists m) \<and>
        stored_interest (w_db w') u ''spotify_top_genre'' = wanted_interest T rank_genre_weight (it_genres m)"
      by (simp add: keyed_interests_def)
  qed
next
  case (5 m m' w r w')
  then show ?case by (rule interest_undisturbed)
qed

text \<open>
  No interest message is lost either: a worker on a queue of messages of different users
  leaves each of them in the queue or the interests of its user as it lists them, whatever the
  receives answer and whichever calls fail.
\<close>

lemma no_interest_lost:
  assumes "\<forall>x \<in> set q. \<forall>y \<in> set q. x \<noteq> y \<longrightarrow> interest_apart P (snd x) (snd y)" and "distinct (map fst q)"
    and "keyed interest_key (interests (w_db w))"
    and "run_state (worker_loop (handle_interest P T E) q rounds) w = ((q', stopped), w')"
  shows "set q' \<subseteq> set q \<and> (\<forall>(i, body) \<in> set q. (i, body) \<notin> set q' \<longrightarrow> interest_landed P T body (w_db w'))"
proof -
  have "pairwise_apart (interest_apart P) (set q)" using assms(1) by (simp add: pairwise_apart_def)
  moreover have "keyed_interests (Suc (w_step w')) w" using assms(3) by (simp add: keyed_interests_def)
  ultimately have "set q' \<subseteq> set q \<and> (\<forall>x \<in> set q - set q'. interest_landed P T (snd x) (w_db w'))"
    using interest_queue.worker_lands [where H = "Suc (w_step w')", OF _ _ order_refl assms(2) _ _ assms(4)] by simp
  then show ?thesis by force
qed

end
