(* ===== verification/StoreReads.thy ===== *)
theory StoreReads
  imports ConsumerProps
begin

text \<open>
  Reads of the generated store that no handler calls: an event by its id or by the key of its
  source, the genres and performers of one event and the interests of one kind in the order of their
  query. They show what an ingested message left.
\<close>

definition get_event_by_id :: "uuid \<Rightarrow> event_row query" where
  "get_event_by_id i now d = one_row (\<lambda>e. e_id e = i) (events d) d"

definition get_event_by_source_key :: "uuid \<Rightarrow> string \<Rightarrow> event_row query" where
  "get_event_by_source_key src i now d =
     one_row (\<lambda>e. e_source_id e = src \<and> e_source_event_id e = i) (events d) d"

text \<open>The order of names is the database's collation.\<close>

definition list_event_genres_by_event :: "(string \<Rightarrow> nat list) \<Rightarrow> uuid \<Rightarrow> string list query" where
  "list_event_genres_by_event collate i now d =
     Inr (sort_key collate (map snd (filter (\<lambda>g. fst g = i) (event_genres d))), d)"

definition list_event_performers_by_event :: "(string \<Rightarrow> nat list) \<Rightarrow> uuid \<Rightarrow> (string \<times> string) list query" where
  "list_event_performers_by_event collate i now d =
     Inr (sort_key (\<lambda>p. collate (fst p))
            (map (\<lambda>p. (ep_name p, ep_normalized p)) (filter (\<lambda>p. ep_event_id p = i) (performers d))), d)"

text \<open>The interests of one kind, strongest first: id, kind, value, normalized value and weight.\<close>

definition list_interests_by_user_and_kind ::
    "(string \<Rightarrow> nat list) \<Rightarrow> uuid \<Rightarrow> string \<Rightarrow> (uuid \<times> string \<times> string \<times> string \<times> real) list query" where
  "list_interests_by_user_and_kind collate u k now d =
     Inr (map (\<lambda>r. (ui_id r, ui_kind r, ui_value r, ui_normalized r, ui_weight r))
            (sort_key (\<lambda>r. (- ui_weight r, collate (ui_normalized r)))
               (filter (\<lambda>r. ui_user_id r = u \<and> ui_kind r = k) (interests d))), d)"

text \<open>What a name is stored with is what the read lists under it.\<close>

lemma stored_interest_listed:
  assumes "stored_interest d u k n = Some (v, x)"
    and "list_interests_by_user_and_kind collate u k now d = Inr (rs, d')"
  shows "\<exists>i. (i, k, v, n, x) \<in> set rs"
  using assms find_in_set unfolding stored_interest_def list_interests_by_user_and_kind_def
  by (fastforce simp: interest_key_def)

text \<open>An ingested message can be read back by its key, with its performers and genres.\<close>

lemma ingested_read_back:
  assumes "ingested T city em d0 d"
  shows "\<exists>src v artist e. get_event_by_source_key src (em_source_event_id (fst em)) now d = Inr (e, d) \<and>
    event_stored (fst em) src v artist e \<and>
    (\<forall>names d'. list_event_performers_by_event collate (e_id e) now d = Inr (names, d') \<longrightarrow>
       set names = (\<lambda>p. (p, normalize_string T p)) ` set (dedup_by (normalize_string T) [] (filter (\<lambda>p. p \<noteq> []) (em_performers (fst em))))) \<and>
    (\<forall>slugs d'. list_event_genres_by_event collate (e_id e) now d = Inr (slugs, d') \<longrightarrow>
       set slugs = set (filter (\<lambda>s. s \<in> set (genres d)) (map (genre_slug T) (em_genres (fst em)))))"
proof -
  obtain src :: source_row and v artist e A I B U V Ev Pf G where
    d: "d = catalogue d0 A I B U V Ev Pf G"
    and f: "find (\<lambda>r. event_key r = (es_id src, em_source_event_id (fst em))) Ev = Some e"
    and e: "event_stored (fst em) (es_id src) v artist e"
    and Pf: "Pf = filter (\<lambda>p. ep_event_id p \<noteq> e_id e) (performers d0) @ performer_rows T (e_id e) (em_performers (fst em))"
    and G: "G = filter (\<lambda>g. fst g \<noteq> e_id e) (event_genres d0) @ genre_rows T (genres d0) (e_id e) (em_genres (fst em))"
    using assms unfolding ingested_def by (elim exE conjE) (rule that; assumption)
  have "get_event_by_source_key (es_id src) (em_source_event_id (fst em)) now d = Inr (e, d)"
    using f by (simp add: get_event_by_source_key_def one_row_def d event_key_def)
  moreover have "filter (\<lambda>p. ep_event_id p = e_id e) (performers d) = performer_rows T (e_id e) (em_performers (fst em))"
    "filter (\<lambda>g. fst g = e_id e) (event_genres d) = genre_rows T (genres d0) (e_id e) (em_genres (fst em))"
    by (simp_all add: d Pf G performer_rows_def genre_rows_def filter_empty_conv filter_id_conv)
  moreover have "genres d = genres d0" by (simp add: d)
  moreover have "set (dedup_by (\<lambda>s. s) [] xs) = set xs" for xs :: "string list"
    using dedup_by_keys [of "\<lambda>s. s" "[]" xs] by simp
  ultimately show ?thesis using e
    by (intro exI [of _ "es_id src"] exI [of _ v] exI [of _ artist] exI [of _ e])
      (simp add: list_event_performers_by_event_def list_event_genres_by_event_def performer_rows_def genre_rows_def
        image_image)
qed

end
