(* ===== verification/MatchedCalendar.thy ===== *)
theory MatchedCalendar
  imports MatcherProps CalendarProps
begin

text \<open>
  The match job and the calendar together: what a user is shown after a run is decided by the
  scores of the run and by nothing else. The tables the run leaves are again fit for the
  calendar's queries, and the feed is read off the matches.
\<close>

section \<open>The tables a run leaves\<close>

lemma finite_total:
  assumes "finite_weights p" and "sane_config cfg"
  shows "is_finite (ms_total (score p e cfg))"
proof -
  obtain s m where "ms_string (score p e cfg) = Fin s" "ms_embedding (score p e cfg) = Fin m"
    using score_string [OF assms] score_embedding by blast
  then show ?thesis using assms(2) by (auto simp: score_def Let_def sane_config_def)
qed

lemma store_pairs_finite:
  assumes "sane_config cfg" and "\<forall>q \<in> set ps. finite_weights (fst q)" and "\<forall>m \<in> set ms. is_finite (m_score m)"
  shows "\<forall>m \<in> set (store_pairs cfg t ps ms). is_finite (m_score m)"
  using assms(2,3)
proof (induction ps arbitrary: ms)
  case (Cons q ps)
  obtain p e where q: "q = (p, e)" by fastforce
  have s: "is_finite (m_score (stored_row cfg t p e))"
    using finite_total [OF _ assms(1), of p e] Cons.prems(1) by (simp add: q stored_row_def)
  have "\<forall>m \<in> set (upsert_row match_key (stored_row cfg t p e) (overwrite (stored_row cfg t p e)) ms). is_finite (m_score m)"
    using Cons.prems(2) s by (auto simp: upsert_row_def update_rows_def overwrite_def)
  then show ?case using Cons.IH Cons.prems by (simp add: q)
qed simp

lemma delete_rows_subset: "set (delete_rows P t) \<subseteq> set t"
  by (auto simp: delete_rows_def)

lemma feed_ok_after:
  assumes "sane_config cfg" and "feed_ok d"
  shows "feed_ok (d\<lparr>matches := table_after cfg only began run_at ended d\<rparr>)"
proof -
  let ?ps = "List.product (loaded_users only d) (loaded_events began d)"
  let ?ms = "table_after cfg only began run_at ended d"
  have "\<forall>m \<in> set (store_pairs cfg run_at ?ps (matches d)). is_finite (m_score m)"
    by (rule store_pairs_finite [OF assms(1)])
      (use assms(2) loaded_users_ok [of _ only d] in \<open>auto simp: feed_ok_def\<close>)
  moreover have "set ?ms \<subseteq> set (store_pairs cfg run_at ?ps (matches d))"
    unfolding table_after_def using delete_rows_subset by (meson order_trans)
  moreover have "keyed match_key ?ms"
    unfolding table_after_def using assms(2)
    by (intro keyed_delete_rows store_pairs_keyed) (simp add: feed_ok_def match_key_def [abs_def])
  ultimately show ?thesis using assms(2) by (auto simp: feed_ok_def match_key_def [abs_def] json_ok_def)
qed

section \<open>The profile of an event\<close>

definition profile_of :: "db \<Rightarrow> event_row \<Rightarrow> event_profile" where
  "profile_of d e = build_event (performers d) (event_genres d) (e_id e, e_embedding e)"

lemma find_map_eq: "find P (map f xs) = map_option f (find (\<lambda>x. P (f x)) xs)"
  by (induction xs) auto

lemma loaded_profiles: "loaded_events t d = map (profile_of d) (filter (showable t) (events d))"
proof -
  let ?es = "filter (showable t) (events d)"
  have "build_event (filter (\<lambda>p. ep_event_id p \<in> e_id ` set ?es) (performers d))
      (filter (\<lambda>g. fst g \<in> e_id ` set ?es) (event_genres d)) (e_id e, e_embedding e) = profile_of d e"
    if "e \<in> set ?es" for e
  proof -
    have "filter (\<lambda>p. ep_event_id p = e_id e) (filter (\<lambda>p. ep_event_id p \<in> e_id ` set ?es) (performers d)) =
        filter (\<lambda>p. ep_event_id p = e_id e) (performers d)"
      "filter (\<lambda>g. fst g = e_id e) (filter (\<lambda>g. fst g \<in> e_id ` set ?es) (event_genres d)) =
        filter (\<lambda>g. fst g = e_id e) (event_genres d)"
      unfolding filter_filter using that by (intro filter_cong refl; force)+
    then show ?thesis by (simp only: build_event_def profile_of_def prod.case)
  qed
  then show ?thesis unfolding loaded_events_def Let_def by (rule map_cong [OF refl])
qed

lemma find_filter_keyed:
  assumes "keyed k xs"
  shows "find (\<lambda>x. k x = i) (filter Q xs) =
    (case find (\<lambda>x. k x = i) xs of None \<Rightarrow> None | Some x \<Rightarrow> if Q x then Some x else None)"
  using assms
proof (induction xs)
  case (Cons x xs)
  have "find (\<lambda>y. k y = k x) (filter Q xs) = None" if "k x \<notin> k ` set xs"
    using that by (auto simp: find_None_iff) (metis imageI)
  with Cons show ?case by (auto simp: keyed_def split: option.splits)
qed simp

lemma find_loaded_event:
  assumes "keyed e_id (events d)"
  shows "find (\<lambda>p. ep_id p = i) (loaded_events t d) =
    (case find_event d i of None \<Rightarrow> None | Some e \<Rightarrow> if showable t e then Some (profile_of d e) else None)"
proof -
  have "ep_id (profile_of d e) = e_id e" for e by (simp add: profile_of_def build_event_def)
  then show ?thesis using find_filter_keyed [OF assms, of i "showable t"]
    by (auto simp: loaded_profiles find_map_eq find_event_def split: option.splits)
qed


section \<open>What the feed shows\<close>

text \<open>The foreign key of the events: every one has its venue.\<close>

definition venues_there :: "db \<Rightarrow> bool" where
  "venues_there d = (\<forall>e \<in> set (events d). find_venue d (e_venue_id e) \<noteq> None)"

lemma find_event_id: "find_event d i = Some e \<Longrightarrow> e_id e = i \<and> e \<in> set (events d)"
  unfolding find_event_def by (auto dest!: find_in_set)

lemma match_join_event:
  "(\<exists>r \<in> set (match_join u d). cal_event r = e) \<longleftrightarrow>
     (\<exists>m \<in> set (matches d). m_user_id m = u \<and> find_event d (m_event_id m) = Some e \<and> find_venue d (e_venue_id e) \<noteq> None)"
proof
  assume "\<exists>r \<in> set (match_join u d). cal_event r = e"
  then obtain r m where "cal_event r = e" "m \<in> set (matches d)" "match_row_join u d m = Some r"
    by (auto simp: match_join_def set_map_filter)
  then show "\<exists>m \<in> set (matches d). m_user_id m = u \<and> find_event d (m_event_id m) = Some e \<and> find_venue d (e_venue_id e) \<noteq> None"
    by (force simp: match_row_join_def split: option.split_asm if_split_asm)
next
  assume "\<exists>m \<in> set (matches d). m_user_id m = u \<and> find_event d (m_event_id m) = Some e \<and> find_venue d (e_venue_id e) \<noteq> None"
  then obtain m v where m: "m \<in> set (matches d)" "m_user_id m = u" "find_event d (m_event_id m) = Some e"
    "find_venue d (e_venue_id e) = Some v" by auto
  let ?r = "\<lparr>cal_event = e, cal_venue = v, cal_score = Some (m_score m), cal_breakdown = Some (m_breakdown m)\<rparr>"
  have "match_row_join u d m = Some ?r" using m by (simp add: match_row_join_def)
  then have "?r \<in> set (match_join u d)" using m(1) by (force simp: match_join_def map_filter_def)
  then show "\<exists>r \<in> set (match_join u d). cal_event r = e" by force
qed

lemma find_match_some: "find_match d u i \<noteq> None \<longleftrightarrow> (\<exists>m \<in> set (matches d). m_user_id m = u \<and> m_event_id m = i)"
  unfolding find_match_def by (auto simp: find_None_iff)

lemma in_user_feed:
  assumes "venues_there d"
  shows "uuid_string i \<in> row_id ` set (filter (\<lambda>r. start_after st (cal_key r)) (user_feed u seg now d)) \<longleftrightarrow>
    (\<exists>e. find_event d i = Some e \<and> find_match d u i \<noteq> None \<and> showable now e \<and> segment_passes seg e \<and>
         start_after st (e_starts_at e, i))" (is "?L \<longleftrightarrow> ?R")
proof
  assume ?L
  then obtain r where r: "r \<in> set (match_join u d)" "uuid_string i = row_id r" "showable now (cal_event r)"
    "segment_passes seg (cal_event r)" "start_after st (cal_key r)"
    by (auto simp: user_feed_def)
  then have i: "e_id (cal_event r) = i" by (metis row_id_def option.inject parse_uuid36_string)
  obtain m where m: "m \<in> set (matches d)" "m_user_id m = u" "find_event d (m_event_id m) = Some (cal_event r)"
    using r(1) match_join_event by blast
  then have "m_event_id m = i" using find_event_id [OF m(3)] i by simp
  then show ?R using m r i find_match_some by (auto simp: cal_key_def)
next
  assume ?R
  then obtain e where e: "find_event d i = Some e" "find_match d u i \<noteq> None" "showable now e" "segment_passes seg e"
    "start_after st (e_starts_at e, i)" by blast
  note id = find_event_id [OF e(1)]
  obtain m where "m \<in> set (matches d)" "m_user_id m = u" "m_event_id m = i" using e(2) find_match_some by blast
  moreover have "find_venue d (e_venue_id e) \<noteq> None" using assms id by (simp add: venues_there_def)
  ultimately obtain r where "r \<in> set (match_join u d)" "cal_event r = e" using match_join_event e(1) by metis
  then show ?L using e id by (auto simp: user_feed_def row_id_def cal_key_def intro!: image_eqI [of _ _ r])
qed

lemma feed_ids_distinct:
  assumes "feed_ok d"
  shows "distinct (map row_id (user_feed u seg now d))"
proof -
  have "inj uuid_string" by (metis injI option.inject parse_uuid36_string)
  then have "distinct (map row_id (match_join u d))"
    using assms match_join_distinct [of d u] by (simp add: feed_ok_def row_id_def [abs_def] distinct_map inj_on_def inj_def)
  then have "distinct (map row_id (filter Q (match_join u d)))" for Q by (rule distinct_map_filter)
  then show ?thesis unfolding user_feed_def by (simp add: distinct_map)
qed

section \<open>The calendar after a run\<close>

text \<open>The feed of a user after a run, read page by page.\<close>

lemma calendar_of_match:
  assumes "always_up w" and "sane_config cfg" and "tables_ok (w_db w)" and "feed_ok (w_db w)" and "venues_there (w_db w)"
    and "\<forall>m \<in> set (matches (w_db w)). \<forall>n \<ge> w_step w. m_computed_at m < clock (w_env w) n"
    and "run_state (match_step cfg only) w = (r, w')"
    and "find (\<lambda>p. up_id p = u) (loaded_users only (w_db w)) = Some p"
    and "w_db v = w_db w'" and "fault_of v = NoFault" and "\<forall>n < w_step w'. clock (w_env w) n \<le> now_of v"
    and "uuid_parse_ok P" and "parse_page_start P pp = Inr st" and "parse_segment (pp_segment pp) = Inr seg"
    and "0 < k" and "length (user_feed u seg (now_of v) (w_db v)) \<le> calendar_page_size * k"
  defines "shown \<equiv> listed (page_walk (get_my_calendar P (Some u)) pp (replicate k v))"
  shows "r = Inr () \<and> distinct shown \<and>
    (\<forall>i. uuid_string i \<in> set shown \<longleftrightarrow>
      (\<exists>e. find_event (w_db w) i = Some e \<and> showable (now_of v) e \<and> segment_passes seg e \<and>
           start_after st (e_starts_at e, i) \<and> passes cfg p (profile_of (w_db w) e)))"
proof -
  let ?d = "w_db w"
  obtain w1 a b c where run: "run_state (match_step cfg only) w = (Inr (), w1)"
    and st: "w_step w \<le> a" "a \<le> b" "b \<le> c" "c < w_step w1"
    and d1: "w_db w1 = ?d\<lparr>matches := table_after cfg only (clock (w_env w) a) (clock (w_env w) b) (clock (w_env w) c) ?d\<rparr>"
    using run_match_step [OF assms(1,2)] by blast
  then have w1: "w1 = w'" "r = Inr ()" using assms(7) by auto
  let ?d' = "w_db v"
  note d = d1 [unfolded w1 assms(9) [symmetric]]
  have ev: "find_event ?d' i = find_event ?d i" for i by (simp add: d find_event_def)
  have ok: "feed_ok ?d'" "venues_there ?d'"
    using feed_ok_after [OF assms(2,4)] assms(5) by (simp_all add: d venues_there_def find_venue_def)
  have clocks: "clock (w_env w) a \<le> now_of v" "clock (w_env w) c \<le> now_of v" using st assms(11) w1 by auto
  have older: "\<forall>m \<in> set (matches ?d). m_computed_at m < clock (w_env w) b" using assms(6) st by auto
  have m: "find_match ?d' u i \<noteq> None \<longleftrightarrow> passes cfg p (profile_of ?d e)"
    if e: "find_event ?d i = Some e" "showable (now_of v) e" for i e
  proof -
    have k: "keyed e_id (events ?d)" using assms(3) by (simp add: tables_ok_def)
    have "x = e" if "x \<in> set (events ?d)" "e_id x = i" for x
      using keyed_unique [OF k that(1)] find_event_id [OF e(1)] that(2) by simp
    then have "\<not> has_row (\<lambda>x. e_id x = i \<and> obsolete_event (clock (w_env w) c) x) (events ?d)"
      using e(2) clocks(2) by (auto simp: has_row_iff obsolete_event_def showable_def)
    moreover have "showable (clock (w_env w) a) e" using e(2) clocks(1) by (simp add: showable_def)
    ultimately show ?thesis
      using find_table_after [OF assms(3) older, of u i cfg only "clock (w_env w) a" "clock (w_env w) c"]
      by (simp add: find_match_key d wanted_match_def assms(8) find_loaded_event [OF k] e(1))
  qed
  have sh: "shown = map row_id (filter (\<lambda>r. start_after st (cal_key r)) (user_feed u seg (now_of v) ?d'))"
    unfolding shown_def
    using my_pages.paging_exact [where P = P and w = v and st = st and u = u and seg = seg and pp = pp and k = k]
      assms(12-14) assms(10) ok(1) assms(15,16) by (simp add: view_def)
  have "uuid_string i \<in> set shown \<longleftrightarrow> (\<exists>e. find_event ?d i = Some e \<and> showable (now_of v) e \<and> segment_passes seg e \<and>
      start_after st (e_starts_at e, i) \<and> passes cfg p (profile_of ?d e))" for i
    unfolding sh set_map in_user_feed [OF ok(2)] ev using m by blast
  moreover have "distinct shown"
    unfolding sh using feed_ids_distinct [OF ok(1)] by (simp add: distinct_map_filter)
  ultimately show ?thesis using w1(2) by blast
qed

text \<open>
  C14. The calendar after a match run. When the match step has met no failure, the pages of the
  calendar of a user it processed list an event just when the event is in the catalogue, still
  to come (not archived, not over), of the asked segment, past the start of the walk, and its
  score against the user's interests passes the user's threshold; each is listed once. What the
  matches table held before plays no part.
\<close>

theorem calendar_after_match:
  assumes "always_up w" and "sane_config cfg" and "tables_ok (w_db w)" and "feed_ok (w_db w)" and "venues_there (w_db w)"
    and "\<forall>m \<in> set (matches (w_db w)). \<forall>n \<ge> w_step w. m_computed_at m < clock (w_env w) n"
    and "run_state (match_step cfg only) w = (r, w')"
    and "find (\<lambda>p. up_id p = u) (loaded_users only (w_db w)) = Some p"
    and "w_db v = w_db w'" and "fault_of v = NoFault" and "\<forall>n < w_step w'. clock (w_env w) n \<le> now_of v"
    and "uuid_parse_ok P" and "parse_page_start P pp = Inr st" and "parse_segment (pp_segment pp) = Inr seg"
    and "0 < k" and "length (user_feed u seg (now_of v) (w_db v)) \<le> calendar_page_size * k"
  defines "shown \<equiv> listed (page_walk (get_my_calendar P (Some u)) pp (replicate k v))"
  shows "r = Inr () \<and> distinct shown \<and>
    (\<forall>i. uuid_string i \<in> set shown \<longleftrightarrow>
      (\<exists>e. find_event (w_db w) i = Some e \<and> showable (now_of v) e \<and> segment_passes seg e \<and>
           start_after st (e_starts_at e, i) \<and> passes cfg p (profile_of (w_db w) e)))"
  using calendar_of_match [OF assms(1-16)] unfolding shown_def .

text \<open>The fan's show, at a hall.\<close>

definition hall_db :: db where
  "hall_db = fan_db\<lparr>venues := [\<lparr>v_id = 5, v_city_id = 3, v_name = ''Hall'', v_normalized = ''hall'', v_address = None,
      v_lat = None, v_lng = None, v_website = None\<rparr>]\<rparr>"

definition hall_world :: "unit world" where
  "hall_world = init_world calm hall_db ()"

definition fan_profile :: user_profile where
  "fan_profile =
     \<lparr>up_id = 7, up_embedding = [], up_threshold = Some (Fin 0.1),
      up_artists = [\<lparr>ni_value = ''La Luz'', ni_normalized = ''la luz'', ni_weight = Fin 1\<rparr>], up_genres = [], up_tags = []\<rparr>"

lemma hall_db_fields:
  "w_db hall_world = hall_db" "matches hall_db = []" "events hall_db = [upcoming_row]"
  by (simp_all add: hall_world_def init_world_def hall_db_def fan_db_def empty_db_def)

lemma hall_ok:
  "always_up hall_world" "tables_ok hall_db" "feed_ok hall_db" "venues_there hall_db" "sane_config match_defaults"
proof -
  show "always_up hall_world" "sane_config match_defaults"
    by (simp_all add: always_up_def hall_world_def init_world_def calm_def sane_config_def match_defaults_def)
  show "tables_ok hall_db" "venues_there hall_db"
    by (simp_all add: tables_ok_def keyed_def venues_there_def find_venue_def upcoming_row_def hall_db_def fan_db_def empty_db_def)
  have "year_of (10957 * day) = 2000"
    by (simp add: year_of_def date_of_def civil_of_days_def millennium Let_def month_lens_def leap_year_def)
  then show "feed_ok hall_db"
    by (simp add: feed_ok_def keyed_def json_ok_def upcoming_row_def hall_db_def fan_db_def empty_db_def)
qed

lemma hall_loads:
  "loaded_users None hall_db = [fan_profile]" "find_event hall_db 1 = Some upcoming_row"
  "passes match_defaults fan_profile (profile_of hall_db upcoming_row)"
  by (simp_all add: loaded_users_def match_users_def match_user_of_def build_user_def of_kind_def interest_of_def
      fold_deduped_def fan_profile_def find_event_def profile_of_def build_event_def hall_db_def fan_db_def empty_db_def
      upcoming_row_def fan_row_def passes_def score_def Let_def matched_artists_def performer_set_def
      map_filter_simps matched_interests_def weigh_def clamp_def match_defaults_def threshold_of_def)

theorem calendar_after_match_witness:
  "\<exists>w' k. run_state (match_step match_defaults None) hall_world = (Inr (), w') \<and>
     uuid_string 1 \<in> set (listed (page_walk (get_my_calendar parse_uuid36 (Some 7)) no_params
       (replicate k (init_world calm (w_db w') ()))))"
proof -
  obtain r w' where run: "run_state (match_step match_defaults None) hall_world = (r, w')" by fastforce
  let ?v = "init_world calm (w_db w') ()"
  have v: "w_db ?v = w_db w'" "fault_of ?v = NoFault" "now_of ?v = 10956 * day"
    "\<forall>n < w_step w'. clock (w_env hall_world) n \<le> now_of ?v"
    by (simp_all add: init_world_def calm_def fault_of_def now_of_def hall_world_def)
  let ?k = "Suc (length (user_feed 7 None (now_of ?v) (w_db ?v)))"
  have "0 < ?k" "length (user_feed 7 None (now_of ?v) (w_db ?v)) \<le> calendar_page_size * ?k"
    by (simp_all add: calendar_page_size_def)
  note after = calendar_after_match [OF hall_ok(1,5) hall_ok(2-4) [folded hall_db_fields(1)] _ run _ v(1,2,4)
      parse_uuid36_ok no_params_parse(1,2) this, of fan_profile, unfolded hall_db_fields hall_loads(1)]
  have "showable (10956 * day) upcoming_row"
    by (simp add: showable_def event_over_at_def upcoming_row_def)
  with after hall_loads(2,3) v(3) show ?thesis using run
    by (fastforce simp: fan_profile_def segment_passes_def)
qed

end
