(* ===== verification/Relay.thy ===== *)
theory Relay
  imports ConsumerProps MatchedCalendar
begin

text \<open>
  The whole way of an event: from the queue into the catalogue, through the match job, onto the
  calendar of a user. The worker keeps the tables fit for the match and the calendar
  (\<open>sound\<close>), so that what a message says decides what the user is shown.
\<close>

section \<open>Tables fit for the match and the calendar\<close>

definition sound :: "db \<Rightarrow> bool" where
  "sound d = (tables_ok d \<and> feed_ok d \<and> venues_there d)"

text \<open>
  A message off the wire: its start is of a year a page can print, and what it brings of an
  artist came as JSON, which holds no NaN.
\<close>

definition fit_enrichment :: "enrichment \<Rightarrow> bool" where
  "fit_enrichment e =
     ((\<forall>i j. er_image e = Some i \<longrightarrow> im_credit i = Some j \<longrightarrow> encodable j) \<and>
      (\<forall>b. er_bio e = Some b \<longrightarrow> encodable (or_empty (bi_sources b))) \<and>
      (\<forall>t. er_tour e = Some t \<longrightarrow> encodable (or_empty (ti_songs t))))"

definition fit_event :: "enriched_msg \<Rightarrow> bool" where
  "fit_event em =
     (0 \<le> year_of (em_starts_at (fst em)) \<and> year_of (em_starts_at (fst em)) < 10000 \<and>
      (\<forall>e. snd em = Some e \<longrightarrow> fit_enrichment e))"

text \<open>The invariant of the worker: the tables are sound, and what the users bring is theirs alone.\<close>

definition relay_ok :: "db \<Rightarrow> db \<Rightarrow> bool" where
  "relay_ok d0 d = (sound d \<and> users d = users d0 \<and> interests d = interests d0 \<and> matches d = matches d0)"

lemma find_venue_there: "find_venue d i = None \<longleftrightarrow> i \<notin> v_id ` set (venues d)"
  by (auto simp: find_venue_def find_None_iff)

lemma relay_ok_iff:
  "relay_ok d0 d \<longleftrightarrow>
     (users d = users d0 \<and> interests d = interests d0 \<and> matches d = matches d0 \<and> keyed u_id (users d0) \<and>
      keyed match_key (matches d0) \<and> (\<forall>m \<in> set (matches d0). is_finite (m_score m)) \<and> keyed e_id (events d) \<and>
      (\<forall>e \<in> set (events d). 0 \<le> year_of (e_starts_at e) \<and> year_of (e_starts_at e) < 10000 \<and>
         e_venue_id e \<in> v_id ` set (venues d)) \<and> json_ok d)"
proof (cases "users d = users d0 \<and> interests d = interests d0 \<and> matches d = matches d0")
  case True
  then show ?thesis
    by (auto simp: relay_ok_def sound_def tables_ok_def feed_ok_def venues_there_def find_venue_there match_key_def [abs_def])
qed (auto simp: relay_ok_def)

lemma relay_ok_other:
  assumes "relay_ok d0 d" and "users d' = users d" and "interests d' = interests d" and "matches d' = matches d"
    and "events d' = events d" and "venues d' = venues d"
    and "images d' = images d" and "bios d' = bios d" and "tours d' = tours d"
  shows "relay_ok d0 d'"
  using assms by (simp add: relay_ok_iff json_ok_def)

lemma relay_others:
  "query_keeps (relay_ok d0) (get_event_source_by_name s)" "query_keeps (relay_ok d0) (genre_exists s)"
  "query_keeps (relay_ok d0) (delete_event_performers i)" "query_keeps (relay_ok d0) (insert_event_performer i p nn)"
  "query_keeps (relay_ok d0) (delete_event_genres i)" "query_keeps (relay_ok d0) (insert_event_genre i g)"
  "query_keeps (relay_ok d0) (upsert_artist k disp mbid dis ty co yr st u)"
  by (auto simp: get_event_source_by_name_def one_row_def genre_exists_def delete_event_performers_def
      insert_event_performer_def delete_event_genres_def insert_event_genre_def upsert_artist_def
      split: if_splits option.splits intro!: query_keepsI elim!: relay_ok_other)

lemma relay_sections:
  "(\<And>j. credit = Some j \<Longrightarrow> encodable j) \<Longrightarrow>
     query_keeps (relay_ok d0) (upsert_artist_image a st url wd ht file src credit reason)"
  "encodable srcs \<Longrightarrow> query_keeps (relay_ok d0) (upsert_artist_bio a st md srcs model reason)"
  "encodable songs \<Longrightarrow>
     query_keeps (relay_ok d0) (upsert_artist_tour_snapshot a st tn songs date v c url blurb bm reason)"
  by (auto simp: upsert_artist_image_def upsert_artist_bio_def upsert_artist_tour_snapshot_def upsert_section_def
      Let_def upsert_row_def update_rows_def guarded_def relay_ok_iff json_ok_def split: if_splits intro!: query_keepsI)

lemma upserted_row_id:
  assumes "upsert_returning key rid new merge t = Some (i, t')" and "\<And>r. rid (merge r) = rid r"
  shows "rid ` set t \<subseteq> rid ` set t'" and "keyed rid t \<Longrightarrow> keyed rid t'"
    and "\<And>r. r \<in> set t' \<Longrightarrow> r \<in> set t \<or> r = new \<or> (\<exists>r0 \<in> set t. r = merge r0)"
proof -
  have "map rid (update_rows Q merge t) = map rid t" for Q
    using assms(2) by (auto simp: update_rows_def)
  moreover from this have "rid ` set (update_rows Q merge t) = rid ` set t" for Q by (metis set_map)
  moreover have "keyed rid t \<Longrightarrow> \<not> has_row (\<lambda>r. rid r = rid new) t \<Longrightarrow> keyed rid (t @ [new])"
    by (auto simp: keyed_def has_row_iff)
  ultimately show "rid ` set t \<subseteq> rid ` set t'" "keyed rid t \<Longrightarrow> keyed rid t'"
    using assms(1) by (auto simp: upsert_returning_def keyed_def split: option.splits if_splits)
  show "\<And>r. r \<in> set t' \<Longrightarrow> r \<in> set t \<or> r = new \<or> (\<exists>r0 \<in> set t. r = merge r0)"
    using assms(1) by (auto simp: upsert_returning_def update_rows_def split: option.splits if_splits)
qed

lemma relay_venue: "query_keeps (relay_ok d0) (upsert_venue city name normalized address lat lng website u)"
proof (rule query_keepsI)
  fix t d a d' assume ok: "relay_ok d0 d" and q: "upsert_venue city name normalized address lat lng website u t d = Inr (a, d')"
  obtain new merge V where up: "upsert_returning venue_key v_id new merge (venues d) = Some (a, V)"
    and d': "d' = d\<lparr>venues := V\<rparr>" and m: "\<And>r. v_id (merge r) = v_id r"
    using q unfolding upsert_venue_def venue_key_eta by (auto split: if_splits option.splits)
  have "v_id ` set (venues d) \<subseteq> v_id ` set V" by (rule upserted_row_id(1) [OF up m])
  then show "relay_ok d0 d'" using ok
    by (auto simp: relay_ok_iff json_ok_def d')
qed

lemma event_fields:
  "e_starts_at (new_event src m venue headline u t) = em_starts_at m" "e_venue_id (new_event src m venue headline u t) = venue"
  "e_starts_at (merge_event n r) = e_starts_at n" "e_venue_id (merge_event n r) = e_venue_id n"
  by (simp_all add: merge_event_def new_event_def)

lemma relay_event:
  assumes "0 \<le> year_of (em_starts_at m)" and "year_of (em_starts_at m) < 10000"
  shows "query_keeps (relay_ok d0) (upsert_event src m venue headline u)"
proof (rule query_keepsI)
  fix t d a d' assume ok: "relay_ok d0 d" and q: "upsert_event src m venue headline u t d = Inr (a, d')"
  let ?n = "new_event src m venue headline u t"
  obtain Ev where up: "upsert_returning event_key e_id ?n (merge_event ?n) (events d) = Some (a, Ev)"
    and d': "d' = d\<lparr>events := Ev\<rparr>"
    using q by (rule upsert_event_row)
  have there: "venue \<in> v_id ` set (venues d)"
    using q by (auto simp: upsert_event_def has_row_iff Let_def split: if_splits)
  have m: "\<And>r. e_id (merge_event ?n r) = e_id r" by (rule merge_event_ids)
  have keys: "keyed e_id (events d) \<Longrightarrow> keyed e_id Ev" by (rule upserted_row_id(2) [OF up m])
  have rows: "\<And>r. r \<in> set Ev \<Longrightarrow> r \<in> set (events d) \<or> r = ?n \<or> (\<exists>r0 \<in> set (events d). r = merge_event ?n r0)"
    by (rule upserted_row_id(3) [OF up m])
  have "0 \<le> year_of (e_starts_at e) \<and> year_of (e_starts_at e) < 10000 \<and> e_venue_id e \<in> v_id ` set (venues d)"
    if "e \<in> set Ev" for e
    using rows [OF that] assms there ok
    by (auto simp: relay_ok_iff event_fields)
  then show "relay_ok d0 d'" using ok keys
    by (simp add: relay_ok_iff json_ok_def d')
qed

section \<open>The worker keeps them\<close>

lemma keeps_step_new:
  assumes "\<And>u. query_keeps J (f u)"
  shows "keeps (\<lambda>w. J (w_db w)) (step_new f)"
  unfolding step_new_def by (intro keeps_rules keeps_db_insert assms)

lemma relay_sections_steps:
  assumes "fit_enrichment e"
  shows "keeps (\<lambda>w. relay_ok d0 (w_db w)) (image_step a (er_image e))"
    "keeps (\<lambda>w. relay_ok d0 (w_db w)) (bio_step a (er_bio e))"
    "keeps (\<lambda>w. relay_ok d0 (w_db w)) (tour_step a (er_tour e))"
  using assms unfolding image_step_def bio_step_def tour_step_def fit_enrichment_def
  by (auto intro!: keeps_rules keeps_step_db relay_sections split: option.splits)

lemma relay_message:
  assumes "fit_event em"
  shows "keeps (\<lambda>w. relay_ok d0 (w_db w)) (handle_message T city em)"
proof -
  obtain m en where em: "em = (m, en)" by fastforce
  have year: "0 \<le> year_of (em_starts_at m)" "year_of (em_starts_at m) < 10000"
    and fit: "\<And>e. en = Some e \<Longrightarrow> fit_enrichment e"
    using assms by (simp_all add: fit_event_def em)
  have "keeps (\<lambda>w. relay_ok d0 (w_db w)) (apply_enrichment T en)"
    unfolding apply_enrichment_def
    by (intro keeps_rules keeps_step_new relay_others relay_sections_steps fit)
  then show ?thesis
    unfolding em handle_message_def prod.case performer_step_def genre_step_def
    by (intro keeps_rules keeps_step_db keeps_step_new relay_others relay_venue relay_event year)
qed

lemma relay_event_body:
  assumes "\<And>em. delivers body em \<Longrightarrow> fit_event em"
  shows "keeps (\<lambda>w. relay_ok d0 (w_db w)) (handle_event T city body)"
  using assms unfolding handle_event_def delivers_def
  by (auto intro!: keeps_rules relay_message split: option.splits prod.splits)

lemma keeps_batch:
  assumes "\<And>m. m \<in> set ms \<Longrightarrow> keeps (\<lambda>w. J (w_db w)) (h m)"
  shows "keeps (\<lambda>w. J (w_db w)) (handle_batch h ms)"
  using assms
proof (induction ms)
  case (Cons m ms)
  have "keeps (\<lambda>w. J (w_db w)) queue_delete" by (auto simp: keeps_def queue_delete_def)
  then have "keeps (\<lambda>w. J (w_db w)) (handle_one h m)"
    unfolding handle_one_def by (intro keeps_rules Cons.prems) auto
  then show ?case using Cons by (auto intro!: keeps_rules)
qed (simp add: keeps_rules)

lemma keeps_worker:
  assumes "\<And>m. m \<in> snd ` set q \<Longrightarrow> keeps (\<lambda>w. J (w_db w)) (h m)" and "distinct (map fst q)"
  shows "keeps (\<lambda>w. J (w_db w)) (worker_loop h q rs)"
  using assms
proof (induction rs arbitrary: q)
  case (Cons r rs)
  show ?case
  proof (cases r)
    case (Poll vis)
    let ?b = "take 10 (visible vis q)"
    have "set ?b \<subseteq> set q"
      using visible_props(2) [OF Cons.prems(2), of vis] set_take_subset [of 10 "visible vis q"] by auto
    then have b: "keeps (\<lambda>w. J (w_db w)) (handle_batch (\<lambda>m. h (snd m)) ?b)"
      by (intro keeps_batch Cons.prems(1)) auto
    have rest: "keeps (\<lambda>w. J (w_db w)) (worker_loop h (still_queued ?b left q) rs)" for left
      by (rule Cons.IH [OF Cons.prems(1) still_queued_distinct [OF Cons.prems(2)]])
        (use still_queued_subset [of ?b left q] in auto)
    show ?thesis unfolding keeps_def
    proof (intro allI impI)
      fix w :: "'b world" assume J: "J (w_db w)"
      obtain left w1 where batch: "run_state (handle_batch (\<lambda>m. h (snd m)) ?b) (tick w) = (left, w1)" by fastforce
      have "J (w_db w1)" using keepsD [OF b, of "tick w"] J batch by simp
      then show "J (w_db (snd (run_state (worker_loop h q (r # rs)) w)))"
        using keepsD [OF rest [of left], of w1] keepsD [OF Cons.IH [OF Cons.prems], of "tick w"] J batch
        by (simp add: Poll run_receive)
    qed
  qed (simp add: keeps_rules)
qed (simp add: keeps_rules)

section \<open>The property\<close>

lemma loaded_users_same: "users d' = users d \<Longrightarrow> interests d' = interests d \<Longrightarrow> loaded_users only d' = loaded_users only d"
  unfolding loaded_users_def match_users_def by presburger

text \<open>What a worker has put into the catalogue, found by its id.\<close>

lemma catalogue_event:
  assumes "in_catalogue T city (m, en) d" and "keyed e_id (events d)"
  obtains e src venue artist where "event_stored m src venue artist e" "find_event d (e_id e) = Some e"
proof -
  obtain src :: source_row and v artist e where e: "find (\<lambda>r. event_key r = (es_id src, em_source_event_id m)) (events d) = Some e"
    "event_stored m (es_id src) v artist e"
    using assms(1) unfolding in_catalogue_def fst_conv by (elim exE conjE) (rule that; assumption)
  from find_in_set [OF e(1)] have "e \<in> set (events d)" by simp
  then have "find_event d (e_id e) = Some e" unfolding find_event_def by (rule find_keyed [OF assms(2)])
  with e(2) show ?thesis by (rule that)
qed


text \<open>The show of the message, in the city of a fan of the band.\<close>

definition relay_msg :: event_msg where
  "relay_msg = ingest_msg\<lparr>em_starts_at := 10957 * day\<rparr>"

definition relay_queue :: "event_body messages" where
  "relay_queue = [(1, (Some (relay_msg, None), None)), (2, (None, None))]"

definition relay_db :: db where
  "relay_db = ingest_db\<lparr>users := users fan_db, interests := interests fan_db\<rparr>"

definition relay_world :: "unit world" where
  "relay_world = init_world demo_outside relay_db ()"

definition relayed_event :: event_row where
  "relayed_event =
     \<lparr>e_id = 104, e_source_id = 3, e_source_event_id = ''x'', e_title = ''La Luz'', e_description = [],
      e_starts_at = 10957 * day, e_ends_at = None, e_venue_id = 103, e_image_url = None, e_url = None, e_embedding = None,
      e_last_seen_at = 4 * second, e_archived_at = None, e_updated_at = 4 * second, e_time_tbd = False,
      e_headline_artist_id = None, e_segment = None\<rparr>"

definition relayed_db :: db where
  "relayed_db =
     relay_db\<lparr>
       venues := [\<lparr>v_id = 103, v_city_id = 1, v_name = ''hall'', v_normalized = ''hall'', v_address = None, v_lat = None,
                   v_lng = None, v_website = None\<rparr>],
       events := [relayed_event],
       performers := [\<lparr>ep_event_id = 104, ep_name = ''la luz'', ep_normalized = ''la luz''\<rparr>],
       event_genres := [(104, ''rock'')]\<rparr>"

lemma relay_run:
  "\<exists>w1. run_state (worker_loop (handle_event plain_env 1) relay_queue [Poll [2, 1]]) relay_world = (([], False), w1) \<and>
     w_step w1 < 1000 \<and> w_db w1 = relayed_db"
  by (simp add: relay_queue_def run_receive visible_def map_filter_simps still_queued_def
      handle_one_def handle_event_def handle_message_def then_step_def step_db_def step_new_def run_query_def
      fault_of_def now_of_def fresh_of_def relay_world_def init_world_def relay_msg_def ingest_msg_def ingest_msg_names
      apply_enrichment_def get_event_source_by_name_def one_row_def relay_db_def ingest_db_def empty_db_def upsert_venue_def
      upsert_returning_def upsert_event_def new_event_def event_key_def delete_event_performers_def
      performer_step_def insert_event_performer_def event_exists_def delete_event_genres_def genre_step_def
      genre_exists_def insert_event_genre_def queue_delete_def str_opt_def delete_rows_def tick_def Let_def
      demo_outside_def relayed_db_def relayed_event_def)

lemma relay_ready:
  "catalogue_ready 1000 (sources relay_db) (cities relay_db) relay_world" "sound (w_db relay_world)"
  "sources_known (sources relay_db) (set relay_queue)" "has_row (\<lambda>c. c_id c = 1) (cities relay_db)"
  "w_db relay_world = relay_db" "matches relay_db = []"
  "one_message_each (set relay_queue)" "distinct (map fst relay_queue)"
  using queue_world_ready(1)
  by (simp_all add: catalogue_ready_def queue_world_def init_world_def ids_in_def relay_db_def relay_world_def sound_def
      tables_ok_def feed_ok_def json_ok_def venues_there_def keyed_def ingest_db_def empty_db_def fan_db_def
      one_message_each_def sources_known_def relay_queue_def delivers_def relay_msg_def ingest_msg_def)

lemma relay_loads:
  "loaded_users None relay_db = [fan_profile]" "passes match_defaults fan_profile (profile_of relayed_db relayed_event)"
  by (simp_all add: loaded_users_def match_users_def match_user_of_def build_user_def of_kind_def interest_of_def
      fold_deduped_def fan_profile_def profile_of_def build_event_def relay_db_def relayed_db_def relayed_event_def
      ingest_db_def fan_db_def empty_db_def fan_row_def passes_def score_def Let_def matched_artists_def
      performer_set_def map_filter_simps matched_interests_def weigh_def clamp_def match_defaults_def threshold_of_def)

lemma relay_msg_fit: "\<forall>x \<in> set relay_queue. \<forall>em. delivers (snd x) em \<longrightarrow> fit_event em"
  using year_2000 [of 0] by (auto simp: relay_queue_def delivers_def fit_event_def relay_msg_def)


end
