(* ===== verification/TestDb.thy ===== *)
theory TestDb
  imports Config Backends MatcherProps CalendarProps
begin

text \<open>
  The database of the test suite (\<open>internal/testdb\<close>). Its setup is destructive: it migrates a
  database and empties its tables after every test, so it first asks what the database is called
  and what the server says it is (\<open>guard.go\<close>). The theorem says that nothing is touched unless
  both answers are right. Beside it the sender that records mail (\<open>internal/email/fake.go\<close>).
\<close>

section \<open>The guards\<close>

definition managed_provider_roles :: "(string \<times> string) list" where
  "managed_provider_roles =
     [(''rdsadmin'', ''AWS RDS / Aurora''), (''rds_superuser'', ''AWS RDS / Aurora''),
      (''cloudsqlsuperuser'', ''Google Cloud SQL''), (''alloydbsuperuser'', ''Google AlloyDB''),
      (''azure_pg_admin'', ''Azure Database for PostgreSQL'')]"

datatype refusal =
    NotDisposable string        \<comment> \<open>the name of the database\<close>
  | Managed string string       \<comment> \<open>the role the server reports, and whose it is\<close>
  | RolesUnread

definition check_test_database_name :: "string \<Rightarrow> refusal option" where
  "check_test_database_name name = (if has_suffix name ''_test'' then None else Some (NotDisposable name))"

fun check_not_managed_database :: "string list \<Rightarrow> refusal option" where
  "check_not_managed_database [] = None"
| "check_not_managed_database (r # rs) =
     (case map_of managed_provider_roles r of
        Some provider \<Rightarrow> Some (Managed r provider)
      | None \<Rightarrow> check_not_managed_database rs)"

section \<open>What the setup runs against\<close>

text \<open>
  The environment, the roles of the server at each step, the driver's parser of connection
  strings, and what the migrations make of the database when they are run at a step.
\<close>

record test_env =
  ts_vars :: environment
  ts_roles :: "nat \<Rightarrow> string list"
  ts_parses :: "string \<Rightarrow> bool"
  ts_migrate :: "nat \<Rightarrow> db \<Rightarrow> migrated \<times> db"

definition default_test_components :: db_components where
  "default_test_components =
     \<lparr>dc_user = ''app'', dc_password = ''app'', dc_host = ''localhost'', dc_port = ''5432'',
      dc_name = ''appdb_test'', dc_sslmode = ''disable''\<rparr>"

definition test_components :: "environment \<Rightarrow> db_components" where
  "test_components env =
     (let over = (\<lambda>k v. if env k \<noteq> [] then env k else v); c = default_test_components in
      \<lparr>dc_user = over ''TEST_DB_USER'' (dc_user c), dc_password = over ''TEST_DB_PASSWORD'' (dc_password c),
       dc_host = over ''TEST_DB_HOST'' (dc_host c), dc_port = over ''TEST_DB_PORT'' (dc_port c),
       dc_name = over ''TEST_DB_NAME'' (dc_name c), dc_sslmode = over ''TEST_DB_SSLMODE'' (dc_sslmode c)\<rparr>)"

definition test_dsn :: "environment \<Rightarrow> string" where
  "test_dsn env = dsn_of (test_components env)"

text \<open>The query asks the server for those of its roles that are on the list.\<close>

definition assert_safe_target :: "test_env \<Rightarrow> ('l, refusal option) act" where
  "assert_safe_target E =
     State (\<lambda>w. (if fault_of w \<noteq> NoFault then Some RolesUnread
                else check_not_managed_database
                       (filter (\<lambda>r. r \<in> fst ` set managed_provider_roles) (ts_roles E (w_step w))), tick w))"

datatype test_error = Refused refusal | SetupFailed

text \<open>\<open>acquireDBLock\<close>: the connection, the guard, and only then the advisory lock.\<close>

definition acquire_db_lock :: "test_env \<Rightarrow> string \<Rightarrow> ('l, test_error option) act" where
  "acquire_db_lock E dsn =
     (if \<not> ts_parses E dsn then ret (Some SetupFailed)
      else do {
        connected \<leftarrow> set_up;
        if \<not> connected then ret (Some SetupFailed)
        else do {
          refused \<leftarrow> assert_safe_target E;
          case refused of
            Some r \<Rightarrow> ret (Some (Refused r))
          | None \<Rightarrow> do { locked \<leftarrow> set_up; ret (if locked then None else Some SetupFailed) } } })"

definition run_migrations :: "test_env \<Rightarrow> ('l, bool) act" where
  "run_migrations E = do {
     created \<leftarrow> set_up;
     if \<not> created then ret False
     else State (\<lambda>w. case ts_migrate E (w_step w) (w_db w) of (m, d) \<Rightarrow> (m \<noteq> Failed, tick (w\<lparr>w_db := d\<rparr>))) }"

section \<open>Opening it once\<close>

text \<open>The variables of the package: what \<open>once\<close> has left behind.\<close>

datatype opened = Unopened | Pool | Broken test_error

definition open_test_db :: "test_env \<Rightarrow> ('l, opened) act" where
  "open_test_db E =
     (case check_test_database_name (dc_name (test_components (ts_vars E))) of
        Some r \<Rightarrow> ret (Broken (Refused r))
      | None \<Rightarrow> do {
          failed \<leftarrow> acquire_db_lock E (test_dsn (ts_vars E));
          case failed of
            Some e \<Rightarrow> ret (Broken e)
          | None \<Rightarrow> do {
              migrated \<leftarrow> run_migrations E;
              if \<not> migrated then ret (Broken SetupFailed)
              else do { pool \<leftarrow> set_up; ret (if pool then Pool else Broken SetupFailed) } } })"

definition must_open :: "test_env \<Rightarrow> opened \<Rightarrow> ('l, opened) act" where
  "must_open E st = (if st = Unopened then open_test_db E else ret st)"

section \<open>Emptying the tables\<close>

text \<open>The foreign keys of the migrations: the table that refers, and the one it refers to.\<close>

definition foreign_keys :: "(string \<times> string) list" where
  "foreign_keys =
     [(''users'', ''cities''), (''refresh_tokens'', ''users''), (''user_interests'', ''users''),
      (''venues'', ''cities''), (''events'', ''event_sources''), (''events'', ''venues''), (''events'', ''artists''),
      (''event_performers'', ''events''), (''event_genres'', ''events''), (''event_genres'', ''genres''),
      (''user_spotify_tokens'', ''users''), (''user_event_match'', ''users''), (''user_event_match'', ''events''),
      (''ical_tokens'', ''users''), (''user_event_not_interested'', ''users''),
      (''user_event_not_interested'', ''events''), (''email_confirmations'', ''users''),
      (''poster_jobs'', ''users''), (''artist_images'', ''artists''), (''artist_bios'', ''artists''),
      (''artist_tour_snapshots'', ''artists''), (''user_event_going'', ''users''), (''user_event_going'', ''events''),
      (''user_manual_added_going_events'', ''users''), (''password_resets'', ''users'')]"

definition with_referring :: "string list \<Rightarrow> string list" where
  "with_referring ts = remdups (ts @ map fst (filter (\<lambda>k. snd k \<in> set ts) foreign_keys))"

text \<open>\<open>CASCADE\<close> reaches every table that refers to the one named, in at most as many rounds as there are keys.\<close>

definition cascade :: "string \<Rightarrow> string list" where
  "cascade t = (with_referring ^^ length foreign_keys) [t]"

definition clear_table :: "string \<Rightarrow> db \<Rightarrow> db" where
  "clear_table t d =
     (if t = ''poster_jobs'' then d\<lparr>poster_jobs := []\<rparr>
      else if t = ''user_event_not_interested'' then d\<lparr>not_interested := []\<rparr>
      else if t = ''user_event_going'' then d\<lparr>going := []\<rparr>
      else if t = ''user_manual_added_going_events'' then d\<lparr>manual_events := []\<rparr>
      else if t = ''user_event_match'' then d\<lparr>matches := []\<rparr>
      else if t = ''event_genres'' then d\<lparr>event_genres := []\<rparr>
      else if t = ''event_performers'' then d\<lparr>performers := []\<rparr>
      else if t = ''artist_images'' then d\<lparr>images := []\<rparr>
      else if t = ''artist_bios'' then d\<lparr>bios := []\<rparr>
      else if t = ''artist_tour_snapshots'' then d\<lparr>tours := []\<rparr>
      else if t = ''events'' then d\<lparr>events := []\<rparr>
      else if t = ''artists'' then d\<lparr>artists := []\<rparr>
      else if t = ''venues'' then d\<lparr>venues := []\<rparr>
      else if t = ''user_interests'' then d\<lparr>interests := []\<rparr>
      else if t = ''user_spotify_tokens'' then d\<lparr>spotify_tokens := []\<rparr>
      else if t = ''ical_tokens'' then d\<lparr>ical_tokens := []\<rparr>
      else if t = ''email_confirmations'' then d\<lparr>confirmations := []\<rparr>
      else if t = ''password_resets'' then d\<lparr>resets := []\<rparr>
      else if t = ''refresh_tokens'' then d\<lparr>refresh_tokens := []\<rparr>
      else if t = ''users'' then d\<lparr>users := []\<rparr>
      else if t = ''artist_genre_cache'' then d\<lparr>genre_cache := []\<rparr>
      else if t = ''cities'' then d\<lparr>cities := []\<rparr>
      else if t = ''event_sources'' then d\<lparr>sources := []\<rparr>
      else if t = ''genres'' then d\<lparr>genres := []\<rparr>
      else if t = ''match_config'' then d\<lparr>match_config := []\<rparr>
      else d)"

definition truncate_table :: "string \<Rightarrow> unit query" where
  "truncate_table t now d = Inr ((), fold clear_table (cascade t) d)"

definition truncate_tables :: "string list" where
  "truncate_tables =
     [''poster_jobs'', ''user_event_not_interested'', ''user_event_going'', ''user_manual_added_going_events'',
      ''user_event_match'', ''event_genres'', ''event_performers'', ''artist_images'', ''artist_bios'',
      ''artist_tour_snapshots'', ''events'', ''artists'', ''venues'', ''user_interests'', ''user_spotify_tokens'',
      ''ical_tokens'', ''email_confirmations'', ''password_resets'', ''refresh_tokens'', ''users'',
      ''artist_genre_cache'']"

definition reference_tables :: "string list" where
  "reference_tables = [''schema_migrations'', ''cities'', ''event_sources'', ''genres'', ''match_config'']"

text \<open>\<open>truncateAll\<close>: a statement that fails is passed over.\<close>

fun truncate_all :: "string list \<Rightarrow> ('l, unit) act" where
  "truncate_all [] = ret ()"
| "truncate_all (t # ts) = do { _ \<leftarrow> db_call (truncate_table t); truncate_all ts }"

text \<open>The tests of one package: each opens the database, does what it does, and cleans up.\<close>

fun run_tests :: "test_env \<Rightarrow> opened \<Rightarrow> ('l, unit) act list \<Rightarrow> ('l, opened) act" where
  "run_tests E st [] = ret st"
| "run_tests E st (body # rest) = do {
     now_open \<leftarrow> must_open E st;
     case now_open of
       Pool \<Rightarrow> do { body; truncate_all truncate_tables; run_tests E Pool rest }
     | _ \<Rightarrow> run_tests E now_open rest }"

section \<open>Queues of their own\<close>

text \<open>
  The operations on a queue that only tests use (\<open>internal/queue/sqs.go\<close>): emptying it, making
  one, whose URL the service answers, and removing it. The half second the code waits after an
  emptying, for the service to catch up, is time that may pass before any next step.
\<close>

definition queue_purge :: "'m list \<Rightarrow> ('l, bool \<times> 'm list) act" where
  "queue_purge q = State (\<lambda>w. ((fault_of w = NoFault, if fault_of w = FaultBefore then q else []), tick w))"

definition create_test_queue :: "(string \<Rightarrow> string) \<Rightarrow> string \<Rightarrow> ('l, string option) act" where
  "create_test_queue url name = State (\<lambda>w. (if fault_of w = NoFault then Some (url name) else None, tick w))"

definition delete_test_queue :: "string \<Rightarrow> ('l, bool) act" where
  "delete_test_queue url = set_up"

section \<open>The recording sender\<close>

record fake =
  fk_fails :: bool
  fk_sent :: "mail list"

definition fake_send :: "mail \<Rightarrow> fake \<Rightarrow> bool \<times> fake" where
  "fake_send m f = (if fk_fails f then (False, f) else (True, f\<lparr>fk_sent := fk_sent f @ [m]\<rparr>))"

definition fake_messages :: "fake \<Rightarrow> mail list" where
  "fake_messages f = fk_sent f"

definition no_mail :: mail where
  "no_mail = \<lparr>mail_to = [], mail_subject = [], mail_html = [], mail_text = []\<rparr>"

definition fake_last :: "fake \<Rightarrow> mail" where
  "fake_last f = (if fk_sent f = [] then no_mail else fk_sent f ! (length (fk_sent f) - 1))"

definition fake_reset :: "fake \<Rightarrow> fake" where
  "fake_reset f = f\<lparr>fk_sent := []\<rparr>"

lemma fake_last_sent: "fake_send m f = (True, f') \<Longrightarrow> fake_last f' = m \<and> fake_messages f' = fake_messages f @ [m]"
  by (auto simp: fake_send_def fake_last_def fake_messages_def split: if_splits)

section \<open>What the setup may touch\<close>

lemma unmanaged_roles:
  "check_not_managed_database (filter (\<lambda>r. r \<in> fst ` set managed_provider_roles) rs) = None \<longleftrightarrow>
     (\<forall>r \<in> set rs. map_of managed_provider_roles r = None)"
  by (induction rs) (auto simp: map_of_eq_None_iff split: option.splits)

text \<open>A target that is called a test database and that is on nobody's managed service.\<close>

definition disposable :: "test_env \<Rightarrow> nat \<Rightarrow> bool" where
  "disposable E n =
     (has_suffix (dc_name (test_components (ts_vars E))) ''_test'' \<and>
      (\<forall>r \<in> set (ts_roles E n). map_of managed_provider_roles r = None))"

lemma open_guarded:
  assumes "run_state (open_test_db E) w = (st, w')"
  shows "(\<exists>n \<ge> w_step w. disposable E n) \<or> w' = w\<lparr>w_step := w_step w'\<rparr> \<and> st \<noteq> Pool \<and> st \<noteq> Unopened \<and> w_step w \<le> w_step w'"
proof (cases "disposable E (Suc (w_step w))")
  case True
  then show ?thesis by (intro disjI1 exI [of _ "Suc (w_step w)"]) simp
next
  case False
  then show ?thesis using assms
    by (auto simp: open_test_db_def acquire_db_lock_def assert_safe_target_def check_test_database_name_def set_up_def
        unmanaged_roles disposable_def tick_def simp del: not_None_eq split: if_splits option.splits prod.splits)
qed

lemma broken_stays: "run_state (run_tests E (Broken e) bodies) w = (Broken e, w)"
  by (induction bodies) (simp_all add: must_open_def)

section \<open>What cleaning up leaves\<close>

lemma clear_table_rows:
  "poster_jobs (clear_table t d) = (if t = ''poster_jobs'' then [] else poster_jobs d)"
  "not_interested (clear_table t d) = (if t = ''user_event_not_interested'' then [] else not_interested d)"
  "going (clear_table t d) = (if t = ''user_event_going'' then [] else going d)"
  "manual_events (clear_table t d) = (if t = ''user_manual_added_going_events'' then [] else manual_events d)"
  "matches (clear_table t d) = (if t = ''user_event_match'' then [] else matches d)"
  "event_genres (clear_table t d) = (if t = ''event_genres'' then [] else event_genres d)"
  "performers (clear_table t d) = (if t = ''event_performers'' then [] else performers d)"
  "images (clear_table t d) = (if t = ''artist_images'' then [] else images d)"
  "bios (clear_table t d) = (if t = ''artist_bios'' then [] else bios d)"
  "tours (clear_table t d) = (if t = ''artist_tour_snapshots'' then [] else tours d)"
  "events (clear_table t d) = (if t = ''events'' then [] else events d)"
  "artists (clear_table t d) = (if t = ''artists'' then [] else artists d)"
  "venues (clear_table t d) = (if t = ''venues'' then [] else venues d)"
  "interests (clear_table t d) = (if t = ''user_interests'' then [] else interests d)"
  "spotify_tokens (clear_table t d) = (if t = ''user_spotify_tokens'' then [] else spotify_tokens d)"
  "ical_tokens (clear_table t d) = (if t = ''ical_tokens'' then [] else ical_tokens d)"
  "confirmations (clear_table t d) = (if t = ''email_confirmations'' then [] else confirmations d)"
  "resets (clear_table t d) = (if t = ''password_resets'' then [] else resets d)"
  "refresh_tokens (clear_table t d) = (if t = ''refresh_tokens'' then [] else refresh_tokens d)"
  "users (clear_table t d) = (if t = ''users'' then [] else users d)"
  "genre_cache (clear_table t d) = (if t = ''artist_genre_cache'' then [] else genre_cache d)"
  "cities (clear_table t d) = (if t = ''cities'' then [] else cities d)"
  "sources (clear_table t d) = (if t = ''event_sources'' then [] else sources d)"
  "genres (clear_table t d) = (if t = ''genres'' then [] else genres d)"
  "match_config (clear_table t d) = (if t = ''match_config'' then [] else match_config d)"
  by (simp_all add: clear_table_def)

lemma fold_clear_rows:
  "poster_jobs (fold clear_table ts d) = (if ''poster_jobs'' \<in> set ts then [] else poster_jobs d)"
  "not_interested (fold clear_table ts d) = (if ''user_event_not_interested'' \<in> set ts then [] else not_interested d)"
  "going (fold clear_table ts d) = (if ''user_event_going'' \<in> set ts then [] else going d)"
  "manual_events (fold clear_table ts d) = (if ''user_manual_added_going_events'' \<in> set ts then [] else manual_events d)"
  "matches (fold clear_table ts d) = (if ''user_event_match'' \<in> set ts then [] else matches d)"
  "event_genres (fold clear_table ts d) = (if ''event_genres'' \<in> set ts then [] else event_genres d)"
  "performers (fold clear_table ts d) = (if ''event_performers'' \<in> set ts then [] else performers d)"
  "images (fold clear_table ts d) = (if ''artist_images'' \<in> set ts then [] else images d)"
  "bios (fold clear_table ts d) = (if ''artist_bios'' \<in> set ts then [] else bios d)"
  "tours (fold clear_table ts d) = (if ''artist_tour_snapshots'' \<in> set ts then [] else tours d)"
  "events (fold clear_table ts d) = (if ''events'' \<in> set ts then [] else events d)"
  "artists (fold clear_table ts d) = (if ''artists'' \<in> set ts then [] else artists d)"
  "venues (fold clear_table ts d) = (if ''venues'' \<in> set ts then [] else venues d)"
  "interests (fold clear_table ts d) = (if ''user_interests'' \<in> set ts then [] else interests d)"
  "spotify_tokens (fold clear_table ts d) = (if ''user_spotify_tokens'' \<in> set ts then [] else spotify_tokens d)"
  "ical_tokens (fold clear_table ts d) = (if ''ical_tokens'' \<in> set ts then [] else ical_tokens d)"
  "confirmations (fold clear_table ts d) = (if ''email_confirmations'' \<in> set ts then [] else confirmations d)"
  "resets (fold clear_table ts d) = (if ''password_resets'' \<in> set ts then [] else resets d)"
  "refresh_tokens (fold clear_table ts d) = (if ''refresh_tokens'' \<in> set ts then [] else refresh_tokens d)"
  "users (fold clear_table ts d) = (if ''users'' \<in> set ts then [] else users d)"
  "genre_cache (fold clear_table ts d) = (if ''artist_genre_cache'' \<in> set ts then [] else genre_cache d)"
  "cities (fold clear_table ts d) = (if ''cities'' \<in> set ts then [] else cities d)"
  "sources (fold clear_table ts d) = (if ''event_sources'' \<in> set ts then [] else sources d)"
  "genres (fold clear_table ts d) = (if ''genres'' \<in> set ts then [] else genres d)"
  "match_config (fold clear_table ts d) = (if ''match_config'' \<in> set ts then [] else match_config d)"
  by (induction ts arbitrary: d; simp add: clear_table_rows)+

lemma cascade_self: "t \<in> set (cascade t)"
proof -
  have "t \<in> set ((with_referring ^^ n) [t])" for n by (induction n) (auto simp: with_referring_def)
  then show ?thesis by (simp add: cascade_def)
qed

text \<open>No reference table refers to a table that is emptied, so no cascade reaches one.\<close>

lemma cascade_data:
  assumes "t \<in> set truncate_tables"
  shows "set (cascade t) \<subseteq> set truncate_tables"
proof -
  have closed: "c \<in> set truncate_tables" if "(c, p) \<in> set foreign_keys" for c p
    using that by (auto simp: foreign_keys_def truncate_tables_def)
  have "set ((with_referring ^^ n) [t]) \<subseteq> set truncate_tables" for n
    by (induction n) (use assms closed in \<open>auto simp: with_referring_def\<close>)
  then show ?thesis by (simp add: cascade_def)
qed

definition reference_only :: "db \<Rightarrow> db" where
  "reference_only d =
     empty_db\<lparr>cities := cities d, sources := sources d, genres := genres d, match_config := match_config d\<rparr>"

lemma cleared_all:
  assumes "set ts = set truncate_tables"
  shows "fold clear_table ts d = reference_only d"
  by (rule db.equality) (simp_all add: fold_clear_rows reference_only_def empty_db_def assms truncate_tables_def)

lemma truncate_all_clears:
  assumes "always_up w"
  shows "w_db (snd (run_state (truncate_all ts) w)) = fold clear_table (concat (map cascade ts)) (w_db w)"
  using assms
  by (induction ts arbitrary: w)
    (auto simp: run_query_def truncate_table_def always_up_def fault_of_def split: prod.splits)

text \<open>Without failures every test leaves the reference data and nothing else.\<close>

lemma truncate_all_resets:
  assumes "always_up w"
  shows "w_db (snd (run_state (truncate_all truncate_tables) w)) = reference_only (w_db w)"
  unfolding truncate_all_clears [OF assms]
  by (rule cleared_all) (use cascade_data cascade_self in fastforce)

text \<open>Whatever fails, the reference data stays.\<close>

lemma truncate_all_keeps:
  assumes "set ts \<subseteq> set truncate_tables"
  shows "keeps (\<lambda>w. reference_only (w_db w) = r) (truncate_all ts)"
  using assms
proof (induction ts)
  case (Cons t ts)
  have "reference_only (fold clear_table (cascade t) d) = reference_only d" for d
    using cascade_data [of t] Cons.prems
    by (auto simp: reference_only_def fold_clear_rows truncate_tables_def)
  then have "query_keeps (\<lambda>d. reference_only d = r) (truncate_table t)"
    by (auto simp: query_keeps_def truncate_table_def)
  then show ?case unfolding truncate_all.simps
    by (intro keeps_rules keeps_db_call Cons.IH) (use Cons.prems in auto)
qed (simp add: keeps_rules)

section \<open>The property\<close>

text \<open>
  C40. The destructive setup of the tests touches nothing but a disposable database. Whatever the
  tests do and whichever calls fail, either the database is called a test database and its server
  reported none of the roles of a managed service, or no migration, no test and no clean-up ran:
  no pool is handed out and all that passed is time.
\<close>

theorem tests_spare_live_data:
  assumes "run_state (run_tests E Unopened bodies) w = (st, w')"
  shows "(\<exists>n \<ge> w_step w. disposable E n) \<or> st \<noteq> Pool \<and> w' = w\<lparr>w_step := w_step w'\<rparr>"
proof (cases bodies)
  case (Cons body rest)
  obtain st1 w1 where o: "run_state (open_test_db E) w = (st1, w1)" by fastforce
  show ?thesis
  proof (cases st1)
    case (Broken e)
    then have "w' = w1 \<and> st = Broken e" using assms Cons o broken_stays [of E e rest w1] by (simp add: must_open_def)
    then show ?thesis using open_guarded [OF o] by auto
  qed (use open_guarded [OF o] in auto)
qed (use assms in simp)

definition local_tests :: test_env where
  "local_tests =
     \<lparr>ts_vars = (\<lambda>_. []), ts_roles = (\<lambda>_. [''postgres'', ''app'']), ts_parses = (\<lambda>_. True),
      ts_migrate = (\<lambda>_ d. (NoChange, d))\<rparr>"

theorem tests_spare_live_data_witness:
  "\<exists>st w'. run_state (run_tests (local_tests\<lparr>ts_roles := \<lambda>_. [''postgres'', ''rdsadmin'']\<rparr>) Unopened [ret ()])
     (init_world calm empty_db ()) = (st, w') \<and> st \<noteq> Pool \<and> w_db w' = empty_db"
proof -
  let ?E = "local_tests\<lparr>ts_roles := \<lambda>_. [''postgres'', ''rdsadmin'']\<rparr>"
  let ?w = "init_world calm empty_db () :: unit world"
  obtain st w' where run: "run_state (run_tests ?E Unopened [ret ()]) ?w = (st, w')" by fastforce
  have "\<not> disposable ?E n" for n by (simp add: disposable_def managed_provider_roles_def)
  then have "st \<noteq> Pool" "w' = ?w\<lparr>w_step := w_step w'\<rparr>" using tests_spare_live_data [OF run] by auto
  moreover from this(2) have "w_db w' = w_db ?w" by (metis world.select_convs(3) world.surjective world.update_convs(2))
  ultimately show ?thesis using run by (auto simp: init_world_def)
qed

end
